(* ===== verification/Prelude_Go.thy ===== *)
theory Prelude_Go
  imports Main "HOL-Library.AList" "HOL-Library.Sublist"
begin

text \<open>
  The vocabulary every component of the model shares: Go strings as byte lists with the
  functions of package \<open>strings\<close> the source calls, Go maps as association lists in iteration
  order, Go errors with their wrapping chain, and the generic lemmas about lists and maps.

  A Go string is a sequence of bytes, so \<open>string\<close> (a list of 8-bit characters) models it
  exactly; \<open>length\<close> is Go's \<open>len\<close>. A Go map is an association list with distinct keys whose
  order is the order one \<open>range\<close> loop visits the entries in; statements that must hold for
  every order are stated up to permutation.
\<close>

named_theorems go_defs "definitions of the string and map vocabulary"

section \<open>Strings\<close>

text \<open>
  \<open>unicode.IsSpace\<close> on the UTF-8 encoding: the number of bytes of the white space rune a
  byte string starts with, 0 when it starts with none (package \<open>unicode\<close>: U+0009 to U+000D,
  U+0020, U+0085, U+00A0, U+1680, U+2000 to U+200A, U+2028, U+2029, U+202F, U+205F, U+3000).
\<close>

definition ascii_space :: "char \<Rightarrow> bool" where
  "ascii_space c \<longleftrightarrow> c = CHR '' '' \<or> (9 \<le> (of_char c :: nat) \<and> (of_char c :: nat) \<le> 13)"

definition space2 :: "char \<Rightarrow> char \<Rightarrow> bool" where
  "space2 a b \<longleftrightarrow> a = CHR 0xC2 \<and> (b = CHR 0x85 \<or> b = CHR 0xA0)"

definition space3 :: "char \<Rightarrow> char \<Rightarrow> char \<Rightarrow> bool" where
  "space3 a b c \<longleftrightarrow>
     (a = CHR 0xE1 \<and> b = CHR 0x9A \<and> c = CHR 0x80)
   \<or> (a = CHR 0xE2 \<and> b = CHR 0x80 \<and>
        ((0x80 \<le> (of_char c :: nat) \<and> (of_char c :: nat) \<le> 0x8A) \<or> c = CHR 0xA8 \<or> c = CHR 0xA9 \<or> c = CHR 0xAF))
   \<or> (a = CHR 0xE2 \<and> b = CHR 0x81 \<and> c = CHR 0x9F)
   \<or> (a = CHR 0xE3 \<and> b = CHR 0x80 \<and> c = CHR 0x80)"

fun space_len :: "string \<Rightarrow> nat" where
  "space_len (a # b # c # s) =
     (if ascii_space a then 1 else if space2 a b then 2 else if space3 a b c then 3 else 0)"
| "space_len [a, b] = (if ascii_space a then 1 else if space2 a b then 2 else 0)"
| "space_len [a] = (if ascii_space a then 1 else 0)"
| "space_len [] = 0"

text \<open>\<open>strings.TrimLeftFunc(s, unicode.IsSpace)\<close>.\<close>

function trim_left :: "string \<Rightarrow> string" where
  "trim_left s = (if space_len s = 0 \<or> s = [] then s else trim_left (drop (space_len s) s))"
  by pat_completeness auto
termination
  by (relation "measure length") auto

declare trim_left.simps [simp del]

text \<open>The same from the right: \<open>space_len_rev\<close> reads the reversed bytes of the last rune.\<close>

fun space_len_rev :: "string \<Rightarrow> nat" where
  "space_len_rev (c # b # a # s) =
     (if ascii_space c then 1 else if space2 b c then 2 else if space3 a b c then 3 else 0)"
| "space_len_rev [c, b] = (if ascii_space c then 1 else if space2 b c then 2 else 0)"
| "space_len_rev [c] = (if ascii_space c then 1 else 0)"
| "space_len_rev [] = 0"

function trim_left_rev :: "string \<Rightarrow> string" where
  "trim_left_rev s = (if space_len_rev s = 0 \<or> s = [] then s else trim_left_rev (drop (space_len_rev s) s))"
  by pat_completeness auto
termination
  by (relation "measure length") auto

declare trim_left_rev.simps [simp del]

definition TrimSpace :: "string \<Rightarrow> string" where
  "TrimSpace s = rev (trim_left_rev (rev (trim_left s)))"

text \<open>\<open>strings.TrimRight(s, "/")\<close> and \<open>strings.Cut\<close>, \<open>Contains\<close>, \<open>HasPrefix\<close>, \<open>Join\<close>.\<close>

definition TrimRightChar :: "char \<Rightarrow> string \<Rightarrow> string" where
  "TrimRightChar c s = rev (dropWhile (\<lambda>x. x = c) (rev s))"

fun Cut :: "string \<Rightarrow> string \<Rightarrow> (string \<times> string) option" where
  "Cut sep s =
     (if prefix sep s then Some ([], drop (length sep) s)
      else (case s of
              [] \<Rightarrow> None
            | c # cs \<Rightarrow> map_option (\<lambda>(b, a). (c # b, a)) (Cut sep cs)))"

declare Cut.simps [simp del]

abbreviation HasPrefix :: "string \<Rightarrow> string \<Rightarrow> bool" where
  "HasPrefix s p \<equiv> prefix p s"

abbreviation HasSuffix :: "string \<Rightarrow> string \<Rightarrow> bool" where
  "HasSuffix s p \<equiv> suffix p s"

abbreviation Contains :: "string \<Rightarrow> string \<Rightarrow> bool" where
  "Contains s p \<equiv> sublist p s"

text \<open>
  \<open>utf8.DecodeRune\<close>, the width: how many bytes the first rune of a byte string takes; an
  invalid encoding is one byte wide.
\<close>

definition cont_byte :: "char \<Rightarrow> bool" where
  "cont_byte c \<longleftrightarrow> (of_char c :: nat) div 64 = 2"

definition rune_width :: "string \<Rightarrow> nat" where
  "rune_width s =
     (case s of
        [] \<Rightarrow> 0
      | a # r \<Rightarrow>
         let x = (of_char a :: nat);
             b1 = (case r of b # _ \<Rightarrow> (of_char b :: nat) | [] \<Rightarrow> 0);
             c2 = (1 < length r \<and> cont_byte (r ! 1));
             c3 = (2 < length r \<and> cont_byte (r ! 2))
         in if 0xC2 \<le> x \<and> x \<le> 0xDF \<and> 0x80 \<le> b1 \<and> b1 \<le> 0xBF then 2
            else if 0xE0 \<le> x \<and> x \<le> 0xEF \<and> (if x = 0xE0 then 0xA0 else 0x80) \<le> b1
              \<and> b1 \<le> (if x = 0xED then 0x9F else 0xBF) \<and> c2 then 3
            else if 0xF0 \<le> x \<and> x \<le> 0xF4 \<and> (if x = 0xF0 then 0x90 else 0x80) \<le> b1
              \<and> b1 \<le> (if x = 0xF4 then 0x8F else 0xBF) \<and> c2 \<and> c3 then 4
            else 1)"

lemma rune_width_pos: "s \<noteq> [] \<Longrightarrow> 0 < rune_width s"
  by (cases s) (auto simp: rune_width_def Let_def)

text \<open>\<open>utf8.RuneCountInString\<close>.\<close>

function RuneCount :: "string \<Rightarrow> nat" where
  "RuneCount s = (if s = [] then 0 else 1 + RuneCount (drop (rune_width s) s))"
  by pat_completeness auto
termination
  by (relation "measure length") (auto simp: rune_width_pos)

declare RuneCount.simps [simp del]

text \<open>\<open>strconv.Itoa\<close> (\<open>%d\<close>) on a non-negative int.\<close>

fun Itoa :: "nat \<Rightarrow> string" where
  "Itoa n = (if n < 10 then [char_of (48 + n)] else Itoa (n div 10) @ [char_of (48 + n mod 10)])"

declare Itoa.simps [simp del]

fun Join :: "string list \<Rightarrow> string \<Rightarrow> string" where
  "Join [] sep = []"
| "Join [s] sep = s"
| "Join (s # t # ss) sep = s @ sep @ Join (t # ss) sep"

text \<open>\<open>strings.Fields\<close>, counted: the number of maximal runs of non-space runes. Only a byte that
  starts a rune can start a space, which \<open>space_len\<close> decides from the following bytes.\<close>

function count_fields :: "bool \<Rightarrow> string \<Rightarrow> nat" where
  "count_fields inword s =
     (if s = [] then 0
      else if 0 < space_len s then count_fields False (drop (space_len s) s)
      else (if inword then 0 else 1) + count_fields True (tl s))"
  by pat_completeness auto
termination
  by (relation "measure (\<lambda>(_, s). length s)") auto

declare count_fields.simps [simp del]

lemma length_trim_left: "length (trim_left s) \<le> length s"
proof (induction s rule: trim_left.induct)
  case (1 s)
  then show ?case
    by (subst trim_left.simps) (auto intro: le_trans)
qed

lemma length_trim_left_rev: "length (trim_left_rev s) \<le> length s"
proof (induction s rule: trim_left_rev.induct)
  case (1 s)
  then show ?case
    by (subst trim_left_rev.simps) (auto intro: le_trans)
qed

lemma length_TrimSpace: "length (TrimSpace s) \<le> length s"
  by (simp add: TrimSpace_def) (metis length_rev length_trim_left length_trim_left_rev le_trans)

lemma trim_left_Nil [simp]: "trim_left [] = []"
  by (simp add: trim_left.simps)

lemma trim_left_rev_Nil [simp]: "trim_left_rev [] = []"
  by (simp add: trim_left_rev.simps)

lemma TrimSpace_Nil [simp]: "TrimSpace [] = []"
  by (simp add: TrimSpace_def)

lemma space_len_trim_left [simp]: "space_len (trim_left s) = 0"
proof (induction s rule: trim_left.induct)
  case (1 s)
  then show ?case
    by (subst trim_left.simps) (auto)
qed

lemma space_len_trim_left_rev [simp]: "space_len_rev (trim_left_rev s) = 0"
proof (induction s rule: trim_left_rev.induct)
  case (1 s)
  then show ?case
    by (subst trim_left_rev.simps) (auto)
qed

lemma trim_left_rev_fix: "space_len_rev s = 0 \<Longrightarrow> trim_left_rev s = s"
  by (subst trim_left_rev.simps) simp

lemma trim_left_fix: "space_len s = 0 \<Longrightarrow> trim_left s = s"
  by (subst trim_left.simps) simp

lemma suffix_trim_left: "suffix (trim_left s) s"
proof (induction s rule: trim_left.induct)
  case (1 s)
  show ?case
  proof (cases "space_len s = 0 \<or> s = []")
    case True
    then show ?thesis by (subst trim_left.simps) simp
  next
    case False
    with 1 have "suffix (trim_left (drop (space_len s) s)) (drop (space_len s) s)" by blast
    then have "suffix (trim_left (drop (space_len s) s)) s"
      using suffix_drop suffix_order.trans by blast
    with False show ?thesis by (subst trim_left.simps) simp
  qed
qed

lemma suffix_trim_left_rev: "suffix (trim_left_rev s) s"
proof (induction s rule: trim_left_rev.induct)
  case (1 s)
  show ?case
  proof (cases "space_len_rev s = 0 \<or> s = []")
    case True
    then show ?thesis by (subst trim_left_rev.simps) simp
  next
    case False
    with 1 have "suffix (trim_left_rev (drop (space_len_rev s) s)) (drop (space_len_rev s) s)" by blast
    then have "suffix (trim_left_rev (drop (space_len_rev s) s)) s"
      using suffix_drop suffix_order.trans by blast
    with False show ?thesis by (subst trim_left_rev.simps) simp
  qed
qed

text \<open>A prefix that keeps the first three bytes has the same leading white space.\<close>

lemma space_len_prefix_zero:
  assumes "space_len (p @ q) = 0"
  shows "space_len p = 0"
proof -
  consider "p = []" | a where "p = [a]" | a b where "p = [a, b]" | a b c r where "p = a # b # c # r"
    by (metis neq_Nil_conv)
  then show ?thesis
  proof cases
    case (2 a)
    with assms show ?thesis
      by (cases q; cases "tl q") (auto split: if_splits)
  next
    case (3 a b)
    with assms show ?thesis by (cases q) (auto split: if_splits)
  next
    case (4 a b c r)
    with assms show ?thesis by (auto split: if_splits)
  qed auto
qed

lemma TrimSpace_idem [simp]: "TrimSpace (TrimSpace s) = TrimSpace s"
proof -
  let ?t = "trim_left s"
  let ?u = "trim_left_rev (rev ?t)"
  have "suffix ?u (rev ?t)" by (rule suffix_trim_left_rev)
  then obtain v where v: "?t = rev ?u @ rev v"
    by (metis suffixE rev_append rev_rev_ident)
  have "space_len (rev ?u) = 0"
    by (rule space_len_prefix_zero [of _ "rev v"]) (metis space_len_trim_left v)
  then have "trim_left (rev ?u) = rev ?u" by (rule trim_left_fix)
  moreover have "trim_left_rev ?u = ?u" by (rule trim_left_rev_fix) simp
  ultimately show ?thesis by (simp add: TrimSpace_def)
qed

lemma TrimRightChar_Nil [simp]: "TrimRightChar c [] = []"
  by (simp add: TrimRightChar_def)

lemma TrimRightChar_idem [simp]: "TrimRightChar c (TrimRightChar c s) = TrimRightChar c s"
  by (simp add: TrimRightChar_def dropWhile_idem)

lemma Cut_None_iff: "Cut sep s = None \<longleftrightarrow> \<not> Contains s sep"
proof (induction s)
  case Nil
  then show ?case by (subst Cut.simps) (auto)
next
  case (Cons c cs)
  then show ?case by (subst Cut.simps) (auto simp: sublist_Cons_right)
qed

lemma Cut_Some_append: "Cut sep s = Some (b, a) \<Longrightarrow> s = b @ sep @ a"
proof (induction s arbitrary: b)
  case Nil
  then show ?case by (subst (asm) Cut.simps) (auto split: if_splits)
next
  case (Cons c cs)
  show ?case
  proof (cases "prefix sep (c # cs)")
    case True
    with Cons.prems show ?thesis
      by (subst (asm) Cut.simps) (auto simp: prefix_def)
  next
    case False
    with Cons.prems obtain b' where "Cut sep cs = Some (b', a)" "b = c # b'"
      by (subst (asm) Cut.simps) auto
    with Cons.IH show ?thesis by simp
  qed
qed

text \<open>The first occurrence wins: \<open>Cut\<close> splits at \<open>b\<close> when no occurrence starts inside \<open>b\<close>.\<close>

lemma Cut_append:
  assumes "sep \<noteq> []" and "\<And>k. k < length b \<Longrightarrow> \<not> prefix sep (drop k b @ sep @ a)"
  shows "Cut sep (b @ sep @ a) = Some (b, a)"
  using assms(2)
proof (induction b)
  case Nil
  then show ?case by (subst Cut.simps) (simp add: prefix_def)
next
  case (Cons c cs)
  have no0: "\<not> prefix sep (c # cs @ sep @ a)"
    using Cons.prems [of 0] by simp
  have "\<And>k. k < length cs \<Longrightarrow> \<not> prefix sep (drop k cs @ sep @ a)"
    using Cons.prems [of "Suc k" for k] by simp
  with Cons.IH have "Cut sep (cs @ sep @ a) = Some (cs, a)" by blast
  with no0 show ?case by (subst Cut.simps) simp
qed

lemma Cut_first:
  "Cut sep s = Some (b, a) \<Longrightarrow> x @ sep @ y = b @ sep \<Longrightarrow> y = []"
proof (induction s arbitrary: b x)
  case Nil
  then show ?case by (subst (asm) Cut.simps) (auto split: if_splits)
next
  case (Cons c cs)
  show ?case
  proof (cases "prefix sep (c # cs)")
    case True
    with Cons.prems(1) have "b = []" by (subst (asm) Cut.simps) auto
    with Cons.prems(2) have "length (x @ sep @ y) = length sep" by simp
    then show ?thesis by simp
  next
    case False
    with Cons.prems(1) obtain b' where b': "Cut sep cs = Some (b', a)" "b = c # b'"
      by (subst (asm) Cut.simps) auto
    have full: "c # cs = b @ sep @ a" using Cut_Some_append [OF Cons.prems(1)] .
    show ?thesis
    proof (cases x)
      case Nil
      with Cons.prems(2) have "prefix sep (b @ sep)" by (metis append_Nil prefixI)
      then have "prefix sep (c # cs)" using full by (metis append.assoc prefix_prefix)
      with False show ?thesis by simp
    next
      case (Cons x0 x')
      with Cons.prems(2) b'(2) have "x' @ sep @ y = b' @ sep" by simp
      with Cons.IH b'(1) show ?thesis by blast
    qed
  qed
qed

section \<open>Maps in iteration order\<close>

type_synonym 'v gomap = "(string \<times> 'v) list"

definition wf_map :: "'v gomap \<Rightarrow> bool" where
  "wf_map m \<longleftrightarrow> distinct (map fst m)"

lemma wf_map_Nil [simp]: "wf_map []"
  by (simp add: wf_map_def)

lemma wf_map_update [simp]: "wf_map m \<Longrightarrow> wf_map (AList.update k v m)"
  by (simp add: wf_map_def distinct_update)

lemma wf_map_delete [simp]: "wf_map m \<Longrightarrow> wf_map (AList.delete k m)"
  by (simp add: wf_map_def distinct_delete)

lemma wf_map_filter [simp]: "wf_map m \<Longrightarrow> wf_map (filter P m)"
  by (simp add: wf_map_def distinct_map_filter)

lemma wf_map_Cons [simp]: "wf_map (kv # m) \<longleftrightarrow> fst kv \<notin> fst ` set m \<and> wf_map m"
  by (auto simp: wf_map_def)

lemma map_of_filter_wf:
  "wf_map m \<Longrightarrow> map_of (filter P m) k =
     (case map_of m k of None \<Rightarrow> None | Some v \<Rightarrow> if P (k, v) then Some v else None)"
  by (induction m) (auto split: option.splits dest: map_of_SomeD simp: map_of_eq_None_iff image_iff)

lemma map_of_wf_in: "wf_map m \<Longrightarrow> map_of m k = Some v \<longleftrightarrow> (k, v) \<in> set m"
  by (simp add: wf_map_def map_of_eq_Some_iff)

text \<open>A loop of assignments \<open>out[k] = v\<close>: the last one of a key wins.\<close>

lemma map_of_fold_update:
  "map_of (fold (\<lambda>x m. AList.update (f x) (g x) m) xs m) k =
     (case map_of (map (\<lambda>x. (f x, g x)) (rev xs)) k of Some v \<Rightarrow> Some v | None \<Rightarrow> map_of m k)"
  by (induction xs arbitrary: m) (auto simp: map_add_def update_conv' split: option.splits)

text \<open>Two association lists enumerate the same Go map.\<close>

definition same_map :: "'v gomap \<Rightarrow> 'v gomap \<Rightarrow> bool" where
  "same_map m n \<longleftrightarrow> wf_map m \<and> wf_map n \<and> set m = set n"

lemma same_map_map_of: "same_map m n \<Longrightarrow> map_of m = map_of n"
  unfolding same_map_def wf_map_def
  by (metis map_of_inject_set)

lemma same_map_mset: "same_map m n \<Longrightarrow> length m = length n"
  unfolding same_map_def wf_map_def
  by (metis distinct_card distinct_map)

lemma same_map_filter: "same_map m n \<Longrightarrow> same_map (filter P m) (filter P n)"
  by (auto simp: same_map_def)

text \<open>
  The loop \<open>for k, v := range m { if !P { continue }; if found { return none }; ... }\<close> the
  tool store uses twice: the value of the only entry that satisfies \<open>P\<close>.
\<close>

fun scan_unique :: "(string \<Rightarrow> 'v \<Rightarrow> bool) \<Rightarrow> 'v gomap \<Rightarrow> 'v option \<Rightarrow> 'v option" where
  "scan_unique P [] matched = matched"
| "scan_unique P ((k, v) # m) matched =
     (if \<not> P k v then scan_unique P m matched
      else (case matched of Some _ \<Rightarrow> None | None \<Rightarrow> scan_unique P m (Some v)))"

lemma scan_unique_Some:
  "scan_unique P m (Some v) = (if filter (\<lambda>(k, v). P k v) m = [] then Some v else None)"
  by (induction m) auto

lemma scan_unique_filter:
  "scan_unique P m None = (case filter (\<lambda>(k, v). P k v) m of [kv] \<Rightarrow> Some (snd kv) | _ \<Rightarrow> None)"
  by (induction m) (auto simp: scan_unique_Some split: list.splits)

lemma scan_unique_same_map:
  assumes "same_map m n"
  shows "scan_unique P m None = scan_unique P n None"
proof -
  let ?f = "filter (\<lambda>(k, v). P k v)"
  have same: "same_map (?f m) (?f n)" using assms by (rule same_map_filter)
  then have len: "length (?f m) = length (?f n)" by (rule same_map_mset)
  show ?thesis
  proof (cases "?f m")
    case Nil
    with len show ?thesis by (simp add: scan_unique_filter)
  next
    case (Cons x xs)
    show ?thesis
    proof (cases xs)
      case Nil
      with Cons len have "length (?f n) = Suc 0" by simp
      then obtain y where "?f n = [y]" by (metis length_0_conv length_Suc_conv)
      with Cons Nil same show ?thesis by (simp add: scan_unique_filter same_map_def)
    next
      case (Cons x' xs')
      with \<open>?f m = x # xs\<close> len obtain y y' ys where "?f n = y # y' # ys"
        by (metis length_Suc_conv)
      with Cons \<open>?f m = x # xs\<close> show ?thesis by (simp add: scan_unique_filter)
    qed
  qed
qed

lemma scan_unique_SomeD:
  "scan_unique P m None = Some v \<Longrightarrow> \<exists>k. (k, v) \<in> set m \<and> P k v"
proof -
  assume "scan_unique P m None = Some v"
  then obtain k where "filter (\<lambda>(k, v). P k v) m = [(k, v)]"
    by (auto simp: scan_unique_filter split: list.splits)
  then have "(k, v) \<in> set (filter (\<lambda>(k, v). P k v) m)" by simp
  then show ?thesis by auto
qed

section \<open>Errors\<close>

text \<open>
  A Go error value. \<open>Sentinel\<close> is a package variable made by \<open>errors.New\<close> (its identity is the
  variable's name), \<open>ErrorNew\<close> an anonymous error, \<open>ErrorWrap\<close> an error that wraps others
  (\<open>fmt.Errorf\<close> with \<open>%w\<close>, or a type with \<open>Unwrap\<close>). \<open>errors.Is\<close> looks for a sentinel down the
  chain.
\<close>

datatype go_error = Sentinel string string | ErrorNew string | ErrorWrap string "go_error list"

fun errText :: "go_error \<Rightarrow> string" where
  "errText (Sentinel _ t) = t"
| "errText (ErrorNew t) = t"
| "errText (ErrorWrap t _) = t"

fun errors_Is :: "go_error \<Rightarrow> go_error \<Rightarrow> bool" where
  "errors_Is (Sentinel n t) target = (target = Sentinel n t)"
| "errors_Is (ErrorNew t) target = False"
| "errors_Is (ErrorWrap t ws) target = list_ex (\<lambda>w. errors_Is w target) ws"

definition wrapf :: "string \<Rightarrow> go_error \<Rightarrow> go_error" where
  "wrapf msg e = ErrorWrap (msg @ '': '' @ errText e) [e]"

lemma errors_Is_wrapf [simp]: "errors_Is (wrapf msg e) target = errors_Is e target"
  by (simp add: wrapf_def)

type_synonym 'a result = "go_error + 'a"

definition bindR :: "'a result \<Rightarrow> ('a \<Rightarrow> 'b result) \<Rightarrow> 'b result" where
  "bindR r f = (case r of Inl e \<Rightarrow> Inl e | Inr a \<Rightarrow> f a)"

lemma bindR_simps [simp]:
  "bindR (Inl e) f = Inl e" "bindR (Inr a) f = f a"
  by (simp_all add: bindR_def)

lemma bindR_eq_Inr: "bindR r f = Inr b \<longleftrightarrow> (\<exists>a. r = Inr a \<and> f a = Inr b)"
  by (cases r) auto

section \<open>Lists\<close>

text \<open>The last index a condition holds at, as the loops that overwrite \<open>idx = i\<close> find it.\<close>

definition last_index :: "('a \<Rightarrow> bool) \<Rightarrow> 'a list \<Rightarrow> nat option" where
  "last_index P xs = (case filter (\<lambda>i. P (xs ! i)) [0..<length xs] of [] \<Rightarrow> None | is \<Rightarrow> Some (last is))"

lemma last_index_SomeD:
  assumes "last_index P xs = Some i"
  shows "i < length xs" "P (xs ! i)"
proof -
  from assms have "filter (\<lambda>i. P (xs ! i)) [0..<length xs] \<noteq> []"
    and "i = last (filter (\<lambda>i. P (xs ! i)) [0..<length xs])"
    by (auto simp: last_index_def split: list.splits)
  then have "i \<in> set (filter (\<lambda>i. P (xs ! i)) [0..<length xs])" using last_in_set by metis
  then show "i < length xs" "P (xs ! i)" by auto
qed

lemma last_index_None: "last_index P xs = None \<longleftrightarrow> (\<forall>x \<in> set xs. \<not> P x)"
proof -
  have "last_index P xs = None \<longleftrightarrow> filter (\<lambda>i. P (xs ! i)) [0..<length xs] = []"
    by (simp add: last_index_def split: list.splits)
  then show ?thesis by (metis (no_types, lifting) atLeastLessThan_iff atLeast_upt filter_empty_conv in_set_conv_nth
      lessThan_iff set_upt)
qed

text \<open>First-occurrence deduplication, the \<open>seen\<close> map loop.\<close>

fun dedup :: "string list \<Rightarrow> string list \<Rightarrow> string list" where
  "dedup seen [] = []"
| "dedup seen (x # xs) = (if x \<in> set seen then dedup seen xs else x # dedup (x # seen) xs)"

lemma set_dedup: "set (dedup seen xs) = set xs - set seen"
  by (induction xs arbitrary: seen) auto

lemma distinct_dedup: "distinct (dedup seen xs)"
  by (induction xs arbitrary: seen) (auto simp: set_dedup)

end
