(* ===== verification/Turn_Sequence.thy ===== *)
theory Turn_Sequence
  imports Prelude_Go "HOL-Library.Product_Lexorder"
begin

text \<open>
  The arrival-order recorder of an assistant turn (\<open>src/llm/turn_sequence.go\<close>) and the stream
  payloads it reads (\<open>src/llm/stream.go\<close>).

  A \<open>TurnSequence\<close> is its slice of segments; an operation with a pointer receiver returns the
  new sequence. \<open>RemoveTextRanges\<close> slices Go strings with computed bounds: \<open>go_slice\<close> is \<open>None\<close>
  where Go would panic, and the theory proves that no call ever does.
\<close>

section \<open>Payloads of the stream\<close>

record ReasoningData =
  rd_Text :: string
  rd_Signature :: string

record ServerToolUse =
  su_ID :: string
  su_Tool :: string
  su_Status :: string
  su_Query :: string
  su_URL :: string
  su_Title :: string
  su_SubTool :: string
  su_Command :: string
  su_Output :: string
  su_ErrorCode :: string
  su_FileIDs :: "string list"
  su_ProviderRoute :: string

section \<open>Segments\<close>

definition TurnSegmentText :: string where "TurnSegmentText = ''text''"
definition TurnSegmentThinking :: string where "TurnSegmentThinking = ''thinking''"
definition TurnSegmentServerTool :: string where "TurnSegmentServerTool = ''server_tool''"

record TextRange =
  tr_Start :: int
  tr_End :: int

record TurnSegment =
  seg_Kind :: string
  seg_Text :: string
  seg_Signature :: string
  seg_ServerToolID :: string
  seg_finalized :: bool

type_synonym TurnSequence = "TurnSegment list"

definition text_segment :: "string \<Rightarrow> TurnSegment" where
  "text_segment t = \<lparr>seg_Kind = TurnSegmentText, seg_Text = t, seg_Signature = [],
     seg_ServerToolID = [], seg_finalized = False\<rparr>"

definition thinking_segment :: "string \<Rightarrow> string \<Rightarrow> bool \<Rightarrow> TurnSegment" where
  "thinking_segment t sig fin = \<lparr>seg_Kind = TurnSegmentThinking, seg_Text = t, seg_Signature = sig,
     seg_ServerToolID = [], seg_finalized = fin\<rparr>"

definition server_segment :: "string \<Rightarrow> TurnSegment" where
  "server_segment sid = \<lparr>seg_Kind = TurnSegmentServerTool, seg_Text = [], seg_Signature = [],
     seg_ServerToolID = sid, seg_finalized = False\<rparr>"

named_theorems seg_defs "the segment constructors and kinds"
declare TurnSegmentText_def [seg_defs] TurnSegmentThinking_def [seg_defs]
  TurnSegmentServerTool_def [seg_defs] text_segment_def [seg_defs]
  thinking_segment_def [seg_defs] server_segment_def [seg_defs]

section \<open>Operations\<close>

text \<open>
  \<open>last()\<close> returns a pointer to the last segment that the caller writes through; the model
  reads it with \<open>last\<close> and writes with \<open>butlast s @ [..]\<close>.
\<close>

definition AppendText :: "string \<Rightarrow> TurnSequence \<Rightarrow> TurnSequence" where
  "AppendText text s =
     (if text = [] then s
      else if s \<noteq> [] \<and> seg_Kind (last s) = TurnSegmentText
      then butlast s @ [(last s)\<lparr>seg_Text := seg_Text (last s) @ text\<rparr>]
      else s @ [text_segment text])"

definition open_thinking :: "TurnSequence \<Rightarrow> bool" where
  "open_thinking s \<longleftrightarrow> s \<noteq> [] \<and> seg_Kind (last s) = TurnSegmentThinking \<and> \<not> seg_finalized (last s)"

definition AppendReasoning :: "string \<Rightarrow> TurnSequence \<Rightarrow> TurnSequence" where
  "AppendReasoning text s =
     (if text = [] then s
      else if open_thinking s
      then butlast s @ [(last s)\<lparr>seg_Text := seg_Text (last s) @ text\<rparr>]
      else s @ [thinking_segment text [] False])"

definition FinishReasoning :: "ReasoningData \<Rightarrow> TurnSequence \<Rightarrow> TurnSequence" where
  "FinishReasoning data s =
     (if rd_Text data = [] then s
      else if open_thinking s
      then butlast s @ [(last s)\<lparr>seg_Text := rd_Text data, seg_Signature := rd_Signature data,
                                  seg_finalized := True\<rparr>]
      else s @ [thinking_segment (rd_Text data) (rd_Signature data) True])"

definition hasServerTool :: "string \<Rightarrow> TurnSequence \<Rightarrow> bool" where
  "hasServerTool sid s \<longleftrightarrow>
     list_ex (\<lambda>seg. seg_Kind seg = TurnSegmentServerTool \<and> seg_ServerToolID seg = sid) s"

fun RecordServerTools :: "ServerToolUse list \<Rightarrow> TurnSequence \<Rightarrow> TurnSequence" where
  "RecordServerTools [] s = s"
| "RecordServerTools (u # us) s =
     (if su_ID u = [] \<or> hasServerTool (su_ID u) s then RecordServerTools us s
      else RecordServerTools us (s @ [server_segment (su_ID u)]))"

fun seqText :: "TurnSequence \<Rightarrow> string" where
  "seqText [] = []"
| "seqText (seg # s) = (if seg_Kind seg = TurnSegmentText then seg_Text seg else []) @ seqText s"

definition HasText :: "TurnSequence \<Rightarrow> bool" where
  "HasText s \<longleftrightarrow> list_ex (\<lambda>seg. seg_Kind seg = TurnSegmentText \<and> seg_Text seg \<noteq> []) s"

text \<open>The Go slice expression \<open>s[lo:hi]\<close> on a string: it panics outside \<open>0 <= lo <= hi <= len s\<close>.\<close>

definition go_slice :: "string \<Rightarrow> int \<Rightarrow> int \<Rightarrow> string option" where
  "go_slice s lo hi =
     (if 0 \<le> lo \<and> lo \<le> hi \<and> hi \<le> int (length s)
      then Some (take (nat hi - nat lo) (drop (nat lo) s)) else None)"

text \<open>The validation loop over the sorted ranges; \<open>prev\<close> is \<open>normalized[i-1].End\<close>.\<close>

fun ranges_ok :: "int \<Rightarrow> int option \<Rightarrow> TextRange list \<Rightarrow> bool" where
  "ranges_ok len prev [] = True"
| "ranges_ok len prev (r # rs) =
     (if tr_Start r < 0 \<or> tr_End r < tr_Start r \<or> tr_End r > len then False
      else if (case prev of None \<Rightarrow> False | Some e \<Rightarrow> tr_Start r < e) then False
      else ranges_ok len (Some (tr_End r)) rs)"

text \<open>The inner loop over the ranges for one text segment: \<open>cursor\<close> and the \<open>cleaned\<close> builder.\<close>

fun clean_segment :: "int \<Rightarrow> int \<Rightarrow> string \<Rightarrow> TextRange list \<Rightarrow> int \<Rightarrow> string option" where
  "clean_segment segStart segEnd text [] cursor = go_slice text cursor (int (length text))"
| "clean_segment segStart segEnd text (r # rs) cursor =
     (if tr_End r \<le> segStart \<or> tr_Start r \<ge> segEnd then clean_segment segStart segEnd text rs cursor
      else let removeStart = max (tr_Start r) segStart - segStart;
               removeEnd = min (tr_End r) segEnd - segStart
           in (case go_slice text cursor removeStart of
                 None \<Rightarrow> None
               | Some piece \<Rightarrow> map_option (\<lambda>t. piece @ t) (clean_segment segStart segEnd text rs removeEnd)))"

text \<open>The outer loop over the segments; \<open>off\<close> is \<open>textOffset\<close>.\<close>

fun remove_loop :: "TextRange list \<Rightarrow> int \<Rightarrow> TurnSequence \<Rightarrow> TurnSequence option" where
  "remove_loop rs off [] = Some []"
| "remove_loop rs off (seg # s) =
     (if seg_Kind seg \<noteq> TurnSegmentText then map_option (\<lambda>u. seg # u) (remove_loop rs off s)
      else let segEnd = off + int (length (seg_Text seg)) in
        (case clean_segment off segEnd (seg_Text seg) rs 0 of
           None \<Rightarrow> None
         | Some t \<Rightarrow> map_option (\<lambda>u. if t \<noteq> [] then seg\<lparr>seg_Text := t\<rparr> # u else u)
                        (remove_loop rs segEnd s)))"

definition sort_ranges :: "TextRange list \<Rightarrow> TextRange list" where
  "sort_ranges = sort_key (\<lambda>r. (tr_Start r, tr_End r))"

text \<open>The result is the returned bool with the sequence after the call; \<open>None\<close> is a panic.\<close>

definition RemoveTextRanges ::
  "string \<Rightarrow> TextRange list \<Rightarrow> TurnSequence \<Rightarrow> (bool \<times> TurnSequence) option" where
  "RemoveTextRanges original ranges s =
     (if seqText s \<noteq> original then Some (False, s)
      else if ranges = [] then Some (True, s)
      else let normalized = sort_ranges ranges in
        if \<not> ranges_ok (int (length original)) None normalized then Some (False, s)
        else map_option (\<lambda>u. (True, u)) (remove_loop normalized 0 s))"

definition Reset :: "TurnSequence \<Rightarrow> TurnSequence" where
  "Reset s = []"

section \<open>Text of a sequence\<close>

lemma seqText_append [simp]: "seqText (s @ t) = seqText s @ seqText t"
  by (induction s) auto

lemma seqText_last:
  "s \<noteq> [] \<Longrightarrow> seqText s = seqText (butlast s) @
     (if seg_Kind (last s) = TurnSegmentText then seg_Text (last s) else [])"
  by (metis append_butlast_last_id append_Nil2 seqText.simps seqText_append)

lemma seqText_AppendText: "seqText (AppendText t s) = seqText s @ t"
  by (cases "s = []") (auto simp: AppendText_def seqText_last [of s] text_segment_def)

lemma seqText_AppendReasoning [simp]: "seqText (AppendReasoning t s) = seqText s"
  by (cases "s = []")
    (auto simp: AppendReasoning_def open_thinking_def seqText_last [of s] seg_defs)

lemma seqText_FinishReasoning [simp]: "seqText (FinishReasoning d s) = seqText s"
  by (cases "s = []")
    (auto simp: FinishReasoning_def open_thinking_def seqText_last [of s] seg_defs)

lemma seqText_RecordServerTools [simp]: "seqText (RecordServerTools us s) = seqText s"
  by (induction us s rule: RecordServerTools.induct) (auto simp: seg_defs)

lemma HasText_iff: "HasText s \<longleftrightarrow> seqText s \<noteq> []"
  by (induction s) (auto simp: HasText_def)

section \<open>Removing ranges\<close>

text \<open>
  The specification: the bytes of the concatenated text that no range covers, in order.
\<close>

definition covered :: "TextRange list \<Rightarrow> int \<Rightarrow> bool" where
  "covered rs i \<longleftrightarrow> list_ex (\<lambda>r. tr_Start r \<le> i \<and> i < tr_End r) rs"

fun uncovered :: "TextRange list \<Rightarrow> int \<Rightarrow> string \<Rightarrow> string" where
  "uncovered rs i [] = []"
| "uncovered rs i (c # cs) = (if covered rs i then [] else [c]) @ uncovered rs (i + 1) cs"

lemma uncovered_append:
  "uncovered rs i (a @ b) = uncovered rs i a @ uncovered rs (i + int (length a)) b"
  by (induction a arbitrary: i) (auto simp: algebra_simps)

lemma uncovered_none:
  "(\<And>j. i \<le> j \<Longrightarrow> j < i + int (length a) \<Longrightarrow> \<not> covered rs j) \<Longrightarrow> uncovered rs i a = a"
  by (induction a arbitrary: i) auto

lemma uncovered_all:
  "(\<And>j. i \<le> j \<Longrightarrow> j < i + int (length a) \<Longrightarrow> covered rs j) \<Longrightarrow> uncovered rs i a = []"
  by (induction a arbitrary: i) auto

lemma uncovered_cong:
  "(\<And>j. i \<le> j \<Longrightarrow> j < i + int (length a) \<Longrightarrow> covered rs j = covered rs' j)
   \<Longrightarrow> uncovered rs i a = uncovered rs' i a"
  by (induction a arbitrary: i) auto

lemma covered_Cons: "covered (r # rs) i \<longleftrightarrow> (tr_Start r \<le> i \<and> i < tr_End r) \<or> covered rs i"
  by (simp add: covered_def)

text \<open>Once validated, the ranges after position \<open>p\<close> cover nothing before it.\<close>

lemma ranges_ok_lower:
  "ranges_ok len (Some p) rs \<Longrightarrow> j < p \<Longrightarrow> \<not> covered rs j"
  by (induction len "Some p" rs arbitrary: p rule: ranges_ok.induct)
    (auto simp: covered_def split: if_splits)

lemma ranges_ok_mono:
  "ranges_ok len (Some p) rs \<Longrightarrow> q \<le> p \<Longrightarrow> ranges_ok len (Some q) rs"
  by (cases rs) (auto split: if_splits)

lemma ranges_ok_None:
  "ranges_ok len None rs \<Longrightarrow> ranges_ok len (Some 0) rs"
  by (cases rs) (auto split: if_splits)

lemma clean_segment_spec:
  assumes "ranges_ok len (Some p) rs" and "0 \<le> cursor" "cursor \<le> int (length text)"
    and "cursor = 0 \<or> off + cursor \<le> p"
  shows "clean_segment off (off + int (length text)) text rs cursor
       = Some (uncovered rs (off + cursor) (drop (nat cursor) text))"
  using assms
proof (induction rs arbitrary: p cursor)
  case Nil
  then have "uncovered [] (off + cursor) (drop (nat cursor) text) = drop (nat cursor) text"
    by (intro uncovered_none) (simp add: covered_def)
  with Nil show ?case by (simp add: go_slice_def)
next
  case (Cons r rs)
  let ?e = "off + int (length text)"
  have ok: "0 \<le> tr_Start r" "tr_Start r \<le> tr_End r" "p \<le> tr_Start r"
      and rest: "ranges_ok len (Some (tr_End r)) rs"
    using Cons.prems(1) by (auto split: if_splits)
  show ?case
  proof (cases "tr_End r \<le> off \<or> tr_Start r \<ge> ?e")
    case True
    have "clean_segment off ?e text rs cursor
        = Some (uncovered rs (off + cursor) (drop (nat cursor) text))"
      using Cons.IH [of "p" cursor] ranges_ok_mono [OF rest, of p] ok Cons.prems by simp
    moreover have "uncovered rs (off + cursor) (drop (nat cursor) text)
        = uncovered (r # rs) (off + cursor) (drop (nat cursor) text)"
      using True Cons.prems by (intro uncovered_cong) (auto simp: covered_Cons)
    ultimately show ?thesis using True by simp
  next
    case False
    define b where "b = max (tr_Start r) off - off"
    define e where "e = min (tr_End r) ?e - off"
    have bounds: "cursor \<le> b" "b \<le> e" "e \<le> int (length text)" "0 \<le> b"
      using False ok Cons.prems by (auto simp: b_def e_def)
    have step: "clean_segment off ?e text rs e = Some (uncovered rs (off + e) (drop (nat e) text))"
      using bounds rest False ok by (intro Cons.IH [of "tr_End r"]) (auto simp: e_def)
    let ?t = "drop (nat cursor) text"
    define x where "x = take (nat b - nat cursor) ?t"
    define y where "y = take (nat e - nat b) (drop (nat b) text)"
    define z where "z = drop (nat e) text"
    have split: "?t = x @ y @ z" and lx: "int (length x) = b - cursor" and ly: "int (length y) = e - b"
      using bounds Cons.prems by (auto simp: x_def y_def z_def simp flip: drop_drop)
        (metis (no_types, lifting) append_take_drop_id drop_drop le_add_diff_inverse2 nat_le_iff nat_mono)+
    have ux: "uncovered (r # rs) (off + cursor) x = x"
    proof (rule uncovered_none)
      fix j assume j: "off + cursor \<le> j" "j < off + cursor + int (length x)"
      with lx Cons.prems(2) have "j < tr_Start r" by (auto simp: b_def)
      with ok ranges_ok_lower [OF rest, of j] show "\<not> covered (r # rs) j" by (simp add: covered_Cons)
    qed
    have uy: "uncovered (r # rs) (off + cursor + int (length x)) y = []"
      using lx ly bounds False by (intro uncovered_all) (auto simp: covered_Cons b_def e_def)
    have uz: "uncovered (r # rs) (off + e) z = uncovered rs (off + e) z"
    proof (rule uncovered_cong)
      fix j assume j: "off + e \<le> j" "j < off + e + int (length z)"
      have "int (length z) = int (length text) - e" using bounds by (simp add: z_def)
      with j have "tr_End r \<le> j" by (simp add: e_def)
      then show "covered (r # rs) j = covered rs j" by (simp add: covered_Cons)
    qed
    have pos: "off + cursor + int (length x) + int (length y) = off + e" using lx ly by simp
    have "uncovered (r # rs) (off + cursor) ?t = x @ uncovered rs (off + e) z"
      unfolding split uncovered_append pos ux uy uz by simp
    moreover have "go_slice text cursor b = Some x"
      using bounds Cons.prems by (simp add: go_slice_def x_def)
    ultimately show ?thesis
      using False step by (simp add: Let_def b_def e_def z_def)
  qed
qed

lemma remove_loop_spec:
  assumes ok: "ranges_ok len (Some 0) rs"
  shows "\<exists>u. remove_loop rs off s = Some u
     \<and> seqText u = uncovered rs off (seqText s)
     \<and> filter (\<lambda>g. seg_Kind g \<noteq> TurnSegmentText) u = filter (\<lambda>g. seg_Kind g \<noteq> TurnSegmentText) s
     \<and> (\<forall>g \<in> set u. seg_Kind g = TurnSegmentText \<longrightarrow> seg_Text g \<noteq> [])"
proof (induction s arbitrary: off)
  case Nil
  then show ?case by simp
next
  case (Cons seg s)
  show ?case
  proof (cases "seg_Kind seg = TurnSegmentText")
    case False
    with Cons.IH [of off] show ?thesis by auto
  next
    case True
    have clean: "clean_segment off (off + int (length (seg_Text seg))) (seg_Text seg) rs 0
        = Some (uncovered rs off (seg_Text seg))"
      using clean_segment_spec [OF ok, of 0 "seg_Text seg" off] by simp
    from Cons.IH [of "off + int (length (seg_Text seg))"] obtain u where
      u: "remove_loop rs (off + int (length (seg_Text seg))) s = Some u"
        "seqText u = uncovered rs (off + int (length (seg_Text seg))) (seqText s)"
        "filter (\<lambda>g. seg_Kind g \<noteq> TurnSegmentText) u = filter (\<lambda>g. seg_Kind g \<noteq> TurnSegmentText) s"
        "\<forall>g \<in> set u. seg_Kind g = TurnSegmentText \<longrightarrow> seg_Text g \<noteq> []" by blast
    show ?thesis
      by (cases "uncovered rs off (seg_Text seg) = []")
        (simp_all add: True clean u uncovered_append)
  qed
qed

lemma set_sort_ranges [simp]: "set (sort_ranges rs) = set rs"
  by (simp add: sort_ranges_def)

lemma covered_sort_ranges [simp]: "covered (sort_ranges rs) = covered rs"
  by (simp add: covered_def list_ex_iff fun_eq_iff)

lemma uncovered_sort_ranges [simp]: "uncovered (sort_ranges rs) i a = uncovered rs i a"
  by (rule uncovered_cong) simp

text \<open>The validation loop, declaratively: every range is inside the text, none overlaps another.\<close>

lemma ranges_ok_Some_iff:
  "ranges_ok len (Some p) rs \<longleftrightarrow>
     (\<forall>r \<in> set rs. 0 \<le> tr_Start r \<and> tr_Start r \<le> tr_End r \<and> tr_End r \<le> len \<and> p \<le> tr_Start r)
     \<and> sorted_wrt (\<lambda>a b. tr_End a \<le> tr_Start b) rs"
  by (induction rs arbitrary: p) (auto intro: order_trans)

lemma ranges_ok_None_iff:
  "ranges_ok len None rs \<longleftrightarrow>
     (\<forall>r \<in> set rs. 0 \<le> tr_Start r \<and> tr_Start r \<le> tr_End r \<and> tr_End r \<le> len)
     \<and> sorted_wrt (\<lambda>a b. tr_End a \<le> tr_Start b) rs"
  by (cases rs) (auto simp: ranges_ok_Some_iff)

definition ranges_valid :: "string \<Rightarrow> TextRange list \<Rightarrow> bool" where
  "ranges_valid text rs \<longleftrightarrow>
     (\<forall>r \<in> set rs. 0 \<le> tr_Start r \<and> tr_Start r \<le> tr_End r \<and> tr_End r \<le> int (length text))
     \<and> sorted_wrt (\<lambda>a b. tr_End a \<le> tr_Start b) (sort_ranges rs)"

text \<open>
  \<open>RemoveTextRanges\<close> never panics on a slice; it succeeds exactly when \<open>original\<close> is the
  recorded text and the ranges lie inside it without overlap, then the text left is the
  bytes no range covers and every thinking and server tool segment keeps its place; otherwise it
  changes nothing.
\<close>

theorem RemoveTextRanges_correct:
  "\<exists>ok s'. RemoveTextRanges original ranges s = Some (ok, s')
     \<and> ok = (seqText s = original \<and> ranges_valid original ranges)
     \<and> seqText s' = (if ok then uncovered ranges 0 original else seqText s)
     \<and> filter (\<lambda>g. seg_Kind g \<noteq> TurnSegmentText) s' = filter (\<lambda>g. seg_Kind g \<noteq> TurnSegmentText) s"
proof -
  have none: "uncovered [] 0 original = original"
    by (rule uncovered_none) (simp add: covered_def)
  have valid: "ranges_ok (int (length original)) None (sort_ranges ranges) = ranges_valid original ranges"
    by (simp add: ranges_valid_def ranges_ok_None_iff)
  show ?thesis
  proof (cases "seqText s = original \<and> ranges \<noteq> [] \<and> ranges_valid original ranges")
    case False
    then show ?thesis
      by (auto simp: RemoveTextRanges_def valid none) (auto simp: ranges_valid_def sort_ranges_def)
  next
    case True
    then have "ranges_ok (int (length original)) (Some 0) (sort_ranges ranges)"
      using valid ranges_ok_None by blast
    from remove_loop_spec [OF this, of 0 s] True valid show ?thesis
      by (auto simp: RemoveTextRanges_def)
  qed
qed

section \<open>Invariant\<close>

text \<open>
  What every recorded sequence satisfies: text segments are non-empty and never adjacent, and
  each server tool invocation has one segment.
\<close>

fun no_adjacent_text :: "TurnSequence \<Rightarrow> bool" where
  "no_adjacent_text (a # b # s) \<longleftrightarrow>
     \<not> (seg_Kind a = TurnSegmentText \<and> seg_Kind b = TurnSegmentText) \<and> no_adjacent_text (b # s)"
| "no_adjacent_text _ \<longleftrightarrow> True"

definition server_ids :: "TurnSequence \<Rightarrow> string list" where
  "server_ids s = map seg_ServerToolID (filter (\<lambda>g. seg_Kind g = TurnSegmentServerTool) s)"

definition seq_ok :: "TurnSequence \<Rightarrow> bool" where
  "seq_ok s \<longleftrightarrow> no_adjacent_text s
     \<and> (\<forall>g \<in> set s. seg_Kind g = TurnSegmentText \<longrightarrow> seg_Text g \<noteq> [])
     \<and> distinct (server_ids s) \<and> [] \<notin> set (server_ids s)"

lemma server_ids_append [simp]: "server_ids (s @ t) = server_ids s @ server_ids t"
  by (simp add: server_ids_def)

lemma no_adjacent_text_snoc:
  "no_adjacent_text (s @ [g]) \<longleftrightarrow> no_adjacent_text s
     \<and> \<not> (s \<noteq> [] \<and> seg_Kind (last s) = TurnSegmentText \<and> seg_Kind g = TurnSegmentText)"
  by (induction s rule: no_adjacent_text.induct) auto

text \<open>Rewriting the last segment without changing its kind or id keeps the invariant.\<close>

lemma seq_ok_rewrite_last:
  assumes "seq_ok s" "s \<noteq> []" "seg_Kind g = seg_Kind (last s)"
    "seg_ServerToolID g = seg_ServerToolID (last s)" "seg_Kind g = TurnSegmentText \<Longrightarrow> seg_Text g \<noteq> []"
  shows "seq_ok (butlast s @ [g])"
proof -
  obtain s' l where s: "s = s' @ [l]" using assms(2) by (metis append_butlast_last_id)
  have "server_ids [g] = server_ids [l]" using assms s by (simp add: server_ids_def)
  with assms s show ?thesis
    by (auto simp: seq_ok_def no_adjacent_text_snoc)
qed

lemma server_ids_hasServerTool: "hasServerTool i s \<longleftrightarrow> i \<in> set (server_ids s)"
  by (auto simp: hasServerTool_def server_ids_def list_ex_iff)

lemma seq_ok_AppendText: "seq_ok s \<Longrightarrow> seq_ok (AppendText t s)"
  unfolding AppendText_def
  by (auto intro!: seq_ok_rewrite_last)
    (auto simp: seq_ok_def no_adjacent_text_snoc server_ids_def seg_defs)

lemma seq_ok_AppendReasoning: "seq_ok s \<Longrightarrow> seq_ok (AppendReasoning t s)"
  unfolding AppendReasoning_def open_thinking_def
  by (auto intro!: seq_ok_rewrite_last simp: seg_defs)
    (auto simp: seq_ok_def no_adjacent_text_snoc server_ids_def seg_defs)

lemma seq_ok_FinishReasoning: "seq_ok s \<Longrightarrow> seq_ok (FinishReasoning d s)"
  unfolding FinishReasoning_def open_thinking_def
  by (auto intro!: seq_ok_rewrite_last simp: seg_defs)
    (auto simp: seq_ok_def no_adjacent_text_snoc server_ids_def seg_defs)

lemma seq_ok_RecordServerTools: "seq_ok s \<Longrightarrow> seq_ok (RecordServerTools us s)"
proof (induction us s rule: RecordServerTools.induct)
  case (2 u us s)
  then have "su_ID u \<noteq> [] \<Longrightarrow> \<not> hasServerTool (su_ID u) s \<Longrightarrow> seq_ok (s @ [server_segment (su_ID u)])"
    by (auto simp: seq_ok_def no_adjacent_text_snoc server_ids_hasServerTool server_ids_def seg_defs)
  with 2 show ?case by auto
qed simp

lemma seq_ok_Nil [simp]: "seq_ok []"
  by (simp add: seq_ok_def server_ids_def)

lemma server_ids_RecordServerTools:
  "set (server_ids (RecordServerTools us s)) = set (server_ids s) \<union> (su_ID ` set us - {[]})"
  by (induction us s rule: RecordServerTools.induct)
    (auto simp: server_ids_hasServerTool, auto simp: server_ids_def seg_defs)

lemma RecordServerTools_prefix: "prefix s (RecordServerTools us s)"
proof (induction us s rule: RecordServerTools.induct)
  case (2 u us s)
  then show ?case by (auto dest: append_prefixD)
qed simp

end
