(* ===== verification/Tool_Store.thy ===== *)
theory Tool_Store
  imports Prelude_Go
begin

text \<open>
  Tools, tool calls and the tool store of a request (\<open>src/llm/tools.go\<close>).

  A \<open>Tool\<close> has every field of the source but \<open>Schema\<close> and \<open>Resolver\<close>: the schema is only
  passed through to providers, and what running a tool does is a parameter of the theories that
  run tools. \<open>tool_ValidateArguments\<close> says whether the hook is set; the hook itself is a parameter
  too, so a tool is plain data. The two maps of a \<open>ToolStore\<close> are association lists in iteration order; Go's nil map
  and the empty map behave alike under every operation here, so both are \<open>[]\<close>. A nil
  \<open>*ToolStore\<close> is \<open>None\<close>; the mutating methods are defined on a store (on nil they return).
\<close>

named_theorems store_defs "definitions of the tool store operations"

section \<open>Data\<close>

record Tool =
  tool_Name :: string
  tool_Description :: string
  tool_Title :: string
  tool_ServerOrigin :: string
  tool_UserInteraction :: string
  tool_ValidateArguments :: bool
  tool_AutoExecute :: bool

definition UserInteractionSelect :: string where "UserInteractionSelect = ''select''"
definition UserInteractionConnect :: string where "UserInteractionConnect = ''connect''"

datatype ToolCallStatus =
  ToolCallStatusPending | ToolCallStatusAccepted | ToolCallStatusRejected
  | ToolCallStatusError | ToolCallStatusSuccess | ToolCallStatusAutoApproved
  | ToolCallStatusOther int

record ToolCall =
  tc_ID :: string
  tc_Name :: string
  tc_Description :: string
  tc_Arguments :: string
  tc_Result :: string
  tc_Status :: ToolCallStatus
  tc_MCPBareName :: string
  tc_Title :: string
  tc_UserInteraction :: string
  tc_WouldAutoExecute :: bool
  tc_ServerOrigin :: string

record ToolAuthError =
  ae_ServerName :: string
  ae_ServerOrigin :: string
  ae_AuthURL :: string
  ae_Error :: go_error

record ToolStore =
  ts_tools :: "Tool gomap"
  ts_unloadedMCPTools :: "Tool gomap"
  ts_authErrors :: "ToolAuthError list"

record ToolLookup =
  tl_Tool :: Tool
  tl_RuntimeName :: string
  tl_BareName :: string
  tl_ServerOrigin :: string

record ToolInfo =
  ti_Name :: string
  ti_Description :: string
  ti_ServerOrigin :: string

record EnabledMCPTool =
  emt_ServerOrigin :: string
  emt_ToolName :: string

section \<open>Names and origins\<close>

definition MCPServerToolWildcard :: string where "MCPServerToolWildcard = ''*''"
definition MCPToolNameSeparator :: string where "MCPToolNameSeparator = ''__''"

definition NamespaceMCPToolName :: "string \<Rightarrow> string \<Rightarrow> string" where
  "NamespaceMCPToolName serverSlug bareToolName =
     (if serverSlug = [] \<or> bareToolName = [] then bareToolName
      else serverSlug @ MCPToolNameSeparator @ bareToolName)"

definition BareMCPToolName :: "string \<Rightarrow> string" where
  "BareMCPToolName toolName =
     (case Cut MCPToolNameSeparator toolName of None \<Rightarrow> toolName | Some (_, bareName) \<Rightarrow> bareName)"

definition IsBareMCPToolName :: "string \<Rightarrow> bool" where
  "IsBareMCPToolName name \<longleftrightarrow> name \<noteq> [] \<and> BareMCPToolName name = name"

definition MCPToolNameMatches :: "string \<Rightarrow> string \<Rightarrow> bool" where
  "MCPToolNameMatches runtimeName configuredName \<longleftrightarrow>
     runtimeName = configuredName \<or> BareMCPToolName runtimeName = configuredName"

definition NormalizeMCPServerOrigin :: "string \<Rightarrow> string" where
  "NormalizeMCPServerOrigin origin = TrimRightChar (CHR ''/'') (TrimSpace origin)"

definition NormalizeMCPServerOrigins :: "string list \<Rightarrow> string list" where
  "NormalizeMCPServerOrigins origins =
     dedup [] (filter (\<lambda>o'. o' \<noteq> []) (map NormalizeMCPServerOrigin origins))"

section \<open>Store operations\<close>

definition NewToolStore :: ToolStore where
  "NewToolStore = \<lparr>ts_tools = [], ts_unloadedMCPTools = [], ts_authErrors = []\<rparr>"

fun AddTools :: "Tool list \<Rightarrow> ToolStore \<Rightarrow> ToolStore" where
  "AddTools [] s = s"
| "AddTools (t # ts) s =
     AddTools ts (s\<lparr>ts_tools := AList.update (tool_Name t) t (ts_tools s),
                    ts_unloadedMCPTools := AList.delete (tool_Name t) (ts_unloadedMCPTools s)\<rparr>)"

definition toolLookup :: "Tool \<Rightarrow> ToolLookup" where
  "toolLookup tool = \<lparr>tl_Tool = tool, tl_RuntimeName = tool_Name tool,
     tl_BareName = BareMCPToolName (tool_Name tool), tl_ServerOrigin = tool_ServerOrigin tool\<rparr>"

definition bare_match :: "string \<Rightarrow> string \<Rightarrow> string \<Rightarrow> Tool \<Rightarrow> bool" where
  "bare_match name serverOrigin toolName tool \<longleftrightarrow>
     \<not> (tool_ServerOrigin tool = [] \<or> BareMCPToolName toolName \<noteq> name)
     \<and> \<not> (serverOrigin \<noteq> [] \<and> tool_ServerOrigin tool \<noteq> serverOrigin)"

definition LookupTool :: "ToolStore option \<Rightarrow> string \<Rightarrow> string \<Rightarrow> ToolLookup option" where
  "LookupTool s name serverOrigin =
     (case s of
        None \<Rightarrow> None
      | Some st \<Rightarrow>
          if name = [] then None
          else (case map_of (ts_tools st) name of
                  Some tool \<Rightarrow>
                    if serverOrigin = [] \<or> tool_ServerOrigin tool = serverOrigin
                    then Some (toolLookup tool)
                    else if \<not> IsBareMCPToolName name then None
                    else map_option toolLookup (scan_unique (bare_match name serverOrigin) (ts_tools st) None)
                | None \<Rightarrow>
                    if \<not> IsBareMCPToolName name then None
                    else map_option toolLookup (scan_unique (bare_match name serverOrigin) (ts_tools st) None)))"

record EnrichToolCallOptions =
  eo_OverwriteDescription :: bool
  eo_BareNameFallback :: bool

definition EnrichToolCall :: "ToolCall \<Rightarrow> ToolStore option \<Rightarrow> EnrichToolCallOptions \<Rightarrow> ToolCall" where
  "EnrichToolCall tc store opts =
     (if store = None then tc
      else
        let lookup1 = LookupTool store (tc_Name tc) (tc_ServerOrigin tc);
            lookup = (if lookup1 = None \<and> eo_BareNameFallback opts \<and> tc_MCPBareName tc \<noteq> []
                      then LookupTool store (tc_MCPBareName tc) (tc_ServerOrigin tc) else lookup1)
        in case lookup of
             None \<Rightarrow> tc
           | Some l \<Rightarrow>
               let tool = tl_Tool l;
                   tc1 = (if eo_OverwriteDescription opts \<or> tc_Description tc = []
                          then tc\<lparr>tc_Description := tool_Description tool\<rparr> else tc);
                   tc2 = (if eo_OverwriteDescription opts \<or> tc_Title tc1 = []
                          then tc1\<lparr>tc_Title := tool_Title tool\<rparr> else tc1);
                   tc3 = tc2\<lparr>tc_UserInteraction := tool_UserInteraction tool\<rparr>;
                   tc4 = (if tc_ServerOrigin tc3 = []
                          then tc3\<lparr>tc_ServerOrigin := tl_ServerOrigin l\<rparr> else tc3)
               in if tc_MCPBareName tc4 = [] \<and> tl_ServerOrigin l \<noteq> []
                  then tc4\<lparr>tc_MCPBareName := tl_BareName l\<rparr> else tc4)"

definition lookupTool :: "ToolStore option \<Rightarrow> string \<Rightarrow> Tool option" where
  "lookupTool s name = map_option tl_Tool (LookupTool s name [])"

definition GetTool :: "ToolStore option \<Rightarrow> string \<Rightarrow> Tool option" where
  "GetTool s name = lookupTool s name"

definition GetTools :: "ToolStore \<Rightarrow> Tool list" where
  "GetTools s = map snd (ts_tools s)"

fun set_unloaded_loop :: "ToolStore \<Rightarrow> Tool list \<Rightarrow> Tool gomap \<Rightarrow> Tool gomap" where
  "set_unloaded_loop s [] m = m"
| "set_unloaded_loop s (t # ts) m =
     (if tool_Name t = [] \<or> GetTool (Some s) (tool_Name t) \<noteq> None then set_unloaded_loop s ts m
      else set_unloaded_loop s ts (AList.update (tool_Name t) t m))"

definition SetUnloadedMCPTools :: "Tool list \<Rightarrow> ToolStore \<Rightarrow> ToolStore" where
  "SetUnloadedMCPTools ts s =
     (if ts = [] then s\<lparr>ts_unloadedMCPTools := []\<rparr>
      else s\<lparr>ts_unloadedMCPTools := set_unloaded_loop s ts []\<rparr>)"

fun load_loop :: "string list \<Rightarrow> ToolStore \<Rightarrow> Tool list \<times> ToolStore" where
  "load_loop [] s = ([], s)"
| "load_loop (name # names) s =
     (case map_of (ts_unloadedMCPTools s) name of
        None \<Rightarrow> load_loop names s
      | Some tool \<Rightarrow>
          (let (loaded, s') = load_loop names
                 (s\<lparr>ts_tools := AList.update (tool_Name tool) tool (ts_tools s),
                    ts_unloadedMCPTools := AList.delete (tool_Name tool) (ts_unloadedMCPTools s)\<rparr>)
           in (tool # loaded, s')))"

definition LoadMCPTools :: "string list \<Rightarrow> ToolStore \<Rightarrow> Tool list \<times> ToolStore" where
  "LoadMCPTools names s =
     (if names = [] \<or> ts_unloadedMCPTools s = [] then ([], s) else load_loop names s)"

definition HasUnloadedMCPTools :: "ToolStore option \<Rightarrow> bool" where
  "HasUnloadedMCPTools s = (case s of None \<Rightarrow> False | Some st \<Rightarrow> ts_unloadedMCPTools st \<noteq> [])"

definition lookupUnloadedMCPTool :: "ToolStore \<Rightarrow> string \<Rightarrow> Tool option" where
  "lookupUnloadedMCPTool s name =
     (case map_of (ts_unloadedMCPTools s) name of
        Some tool \<Rightarrow> Some tool
      | None \<Rightarrow>
          if \<not> IsBareMCPToolName name then None
          else scan_unique (\<lambda>toolName tool. BareMCPToolName toolName = name) (ts_unloadedMCPTools s) None)"

definition IsUnloadedMCPTool :: "ToolStore option \<Rightarrow> string \<Rightarrow> bool" where
  "IsUnloadedMCPTool s name =
     (case s of None \<Rightarrow> False
      | Some st \<Rightarrow> if GetTool s name \<noteq> None then False else lookupUnloadedMCPTool st name \<noteq> None)"

definition toolInfo :: "Tool \<Rightarrow> ToolInfo" where
  "toolInfo t = \<lparr>ti_Name = tool_Name t, ti_Description = tool_Description t,
                 ti_ServerOrigin = tool_ServerOrigin t\<rparr>"

definition GetUnloadedMCPToolInfo :: "ToolStore option \<Rightarrow> string \<Rightarrow> ToolInfo option" where
  "GetUnloadedMCPToolInfo s name =
     (case s of None \<Rightarrow> None
      | Some st \<Rightarrow> if GetTool s name \<noteq> None then None
                  else map_option toolInfo (lookupUnloadedMCPTool st name))"

definition HasMCPToolFromOrigin :: "ToolStore option \<Rightarrow> string \<Rightarrow> (Tool \<Rightarrow> bool) \<Rightarrow> bool" where
  "HasMCPToolFromOrigin s origin keep =
     (case s of None \<Rightarrow> False
      | Some st \<Rightarrow>
          if TrimSpace origin = [] then False
          else list_ex (\<lambda>(_, tool). tool_ServerOrigin tool = origin \<and> keep tool)
                 (ts_tools st @ ts_unloadedMCPTools st))"

definition RemoveMCPToolsFromOrigin :: "string \<Rightarrow> ToolStore \<Rightarrow> ToolStore" where
  "RemoveMCPToolsFromOrigin origin s =
     (if TrimSpace origin = [] then s
      else s\<lparr>ts_tools := filter (\<lambda>(_, tool). tool_ServerOrigin tool \<noteq> origin) (ts_tools s),
             ts_unloadedMCPTools :=
               filter (\<lambda>(_, tool). tool_ServerOrigin tool \<noteq> origin) (ts_unloadedMCPTools s)\<rparr>)"

definition GetServerOrigin :: "ToolStore option \<Rightarrow> string \<Rightarrow> string" where
  "GetServerOrigin s toolName =
     (case lookupTool s toolName of None \<Rightarrow> [] | Some tool \<Rightarrow> tool_ServerOrigin tool)"

definition KeepToolsIf :: "(Tool \<Rightarrow> bool) \<Rightarrow> ToolStore \<Rightarrow> ToolStore" where
  "KeepToolsIf keep s = s\<lparr>ts_tools := filter (\<lambda>(_, tool). keep tool) (ts_tools s)\<rparr>"

definition RemoveToolsByServerOrigin :: "string list \<Rightarrow> ToolStore \<Rightarrow> ToolStore" where
  "RemoveToolsByServerOrigin disabledOrigins s =
     (let normalizedOrigins = NormalizeMCPServerOrigins disabledOrigins in
      if disabledOrigins = [] \<or> normalizedOrigins = [] then s
      else
        let dis = (\<lambda>(_, tool). List.member normalizedOrigins (NormalizeMCPServerOrigin (tool_ServerOrigin tool)))
        in s\<lparr>ts_tools := filter (\<lambda>kv. \<not> dis kv) (ts_tools s),
             ts_unloadedMCPTools := filter (\<lambda>kv. \<not> dis kv) (ts_unloadedMCPTools s)\<rparr>)"

section \<open>Allowlists\<close>

definition allow_key :: "string \<Rightarrow> string \<Rightarrow> string" where
  "allow_key origin name = origin @ [CHR 0x00] @ name"

text \<open>An allowlist map \<open>map[string]bool\<close> only ever holds true: it is the list of its keys.\<close>

definition mcpToolAllowed :: "Tool \<Rightarrow> string list \<Rightarrow> bool" where
  "mcpToolAllowed tool allowlist =
     (let origin = NormalizeMCPServerOrigin (tool_ServerOrigin tool) in
      if origin = [] then True
      else if List.member allowlist (allow_key origin (tool_Name tool)) then True
      else List.member allowlist (allow_key origin (BareMCPToolName (tool_Name tool))))"

definition FilterMCPToolsByAllowlist :: "Tool list \<Rightarrow> string list \<Rightarrow> Tool list" where
  "FilterMCPToolsByAllowlist tools allowlist =
     (if tools = [] then tools else filter (\<lambda>t. mcpToolAllowed t allowlist) tools)"

definition mcpToolAllowlist :: "Tool list \<Rightarrow> EnabledMCPTool list \<Rightarrow> string list" where
  "mcpToolAllowlist tools allowlist =
     (let allowed = map (\<lambda>t. allow_key (NormalizeMCPServerOrigin (emt_ServerOrigin t)) (emt_ToolName t))
                      (filter (\<lambda>t. emt_ToolName t \<noteq> MCPServerToolWildcard) allowlist);
          wildcardOrigins = map (\<lambda>t. NormalizeMCPServerOrigin (emt_ServerOrigin t))
                      (filter (\<lambda>t. emt_ToolName t = MCPServerToolWildcard) allowlist)
      in allowed @
         map (\<lambda>tool. allow_key (NormalizeMCPServerOrigin (tool_ServerOrigin tool)) (tool_Name tool))
           (filter (\<lambda>tool. List.member wildcardOrigins (NormalizeMCPServerOrigin (tool_ServerOrigin tool))) tools))"

definition FilterMCPToolsByEnabledAllowlist :: "Tool list \<Rightarrow> EnabledMCPTool list \<Rightarrow> Tool list" where
  "FilterMCPToolsByEnabledAllowlist tools allowlist =
     (if tools = [] then tools else FilterMCPToolsByAllowlist tools (mcpToolAllowlist tools allowlist))"

definition RetainOnlyMCPTools :: "EnabledMCPTool list \<Rightarrow> ToolStore \<Rightarrow> ToolStore" where
  "RetainOnlyMCPTools allowlist s =
     (let allowed = mcpToolAllowlist (GetTools s) allowlist
      in s\<lparr>ts_tools := filter (\<lambda>(_, tool). mcpToolAllowed tool allowed) (ts_tools s)\<rparr>)"

definition GetToolsInfo :: "ToolStore option \<Rightarrow> ToolInfo list" where
  "GetToolsInfo s = (case s of None \<Rightarrow> [] | Some st \<Rightarrow> map (\<lambda>(_, tool). toolInfo tool) (ts_tools st))"

definition AddAuthError :: "ToolAuthError \<Rightarrow> ToolStore \<Rightarrow> ToolStore" where
  "AddAuthError e s = s\<lparr>ts_authErrors := ts_authErrors s @ [e]\<rparr>"

section \<open>Name lemmas\<close>

lemma Bare_no_separator: "\<not> Contains n MCPToolNameSeparator \<Longrightarrow> BareMCPToolName n = n"
  by (simp add: BareMCPToolName_def Cut_None_iff [THEN iffD2])

lemma length_BareMCPToolName: "length (BareMCPToolName n) \<le> length n"
  by (auto simp: BareMCPToolName_def split: option.splits dest: Cut_Some_append)

lemma IsBare_iff: "IsBareMCPToolName n \<longleftrightarrow> n \<noteq> [] \<and> \<not> Contains n MCPToolNameSeparator"
proof (cases "Cut MCPToolNameSeparator n")
  case None
  then show ?thesis
    using Cut_None_iff [of MCPToolNameSeparator n] by (simp add: IsBareMCPToolName_def BareMCPToolName_def)
next
  case (Some p)
  obtain b a where p: "p = (b, a)" by force
  with Some have n: "n = b @ MCPToolNameSeparator @ a" by (simp add: Cut_Some_append)
  then have "length a < length n" by (simp add: MCPToolNameSeparator_def)
  then have "a \<noteq> n" by blast
  moreover have "Contains n MCPToolNameSeparator" using Some Cut_None_iff by (metis option.distinct(1))
  ultimately show ?thesis using Some p by (auto simp: IsBareMCPToolName_def BareMCPToolName_def)
qed

lemma prefix_sep_append:
  assumes "k < length slug" "prefix MCPToolNameSeparator (drop k slug @ MCPToolNameSeparator @ bare)"
  shows "Contains slug MCPToolNameSeparator \<or> HasSuffix slug ''_''"
proof -
  have ne: "drop k slug \<noteq> []" using assms(1) by simp
  consider c where "drop k slug = [c]" | c d r where "drop k slug = c # d # r"
    using ne by (metis neq_Nil_conv)
  then show ?thesis
  proof cases
    case (1 c)
    with assms(2) have "c = CHR ''_''" by (simp add: MCPToolNameSeparator_def)
    with 1 have "HasSuffix slug ''_''" by (metis suffix_drop)
    then show ?thesis by simp
  next
    case (2 c d r)
    with assms(2) have "drop k slug = MCPToolNameSeparator @ r" by (auto simp: MCPToolNameSeparator_def)
    then have "Contains slug MCPToolNameSeparator"
      by (metis append_take_drop_id sublist_appendI)
    then show ?thesis by simp
  qed
qed

text \<open>
  The bare name of a namespaced tool is the name the server declared exactly when the server
  slug neither contains the separator nor ends with an underscore.
\<close>

theorem Bare_Namespace_roundtrip:
  assumes "serverSlug \<noteq> []" "bareToolName \<noteq> []"
  shows "BareMCPToolName (NamespaceMCPToolName serverSlug bareToolName) = bareToolName
     \<longleftrightarrow> \<not> Contains serverSlug MCPToolNameSeparator \<and> \<not> HasSuffix serverSlug ''_''"
proof
  assume "\<not> Contains serverSlug MCPToolNameSeparator \<and> \<not> HasSuffix serverSlug ''_''"
  then have "Cut MCPToolNameSeparator (serverSlug @ MCPToolNameSeparator @ bareToolName)
      = Some (serverSlug, bareToolName)"
    by (intro Cut_append) (use prefix_sep_append in \<open>auto simp: MCPToolNameSeparator_def\<close>)
  with assms show "BareMCPToolName (NamespaceMCPToolName serverSlug bareToolName) = bareToolName"
    by (simp add: BareMCPToolName_def NamespaceMCPToolName_def)
next
  assume round: "BareMCPToolName (NamespaceMCPToolName serverSlug bareToolName) = bareToolName"
  let ?n = "serverSlug @ MCPToolNameSeparator @ bareToolName"
  have "Contains ?n MCPToolNameSeparator" by auto
  then obtain b a where cut: "Cut MCPToolNameSeparator ?n = Some (b, a)"
    using Cut_None_iff by (metis not_None_eq prod.exhaust)
  with round assms have "a = bareToolName"
    by (simp add: BareMCPToolName_def NamespaceMCPToolName_def)
  with cut have b: "b = serverSlug" using Cut_Some_append [OF cut] by simp
  have "\<not> Contains serverSlug MCPToolNameSeparator"
  proof
    assume "Contains serverSlug MCPToolNameSeparator"
    then obtain ps ss where "serverSlug = ps @ MCPToolNameSeparator @ ss" by (auto simp: sublist_def)
    then show False
      using Cut_first [OF cut, of ps "ss @ MCPToolNameSeparator"] b by (simp add: MCPToolNameSeparator_def)
  qed
  moreover have "\<not> HasSuffix serverSlug ''_''"
  proof
    assume "HasSuffix serverSlug ''_''"
    then obtain zs where "serverSlug = zs @ ''_''" by (auto simp: suffix_def)
    then show False
      using Cut_first [OF cut, of zs "''_''"] b by (simp add: MCPToolNameSeparator_def)
  qed
  ultimately show "\<not> Contains serverSlug MCPToolNameSeparator \<and> \<not> HasSuffix serverSlug ''_''" by blast
qed

lemma Bare_Namespace_roundtrip_witness:
  "BareMCPToolName (NamespaceMCPToolName ''jira'' ''get_issue'') = ''get_issue''
     \<longleftrightarrow> \<not> Contains ''jira'' MCPToolNameSeparator \<and> \<not> HasSuffix ''jira'' ''_''"
  by (rule Bare_Namespace_roundtrip) simp_all

section \<open>Lookup\<close>

lemma LookupTool_None [simp]: "LookupTool None n orig = None"
  by (simp add: LookupTool_def)

lemma LookupTool_Nil [simp]: "LookupTool s [] orig = None"
  by (simp add: LookupTool_def split: option.splits)

lemma toolLookup_simps [simp]:
  "tl_Tool (toolLookup t) = t" "tl_RuntimeName (toolLookup t) = tool_Name t"
  "tl_ServerOrigin (toolLookup t) = tool_ServerOrigin t"
  "tl_BareName (toolLookup t) = BareMCPToolName (tool_Name t)"
  by (simp_all add: toolLookup_def)

lemma LookupTool_cases:
  assumes "LookupTool (Some st) name orig = Some l"
  obtains (exact) t where "map_of (ts_tools st) name = Some t" "l = toolLookup t"
      "orig = [] \<or> tool_ServerOrigin t = orig"
  | (bare) k t where "(k, t) \<in> set (ts_tools st)" "l = toolLookup t" "IsBareMCPToolName name"
      "BareMCPToolName k = name" "tool_ServerOrigin t \<noteq> []" "orig = [] \<or> tool_ServerOrigin t = orig"
proof -
  have scan: thesis
    if "map_option toolLookup (scan_unique (bare_match name orig) (ts_tools st) None) = Some l"
      "IsBareMCPToolName name"
  proof -
    from that obtain t where t: "scan_unique (bare_match name orig) (ts_tools st) None = Some t"
      "l = toolLookup t" by auto
    from scan_unique_SomeD [OF t(1)] obtain k where
      k: "(k, t) \<in> set (ts_tools st)" "bare_match name orig k t" by blast
    then have "BareMCPToolName k = name" "tool_ServerOrigin t \<noteq> []"
      "orig = [] \<or> tool_ServerOrigin t = orig" by (auto simp: bare_match_def)
    with k t that(2) show thesis by (intro bare [of k t]) simp_all
  qed
  show thesis
  proof (cases "map_of (ts_tools st) name")
    case None
    with assms show thesis by (intro scan) (auto simp: LookupTool_def split: if_splits)
  next
    case (Some t)
    show thesis
    proof (cases "orig = [] \<or> tool_ServerOrigin t = orig")
      case True
      with assms Some have "l = toolLookup t" by (auto simp: LookupTool_def split: if_splits)
      with Some True show thesis by (intro exact [of t]) auto
    next
      case False
      with assms Some show thesis by (intro scan) (auto simp: LookupTool_def split: if_splits)
    qed
  qed
qed

lemma LookupTool_origin:
  "LookupTool s name orig = Some l \<Longrightarrow> orig = [] \<or> tl_ServerOrigin l = orig"
  by (cases s) (auto elim: LookupTool_cases)

lemma LookupTool_stored:
  "LookupTool (Some st) name orig = Some l \<Longrightarrow> \<exists>k. (k, tl_Tool l) \<in> set (ts_tools st) \<and> l = toolLookup (tl_Tool l)"
  by (elim LookupTool_cases) (auto dest: map_of_SomeD)

text \<open>
  A lookup does not depend on the order Go's map iteration visits the tools in.
\<close>

theorem LookupTool_order_independent:
  assumes "same_map (ts_tools s) (ts_tools t)"
  shows "LookupTool (Some s) name serverOrigin = LookupTool (Some t) name serverOrigin"
proof -
  have scan: "scan_unique P (ts_tools s) None = scan_unique P (ts_tools t) None" for P
    by (rule scan_unique_same_map [OF assms])
  have exact: "map_of (ts_tools s) name = map_of (ts_tools t) name"
    using same_map_map_of [OF assms] by simp
  show ?thesis
    by (cases "map_of (ts_tools t) name") (simp_all add: LookupTool_def exact scan)
qed

definition example_tool :: "string \<Rightarrow> string \<Rightarrow> Tool" where
  "example_tool n orig = \<lparr>tool_Name = n, tool_Description = [], tool_Title = [], tool_ServerOrigin = orig,
     tool_UserInteraction = [], tool_ValidateArguments = False, tool_AutoExecute = False\<rparr>"

lemma LookupTool_order_independent_witness:
  "LookupTool (Some (NewToolStore\<lparr>ts_tools := [(''a__x'', example_tool ''a__x'' ''A''), (''b__x'', example_tool ''b__x'' ''B'')]\<rparr>)) ''x'' ''B''
   = LookupTool (Some (NewToolStore\<lparr>ts_tools := [(''b__x'', example_tool ''b__x'' ''B''), (''a__x'', example_tool ''a__x'' ''A'')]\<rparr>)) ''x'' ''B''"
  by (rule LookupTool_order_independent) (auto simp: same_map_def)

section \<open>Store invariant\<close>

text \<open>
  Every tool is stored under its own name, no name is both loaded and unloaded, and an unloaded
  tool has a name.
\<close>

definition names_ok :: "Tool gomap \<Rightarrow> bool" where
  "names_ok m \<longleftrightarrow> wf_map m \<and> (\<forall>(k, t) \<in> set m. tool_Name t = k)"

definition store_ok :: "ToolStore \<Rightarrow> bool" where
  "store_ok s \<longleftrightarrow> names_ok (ts_tools s) \<and> names_ok (ts_unloadedMCPTools s)
     \<and> fst ` set (ts_tools s) \<inter> fst ` set (ts_unloadedMCPTools s) = {}
     \<and> [] \<notin> fst ` set (ts_unloadedMCPTools s)"

lemma set_update_wf: "wf_map m \<Longrightarrow> set (AList.update k v m) = {p \<in> set m. fst p \<noteq> k} \<union> {(k, v)}"
  by (induction m) (auto simp: image_iff)

lemma keys_delete: "set (AList.delete k m) = {p \<in> set m. fst p \<noteq> k}"
  by (auto simp: AList.delete_eq)

lemma names_ok_update: "names_ok m \<Longrightarrow> tool_Name t = k \<Longrightarrow> names_ok (AList.update k t m)"
  by (auto simp: names_ok_def set_update_wf)

lemma names_ok_delete: "names_ok m \<Longrightarrow> names_ok (AList.delete k m)"
  by (auto simp: names_ok_def keys_delete)

lemma names_ok_filter: "names_ok m \<Longrightarrow> names_ok (filter P m)"
  by (auto simp: names_ok_def)

lemma names_ok_Nil [simp]: "names_ok []"
  by (simp add: names_ok_def)

lemma store_ok_move:
  assumes "store_ok s" "tool_Name t = k"
  shows "store_ok (s\<lparr>ts_tools := AList.update k t (ts_tools s),
                     ts_unloadedMCPTools := AList.delete k (ts_unloadedMCPTools s)\<rparr>)"
proof -
  have "wf_map (ts_tools s)" using assms by (simp add: store_ok_def names_ok_def)
  with assms show ?thesis
    by (auto simp: store_ok_def names_ok_update names_ok_delete set_update_wf keys_delete)
qed

lemma store_ok_filter:
  "store_ok s \<Longrightarrow> store_ok (s\<lparr>ts_tools := filter P (ts_tools s), ts_unloadedMCPTools := filter Q (ts_unloadedMCPTools s)\<rparr>)"
  by (auto simp: store_ok_def names_ok_filter)

lemma store_ok_filter_tools:
  "store_ok s \<Longrightarrow> store_ok (s\<lparr>ts_tools := filter P (ts_tools s)\<rparr>)"
  by (auto simp: store_ok_def names_ok_filter)

lemma store_ok_AddTools: "store_ok s \<Longrightarrow> store_ok (AddTools ts s)"
  by (induction ts s rule: AddTools.induct) (simp_all add: store_ok_move)

lemma GetTool_key:
  assumes "map_of (ts_tools s) name = Some t" "name \<noteq> []"
  shows "GetTool (Some s) name \<noteq> None"
  using assms by (simp add: GetTool_def lookupTool_def LookupTool_def)

lemma set_unloaded_loop_ok:
  assumes "names_ok m" "\<And>k. k \<in> fst ` set m \<Longrightarrow> k \<noteq> [] \<and> map_of (ts_tools s) k = None"
  shows "names_ok (set_unloaded_loop s ts m) \<and>
    (\<forall>k \<in> fst ` set (set_unloaded_loop s ts m). k \<noteq> [] \<and> map_of (ts_tools s) k = None)"
  using assms
proof (induction s ts m rule: set_unloaded_loop.induct)
  case (2 s t ts m)
  show ?case
  proof (cases "tool_Name t = [] \<or> GetTool (Some s) (tool_Name t) \<noteq> None")
    case True
    with 2 show ?thesis by simp
  next
    case False
    then have new: "tool_Name t \<noteq> [] \<and> map_of (ts_tools s) (tool_Name t) = None"
      using GetTool_key by fastforce
    have wf: "wf_map m" using 2 by (simp add: names_ok_def)
    have keys: "k \<noteq> [] \<and> map_of (ts_tools s) k = None"
      if "k \<in> fst ` set (AList.update (tool_Name t) t m)" for k
      using that new 2(4) by (auto simp: set_update_wf [OF wf])
    from 2(2) [OF False names_ok_update [OF 2(3) refl] keys] False show ?thesis by simp
  qed
qed simp

lemma store_ok_SetUnloaded:
  assumes "store_ok s" shows "store_ok (SetUnloadedMCPTools ts s)"
proof -
  have "names_ok (set_unloaded_loop s ts []) \<and>
    (\<forall>k \<in> fst ` set (set_unloaded_loop s ts []). k \<noteq> [] \<and> map_of (ts_tools s) k = None)"
    by (rule set_unloaded_loop_ok) auto
  then have loop: "names_ok (set_unloaded_loop s ts [])" "[] \<notin> fst ` set (set_unloaded_loop s ts [])"
    "fst ` set (ts_tools s) \<inter> fst ` set (set_unloaded_loop s ts []) = {}"
    by (auto simp only: map_of_eq_None_iff)
  with assms show ?thesis
    by (simp add: SetUnloadedMCPTools_def store_ok_def)
qed

lemma store_ok_load_loop: "store_ok s \<Longrightarrow> store_ok (snd (load_loop names s))"
proof (induction names s rule: load_loop.induct)
  case (2 name names s)
  show ?case
  proof (cases "map_of (ts_unloadedMCPTools s) name")
    case None
    with 2 show ?thesis by simp
  next
    case (Some t)
    from 2(2) [OF Some store_ok_move [OF 2(3)]] Some show ?thesis
      by (simp add: case_prod_beta)
  qed
qed simp

lemma store_ok_LoadMCPTools: "store_ok s \<Longrightarrow> store_ok (snd (LoadMCPTools names s))"
  by (simp add: LoadMCPTools_def store_ok_load_loop)

text \<open>The stores a program can build with the exported operations.\<close>

inductive reachable_store :: "ToolStore \<Rightarrow> bool" where
  new: "reachable_store NewToolStore"
| add: "reachable_store s \<Longrightarrow> reachable_store (AddTools ts s)"
| set_unloaded: "reachable_store s \<Longrightarrow> reachable_store (SetUnloadedMCPTools ts s)"
| load: "reachable_store s \<Longrightarrow> reachable_store (snd (LoadMCPTools names s))"
| remove_origin: "reachable_store s \<Longrightarrow> reachable_store (RemoveMCPToolsFromOrigin orig s)"
| keep: "reachable_store s \<Longrightarrow> reachable_store (KeepToolsIf P s)"
| remove_disabled: "reachable_store s \<Longrightarrow> reachable_store (RemoveToolsByServerOrigin ors s)"
| retain: "reachable_store s \<Longrightarrow> reachable_store (RetainOnlyMCPTools al s)"
| auth: "reachable_store s \<Longrightarrow> reachable_store (AddAuthError e s)"

lemma reachable_store_invariant: "reachable_store s \<Longrightarrow> store_ok s"
proof (induction rule: reachable_store.induct)
  case new
  show ?case by (simp add: store_ok_def NewToolStore_def)
next
  case (auth s e)
  then show ?case by (simp add: store_ok_def AddAuthError_def)
qed (simp_all add: store_ok_AddTools store_ok_SetUnloaded store_ok_LoadMCPTools RemoveMCPToolsFromOrigin_def
    KeepToolsIf_def RemoveToolsByServerOrigin_def RetainOnlyMCPTools_def Let_def store_ok_filter store_ok_filter_tools)

text \<open>
  Whatever sequence of operations built a tool store, each tool is stored under its own
  name, no tool is loaded and unloaded at once, and no unloaded tool is nameless.
\<close>

theorem reachable_store_ok: "reachable_store s \<Longrightarrow> store_ok s"
  by (rule reachable_store_invariant)

lemma reachable_store_ok_witness:
  "store_ok (snd (LoadMCPTools [''a__x''] (SetUnloadedMCPTools [example_tool ''a__x'' ''A''] NewToolStore)))"
  by (rule reachable_store_ok) (intro reachable_store.intros)

section \<open>Allowlists\<close>

text \<open>Allowlist keys are unambiguous as long as no origin holds a NUL byte.\<close>

lemma allow_key_inject:
  assumes "CHR 0x00 \<notin> set o1" "CHR 0x00 \<notin> set o2"
  shows "allow_key o1 n1 = allow_key o2 n2 \<longleftrightarrow> o1 = o2 \<and> n1 = n2"
  using assms
proof (induction o1 arbitrary: o2)
  case Nil
  then show ?case by (cases o2) (auto simp: allow_key_def)
next
  case (Cons c o1)
  then show ?case by (cases o2) (auto simp: allow_key_def)
qed

definition entry_allows :: "EnabledMCPTool \<Rightarrow> Tool \<Rightarrow> bool" where
  "entry_allows e tool \<longleftrightarrow>
     NormalizeMCPServerOrigin (emt_ServerOrigin e) = NormalizeMCPServerOrigin (tool_ServerOrigin tool)
     \<and> (emt_ToolName e = MCPServerToolWildcard \<or> emt_ToolName e = tool_Name tool
        \<or> emt_ToolName e = BareMCPToolName (tool_Name tool))"

lemma wildcard_not_bare [simp]: "allow_key a b = allow_key a c \<longleftrightarrow> b = c"
  by (simp add: allow_key_def)

lemma mcpToolAllowed_iff:
  "mcpToolAllowed tool al \<longleftrightarrow>
     NormalizeMCPServerOrigin (tool_ServerOrigin tool) = []
     \<or> allow_key (NormalizeMCPServerOrigin (tool_ServerOrigin tool)) (tool_Name tool) \<in> set al
     \<or> allow_key (NormalizeMCPServerOrigin (tool_ServerOrigin tool)) (BareMCPToolName (tool_Name tool)) \<in> set al"
  by (simp add: mcpToolAllowed_def Let_def)

lemma allow_key_in_allowlist:
  assumes "\<And>e. e \<in> set al \<Longrightarrow> CHR 0x00 \<notin> set (NormalizeMCPServerOrigin (emt_ServerOrigin e))"
    and "\<And>t. t \<in> set tools \<Longrightarrow> CHR 0x00 \<notin> set (NormalizeMCPServerOrigin (tool_ServerOrigin t))"
    and "CHR 0x00 \<notin> set orig"
  shows "allow_key orig n \<in> set (mcpToolAllowlist tools al) \<longleftrightarrow>
     (\<exists>e \<in> set al. NormalizeMCPServerOrigin (emt_ServerOrigin e) = orig \<and>
        ((emt_ToolName e \<noteq> MCPServerToolWildcard \<and> emt_ToolName e = n)
         \<or> (emt_ToolName e = MCPServerToolWildcard \<and>
            (\<exists>t \<in> set tools. NormalizeMCPServerOrigin (tool_ServerOrigin t) = orig \<and> tool_Name t = n))))"
  using assms by (auto simp: mcpToolAllowlist_def Let_def image_iff allow_key_inject)

text \<open>
  C35: filtering by the agent's allowlist keeps exactly the built-in tools and the MCP tools
  an entry of the same server allows, by wildcard, by runtime name or by bare name.
\<close>

theorem FilterMCPToolsByEnabledAllowlist_spec:
  assumes "\<And>e. e \<in> set al \<Longrightarrow> CHR 0x00 \<notin> set (NormalizeMCPServerOrigin (emt_ServerOrigin e))"
    and "\<And>t. t \<in> set tools \<Longrightarrow> CHR 0x00 \<notin> set (NormalizeMCPServerOrigin (tool_ServerOrigin t))"
  shows "FilterMCPToolsByEnabledAllowlist tools al =
     filter (\<lambda>t. NormalizeMCPServerOrigin (tool_ServerOrigin t) = [] \<or> (\<exists>e \<in> set al. entry_allows e t)) tools"
proof -
  have "mcpToolAllowed t (mcpToolAllowlist tools al) \<longleftrightarrow>
      NormalizeMCPServerOrigin (tool_ServerOrigin t) = [] \<or> (\<exists>e \<in> set al. entry_allows e t)"
    if t: "t \<in> set tools" for t
    unfolding mcpToolAllowed_iff
      allow_key_in_allowlist [of al tools, OF assms(1) assms(2) assms(2) [OF t], simplified]
    using t by (auto simp: entry_allows_def)
  then show ?thesis
    by (auto simp: FilterMCPToolsByEnabledAllowlist_def FilterMCPToolsByAllowlist_def intro!: filter_cong)
qed

lemma FilterMCPToolsByEnabledAllowlist_spec_witness:
  "FilterMCPToolsByEnabledAllowlist
     [example_tool ''search'' [], example_tool ''jira__get'' ''J'', example_tool ''gh__get'' ''G'']
     [\<lparr>emt_ServerOrigin = ''J/'', emt_ToolName = ''get''\<rparr>]
   = filter (\<lambda>t. NormalizeMCPServerOrigin (tool_ServerOrigin t) = []
        \<or> (\<exists>e \<in> set [\<lparr>emt_ServerOrigin = ''J/'', emt_ToolName = ''get''\<rparr>]. entry_allows e t))
     [example_tool ''search'' [], example_tool ''jira__get'' ''J'', example_tool ''gh__get'' ''G'']"
proof (rule FilterMCPToolsByEnabledAllowlist_spec)
  fix e :: EnabledMCPTool
  assume "e \<in> set [\<lparr>emt_ServerOrigin = ''J/'', emt_ToolName = ''get''\<rparr>]"
  then show "CHR 0x00 \<notin> set (NormalizeMCPServerOrigin (emt_ServerOrigin e))"
    by (simp, code_simp)
next
  fix t
  assume "t \<in> set [example_tool ''search'' [], example_tool ''jira__get'' ''J'', example_tool ''gh__get'' ''G'']"
  then show "CHR 0x00 \<notin> set (NormalizeMCPServerOrigin (tool_ServerOrigin t))"
    by (simp add: example_tool_def, elim disjE; simp; code_simp)
qed

text \<open>
  After a user disables MCP servers, the store holds no tool of theirs, loaded or
  not, and keeps every other tool.
\<close>

theorem RemoveToolsByServerOrigin_spec:
  "set (GetTools (RemoveToolsByServerOrigin dis s)) =
     {t \<in> set (GetTools s). \<not> (NormalizeMCPServerOrigin (tool_ServerOrigin t) \<noteq> []
        \<and> NormalizeMCPServerOrigin (tool_ServerOrigin t) \<in> NormalizeMCPServerOrigin ` set dis)}
   \<and> ts_unloadedMCPTools (RemoveToolsByServerOrigin dis s) =
     filter (\<lambda>(k, t). \<not> (NormalizeMCPServerOrigin (tool_ServerOrigin t) \<noteq> []
        \<and> NormalizeMCPServerOrigin (tool_ServerOrigin t) \<in> NormalizeMCPServerOrigin ` set dis))
       (ts_unloadedMCPTools s)"
proof -
  let ?n = "NormalizeMCPServerOrigins dis"
  have n: "set ?n = NormalizeMCPServerOrigin ` set dis - {[]}"
    by (auto simp: NormalizeMCPServerOrigins_def set_dedup)
  have dis: "\<not> (x \<noteq> [] \<and> x \<in> NormalizeMCPServerOrigin ` set dis) \<longleftrightarrow> x \<notin> set ?n" for x
    using n by auto
  show ?thesis
    unfolding dis
    by (auto simp: RemoveToolsByServerOrigin_def Let_def GetTools_def NormalizeMCPServerOrigins_def
        intro!: filter_cong)
qed

section \<open>The registry interface\<close>

text \<open>
  What the code that runs tools relies on: a lookup answers for the origin it was asked for,
  a tool that must be loaded first is not found, and looking a found tool up again by the name it
  runs under finds the same tool.
\<close>

locale tool_registry =
  fixes well_formed :: "'s \<Rightarrow> bool"
    and lookup :: "'s \<Rightarrow> string \<Rightarrow> string \<Rightarrow> ToolLookup option"
    and unloaded :: "'s \<Rightarrow> string \<Rightarrow> bool"
  assumes lookup_origin: "lookup s n orig = Some l \<Longrightarrow> orig = [] \<or> tl_ServerOrigin l = orig"
    and unloaded_missing: "unloaded s n \<Longrightarrow> lookup s n [] = None"
    and lookup_runtime: "well_formed s \<Longrightarrow> lookup s n orig = Some l \<Longrightarrow> lookup s (tl_RuntimeName l) [] = Some l"
begin

lemma lookup_once:
  "well_formed s \<Longrightarrow> lookup s n orig = Some l \<Longrightarrow>
   map_option tl_Tool (lookup s (tl_RuntimeName l) []) = Some (tl_Tool l)"
  by (simp add: lookup_runtime)

lemma found_not_unloaded:
  "well_formed s \<Longrightarrow> lookup s n orig = Some l \<Longrightarrow> \<not> unloaded s (tl_RuntimeName l)"
  using lookup_runtime unloaded_missing by fastforce

lemma other_origin_hidden:
  "orig \<noteq> [] \<Longrightarrow> orig' \<noteq> [] \<Longrightarrow> orig \<noteq> orig' \<Longrightarrow> lookup s n orig = Some l \<Longrightarrow> lookup s n orig' \<noteq> Some l"
  using lookup_origin [of s n orig l] lookup_origin [of s n orig' l] by auto

end

lemma IsUnloaded_missing: "IsUnloadedMCPTool s n \<Longrightarrow> LookupTool s n [] = None"
  by (cases s) (auto simp: IsUnloadedMCPTool_def GetTool_def lookupTool_def split: if_splits)

lemma Bare_Nil: "BareMCPToolName [] = []"
  using length_BareMCPToolName [of "[]"] by simp

lemma LookupTool_runtime:
  assumes "store_ok st" "LookupTool (Some st) n orig = Some l"
  shows "LookupTool (Some st) (tl_RuntimeName l) [] = Some l"
proof -
  have wf: "wf_map (ts_tools st)" and names: "\<And>k t. (k, t) \<in> set (ts_tools st) \<Longrightarrow> tool_Name t = k"
    using assms(1) by (auto simp: store_ok_def names_ok_def)
  have found: "LookupTool (Some st) (tool_Name t) [] = Some (toolLookup t)"
    if "(k, t) \<in> set (ts_tools st)" "k \<noteq> []" for k t
  proof -
    have "map_of (ts_tools st) k = Some t" using that map_of_wf_in [OF wf] by blast
    with that names [OF that(1)] show ?thesis by (simp add: LookupTool_def)
  qed
  have n: "n \<noteq> []" using assms(2) by auto
  from assms(2) show ?thesis
  proof (cases rule: LookupTool_cases)
    case (exact t)
    then have "(n, t) \<in> set (ts_tools st)" by (simp add: map_of_SomeD)
    with found n exact show ?thesis by simp
  next
    case (bare k t)
    have "k \<noteq> []" using bare n Bare_Nil by auto
    with found bare show ?thesis by simp
  qed
qed

interpretation store: tool_registry
  "\<lambda>s. case s of None \<Rightarrow> True | Some st \<Rightarrow> store_ok st" LookupTool IsUnloadedMCPTool
proof
  fix s n orig l
  show "LookupTool s n orig = Some l \<Longrightarrow> orig = [] \<or> tl_ServerOrigin l = orig" by (rule LookupTool_origin)
  show "IsUnloadedMCPTool s n \<Longrightarrow> LookupTool s n [] = None" by (rule IsUnloaded_missing)
  assume "case s of None \<Rightarrow> True | Some st \<Rightarrow> store_ok st" "LookupTool s n orig = Some l"
  then show "LookupTool s (tl_RuntimeName l) [] = Some l"
    by (cases s) (auto simp: LookupTool_runtime)
qed

end
