(* ===== verification/Llm_Posts.thy ===== *)
theory Llm_Posts
  imports Turn_Sequence Tool_Store
begin

text \<open>
  The posts of a completion request: token estimates (\<open>src/llm/estimate.go\<close>), truncation to
  the context window (\<open>src/llm/completion_request.go\<close>, \<open>src/llm/truncation.go\<close>) and the
  tool retry limits (\<open>src/llm/tool_retry.go\<close>).

  The token counter is an argument, as in the source; \<open>EstimateTokens\<close> and the provider's own
  counter are its instances. Floats appear only in two estimates, written here as the integer
  quotients they compute for every length below 2^45.
\<close>

section \<open>Posts\<close>

record File =
  fl_MimeType :: string
  fl_Size :: int
  fl_Data :: string

definition IsSupportedImageMimeType :: "string \<Rightarrow> bool" where
  "IsSupportedImageMimeType mimeType \<longleftrightarrow>
     List.member [''image/jpeg'', ''image/png'', ''image/gif'', ''image/webp''] mimeType"

datatype PostRole = PostRoleUser | PostRoleBot | PostRoleSystem | PostRoleOther int

record Post =
  p_Role :: PostRole
  p_Message :: string
  p_Files :: "File list"
  p_ToolUse :: "ToolCall list"
  p_Reasoning :: string
  p_ReasoningSignature :: string
  p_ServerTools :: "ServerToolUse list"
  p_AssistantSegments :: "TurnSegment list"

definition mkPost :: "PostRole \<Rightarrow> string \<Rightarrow> Post" where
  "mkPost role message = \<lparr>p_Role = role, p_Message = message, p_Files = [], p_ToolUse = [],
     p_Reasoning = [], p_ReasoningSignature = [], p_ServerTools = [], p_AssistantSegments = []\<rparr>"

definition TruncatedHistoryNote :: string where
  "TruncatedHistoryNote = ''[Earlier messages in this conversation were omitted to fit the context window.]''"

definition TruncatedMessagePrefix :: string where
  "TruncatedMessagePrefix = ''['' @ [CHR 0xE2, CHR 0x80, CHR 0xA6] @ ''truncated] ''"

section \<open>Token estimates\<close>

text \<open>
  \<open>int((len/4.0 + words/0.75) / 2.0)\<close>: the quotient is \<open>(3*len + 16*words) / 24\<close>, and the
  float division by 0.75 is exact whenever that quotient is an integer.
\<close>

definition EstimateTokens :: "string \<Rightarrow> int" where
  "EstimateTokens text = int ((3 * length text + 16 * count_fields False text) div 24)"

definition postTokens :: "(string \<Rightarrow> int) \<Rightarrow> Post \<Rightarrow> int" where
  "postTokens countTokens post =
     countTokens (p_Message post)
     + (\<Sum>tc \<leftarrow> p_ToolUse post. countTokens (tc_Arguments tc) + countTokens (tc_Result tc))"

section \<open>Truncation\<close>

definition isTruncatedHistoryNote :: "Post \<Rightarrow> bool" where
  "isTruncatedHistoryNote post \<longleftrightarrow>
     p_Role post = PostRoleUser \<and> p_Message post = TruncatedHistoryNote \<and> p_ToolUse post = []"

abbreviation note_post :: Post where
  "note_post \<equiv> mkPost PostRoleUser TruncatedHistoryNote"

text \<open>The insertion loop: the index of the first non-system post, or the end.\<close>

definition withTruncatedHistoryNote :: "Post list \<Rightarrow> Post list" where
  "withTruncatedHistoryNote posts =
     (if list_ex isTruncatedHistoryNote posts then posts
      else takeWhile (\<lambda>p. p_Role p = PostRoleSystem) posts @ note_post
             # dropWhile (\<lambda>p. p_Role p = PostRoleSystem) posts)"

definition RuneStart :: "char \<Rightarrow> bool" where
  "RuneStart b \<longleftrightarrow> (of_char b :: nat) div 64 \<noteq> 2"

text \<open>The binary search of \<open>tailWithinTokens\<close>.\<close>

function tail_search :: "(string \<Rightarrow> int) \<Rightarrow> string \<Rightarrow> int \<Rightarrow> nat \<Rightarrow> nat \<Rightarrow> nat" where
  "tail_search countTokens text maxTokens lo hi =
     (if lo < hi then
        let mid = (lo + hi) div 2 in
        if countTokens (drop mid text) \<le> maxTokens
        then tail_search countTokens text maxTokens lo mid
        else tail_search countTokens text maxTokens (mid + 1) hi
      else lo)"
  by pat_completeness auto
termination
  by (relation "measure (\<lambda>(_, _, _, lo, hi). hi - lo)") auto

declare tail_search.simps [simp del]

definition tailWithinTokens :: "string \<Rightarrow> int \<Rightarrow> (string \<Rightarrow> int) \<Rightarrow> string" where
  "tailWithinTokens text maxTokens countTokens =
     (if maxTokens \<le> 0 then []
      else TrimSpace (dropWhile (\<lambda>b. \<not> RuneStart b)
             (drop (tail_search countTokens text maxTokens 0 (length text)) text)))"

definition cut_post :: "Post \<Rightarrow> string \<Rightarrow> Post" where
  "cut_post post tail = post\<lparr>p_Message := TrimSpace (TruncatedMessagePrefix @ tail),
     p_AssistantSegments := [], p_ServerTools := []\<rparr>"

text \<open>
  The backward loop of \<open>Truncate\<close>, on the posts from newest to oldest, with its variables
  \<open>available\<close>, \<open>newest\<close> and \<open>done\<close>. It returns each post with its \<open>keep\<close> flag, in the same
  order, and \<open>cut\<close>.
\<close>

fun truncate_loop :: "(string \<Rightarrow> int) \<Rightarrow> Post list \<Rightarrow> int \<Rightarrow> bool \<Rightarrow> bool \<Rightarrow> (bool \<times> Post) list \<times> bool" where
  "truncate_loop countTokens [] available newest fin = ([], False)"
| "truncate_loop countTokens (post # older) available newest fin =
     (if p_Role post = PostRoleSystem \<or> isTruncatedHistoryNote post then
        (let (rest, cut) = truncate_loop countTokens older available newest fin in ((True, post) # rest, cut))
      else if fin then
        (let (rest, cut) = truncate_loop countTokens older available newest fin in ((False, post) # rest, cut))
      else if postTokens countTokens post \<le> available then
        (let (rest, cut) = truncate_loop countTokens older
               (available - postTokens countTokens post) False fin in ((True, post) # rest, cut))
      else
        let tail = (if p_ToolUse post = []
                    then tailWithinTokens (p_Message post) (available - countTokens TruncatedMessagePrefix) countTokens
                    else []) in
        if tail = [] then
          (let (rest, cut) = truncate_loop countTokens older available newest True in ((newest, post) # rest, cut))
        else
          (let (rest, cut) = truncate_loop countTokens older available newest True in
           ((True, cut_post post tail) # rest, True)))"

definition Truncate :: "int \<Rightarrow> (string \<Rightarrow> int) \<Rightarrow> Post list \<Rightarrow> bool \<times> Post list" where
  "Truncate maxTokens countTokens posts =
     (let total = (\<Sum>p \<leftarrow> posts. postTokens countTokens p);
          systemTokens = (\<Sum>p \<leftarrow> filter (\<lambda>p. p_Role p = PostRoleSystem) posts. postTokens countTokens p)
      in if total \<le> maxTokens then (False, posts)
         else
           let available = maxTokens - systemTokens - countTokens TruncatedHistoryNote;
               (marked, cut) = truncate_loop countTokens (rev posts) available True False;
               kept = map snd (filter fst (rev marked));
               dropped = list_ex (\<lambda>kp. \<not> fst kp) marked
           in (dropped \<or> cut, if dropped then withTruncatedHistoryNote kept else kept))"

definition ExtractSystemMessage :: "Post list \<Rightarrow> string" where
  "ExtractSystemMessage posts =
     (case filter (\<lambda>p. p_Role p = PostRoleSystem) posts of [] \<Rightarrow> [] | p # _ \<Rightarrow> p_Message p)"

section \<open>The truncation wrapper\<close>

definition FunctionsTokenBudget :: int where "FunctionsTokenBudget = 200"
definition MinTokens :: int where "MinTokens = 100"

text \<open>\<open>math.Max(math.Floor(float64(limit-200)*0.9), 100)\<close> and \<open>int(0.8*float64(budget))\<close>.\<close>

definition truncation_budget :: "int \<Rightarrow> int" where
  "truncation_budget limit = max ((9 * (limit - FunctionsTokenBudget)) div 10) MinTokens"

definition safety_threshold :: "int \<Rightarrow> int" where
  "safety_threshold budget = (4 * budget) div 5"

definition droppable :: "Post \<Rightarrow> bool" where
  "droppable post \<longleftrightarrow> \<not> (p_Role post = PostRoleSystem \<or> isTruncatedHistoryNote post)"

fun delete_first :: "('a \<Rightarrow> bool) \<Rightarrow> 'a list \<Rightarrow> 'a list" where
  "delete_first P [] = []"
| "delete_first P (x # xs) = (if P x then xs else x # delete_first P xs)"

definition dropOldestNonSystemPost :: "Post list \<Rightarrow> Post list option" where
  "dropOldestNonSystemPost posts =
     (if length (filter droppable posts) < 2 then None
      else Some (withTruncatedHistoryNote (delete_first droppable posts)))"

lemma length_delete_first: "filter P xs \<noteq> [] \<Longrightarrow> Suc (length (delete_first P xs)) = length xs"
  by (induction xs) auto

lemma filter_delete_first: "filter P (delete_first P xs) = tl (filter P xs)"
  by (induction xs) auto

lemma droppable_note [simp]: "\<not> droppable note_post"
  by (simp add: droppable_def isTruncatedHistoryNote_def mkPost_def)

lemma filter_droppable_withNote [simp]:
  "filter droppable (withTruncatedHistoryNote posts) = filter droppable posts"
proof (cases "list_ex isTruncatedHistoryNote posts")
  case True
  then show ?thesis by (simp add: withTruncatedHistoryNote_def)
next
  case False
  have "filter droppable (takeWhile (\<lambda>p. p_Role p = PostRoleSystem) posts)
      @ filter droppable (dropWhile (\<lambda>p. p_Role p = PostRoleSystem) posts) = filter droppable posts"
    by (metis filter_append takeWhile_dropWhile_id)
  with False show ?thesis by (simp add: withTruncatedHistoryNote_def)
qed

lemma dropOldest_fewer:
  "dropOldestNonSystemPost posts = Some posts' \<Longrightarrow>
     filter droppable posts' = tl (filter droppable posts) \<and> 2 \<le> length (filter droppable posts)"
  by (auto simp: dropOldestNonSystemPost_def filter_delete_first split: if_splits)

text \<open>
  The loop that asks the provider for an exact count (\<open>CountTokens\<close>, \<open>None\<close> for an error) and
  drops the oldest droppable post while the count is over the limit.
\<close>

function recount_loop :: "(Post list \<Rightarrow> int option) \<Rightarrow> int \<Rightarrow> int \<Rightarrow> Post list \<Rightarrow> Post list" where
  "recount_loop CountTokens limit count posts =
     (if count > limit then
        (case dropOldestNonSystemPost posts of
           None \<Rightarrow> posts
         | Some posts' \<Rightarrow>
             (case CountTokens posts' of
                None \<Rightarrow> posts'
              | Some count' \<Rightarrow> recount_loop CountTokens limit count' posts'))
      else posts)"
  by pat_completeness auto
termination
proof (relation "measure (\<lambda>(_, _, _, posts). length (filter droppable posts))", goal_cases)
  case (2 CountTokens limit count posts posts' count')
  then have "filter droppable posts' = tl (filter droppable posts)" "2 \<le> length (filter droppable posts)"
    using dropOldest_fewer by blast+
  then show ?case by (cases "filter droppable posts") auto
qed simp

declare recount_loop.simps [simp del]

definition maybeTruncate :: "int \<Rightarrow> (Post list \<Rightarrow> int option) \<Rightarrow> Post list \<Rightarrow> Post list" where
  "maybeTruncate limit CountTokens posts =
     (if limit \<le> 0 then posts
      else
        let budget = truncation_budget limit;
            posts1 = snd (Truncate budget EstimateTokens posts);
            heuristicEstimate = (\<Sum>p \<leftarrow> posts1. postTokens EstimateTokens p)
        in if heuristicEstimate < safety_threshold budget then posts1
           else (case CountTokens posts1 of
                   None \<Rightarrow> posts1
                 | Some count \<Rightarrow> recount_loop CountTokens limit count posts1))"

section \<open>Tool retry limits\<close>

definition MaxConsecutiveToolCallFailures :: nat where "MaxConsecutiveToolCallFailures = 3"

definition batchSkippedToolResultPrefix :: string where
  "batchSkippedToolResultPrefix = ''[batch_skipped] ''"

definition BatchSkippedToolResult :: "string \<Rightarrow> string list \<Rightarrow> string" where
  "BatchSkippedToolResult toolName rejectedNames =
     batchSkippedToolResultPrefix @ ''tool '' @ toolName
     @ '' was not executed because the batch contained rejected tool call(s): ''
     @ Join rejectedNames '', ''"

definition IsBatchSkippedToolResult :: "string \<Rightarrow> bool" where
  "IsBatchSkippedToolResult result \<longleftrightarrow> HasPrefix result batchSkippedToolResultPrefix"

definition ToolRetryLimitSystemMessage :: string where
  "ToolRetryLimitSystemMessage = ''The last 3 tool attempts failed. Do not call any more tools. Explain the latest error to the user and ask for guidance or missing information.''"

definition ToolIterationLimitUserMessage :: string where
  "ToolIterationLimitUserMessage =
     ''You have used all available tool calls. Do not call any more tools. Answer the user'' @ [CHR 0x27]
     @ ''s question using the results from your previous tool calls. If those results did not provide enough information, say so and summarize what you tried.''"

definition IsToolRetryExempt :: "string \<Rightarrow> bool" where
  "IsToolRetryExempt name \<longleftrightarrow> name = ''search_tools'' \<or> name = ''load_tool''"

text \<open>The loop of \<open>trailingFailedToolCalls\<close>: count, the two \<open>saw\<close> flags, \<open>hasExecutedTool\<close>.\<close>

fun failed_calls_loop :: "ToolCall list \<Rightarrow> nat \<Rightarrow> bool \<Rightarrow> bool \<Rightarrow> bool \<Rightarrow> nat \<times> bool \<times> bool" where
  "failed_calls_loop [] count sawExempt sawSkipped executed =
     (if count = 0 \<and> (sawExempt \<or> sawSkipped) then (0, True, True) else (count, 0 < count, executed))"
| "failed_calls_loop (tc # tcs) count sawExempt sawSkipped executed =
     (case tc_Status tc of
        ToolCallStatusError \<Rightarrow>
          if IsToolRetryExempt (tc_Name tc) then failed_calls_loop tcs count True sawSkipped executed
          else if IsBatchSkippedToolResult (tc_Result tc) then failed_calls_loop tcs count sawExempt True True
          else failed_calls_loop tcs (count + 1) sawExempt sawSkipped True
      | ToolCallStatusSuccess \<Rightarrow> (0, False, True)
      | ToolCallStatusAutoApproved \<Rightarrow> (0, False, True)
      | ToolCallStatusRejected \<Rightarrow> failed_calls_loop tcs count sawExempt sawSkipped executed
      | ToolCallStatusPending \<Rightarrow> failed_calls_loop tcs count sawExempt sawSkipped executed
      | ToolCallStatusAccepted \<Rightarrow> failed_calls_loop tcs count sawExempt sawSkipped executed
      | ToolCallStatusOther _ \<Rightarrow> (0, False, executed))"

definition trailingFailedToolCalls :: "ToolCall list \<Rightarrow> nat \<times> bool \<times> bool" where
  "trailingFailedToolCalls toolCalls =
     (if toolCalls = [] then (0, False, False) else failed_calls_loop toolCalls 0 False False False)"

text \<open>The backward scan, on the posts from newest to oldest.\<close>

fun count_failed_loop :: "Post list \<Rightarrow> nat \<Rightarrow> nat" where
  "count_failed_loop [] failures = failures"
| "count_failed_loop (post # older) failures =
     (if p_Role post = PostRoleSystem then count_failed_loop older failures
      else (let (postFailures, allFailed, hasExecutedTool) = trailingFailedToolCalls (p_ToolUse post) in
            if \<not> hasExecutedTool \<or> \<not> allFailed then failures
            else count_failed_loop older (failures + postFailures)))"

definition CountTrailingFailedToolCalls :: "Post list \<Rightarrow> nat" where
  "CountTrailingFailedToolCalls posts = count_failed_loop (rev posts) 0"

text \<open>\<open>ensureSystemMessage\<close>: the first system post decides.\<close>

fun append_to_first_system :: "Post list \<Rightarrow> string \<Rightarrow> Post list option" where
  "append_to_first_system [] message = None"
| "append_to_first_system (post # posts) message =
     (if p_Role post \<noteq> PostRoleSystem then map_option (\<lambda>ps. post # ps) (append_to_first_system posts message)
      else if Contains (p_Message post) message then Some (post # posts)
      else if p_Message post = [] then Some (post\<lparr>p_Message := message\<rparr> # posts)
      else Some (post\<lparr>p_Message := p_Message post @ [CHR 0x0A, CHR 0x0A] @ message\<rparr> # posts))"

definition ensureSystemMessage :: "Post list \<Rightarrow> string \<Rightarrow> Post list" where
  "ensureSystemMessage posts message =
     (case append_to_first_system posts message of
        Some posts' \<Rightarrow> posts'
      | None \<Rightarrow> mkPost PostRoleSystem message # posts)"

definition EnsureToolRetryLimitSystemMessage :: "Post list \<Rightarrow> Post list" where
  "EnsureToolRetryLimitSystemMessage posts = ensureSystemMessage posts ToolRetryLimitSystemMessage"

definition EnsureToolIterationLimitUserMessage :: "Post list \<Rightarrow> Post list" where
  "EnsureToolIterationLimitUserMessage posts =
     (if list_ex (\<lambda>p. p_Role p = PostRoleUser \<and> Contains (p_Message p) ToolIterationLimitUserMessage) posts
      then posts else posts @ [mkPost PostRoleUser ToolIterationLimitUserMessage])"

section \<open>Properties of truncation\<close>

lemma truncate_loop_length:
  "length (fst (truncate_loop c ps a n f)) = length ps"
  by (induction ps arbitrary: a n f) (simp_all add: Let_def case_prod_beta)

lemma TrimSpace_prefix: "space_len s = 0 \<Longrightarrow> prefix (TrimSpace s) s"
  unfolding TrimSpace_def using suffix_trim_left_rev [of "rev s"]
  by (simp add: trim_left_fix suffix_to_prefix)

lemma cut_post_not_note [simp]: "\<not> isTruncatedHistoryNote (cut_post post tail)"
proof
  let ?s = "TruncatedMessagePrefix @ tail"
  assume "isTruncatedHistoryNote (cut_post post tail)"
  then have eq: "TrimSpace ?s = TruncatedHistoryNote"
    by (simp add: isTruncatedHistoryNote_def cut_post_def)
  have "space_len ?s = 0"
    by (simp add: TruncatedMessagePrefix_def ascii_space_def space2_def space3_def)
  from TrimSpace_prefix [OF this] obtain z where "?s = TruncatedHistoryNote @ z"
    unfolding eq by (auto simp: prefix_def)
  then show False by (simp add: TruncatedMessagePrefix_def TruncatedHistoryNote_def)
qed

lemma cut_post_role [simp]: "p_Role (cut_post post tail) = p_Role post"
  by (simp add: cut_post_def)

text \<open>
  What the loop keeps of the droppable posts: a newest-first prefix, whose oldest post may be cut.
\<close>

definition kept_prefix :: "Post list \<Rightarrow> Post list \<Rightarrow> bool" where
  "kept_prefix kept ps \<longleftrightarrow> prefix kept ps
     \<or> (\<exists>k tail. k < length ps \<and> p_ToolUse (ps ! k) = [] \<and> tail \<noteq> []
           \<and> kept = take k ps @ [cut_post (ps ! k) tail])"

lemma kept_prefix_Nil [simp]: "kept_prefix [] ps"
  by (simp add: kept_prefix_def)

lemma kept_prefix_Cons: "kept_prefix kept ps \<Longrightarrow> kept_prefix (p # kept) (p # ps)"
  unfolding kept_prefix_def by (elim disjE exE conjE) (simp, force intro!: exI [of _ "Suc _"])

lemma kept_prefix_cut: "p_ToolUse p = [] \<Longrightarrow> tail \<noteq> [] \<Longrightarrow> kept_prefix [cut_post p tail] (p # ps)"
  unfolding kept_prefix_def by (rule disjI2) (auto intro!: exI [of _ 0])

lemma kept_prefix_one: "kept_prefix [p] (p # ps)"
  by (simp add: kept_prefix_def)

abbreviation kept_of :: "(bool \<times> Post) list \<Rightarrow> Post list" where
  "kept_of marked \<equiv> map snd (filter fst marked)"

lemma truncate_loop_system:
  "filter (\<lambda>p. p_Role p = PostRoleSystem) (kept_of (fst (truncate_loop c ps a n f)))
     = filter (\<lambda>p. p_Role p = PostRoleSystem) ps"
  by (induction ps arbitrary: a n f) (simp_all add: Let_def case_prod_beta)

lemma truncate_loop_done:
  "filter droppable (kept_of (fst (truncate_loop c ps a n True))) = []"
proof (induction ps)
  case (Cons p ps)
  then show ?case by (simp add: Let_def case_prod_beta droppable_def)
qed simp

lemma droppable_cut [simp]: "droppable (cut_post p tail) = (p_Role p \<noteq> PostRoleSystem)"
  by (simp add: droppable_def)

lemma truncate_loop_kept:
  "kept_prefix (filter droppable (kept_of (fst (truncate_loop c ps a n False)))) (filter droppable ps)"
proof (induction ps arbitrary: a n)
  case (Cons p ps)
  show ?case
  proof (cases "droppable p")
    case False
    then have "p_Role p = PostRoleSystem \<or> isTruncatedHistoryNote p" by (auto simp: droppable_def)
    with False Cons [of a n] show ?thesis by (simp add: Let_def case_prod_beta)
  next
    case True
    then have keep: "\<not> (p_Role p = PostRoleSystem \<or> isTruncatedHistoryNote p)" "p_Role p \<noteq> PostRoleSystem"
      by (simp_all add: droppable_def)
    show ?thesis
    proof (cases "postTokens c p \<le> a")
      case fits: True
      from Cons [of "a - postTokens c p" False] keep True fits show ?thesis
        by (simp add: case_prod_beta kept_prefix_Cons)
    next
      case False
      with keep True show ?thesis
        by (simp add: Let_def case_prod_beta kept_prefix_cut kept_prefix_one truncate_loop_done)
    qed
  qed
qed simp

text \<open>The newest droppable post always survives.\<close>

lemma truncate_loop_newest:
  "filter droppable ps \<noteq> [] \<Longrightarrow> filter droppable (kept_of (fst (truncate_loop c ps a True False))) \<noteq> []"
proof (induction ps arbitrary: a)
  case (Cons p ps)
  show ?case
  proof (cases "droppable p")
    case False
    then have "p_Role p = PostRoleSystem \<or> isTruncatedHistoryNote p" by (auto simp: droppable_def)
    with False Cons.IH [of a] Cons.prems show ?thesis
      by (simp add: Let_def case_prod_beta)
  next
    case True
    then have "\<not> (p_Role p = PostRoleSystem \<or> isTruncatedHistoryNote p)" "p_Role p \<noteq> PostRoleSystem"
      by (simp_all add: droppable_def)
    with True show ?thesis by (simp add: Let_def case_prod_beta)
  qed
qed simp

lemma filter_system_withNote [simp]:
  "filter (\<lambda>p. p_Role p = PostRoleSystem) (withTruncatedHistoryNote posts)
     = filter (\<lambda>p. p_Role p = PostRoleSystem) posts"
proof (cases "list_ex isTruncatedHistoryNote posts")
  case True
  then show ?thesis by (simp add: withTruncatedHistoryNote_def)
next
  case False
  have "filter (\<lambda>p. p_Role p = PostRoleSystem) (takeWhile (\<lambda>p. p_Role p = PostRoleSystem) posts)
      @ filter (\<lambda>p. p_Role p = PostRoleSystem) (dropWhile (\<lambda>p. p_Role p = PostRoleSystem) posts)
      = filter (\<lambda>p. p_Role p = PostRoleSystem) posts"
    by (metis filter_append takeWhile_dropWhile_id)
  with False show ?thesis by (simp add: withTruncatedHistoryNote_def mkPost_def)
qed

lemma kept_of_rev: "kept_of (rev m) = rev (kept_of m)"
  by (simp add: rev_filter rev_map)

lemma Truncate_cases:
  obtains (fits) "Truncate m c posts = (False, posts)"
  | (cut) a where "filter Q (snd (Truncate m c posts)) = filter Q (rev (kept_of (fst (truncate_loop c (rev posts) a True False))))
       \<or> filter Q (snd (Truncate m c posts)) = filter Q (withTruncatedHistoryNote (rev (kept_of (fst (truncate_loop c (rev posts) a True False)))))"
proof (cases "(\<Sum>p \<leftarrow> posts. postTokens c p) \<le> m")
  case True
  then show thesis by (intro fits) (simp add: Truncate_def)
next
  case False
  show thesis
    by (rule cut) (use False in \<open>auto simp: Truncate_def Let_def case_prod_beta kept_of_rev\<close>)
qed

lemma Truncate_system:
  "filter (\<lambda>p. p_Role p = PostRoleSystem) (snd (Truncate maxTokens countTokens posts))
     = filter (\<lambda>p. p_Role p = PostRoleSystem) posts"
proof (cases rule: Truncate_cases
    [where m = maxTokens and c = countTokens and posts = posts and Q = "\<lambda>p. p_Role p = PostRoleSystem"])
  case fits
  then show ?thesis by simp
next
  case (cut a)
  have "filter (\<lambda>p. p_Role p = PostRoleSystem)
      (rev (kept_of (fst (truncate_loop countTokens (rev posts) a True False))))
      = filter (\<lambda>p. p_Role p = PostRoleSystem) posts"
    unfolding rev_filter [symmetric] truncate_loop_system by (simp add: rev_filter)
  with cut show ?thesis by auto
qed

text \<open>
  Truncation never drops or changes a system post.
\<close>

theorem Truncate_keeps_system_posts:
  "filter (\<lambda>p. p_Role p = PostRoleSystem) (snd (Truncate maxTokens countTokens posts))
     = filter (\<lambda>p. p_Role p = PostRoleSystem) posts"
  by (rule Truncate_system)

lemma Truncate_suffix:
  "(\<exists>k. filter droppable (snd (Truncate maxTokens countTokens posts)) = drop k (filter droppable posts)
      \<or> (k < length (filter droppable posts) \<and> p_ToolUse (filter droppable posts ! k) = []
         \<and> (\<exists>tail. tail \<noteq> [] \<and> filter droppable (snd (Truncate maxTokens countTokens posts))
              = cut_post (filter droppable posts ! k) tail # drop (Suc k) (filter droppable posts))))
   \<and> (filter droppable (snd (Truncate maxTokens countTokens posts)) = [] \<longleftrightarrow> filter droppable posts = [])"
proof (cases rule: Truncate_cases
    [where m = maxTokens and c = countTokens and posts = posts and Q = droppable])
  case fits
  then show ?thesis by (auto intro!: exI [of _ 0])
next
  case (cut a)
  let ?d = "filter droppable posts"
  define kept where
    "kept = filter droppable (kept_of (fst (truncate_loop countTokens (rev posts) a True False)))"
  have res: "filter droppable (snd (Truncate maxTokens countTokens posts)) = rev kept"
    using cut by (simp add: kept_def rev_filter)
  have "kept_prefix kept (rev ?d)"
    unfolding kept_def rev_filter by (rule truncate_loop_kept)
  then consider (whole) "prefix kept (rev ?d)"
    | (trimmed) k tail where "k < length ?d" "p_ToolUse (rev ?d ! k) = []" "tail \<noteq> []"
        "kept = take k (rev ?d) @ [cut_post (rev ?d ! k) tail]"
    unfolding kept_prefix_def by auto
  then have suffix: "\<exists>k. rev kept = drop k ?d
      \<or> (k < length ?d \<and> p_ToolUse (?d ! k) = []
         \<and> (\<exists>tail. tail \<noteq> [] \<and> rev kept = cut_post (?d ! k) tail # drop (Suc k) ?d))"
  proof cases
    case whole
    then obtain z where "rev ?d = kept @ z" by (auto simp: prefix_def)
    then have "?d = rev z @ rev kept" by (metis rev_append rev_rev_ident)
    then have "rev kept = drop (length z) ?d" by simp
    then show ?thesis by blast
  next
    case (trimmed k tail)
    let ?i = "length ?d - Suc k"
    have nth: "rev ?d ! k = ?d ! ?i" using trimmed(1) by (simp add: rev_nth)
    have "rev (take k (rev ?d)) = drop (Suc ?i) ?d"
      using trimmed(1) by (simp add: take_rev Suc_diff_Suc)
    with trimmed nth have "rev kept = cut_post (?d ! ?i) tail # drop (Suc ?i) ?d"
      by simp
    moreover have "?i < length ?d" using trimmed(1) by simp
    ultimately show ?thesis using trimmed nth by metis
  qed
  have "kept = [] \<longleftrightarrow> ?d = []"
  proof
    assume "kept = []"
    then have "filter droppable (rev posts) = []"
      using truncate_loop_newest [of "rev posts" countTokens a] unfolding kept_def by blast
    then show "?d = []" by (simp flip: rev_filter)
  next
    assume "?d = []"
    with \<open>kept_prefix kept (rev ?d)\<close> show "kept = []" by (auto simp: kept_prefix_def)
  qed
  with res suffix show ?thesis by simp
qed

lemmas Truncate_newest = Truncate_suffix [THEN conjunct2]

text \<open>
  C38: of the conversation posts, truncation keeps a suffix in order: the newest ones, whole,
  except that the oldest one kept may have its beginning cut, which never happens to a post that
  carries tool calls. The newest conversation post always survives.
\<close>

theorem Truncate_keeps_newest_suffix:
  "(\<exists>k. filter droppable (snd (Truncate maxTokens countTokens posts)) = drop k (filter droppable posts)
      \<or> (k < length (filter droppable posts) \<and> p_ToolUse (filter droppable posts ! k) = []
         \<and> (\<exists>tail. tail \<noteq> [] \<and> filter droppable (snd (Truncate maxTokens countTokens posts))
              = cut_post (filter droppable posts ! k) tail # drop (Suc k) (filter droppable posts))))
   \<and> (filter droppable (snd (Truncate maxTokens countTokens posts)) = [] \<longleftrightarrow> filter droppable posts = [])"
  by (rule Truncate_suffix)

section \<open>The cut of an oversized message\<close>

lemma tail_search_least:
  assumes anti: "\<And>i j. i \<le> j \<Longrightarrow> j \<le> length s \<Longrightarrow> c (drop j s) \<le> c (drop i s)"
    and "lo \<le> hi" "hi \<le> length s" "c (drop hi s) \<le> m"
    and "\<And>j. j < lo \<Longrightarrow> m < c (drop j s)"
  shows "tail_search c s m lo hi \<le> length s
     \<and> c (drop (tail_search c s m lo hi) s) \<le> m
     \<and> (\<forall>j < tail_search c s m lo hi. m < c (drop j s))"
  using assms
proof (induction c s m lo hi rule: tail_search.induct)
  case (1 c s m lo hi)
  show ?case
  proof (cases "lo < hi")
    case False
    then have "tail_search c s m lo hi = lo" by (subst tail_search.simps) simp
    moreover from False 1(4) have "lo = hi" by simp
    ultimately show ?thesis using 1(5,6,7) by simp
  next
    case True
    let ?mid = "(lo + hi) div 2"
    show ?thesis
    proof (cases "c (drop ?mid s) \<le> m")
      case fits: True
      have "tail_search c s m lo hi = tail_search c s m lo ?mid"
        by (subst tail_search.simps) (simp add: True fits)
      with 1(1) [OF True refl fits 1(3)] 1(4,5,7) True fits show ?thesis by simp
    next
      case False
      have eq: "tail_search c s m lo hi = tail_search c s m (?mid + 1) hi"
        by (subst tail_search.simps) (simp add: True False)
      have below: "m < c (drop j s)" if "j < ?mid + 1" for j
      proof -
        have "j \<le> ?mid" "?mid \<le> length s" using that 1(4,5) True by simp_all
        then have "c (drop ?mid s) \<le> c (drop j s)" by (rule 1(3))
        with False show ?thesis by simp
      qed
      show ?thesis
        unfolding eq using 1(2) [OF True refl False 1(3) _ 1(5,6) below] True by simp
    qed
  qed
qed

text \<open>
  For a counter that never grows when a message loses its beginning, the binary search
  finds the longest tail of the message that fits the token budget.
\<close>

theorem tail_search_longest:
  assumes "\<And>i j. i \<le> j \<Longrightarrow> j \<le> length s \<Longrightarrow> countTokens (drop j s) \<le> countTokens (drop i s)"
    and "countTokens [] \<le> maxTokens"
  shows "tail_search countTokens s maxTokens 0 (length s)
       = (LEAST i. countTokens (drop i s) \<le> maxTokens)"
proof (rule Least_equality [symmetric])
  have least: "countTokens (drop (tail_search countTokens s maxTokens 0 (length s)) s) \<le> maxTokens"
    "\<forall>j < tail_search countTokens s maxTokens 0 (length s). maxTokens < countTokens (drop j s)"
    using tail_search_least [of s countTokens 0 "length s" maxTokens] assms by auto
  then show "countTokens (drop (tail_search countTokens s maxTokens 0 (length s)) s) \<le> maxTokens" by blast
  fix y
  assume "countTokens (drop y s) \<le> maxTokens"
  with least(2) show "tail_search countTokens s maxTokens 0 (length s) \<le> y"
    by (meson leD leI)
qed

lemma tail_search_longest_witness:
  "tail_search (\<lambda>s. int (length s)) ''abcdef'' 4 0 (length ''abcdef'')
     = (LEAST i. int (length (drop i ''abcdef'')) \<le> 4)"
  by (rule tail_search_longest) simp_all

lemma filter_system_delete_droppable:
  "filter (\<lambda>p. p_Role p = PostRoleSystem) (delete_first droppable posts)
     = filter (\<lambda>p. p_Role p = PostRoleSystem) posts"
  by (induction posts) (auto simp: droppable_def)

lemma dropOldest_system:
  "dropOldestNonSystemPost posts = Some posts' \<Longrightarrow>
     filter (\<lambda>p. p_Role p = PostRoleSystem) posts' = filter (\<lambda>p. p_Role p = PostRoleSystem) posts"
  by (auto simp: dropOldestNonSystemPost_def filter_system_delete_droppable split: if_splits)

lemma recount_loop_kept:
  "filter (\<lambda>p. p_Role p = PostRoleSystem) (recount_loop C limit count posts)
     = filter (\<lambda>p. p_Role p = PostRoleSystem) posts
   \<and> suffix (filter droppable (recount_loop C limit count posts)) (filter droppable posts)
   \<and> (filter droppable (recount_loop C limit count posts) = [] \<longrightarrow> filter droppable posts = [])"
proof (induction C limit count posts rule: recount_loop.induct)
  case (1 C limit count posts)
  show ?case
  proof (cases "count > limit")
    case False
    then show ?thesis by (subst (1 2 3) recount_loop.simps) simp
  next
    case over: True
    show ?thesis
    proof (cases "dropOldestNonSystemPost posts")
      case None
      with over show ?thesis by (subst (1 2 3) recount_loop.simps) simp
    next
      case (Some posts')
      have step: "filter (\<lambda>p. p_Role p = PostRoleSystem) posts' = filter (\<lambda>p. p_Role p = PostRoleSystem) posts"
        "filter droppable posts' = tl (filter droppable posts)" "2 \<le> length (filter droppable posts)"
        using dropOldest_system [OF Some] dropOldest_fewer [OF Some] by auto
      have sub: "suffix (filter droppable posts') (filter droppable posts)"
        unfolding step(2) by (cases "filter droppable posts") (auto simp: suffix_ConsI)
      have ne: "filter droppable posts' \<noteq> []"
        using step by (cases "filter droppable posts") auto
      show ?thesis
      proof (cases "C posts'")
        case None
        then have "recount_loop C limit count posts = posts'"
          by (subst recount_loop.simps) (simp add: over Some)
        with step sub ne show ?thesis by simp
      next
        case (Some count')
        with over \<open>dropOldestNonSystemPost posts = Some posts'\<close>
        have eq: "recount_loop C limit count posts = recount_loop C limit count' posts'"
          by (subst recount_loop.simps) simp
        from 1 [OF over \<open>dropOldestNonSystemPost posts = Some posts'\<close> Some] step sub ne
        show ?thesis unfolding eq
          by (auto intro: suffix_order.trans [OF _ suffix_tl])
      qed
    qed
  qed
qed


section \<open>Properties of the retry limits\<close>

lemma failed_calls_loop_success:
  "\<exists>tc \<in> set tcs. tc_Status tc = ToolCallStatusAutoApproved \<Longrightarrow>
   \<forall>tc \<in> set tcs. tc_Status tc = ToolCallStatusAutoApproved \<or> tc_Status tc = ToolCallStatusError \<Longrightarrow>
   failed_calls_loop tcs n e s x = (0, False, True)"
proof (induction tcs arbitrary: n e s x)
  case (Cons tc tcs)
  then show ?case by (cases "tc_Status tc") auto
qed simp

lemma failed_calls_loop_failures:
  "\<forall>tc \<in> set tcs. tc_Status tc = ToolCallStatusError \<and> \<not> IsToolRetryExempt (tc_Name tc)
       \<and> \<not> IsBatchSkippedToolResult (tc_Result tc) \<Longrightarrow> tcs \<noteq> [] \<Longrightarrow>
   failed_calls_loop tcs n e s x = (n + length tcs, True, True)"
proof (induction tcs arbitrary: n x)
  case (Cons tc tcs)
  then show ?case by (cases tcs) auto
qed simp

lemma count_failed_loop_add:
  "count_failed_loop ps (n + k) = count_failed_loop ps n + k"
proof (induction ps arbitrary: n)
  case (Cons p ps)
  from Cons.IH [of "n + x" for x] Cons.IH [of n] show ?case
    by (auto simp: split: prod.splits) (metis add.assoc add.commute)
qed simp

text \<open>A successful call in the last round resets the streak; a round of plain failures extends it.\<close>

lemma CountTrailing_success:
  assumes "p_Role p \<noteq> PostRoleSystem" "\<exists>tc \<in> set (p_ToolUse p). tc_Status tc = ToolCallStatusAutoApproved"
    "\<forall>tc \<in> set (p_ToolUse p). tc_Status tc = ToolCallStatusAutoApproved \<or> tc_Status tc = ToolCallStatusError"
  shows "CountTrailingFailedToolCalls (posts @ [p]) = 0"
proof -
  have "trailingFailedToolCalls (p_ToolUse p) = (0, False, True)"
    using failed_calls_loop_success [OF assms(2,3)] assms(2) by (auto simp: trailingFailedToolCalls_def)
  with assms(1) show ?thesis by (simp add: CountTrailingFailedToolCalls_def)
qed

lemma CountTrailing_failures:
  assumes "p_Role p \<noteq> PostRoleSystem" "p_ToolUse p \<noteq> []"
    "\<forall>tc \<in> set (p_ToolUse p). tc_Status tc = ToolCallStatusError \<and> \<not> IsToolRetryExempt (tc_Name tc)
       \<and> \<not> IsBatchSkippedToolResult (tc_Result tc)"
  shows "CountTrailingFailedToolCalls (posts @ [p]) = CountTrailingFailedToolCalls posts + length (p_ToolUse p)"
proof -
  have "trailingFailedToolCalls (p_ToolUse p) = (length (p_ToolUse p), True, True)"
    using failed_calls_loop_failures [OF assms(3,2), of 0 False False False] assms(2)
    by (simp add: trailingFailedToolCalls_def)
  with assms(1) show ?thesis
    using count_failed_loop_add [of "rev posts" 0 "length (p_ToolUse p)"]
    by (simp add: CountTrailingFailedToolCalls_def)
qed

end
