(* ===== verification/Llm_Context.thy ===== *)
theory Llm_Context
  imports Llm_Posts "HOL-Library.Char_ord" "HOL-Library.List_Lexorder"
begin

text \<open>
  The per-turn context of a request and the completion request itself (\<open>src/llm/context.go\<close>,
  \<open>src/llm/completion_request.go\<close>), with the MCP meta-tool names of \<open>src/mcp/meta_tools.go\<close>.

  The context is shared by pointer between the request, the tool runner and the tools; the model
  threads it through them. A nil \<open>*Context\<close> is \<open>None\<close>. Of the Mattermost model types it has the
  fields the code reads. The \<open>map[string]bool\<close> fields only hold true and are lists of keys. The
  telemetry interface is the log of the events it was given; \<open>None\<close> is a nil interface. The
  catalog's \<open>KeepMCPTool\<close> predicate, used only while the tool catalog is built, and the
  \<open>Parameters\<close> of prompt templates are left out.
\<close>

record User =
  u_Id :: string
  u_Username :: string
  u_FirstName :: string
  u_LastName :: string

record Channel =
  ch_Id :: string
  ch_Type :: string
  ch_Name :: string
  ch_DisplayName :: string

record Team =
  tm_Name :: string
  tm_DisplayName :: string

record UnconnectedMCPServer =
  um_Name :: string
  um_ServerOrigin :: string
  um_Description :: string
  um_Tools :: "ToolInfo list"

record SkillInfo =
  sk_ID :: string
  sk_Name :: string
  sk_Description :: string

record DMOnlyMCPServer =
  dm_Name :: string
  dm_Description :: string

record ToolCatalogContext =
  cat_MCPDynamicToolLoading :: bool
  cat_DisabledMCPServerOrigins :: "string list"
  cat_PreloadedMCPTools :: "EnabledMCPTool list"
  cat_InteractiveUserPresent :: bool
  cat_DirectMessage :: bool
  cat_MCPServerOrigins :: "string gomap"
  cat_ResponseFilesSupported :: bool
  cat_SandboxFilesAttached :: bool
  cat_SkillsEnabled :: bool

record CreatedFile =
  cf_ID :: string
  cf_Name :: string

record ProviderFileReference =
  pf_ID :: string
  pf_ProviderRoute :: string

record ToolRuntimeContext =
  rt_MCPDynamicToolTelemetry :: "(string \<times> string \<times> string) list option"
  rt_MCPDynamicToolSearchUsed :: bool
  rt_MCPDynamicLoadedToolNames :: "string list"
  rt_MCPDynamicSearchLoadCallSuccessRecorded :: "string list"
  rt_CreatedFiles :: "CreatedFile list"
  rt_SandboxFiles :: "ProviderFileReference list"
  rt_ResponseAttachmentBudget :: int

record Context =
  ctx_Time :: string
  ctx_ServerName :: string
  ctx_CompanyName :: string
  ctx_SiteURL :: string
  ctx_Team :: "Team option"
  ctx_Channel :: "Channel option"
  ctx_Thread :: "Post list"
  ctx_RequestingUser :: "User option"
  ctx_BotName :: string
  ctx_BotUsername :: string
  ctx_BotUserID :: string
  ctx_BotModel :: string
  ctx_BotServiceType :: string
  ctx_CustomInstructions :: string
  ctx_ToolAuthMode :: string
  ctx_Tools :: "ToolStore option"
  ctx_DisabledTools :: "ToolInfo list"
  ctx_UnconnectedMCPServers :: "UnconnectedMCPServer list"
  ctx_Skills :: "SkillInfo list"
  ctx_DMOnlyMCPServers :: "DMOnlyMCPServer list"
  ctx_ResponsePostID :: string
  ctx_ToolCatalog :: ToolCatalogContext
  ctx_ToolRuntime :: ToolRuntimeContext

definition SetBotFields ::
  "string \<Rightarrow> string \<Rightarrow> string \<Rightarrow> string \<Rightarrow> string \<Rightarrow> string \<Rightarrow> Context \<Rightarrow> Context" where
  "SetBotFields displayName username userID defaultModel serviceType customInstructions c =
     c\<lparr>ctx_BotName := displayName, ctx_BotUsername := username, ctx_BotUserID := userID,
       ctx_BotModel := defaultModel, ctx_BotServiceType := serviceType,
       ctx_CustomInstructions := customInstructions\<rparr>"

definition isToolDisabled :: "Context \<Rightarrow> string \<Rightarrow> bool" where
  "isToolDisabled c name \<longleftrightarrow> list_ex (\<lambda>t. ti_Name t = name) (ctx_DisabledTools c)"

definition IsToolCallable :: "Context option \<Rightarrow> string \<Rightarrow> bool" where
  "IsToolCallable c name =
     (case c of None \<Rightarrow> False
      | Some c' \<Rightarrow>
          if ctx_Tools c' = None \<or> GetTool (ctx_Tools c') name = None then False
          else \<not> isToolDisabled c' name)"

definition CallableToolsInfo :: "Context option \<Rightarrow> ToolInfo list" where
  "CallableToolsInfo c =
     (case c of None \<Rightarrow> []
      | Some c' \<Rightarrow>
          if ctx_Tools c' = None then []
          else sort_key ti_Name (filter (\<lambda>i. \<not> isToolDisabled c' (ti_Name i)) (GetToolsInfo (ctx_Tools c'))))"

fun DisableTools :: "ToolInfo list \<Rightarrow> Context \<Rightarrow> Context" where
  "DisableTools [] c = c"
| "DisableTools (info # infos) c =
     DisableTools infos
       (if isToolDisabled c (ti_Name info) then c
        else c\<lparr>ctx_DisabledTools := ctx_DisabledTools c @ [info]\<rparr>)"

definition CustomPromptVars :: "Context \<Rightarrow> string gomap" where
  "CustomPromptVars c =
     [(''Time'', ctx_Time c), (''BotName'', ctx_BotName c)]
     @ (case ctx_RequestingUser c of None \<Rightarrow> []
        | Some u \<Rightarrow> [(''Username'', u_Username u), (''FirstName'', u_FirstName u), (''LastName'', u_LastName u)])
     @ (case ctx_Channel c of None \<Rightarrow> []
        | Some ch \<Rightarrow> [(''Channel'', ch_DisplayName ch), (''ChannelName'', ch_Name ch)])
     @ (case ctx_Team c of None \<Rightarrow> []
        | Some t \<Rightarrow> [(''Team'', tm_DisplayName t), (''TeamName'', tm_Name t)])"

abbreviation map_runtime :: "(ToolRuntimeContext \<Rightarrow> ToolRuntimeContext) \<Rightarrow> Context \<Rightarrow> Context" where
  "map_runtime f c \<equiv> c\<lparr>ctx_ToolRuntime := f (ctx_ToolRuntime c)\<rparr>"

definition ObserveMCPDynamicToolEvent :: "string \<Rightarrow> string \<Rightarrow> Context \<Rightarrow> Context" where
  "ObserveMCPDynamicToolEvent event res c =
     (case rt_MCPDynamicToolTelemetry (ctx_ToolRuntime c) of
        None \<Rightarrow> c
      | Some log \<Rightarrow>
          let botName = ctx_BotUsername c;
              botName = (if botName = [] then ctx_BotName c else botName);
              botName = (if botName = [] then ''unknown'' else botName)
          in map_runtime (\<lambda>t. t\<lparr>rt_MCPDynamicToolTelemetry := Some (log @ [(botName, event, res)])\<rparr>) c)"

definition MarkMCPDynamicToolSearch :: "Context \<Rightarrow> Context" where
  "MarkMCPDynamicToolSearch c = map_runtime (\<lambda>t. t\<lparr>rt_MCPDynamicToolSearchUsed := True\<rparr>) c"

definition MarkMCPDynamicToolLoaded :: "string \<Rightarrow> Context \<Rightarrow> Context" where
  "MarkMCPDynamicToolLoaded name c =
     (if name = [] then c
      else map_runtime (\<lambda>t. t\<lparr>rt_MCPDynamicLoadedToolNames := List.insert name (rt_MCPDynamicLoadedToolNames t)\<rparr>) c)"

definition ShouldRecordMCPDynamicSearchLoadCallSuccess :: "string \<Rightarrow> Context \<Rightarrow> bool \<times> Context" where
  "ShouldRecordMCPDynamicSearchLoadCallSuccess name c =
     (let t = ctx_ToolRuntime c in
      if name = [] \<or> \<not> rt_MCPDynamicToolSearchUsed t
         \<or> \<not> List.member (rt_MCPDynamicLoadedToolNames t) name then (False, c)
      else if List.member (rt_MCPDynamicSearchLoadCallSuccessRecorded t) name then (False, c)
      else (True, map_runtime (\<lambda>t. t\<lparr>rt_MCPDynamicSearchLoadCallSuccessRecorded :=
              name # rt_MCPDynamicSearchLoadCallSuccessRecorded t\<rparr>) c))"

definition AddCreatedFile :: "CreatedFile \<Rightarrow> Context \<Rightarrow> Context" where
  "AddCreatedFile f c =
     (if cf_ID f = [] then c
      else map_runtime (\<lambda>t. t\<lparr>rt_CreatedFiles := rt_CreatedFiles t @ [f]\<rparr>) c)"

fun add_sandbox_files :: "ProviderFileReference list \<Rightarrow> ProviderFileReference list \<Rightarrow> ProviderFileReference list" where
  "add_sandbox_files [] files = files"
| "add_sandbox_files (ref # refs) files =
     (if pf_ID ref = []
         \<or> list_ex (\<lambda>e. pf_ID e = pf_ID ref \<and> pf_ProviderRoute e = pf_ProviderRoute ref) files
      then add_sandbox_files refs files
      else add_sandbox_files refs (files @ [ref]))"

definition AddSandboxFiles :: "ProviderFileReference list \<Rightarrow> Context option \<Rightarrow> Context option" where
  "AddSandboxFiles refs c =
     map_option (map_runtime (\<lambda>t. t\<lparr>rt_SandboxFiles := add_sandbox_files refs (rt_SandboxFiles t)\<rparr>)) c"

definition ConsumeSandboxFiles :: "Context \<Rightarrow> ProviderFileReference list \<times> Context" where
  "ConsumeSandboxFiles c =
     (rt_SandboxFiles (ctx_ToolRuntime c), map_runtime (\<lambda>t. t\<lparr>rt_SandboxFiles := []\<rparr>) c)"

definition MaxPostAttachments :: int where "MaxPostAttachments = 10"

definition SetResponseAttachmentBudget :: "int \<Rightarrow> Context \<Rightarrow> Context" where
  "SetResponseAttachmentBudget remaining c =
     map_runtime (\<lambda>t. t\<lparr>rt_ResponseAttachmentBudget := (if remaining \<le> 0 then -1 else remaining)\<rparr>) c"

definition ResponseAttachmentSlots :: "Context option \<Rightarrow> int" where
  "ResponseAttachmentSlots c =
     (case c of None \<Rightarrow> 0
      | Some c' \<Rightarrow>
          let b = rt_ResponseAttachmentBudget (ctx_ToolRuntime c') in
          if b = 0 then MaxPostAttachments else if b < 0 then 0 else b)"

text \<open>The skill catalog as prompts list it (\<open>src/llm/skills.go\<close>).\<close>

definition FormatSkillCatalog :: "SkillInfo list \<Rightarrow> string" where
  "FormatSkillCatalog skills =
     Join (map (\<lambda>s. ''- id: '' @ sk_ID s @ '' | '' @ sk_Name s @ '': '' @ sk_Description s) skills) [CHR 0x0A]"

definition SkillCatalog :: "Context option \<Rightarrow> string" where
  "SkillCatalog c = (case c of None \<Rightarrow> [] | Some c' \<Rightarrow> FormatSkillCatalog (ctx_Skills c'))"

section \<open>Requests\<close>

record CompletionRequest =
  req_Posts :: "Post list"
  req_Context :: "Context option"
  req_Operation :: string
  req_OperationSubType :: string
  req_RestrictFallbacks :: bool
  req_AllowedFallbackServiceIDs :: "string list"

section \<open>MCP meta-tools\<close>

definition SearchToolsName :: string where "SearchToolsName = ''search_tools''"
definition LoadToolName :: string where "LoadToolName = ''load_tool''"

definition IsMCPMetaTool :: "string \<Rightarrow> bool" where
  "IsMCPMetaTool name \<longleftrightarrow> name = SearchToolsName \<or> name = LoadToolName"

text \<open>\<open>quote\<close> is Go's \<open>%q\<close> formatting of a string.\<close>

definition UnloadedMCPToolUserHint :: "(string \<Rightarrow> string) \<Rightarrow> string \<Rightarrow> string" where
  "UnloadedMCPToolUserHint quote name =
     ''tool '' @ name @ '' is available but not loaded. Call '' @ LoadToolName
     @ '' with {'' @ [CHR 0x22] @ ''name'' @ [CHR 0x22] @ '':'' @ quote name @ ''} before calling it.''"

section \<open>Lemmas\<close>

lemma add_sandbox_files_distinct:
  "distinct (map (\<lambda>r. (pf_ID r, pf_ProviderRoute r)) files) \<Longrightarrow>
   distinct (map (\<lambda>r. (pf_ID r, pf_ProviderRoute r)) (add_sandbox_files refs files))"
  by (induction refs files rule: add_sandbox_files.induct) (auto simp: list_ex_iff image_iff, metis)

lemma add_sandbox_files_prefix: "prefix files (add_sandbox_files refs files)"
  by (induction refs files rule: add_sandbox_files.induct) (auto dest: append_prefixD)

lemma ctx_Tools_AddSandboxFiles [simp]:
  "map_option ctx_Tools (AddSandboxFiles refs c) = map_option ctx_Tools c"
  by (cases c) (simp_all add: AddSandboxFiles_def)

lemma AddSandboxFiles_eq_None [simp]: "AddSandboxFiles refs c = None \<longleftrightarrow> c = None"
  by (simp add: AddSandboxFiles_def)

lemma ctx_Tools_Observe [simp]: "ctx_Tools (ObserveMCPDynamicToolEvent e r c) = ctx_Tools c"
  by (simp add: ObserveMCPDynamicToolEvent_def Let_def split: option.splits)

lemma ctx_Tools_ShouldRecord [simp]:
  "ctx_Tools (snd (ShouldRecordMCPDynamicSearchLoadCallSuccess n c)) = ctx_Tools c"
  by (simp add: ShouldRecordMCPDynamicSearchLoadCallSuccess_def Let_def)

section \<open>A concrete request\<close>

definition ex_tool :: Tool where "ex_tool = example_tool ''echo'' []"

definition ex_context :: Context where
  "ex_context = \<lparr>ctx_Time = [], ctx_ServerName = [], ctx_CompanyName = [], ctx_SiteURL = [],
     ctx_Team = None, ctx_Channel = None, ctx_Thread = [], ctx_RequestingUser = None,
     ctx_BotName = ''Bot'', ctx_BotUsername = ''bot'', ctx_BotUserID = [], ctx_BotModel = [],
     ctx_BotServiceType = [], ctx_CustomInstructions = [], ctx_ToolAuthMode = [],
     ctx_Tools = Some (AddTools [ex_tool] NewToolStore), ctx_DisabledTools = [],
     ctx_UnconnectedMCPServers = [], ctx_Skills = [], ctx_DMOnlyMCPServers = [], ctx_ResponsePostID = [],
     ctx_ToolCatalog = \<lparr>cat_MCPDynamicToolLoading = False, cat_DisabledMCPServerOrigins = [],
       cat_PreloadedMCPTools = [], cat_InteractiveUserPresent = True, cat_DirectMessage = True,
       cat_MCPServerOrigins = [], cat_ResponseFilesSupported = False, cat_SandboxFilesAttached = False,
       cat_SkillsEnabled = False\<rparr>,
     ctx_ToolRuntime = \<lparr>rt_MCPDynamicToolTelemetry = None, rt_MCPDynamicToolSearchUsed = False,
       rt_MCPDynamicLoadedToolNames = [], rt_MCPDynamicSearchLoadCallSuccessRecorded = [],
       rt_CreatedFiles = [], rt_SandboxFiles = [], rt_ResponseAttachmentBudget = 0\<rparr>\<rparr>"

definition ex_request :: CompletionRequest where
  "ex_request = \<lparr>req_Posts = [mkPost PostRoleUser ''hi''], req_Context = Some ex_context,
     req_Operation = [], req_OperationSubType = [], req_RestrictFallbacks = False,
     req_AllowedFallbackServiceIDs = []\<rparr>"

end
