(* ===== verification/Tool_Runner.thy ===== *)
theory Tool_Runner
  imports Llm_Context "HOL-Library.Word"
begin

text \<open>
  The call-execute-recall loop (\<open>src/toolrunner/toolrunner.go\<close>) and the stream events it
  exchanges (\<open>src/llm/stream.go\<close>).

  Everything outside the loop is a field of the environment record: the language model's
  \<open>ChatCompletion\<close> (an error, or the events of a stream until the provider closes it), what a
  tool's resolver and its \<open>ValidateArguments\<close> hook do, the caller's \<open>shouldExecute\<close>, the
  \<open>WithToolErrorResult\<close> function and the request context's cancellation. \<open>'w\<close> is the state of
  the world those functions read and change.

  The goroutine, its channel and its context become a state record: \<open>rs_out\<close> is what the
  consumer of the stream received, \<open>rs_delivered\<close> the arguments the \<open>onToolTurns\<close> callback was
  called with. Every send and every \<open>ctx.Err()\<close> is one tick of \<open>rs_now\<close>: \<open>env_cancelled t\<close> says
  whether the context is done at tick \<open>t\<close>, and when it is, \<open>env_sendWins t\<close> which ready case the
  \<open>select\<close> of a send takes. \<open>rs_calls\<close> and \<open>rs_executed\<close> log the LLM calls and the tools run; no
  step reads them.
\<close>

section \<open>Events\<close>

datatype EventType =
  EventTypeText | EventTypeEnd | EventTypeError | EventTypeToolCalls | EventTypeReasoning
  | EventTypeReasoningEnd | EventTypeAnnotations | EventTypeUsage | EventTypeFiles
  | EventTypeServerToolUse | EventTypeToolCallBatch

datatype ToolCallPhase = ToolCallPhaseExecuting | ToolCallPhaseAwaitingDecision | ToolCallPhaseResolved

record ToolCallBatch =
  tb_Phase :: ToolCallPhase
  tb_Calls :: "ToolCall list"

record TokenUsage =
  us_InputTokens :: "64 word"
  us_OutputTokens :: "64 word"

text \<open>The dynamic types a stream event's \<open>Value any\<close> takes.\<close>

datatype event_value =
  VNil | VString string | VToolCalls "ToolCall list" | VServerToolUses "ServerToolUse list"
  | VReasoningData ReasoningData | VTokenUsage TokenUsage | VError go_error
  | VBatch ToolCallBatch | VFiles "string list" | VAnnotations nat

record TextStreamEvent =
  ev_Type :: EventType
  ev_Value :: event_value

definition event :: "EventType \<Rightarrow> event_value \<Rightarrow> TextStreamEvent" where
  "event t v = \<lparr>ev_Type = t, ev_Value = v\<rparr>"

text \<open>\<open>ReadAll\<close> on the events of a closed stream.\<close>

fun ReadAll_loop :: "TextStreamEvent list \<Rightarrow> string \<Rightarrow> string result" where
  "ReadAll_loop [] acc = Inr acc"
| "ReadAll_loop (e # es) acc =
     (case ev_Type e of
        EventTypeText \<Rightarrow>
          (case ev_Value e of VString t \<Rightarrow> ReadAll_loop es (acc @ t) | _ \<Rightarrow> ReadAll_loop es acc)
      | EventTypeError \<Rightarrow>
          (case ev_Value e of
             VError err \<Rightarrow> Inl err
           | VString msg \<Rightarrow> Inl (ErrorNew msg)
           | _ \<Rightarrow> Inl (ErrorNew ''unknown stream error''))
      | EventTypeEnd \<Rightarrow> Inr acc
      | _ \<Rightarrow> ReadAll_loop es acc)"

definition ReadAll :: "TextStreamEvent list \<Rightarrow> string result" where
  "ReadAll stream = ReadAll_loop stream []"

section \<open>Runner data\<close>

record ToolResult =
  tr_ToolCallID :: string
  tr_Name :: string
  tr_Result :: string
  tr_IsError :: bool

record ToolTurn =
  tt_AssistantMessage :: string
  tt_AssistantToolCalls :: "ToolCall list"
  tt_AssistantReasoning :: ReasoningData
  tt_AssistantServerTools :: "ServerToolUse list"
  tt_AssistantSegments :: "TurnSegment list"
  tt_ToolResults :: "ToolResult list"
  tt_TokensIn :: "64 word"
  tt_TokensOut :: "64 word"

datatype lm_option = WithToolsDisabled | OtherOption nat

record ToolCallInfo =
  ci_ID :: string
  ci_Execution :: string

definition ToolExecutionAuto :: string where "ToolExecutionAuto = ''auto''"

record 'w runner_env =
  env_chat :: "nat \<Rightarrow> CompletionRequest \<Rightarrow> lm_option list \<Rightarrow> 'w \<Rightarrow> TextStreamEvent list result \<times> 'w"
  env_resolver :: "Tool \<Rightarrow> ToolCallInfo \<Rightarrow> string \<Rightarrow> Context \<Rightarrow> 'w \<Rightarrow> (string \<times> go_error option) \<times> Context \<times> 'w"
  env_validate :: "Tool \<Rightarrow> string \<Rightarrow> string option"
  env_shouldExecute :: "Context option \<Rightarrow> 'w \<Rightarrow> ToolCall \<Rightarrow> bool"
  env_errorResult :: "(Context option \<Rightarrow> go_error \<Rightarrow> 'w \<Rightarrow> string \<times> Context option \<times> 'w) option"
  env_hasCallback :: bool
  env_quote :: "string \<Rightarrow> string"
  env_cancelled :: "nat \<Rightarrow> bool"
  env_sendWins :: "nat \<Rightarrow> bool"

record 'w run_state =
  rs_req :: CompletionRequest
  rs_ToolTurns :: "ToolTurn list"
  rs_FinalText :: string
  rs_out :: "TextStreamEvent list"
  rs_delivered :: "ToolTurn list list"
  rs_opts :: "lm_option list"
  rs_toolsDisabled :: bool
  rs_world :: 'w
  rs_now :: nat
  rs_calls :: "(nat \<times> lm_option list) list"
  rs_executed :: "(ToolCall \<times> Context option \<times> 'w) list"

abbreviation rs_context :: "('w, 'z) run_state_scheme \<Rightarrow> Context option" where
  "rs_context st \<equiv> req_Context (rs_req st)"

definition set_context :: "Context option \<Rightarrow> 'w run_state \<Rightarrow> 'w run_state" where
  "set_context c st = st\<lparr>rs_req := (rs_req st)\<lparr>req_Context := c\<rparr>\<rparr>"

text \<open>The ceiling \<open>New\<close> starts from, \<open>llm.DefaultMaxToolTurns\<close>.\<close>

definition defaultMaxRounds :: nat where "defaultMaxRounds = 30"

text \<open>\<open>New\<close> with \<open>WithMaxRounds(n)\<close>: the ceiling the runner works with.\<close>

definition WithMaxRounds :: "int \<Rightarrow> nat" where
  "WithMaxRounds n = (if n > 0 then nat n else defaultMaxRounds)"

section \<open>Sending and draining\<close>

definition send :: "'w runner_env \<Rightarrow> TextStreamEvent \<Rightarrow> 'w run_state \<Rightarrow> bool \<times> 'w run_state" where
  "send env e st =
     (if env_cancelled env (rs_now st) \<and> \<not> env_sendWins env (rs_now st)
      then (False, st\<lparr>rs_now := Suc (rs_now st)\<rparr>)
      else (True, st\<lparr>rs_now := Suc (rs_now st), rs_out := rs_out st @ [e]\<rparr>))"

abbreviation send_ignore :: "'w runner_env \<Rightarrow> TextStreamEvent \<Rightarrow> 'w run_state \<Rightarrow> 'w run_state" where
  "send_ignore env e st \<equiv> snd (send env e st)"

definition ctx_Err :: "'w runner_env \<Rightarrow> 'w run_state \<Rightarrow> bool \<times> 'w run_state" where
  "ctx_Err env st = (env_cancelled env (rs_now st), st\<lparr>rs_now := Suc (rs_now st)\<rparr>)"

record assistantResponse =
  ar_text :: string
  ar_reasoningData :: ReasoningData
  ar_toolCalls :: "ToolCall list"
  ar_serverTools :: "ServerToolUse list"
  ar_segments :: "TurnSegment list"
  ar_usage :: TokenUsage
  ar_err :: "go_error option"

definition empty_response :: assistantResponse where
  "empty_response = \<lparr>ar_text = [], ar_reasoningData = \<lparr>rd_Text = [], rd_Signature = []\<rparr>,
     ar_toolCalls = [], ar_serverTools = [], ar_segments = [],
     ar_usage = \<lparr>us_InputTokens = 0, us_OutputTokens = 0\<rparr>, ar_err = None\<rparr>"

definition sandbox_refs :: "ServerToolUse \<Rightarrow> ProviderFileReference list" where
  "sandbox_refs use = map (\<lambda>i. \<lparr>pf_ID = i, pf_ProviderRoute = su_ProviderRoute use\<rparr>) (su_FileIDs use)"

definition add_use_files :: "ServerToolUse list \<Rightarrow> 'w run_state \<Rightarrow> 'w run_state" where
  "add_use_files uses st =
     set_context (fold (\<lambda>use c. AddSandboxFiles (sandbox_refs use) c) uses (rs_context st)) st"

text \<open>One event of the provider's stream: the recorder, the response so far and the state.\<close>

definition drain_event ::
  "'w runner_env \<Rightarrow> TextStreamEvent \<Rightarrow> TurnSequence \<times> assistantResponse \<times> 'w run_state
   \<Rightarrow> TurnSequence \<times> assistantResponse \<times> 'w run_state" where
  "drain_event env e acc =
     (case acc of (sq, resp, st) \<Rightarrow>
      (case ev_Type e of
         EventTypeToolCalls \<Rightarrow>
           (case ev_Value e of
              VToolCalls tcs \<Rightarrow> (sq, resp\<lparr>ar_toolCalls := ar_toolCalls resp @ tcs\<rparr>, st)
            | _ \<Rightarrow> (sq, resp, st))
       | EventTypeServerToolUse \<Rightarrow>
           (case ev_Value e of
              VServerToolUses uses \<Rightarrow>
                (RecordServerTools uses sq, resp\<lparr>ar_serverTools := uses\<rparr>,
                 send_ignore env e (add_use_files uses st))
            | _ \<Rightarrow> (sq, resp, send_ignore env e st))
       | EventTypeEnd \<Rightarrow> (sq, resp, st)
       | EventTypeText \<Rightarrow>
           (case ev_Value e of
              VString t \<Rightarrow> (AppendText t sq, resp, send_ignore env e st)
            | _ \<Rightarrow> (sq, resp, send_ignore env e st))
       | EventTypeReasoning \<Rightarrow>
           (case ev_Value e of
              VString t \<Rightarrow> (AppendReasoning t sq, resp, send_ignore env e st)
            | _ \<Rightarrow> (sq, resp, send_ignore env e st))
       | EventTypeReasoningEnd \<Rightarrow>
           (case ev_Value e of
              VReasoningData data \<Rightarrow>
                (FinishReasoning data sq, resp\<lparr>ar_reasoningData := data\<rparr>, send_ignore env e st)
            | _ \<Rightarrow> (sq, resp, send_ignore env e st))
       | EventTypeUsage \<Rightarrow>
           (case ev_Value e of
              VTokenUsage u \<Rightarrow>
                (sq, resp\<lparr>ar_usage := \<lparr>us_InputTokens = us_InputTokens (ar_usage resp) + us_InputTokens u,
                    us_OutputTokens = us_OutputTokens (ar_usage resp) + us_OutputTokens u\<rparr>\<rparr>,
                 send_ignore env e st)
            | _ \<Rightarrow> (sq, resp, send_ignore env e st))
       | EventTypeError \<Rightarrow>
           (case ev_Value e of
              VError err \<Rightarrow> (sq, resp\<lparr>ar_err := Some err\<rparr>, send_ignore env e st)
            | _ \<Rightarrow> (sq, resp, send_ignore env e st))
       | _ \<Rightarrow> (sq, resp, send_ignore env e st)))"

definition drainStream ::
  "'w runner_env \<Rightarrow> TextStreamEvent list \<Rightarrow> 'w run_state \<Rightarrow> assistantResponse \<times> 'w run_state" where
  "drainStream env stream st =
     (case fold (drain_event env) stream ([], empty_response, st) of
        (sq, resp, st') \<Rightarrow> (resp\<lparr>ar_text := seqText sq, ar_segments := sq\<rparr>, st'))"

section \<open>Rejecting and resolving calls\<close>

definition store_of :: "Context option \<Rightarrow> ToolStore option" where
  "store_of c = (case c of None \<Rightarrow> None | Some c' \<Rightarrow> ctx_Tools c')"

text \<open>The reason a call cannot proceed, and the context after the telemetry it records.\<close>

definition rejectToolCall ::
  "'w runner_env \<Rightarrow> ToolCall \<Rightarrow> ToolStore option \<Rightarrow> Context option \<Rightarrow> string option \<times> Context option" where
  "rejectToolCall env tc store c =
     (case store of
        None \<Rightarrow> (Some (''unknown tool '' @ tc_Name tc), c)
      | Some _ \<Rightarrow>
          (case LookupTool store (tc_Name tc) (tc_ServerOrigin tc) of
             None \<Rightarrow>
               if IsUnloadedMCPTool store (tc_Name tc)
               then (Some (UnloadedMCPToolUserHint (env_quote env) (tc_Name tc)),
                     map_option (ObserveMCPDynamicToolEvent ''unloaded_tool_error'' ''error'') c)
               else (Some (''unknown tool '' @ tc_Name tc), c)
           | Some l \<Rightarrow>
               if tool_ValidateArguments (tl_Tool l)
               then (case env_validate env (tl_Tool l) (tc_Arguments tc) of
                       Some err \<Rightarrow> (Some (''invalid arguments for tool '' @ tc_Name tc @ '': '' @ err
                            @ ''. Call the tool again with arguments matching its schema.''), c)
                     | None \<Rightarrow> (None, c))
               else (None, c)))"

text \<open>The first loop: the rejection of each call, the context threaded through.\<close>

fun reject_loop ::
  "'w runner_env \<Rightarrow> ToolStore option \<Rightarrow> ToolCall list \<Rightarrow> Context option \<Rightarrow> string option list \<times> Context option" where
  "reject_loop env store [] c = ([], c)"
| "reject_loop env store (tc # tcs) c =
     (let (reason, c1) = rejectToolCall env tc store c;
          (reasons, c2) = reject_loop env store tcs c1
      in (reason # reasons, c2))"

definition rejection_result :: "string list \<Rightarrow> ToolCall \<Rightarrow> string option \<Rightarrow> ToolResult" where
  "rejection_result rejectedNames tc reason =
     \<lparr>tr_ToolCallID = tc_ID tc, tr_Name = tc_Name tc,
      tr_Result = (case reason of Some r \<Rightarrow> r | None \<Rightarrow> BatchSkippedToolResult (tc_Name tc) rejectedNames),
      tr_IsError = True\<rparr>"

text \<open>\<open>None\<close> is the nil slice: every call can proceed.\<close>

definition rejectedToolBatchResults ::
  "'w runner_env \<Rightarrow> ToolCall list \<Rightarrow> ToolStore option \<Rightarrow> Context option \<Rightarrow> ToolResult list option \<times> Context option" where
  "rejectedToolBatchResults env toolCalls store c =
     (let (reasons, c') = reject_loop env store toolCalls c;
          rejectedNames = map (\<lambda>(tc, _). tc_Name tc) (filter (\<lambda>(_, r). r \<noteq> None) (zip toolCalls reasons))
      in if rejectedNames = [] then (None, c')
         else (Some (map2 (rejection_result rejectedNames) toolCalls reasons), c'))"

definition enrichToolCallsForApproval :: "ToolCall list \<Rightarrow> ToolStore option \<Rightarrow> ToolCall list" where
  "enrichToolCallsForApproval toolCalls store =
     map (\<lambda>tc. EnrichToolCall tc store \<lparr>eo_OverwriteDescription = False, eo_BareNameFallback = False\<rparr>) toolCalls"

definition buildResolvedToolCall :: "ToolCall \<Rightarrow> ToolResult \<Rightarrow> ToolCall" where
  "buildResolvedToolCall tc r =
     \<lparr>tc_ID = tc_ID tc, tc_Name = tc_Name tc, tc_Description = tc_Description tc,
      tc_Arguments = tc_Arguments tc, tc_Result = tr_Result r,
      tc_Status = (if tr_IsError r then ToolCallStatusError else ToolCallStatusAutoApproved),
      tc_MCPBareName = tc_MCPBareName tc, tc_Title = tc_Title tc, tc_UserInteraction = [],
      tc_WouldAutoExecute = False, tc_ServerOrigin = tc_ServerOrigin tc\<rparr>"

definition buildResolvedToolCalls :: "ToolCall list \<Rightarrow> ToolResult list \<Rightarrow> ToolCall list" where
  "buildResolvedToolCalls toolCalls toolResults = map2 buildResolvedToolCall toolCalls toolResults"

definition toolCallBatchEvent :: "ToolCallPhase \<Rightarrow> ToolCall list \<Rightarrow> TextStreamEvent" where
  "toolCallBatchEvent phase calls =
     event EventTypeToolCallBatch (VBatch \<lparr>tb_Phase = phase, tb_Calls = calls\<rparr>)"

text \<open>\<open>ToolStore.ResolveToolCall\<close> (\<open>src/llm/tools.go\<close>), tracing left out.\<close>

definition ResolveToolCall ::
  "'w runner_env \<Rightarrow> string \<Rightarrow> ToolCallInfo \<Rightarrow> string \<Rightarrow> Context \<Rightarrow> 'w
   \<Rightarrow> (string \<times> go_error option) \<times> Context \<times> 'w" where
  "ResolveToolCall env name info arguments c w =
     (case lookupTool (ctx_Tools c) name of
        None \<Rightarrow> (([], Some (ErrorNew (''unknown tool '' @ name))), c, w)
      | Some tool \<Rightarrow> env_resolver env tool info arguments c w)"

text \<open>One iteration of \<open>executeTools\<close>.\<close>

definition execute_tool :: "'w runner_env \<Rightarrow> ToolCall \<Rightarrow> 'w run_state \<Rightarrow> ToolResult \<times> 'w run_state" where
  "execute_tool env tc st =
     (let store = store_of (rs_context st);
          ((res, err), c1, w1) =
            (case rs_context st of
               None \<Rightarrow> (([], Some (ErrorNew ''no tool store available'')), None, rs_world st)
             | Some c \<Rightarrow>
                 if ctx_Tools c = None then (([], Some (ErrorNew ''no tool store available'')), Some c, rs_world st)
                 else if IsUnloadedMCPTool store (tc_Name tc)
                 then (([], Some (ErrorNew (UnloadedMCPToolUserHint (env_quote env) (tc_Name tc)))), Some c, rs_world st)
                 else (case LookupTool store (tc_Name tc) (tc_ServerOrigin tc) of
                         None \<Rightarrow> (([], Some (ErrorNew (''unknown tool '' @ tc_Name tc))), Some c, rs_world st)
                       | Some l \<Rightarrow>
                           (let (re, c', w') = ResolveToolCall env (tl_RuntimeName l)
                                  \<lparr>ci_ID = tc_ID tc, ci_Execution = ToolExecutionAuto\<rparr> (tc_Arguments tc) c (rs_world st)
                            in (re, Some c', w'))));
          (res2, c2, w2) =
            (case err of
               None \<Rightarrow> (res, c1, w1)
             | Some e \<Rightarrow> (case env_errorResult env of
                            None \<Rightarrow> (errText e, c1, w1)
                          | Some f \<Rightarrow> f c1 e w1))
      in (\<lparr>tr_ToolCallID = tc_ID tc, tr_Name = tc_Name tc, tr_Result = res2, tr_IsError = (err \<noteq> None)\<rparr>,
          (set_context c2 st)\<lparr>rs_world := w2\<rparr>))"

fun executeTools :: "'w runner_env \<Rightarrow> ToolCall list \<Rightarrow> 'w run_state \<Rightarrow> ToolResult list \<times> 'w run_state" where
  "executeTools env [] st = ([], st)"
| "executeTools env (tc # tcs) st =
     (let (r, st1) = execute_tool env tc st;
          (rs, st2) = executeTools env tcs st1
      in (r # rs, st2))"

fun record_success_loop :: "(ToolCall \<times> ToolResult) list \<Rightarrow> Context \<Rightarrow> Context" where
  "record_success_loop [] c = c"
| "record_success_loop ((tc, r) # rs) c =
     (if tr_IsError r \<or> IsMCPMetaTool (tc_Name tc) then record_success_loop rs c
      else (let (yes, c') = ShouldRecordMCPDynamicSearchLoadCallSuccess (tc_Name tc) c
            in record_success_loop rs
                 (if yes then ObserveMCPDynamicToolEvent ''search_load_call_success'' ''success'' c' else c')))"

definition recordMCPDynamicSearchLoadCallSuccess ::
  "ToolCall list \<Rightarrow> ToolResult list \<Rightarrow> 'w run_state \<Rightarrow> 'w run_state" where
  "recordMCPDynamicSearchLoadCallSuccess toolCalls toolResults st =
     set_context (map_option (record_success_loop (zip toolCalls toolResults)) (rs_context st)) st"

definition appendToolTurnAndPost ::
  "assistantResponse \<Rightarrow> ToolCall list \<Rightarrow> ToolResult list \<Rightarrow> 'w run_state \<Rightarrow> 'w run_state" where
  "appendToolTurnAndPost resp resolvedToolCalls toolResults st =
     st\<lparr>rs_ToolTurns := rs_ToolTurns st @
          [\<lparr>tt_AssistantMessage = ar_text resp, tt_AssistantToolCalls = resolvedToolCalls,
            tt_AssistantReasoning = ar_reasoningData resp, tt_AssistantServerTools = ar_serverTools resp,
            tt_AssistantSegments = ar_segments resp, tt_ToolResults = toolResults,
            tt_TokensIn = us_InputTokens (ar_usage resp), tt_TokensOut = us_OutputTokens (ar_usage resp)\<rparr>],
        rs_req := (rs_req st)\<lparr>req_Posts := req_Posts (rs_req st) @
          [\<lparr>p_Role = PostRoleBot, p_Message = ar_text resp, p_Files = [], p_ToolUse = resolvedToolCalls,
            p_Reasoning = rd_Text (ar_reasoningData resp),
            p_ReasoningSignature = rd_Signature (ar_reasoningData resp),
            p_ServerTools = ar_serverTools resp, p_AssistantSegments = ar_segments resp\<rparr>]\<rparr>\<rparr>"

definition deliverToolTurns :: "'w runner_env \<Rightarrow> 'w run_state \<Rightarrow> 'w run_state" where
  "deliverToolTurns env st =
     (if env_hasCallback env \<and> rs_ToolTurns st \<noteq> []
      then st\<lparr>rs_delivered := rs_delivered st @ [rs_ToolTurns st]\<rparr> else st)"

definition finalAssistantText :: "string \<Rightarrow> bool \<Rightarrow> nat \<Rightarrow> string" where
  "finalAssistantText txt toolsDisabled droppedToolCalls =
     (if toolsDisabled \<and> 0 < droppedToolCalls then [] else txt)"

section \<open>The loop\<close>

text \<open>Which return statement ended the run.\<close>

datatype exit =
  ExitCallFailed | ExitCancelled | ExitStreamError | ExitFinal | ExitAwaitingDecision | ExitExhausted

datatype 'w step = Done exit "'w run_state" | Next "'w run_state"

definition disableTools :: "'w run_state \<Rightarrow> 'w run_state" where
  "disableTools st =
     (if rs_toolsDisabled st then st
      else st\<lparr>rs_opts := rs_opts st @ [WithToolsDisabled], rs_toolsDisabled := True\<rparr>)"

definition set_posts :: "(Post list \<Rightarrow> Post list) \<Rightarrow> 'w run_state \<Rightarrow> 'w run_state" where
  "set_posts f st = st\<lparr>rs_req := (rs_req st)\<lparr>req_Posts := f (req_Posts (rs_req st))\<rparr>\<rparr>"

definition finishToolRound :: "nat \<Rightarrow> nat \<Rightarrow> 'w run_state \<Rightarrow> 'w run_state" where
  "finishToolRound maxRounds round st =
     (let st1 = (if CountTrailingFailedToolCalls (req_Posts (rs_req st)) \<ge> MaxConsecutiveToolCallFailures
                 then disableTools (set_posts EnsureToolRetryLimitSystemMessage st) else st)
      in if round + 1 \<ge> maxRounds
         then disableTools (set_posts EnsureToolIterationLimitUserMessage st1) else st1)"

text \<open>A rejected batch: its results are recorded without running anything.\<close>

definition rejected_round ::
  "'w runner_env \<Rightarrow> nat \<Rightarrow> nat \<Rightarrow> assistantResponse \<Rightarrow> ToolCall list \<Rightarrow> ToolResult list \<Rightarrow> 'w run_state \<Rightarrow> 'w step" where
  "rejected_round env maxRounds round resp toolCalls toolResults st =
     (let resolved = buildResolvedToolCalls toolCalls toolResults;
          st1 = appendToolTurnAndPost resp resolved toolResults st;
          (ok, st2) = send env (toolCallBatchEvent ToolCallPhaseResolved resolved) st1
      in if \<not> ok then Done ExitCancelled (deliverToolTurns env st2)
         else Next (finishToolRound maxRounds round st2))"

text \<open>A batch someone has to decide on: the run stops with the calls unresolved.\<close>

definition awaiting_round ::
  "'w runner_env \<Rightarrow> ToolCall list \<Rightarrow> bool list \<Rightarrow> 'w run_state \<Rightarrow> 'w step" where
  "awaiting_round env toolCalls approved st =
     (let tagged = map2 (\<lambda>tc a. tc\<lparr>tc_WouldAutoExecute := a\<rparr>) toolCalls approved;
          st1 = deliverToolTurns env st;
          (ok, st2) = send env (toolCallBatchEvent ToolCallPhaseAwaitingDecision tagged) st1
      in Done ExitAwaitingDecision (if ok then send_ignore env (event EventTypeEnd VNil) st2 else st2))"

text \<open>A batch every call of which passed the policy.\<close>

definition executing_round ::
  "'w runner_env \<Rightarrow> nat \<Rightarrow> nat \<Rightarrow> assistantResponse \<Rightarrow> ToolCall list \<Rightarrow> 'w run_state \<Rightarrow> 'w step" where
  "executing_round env maxRounds round resp toolCalls st =
     (let calls = map (\<lambda>tc. tc\<lparr>tc_WouldAutoExecute := True\<rparr>) toolCalls;
          decided = (rs_context st, rs_world st);
          (ok, st1) = send env (toolCallBatchEvent ToolCallPhaseExecuting calls) st
      in if \<not> ok then Done ExitCancelled (deliverToolTurns env st1)
         else
           let (toolResults, st2) = executeTools env calls
                 (st1\<lparr>rs_executed := rs_executed st1 @ map (\<lambda>tc. (tc, decided)) toolCalls\<rparr>);
               (cancelled, st3) = ctx_Err env st2
           in if cancelled then Done ExitCancelled (deliverToolTurns env st3)
              else
                let st4 = recordMCPDynamicSearchLoadCallSuccess calls toolResults st3;
                    resolved = buildResolvedToolCalls calls toolResults;
                    st5 = appendToolTurnAndPost resp resolved toolResults st4;
                    (ok2, st6) = send env (toolCallBatchEvent ToolCallPhaseResolved resolved) st5
                in if \<not> ok2 then Done ExitCancelled (deliverToolTurns env st6)
                   else Next (finishToolRound maxRounds round st6))"

definition approve :: "'w runner_env \<Rightarrow> 'w run_state \<Rightarrow> ToolCall \<Rightarrow> bool" where
  "approve env st tc \<longleftrightarrow>
     env_shouldExecute env (rs_context st) (rs_world st) tc \<and> tc_UserInteraction tc = []"

text \<open>The body of the loop after the LLM call of this round returned its stream.\<close>

definition tool_round ::
  "'w runner_env \<Rightarrow> nat \<Rightarrow> nat \<Rightarrow> assistantResponse \<Rightarrow> 'w run_state \<Rightarrow> 'w step" where
  "tool_round env maxRounds round resp st =
     (let store = store_of (rs_context st);
          (rejected, c) = rejectedToolBatchResults env (ar_toolCalls resp) store (rs_context st);
          st1 = set_context c st
      in case rejected of
           Some toolResults \<Rightarrow> rejected_round env maxRounds round resp (ar_toolCalls resp) toolResults st1
         | None \<Rightarrow>
             let toolCalls = enrichToolCallsForApproval (ar_toolCalls resp) store;
                 approved = map (approve env st1) toolCalls
             in if \<not> list_all id approved then awaiting_round env toolCalls approved st1
                else executing_round env maxRounds round resp toolCalls st1)"

definition round_body ::
  "'w runner_env \<Rightarrow> nat \<Rightarrow> nat \<Rightarrow> TextStreamEvent list \<Rightarrow> 'w run_state \<Rightarrow> 'w step" where
  "round_body env maxRounds round stream st =
     (let (resp, st1) = drainStream env stream st;
          (cancelled, st2) = ctx_Err env st1
      in if cancelled then Done ExitCancelled (deliverToolTurns env st2)
         else if ar_err resp \<noteq> None then Done ExitStreamError (deliverToolTurns env st2)
         else
           let dropped = (if rs_toolsDisabled st2 then length (ar_toolCalls resp) else 0);
               resp' = (if rs_toolsDisabled st2 then resp\<lparr>ar_toolCalls := []\<rparr> else resp)
           in if ar_toolCalls resp' = []
              then Done ExitFinal (send_ignore env (event EventTypeEnd VNil)
                     (deliverToolTurns env
                       (st2\<lparr>rs_FinalText := finalAssistantText (ar_text resp') (rs_toolsDisabled st2) dropped\<rparr>)))
              else tool_round env maxRounds round resp' st2)"

definition chat_call ::
  "'w runner_env \<Rightarrow> nat \<Rightarrow> 'w run_state \<Rightarrow> TextStreamEvent list result \<times> 'w run_state" where
  "chat_call env round st =
     (let (r, w) = env_chat env round (rs_req st) (rs_opts st) (rs_world st)
      in (r, st\<lparr>rs_world := w, rs_calls := rs_calls st @ [(round, rs_opts st)]\<rparr>))"

definition llm_failed :: "go_error \<Rightarrow> go_error" where
  "llm_failed e = wrapf ''llm completion failed'' e"

definition full_round :: "'w runner_env \<Rightarrow> nat \<Rightarrow> nat \<Rightarrow> 'w run_state \<Rightarrow> 'w step" where
  "full_round env maxRounds round st =
     (case chat_call env round st of
        (Inl err, st1) \<Rightarrow>
          Done ExitCallFailed (send_ignore env (event EventTypeError (VError (llm_failed err)))
            (deliverToolTurns env st1))
      | (Inr stream, st1) \<Rightarrow> round_body env maxRounds round stream st1)"

definition loop_exhausted :: "nat \<Rightarrow> go_error" where
  "loop_exhausted maxRounds =
     ErrorNew (''tool loop stopped after '' @ Itoa (maxRounds + 1) @ '' rounds without a final response'')"

text \<open>Rounds \<open>round\<close> to \<open>maxRounds\<close>; \<open>n\<close> of them are left.\<close>

fun loop_from :: "'w runner_env \<Rightarrow> nat \<Rightarrow> nat \<Rightarrow> nat \<Rightarrow> 'w run_state \<Rightarrow> exit \<times> 'w run_state" where
  "loop_from env maxRounds round 0 st =
     (ExitExhausted, send_ignore env (event EventTypeError (VError (loop_exhausted maxRounds)))
        (deliverToolTurns env st))"
| "loop_from env maxRounds round (Suc n) st =
     (case full_round env maxRounds round st of
        Done x st' \<Rightarrow> (x, st')
      | Next st' \<Rightarrow> loop_from env maxRounds (Suc round) n st')"

text \<open>\<open>runLoop\<close>: round 0 consumes the stream \<open>Run\<close> opened.\<close>

definition runLoop ::
  "'w runner_env \<Rightarrow> nat \<Rightarrow> TextStreamEvent list \<Rightarrow> 'w run_state \<Rightarrow> exit \<times> 'w run_state" where
  "runLoop env maxRounds firstStream st =
     (case round_body env maxRounds 0 firstStream st of
        Done x st' \<Rightarrow> (x, st')
      | Next st' \<Rightarrow> loop_from env maxRounds 1 maxRounds st')"

definition initial_state :: "CompletionRequest \<Rightarrow> lm_option list \<Rightarrow> 'w \<Rightarrow> 'w run_state" where
  "initial_state request opts w =
     \<lparr>rs_req = request, rs_ToolTurns = [], rs_FinalText = [], rs_out = [], rs_delivered = [],
      rs_opts = opts, rs_toolsDisabled = False, rs_world = w, rs_now = 0, rs_calls = [], rs_executed = []\<rparr>"

definition Run ::
  "'w runner_env \<Rightarrow> nat \<Rightarrow> CompletionRequest \<Rightarrow> lm_option list \<Rightarrow> 'w \<Rightarrow> (exit \<times> 'w run_state) result" where
  "Run env maxRounds request opts w =
     (case chat_call env 0 (initial_state request opts w) of
        (Inl err, _) \<Rightarrow> Inl (llm_failed err)
      | (Inr firstStream, st) \<Rightarrow> Inr (runLoop env maxRounds firstStream st))"

section \<open>Frame lemmas\<close>

text \<open>What sends, drains, tools and telemetry leave alone.\<close>

definition core :: "'w run_state \<Rightarrow> ToolTurn list \<times> string \<times> ToolTurn list list \<times> lm_option list \<times> bool
    \<times> (nat \<times> lm_option list) list \<times> (ToolCall \<times> Context option \<times> 'w) list \<times> Post list" where
  "core st = (rs_ToolTurns st, rs_FinalText st, rs_delivered st, rs_opts st, rs_toolsDisabled st,
              rs_calls st, rs_executed st, req_Posts (rs_req st))"

lemma coreD:
  assumes "core a = core b"
  shows "rs_ToolTurns a = rs_ToolTurns b" "rs_FinalText a = rs_FinalText b"
    "rs_delivered a = rs_delivered b" "rs_opts a = rs_opts b" "rs_toolsDisabled a = rs_toolsDisabled b"
    "rs_calls a = rs_calls b" "rs_executed a = rs_executed b" "req_Posts (rs_req a) = req_Posts (rs_req b)"
  using assms by (simp_all add: core_def)

lemma core_send [simp]: "core (snd (send env e st)) = core st"
  by (simp add: core_def send_def)

lemma core_ctx_Err [simp]: "core (snd (ctx_Err env st)) = core st"
  by (simp add: core_def ctx_Err_def)

lemma core_set_context [simp]: "core (set_context c st) = core st"
  by (simp add: core_def set_context_def)

lemma core_world [simp]: "core (st\<lparr>rs_world := w\<rparr>) = core st"
  by (simp add: core_def)

lemma core_add_use_files [simp]: "core (add_use_files uses st) = core st"
  by (simp add: add_use_files_def)

lemma core_drain_event [simp]: "core (snd (snd (drain_event env e (sq, resp, st)))) = core st"
  by (simp add: drain_event_def split: EventType.split event_value.split)

lemma core_drain_fold: "core (snd (snd (fold (drain_event env) es acc))) = core (snd (snd acc))"
proof (induction es arbitrary: acc)
  case (Cons e es)
  then show ?case by (cases acc) simp
qed simp

lemma core_drainStream [simp]: "core (snd (drainStream env es st)) = core st"
  using core_drain_fold [of env es "([], empty_response, st)"]
  by (simp add: drainStream_def case_prod_beta)

lemma core_execute_tool [simp]: "core (snd (execute_tool env tc st)) = core st"
  by (simp add: execute_tool_def Let_def case_prod_beta)

lemma core_executeTools [simp]: "core (snd (executeTools env tcs st)) = core st"
proof (induction tcs arbitrary: st)
  case (Cons tc tcs)
  from Cons [of "snd (execute_tool env tc st)"] show ?case by (simp add: case_prod_beta Let_def)
qed simp

lemma core_recordSuccess [simp]: "core (recordMCPDynamicSearchLoadCallSuccess tcs rs st) = core st"
  by (simp add: recordMCPDynamicSearchLoadCallSuccess_def)

text \<open>The consumer's side: what a step adds to the stream.\<close>

lemma out_set_context [simp]: "rs_out (set_context c st) = rs_out st"
  by (simp add: set_context_def)

lemma out_add_use_files [simp]: "rs_out (add_use_files uses st) = rs_out st"
  by (simp add: add_use_files_def)

lemma out_execute_tool [simp]: "rs_out (snd (execute_tool env tc st)) = rs_out st"
  by (simp add: execute_tool_def Let_def case_prod_beta)

lemma out_executeTools [simp]: "rs_out (snd (executeTools env tcs st)) = rs_out st"
proof (induction tcs arbitrary: st)
  case (Cons tc tcs)
  from Cons [of "snd (execute_tool env tc st)"] show ?case by (simp add: case_prod_beta Let_def)
qed simp

lemma out_frames [simp]:
  "rs_out (snd (ctx_Err env st)) = rs_out st"
  "rs_out (recordMCPDynamicSearchLoadCallSuccess tcs rs st) = rs_out st"
  "rs_out (deliverToolTurns env st) = rs_out st"
  "rs_out (appendToolTurnAndPost resp rtcs rs st) = rs_out st"
  "rs_out (disableTools st) = rs_out st"
  "rs_out (set_posts f st) = rs_out st"
  by (simp_all add: ctx_Err_def recordMCPDynamicSearchLoadCallSuccess_def deliverToolTurns_def
      appendToolTurnAndPost_def disableTools_def set_posts_def)

lemma out_finishToolRound [simp]: "rs_out (finishToolRound mr r st) = rs_out st"
  by (simp add: finishToolRound_def Let_def)

lemma out_send: "rs_out (snd (send env e st)) = rs_out st @ (if fst (send env e st) then [e] else [])"
  by (simp add: send_def)

definition forwarded :: "TextStreamEvent \<Rightarrow> bool" where
  "forwarded e \<longleftrightarrow> ev_Type e \<noteq> EventTypeToolCalls \<and> ev_Type e \<noteq> EventTypeEnd"

lemma out_drain_event:
  "rs_out (snd (snd (drain_event env e (sq, resp, st)))) =
     rs_out st @ (if forwarded e \<and> fst (send env e (if ev_Type e = EventTypeServerToolUse then
        (case ev_Value e of VServerToolUses us \<Rightarrow> add_use_files us st | _ \<Rightarrow> st) else st)) then [e] else [])"
  by (simp add: drain_event_def forwarded_def out_send split: EventType.split event_value.split)

lemma out_drain_fold:
  "\<exists>es'. rs_out (snd (snd (fold (drain_event env) es acc))) = rs_out (snd (snd acc)) @ es'
     \<and> subseq es' (filter forwarded es)"
proof (induction es arbitrary: acc)
  case (Cons e es)
  obtain sq resp st where acc: "acc = (sq, resp, st)" by (cases acc)
  from Cons [of "drain_event env e acc"] obtain es' where
    es': "rs_out (snd (snd (fold (drain_event env) es (drain_event env e acc))))
        = rs_out (snd (snd (drain_event env e acc))) @ es'" "subseq es' (filter forwarded es)" by blast
  show ?case unfolding acc using es' [unfolded acc]
    by (auto simp: out_drain_event intro: subseq_Cons')
qed simp

lemma out_drainStream:
  obtains es' where "rs_out (snd (drainStream env es st)) = rs_out st @ es'" "subseq es' (filter forwarded es)"
  using out_drain_fold [of env es "([], empty_response, st)"]
  by (auto simp: drainStream_def case_prod_beta)

text \<open>With a live context everything sent arrives.\<close>

definition never_cancelled :: "'w runner_env \<Rightarrow> bool" where
  "never_cancelled env \<longleftrightarrow> (\<forall>t. \<not> env_cancelled env t)"

lemma send_live: "never_cancelled env \<Longrightarrow> fst (send env e st)"
  by (simp add: send_def never_cancelled_def)

lemma ctx_Err_live: "never_cancelled env \<Longrightarrow> \<not> fst (ctx_Err env st)"
  by (simp add: ctx_Err_def never_cancelled_def)

lemma out_drain_fold_live:
  "never_cancelled env \<Longrightarrow>
   rs_out (snd (snd (fold (drain_event env) es acc))) = rs_out (snd (snd acc)) @ filter forwarded es"
proof (induction es arbitrary: acc)
  case (Cons e es)
  then show ?case by (cases acc) (simp add: out_drain_event send_live)
qed simp

lemma out_drainStream_live:
  "never_cancelled env \<Longrightarrow> rs_out (snd (drainStream env es st)) = rs_out st @ filter forwarded es"
  using out_drain_fold_live [of env es "([], empty_response, st)"]
  by (simp add: drainStream_def case_prod_beta)

section \<open>What a round does\<close>

text \<open>A recorded turn: one result per call, in order, and the call's status tells how it went.\<close>

definition call_resolved :: "ToolCall \<Rightarrow> ToolResult \<Rightarrow> bool" where
  "call_resolved tc r \<longleftrightarrow> tr_ToolCallID r = tc_ID tc \<and> tr_Name r = tc_Name tc \<and> tc_Result tc = tr_Result r
     \<and> tc_Status tc = (if tr_IsError r then ToolCallStatusError else ToolCallStatusAutoApproved)"

definition turn_ok :: "ToolTurn \<Rightarrow> bool" where
  "turn_ok t \<longleftrightarrow> tt_AssistantToolCalls t \<noteq> []
     \<and> list_all2 call_resolved (tt_AssistantToolCalls t) (tt_ToolResults t)"

text \<open>A logged execution had been approved: the caller's policy said yes and no user is needed.\<close>

definition executed_ok :: "'w runner_env \<Rightarrow> ToolCall \<times> Context option \<times> 'w \<Rightarrow> bool" where
  "executed_ok env x \<longleftrightarrow> (case x of (tc, c, w) \<Rightarrow> env_shouldExecute env c w tc \<and> tc_UserInteraction tc = [])"

definition result_for :: "ToolCall \<Rightarrow> ToolResult \<Rightarrow> bool" where
  "result_for tc r \<longleftrightarrow> tr_ToolCallID r = tc_ID tc \<and> tr_Name r = tc_Name tc"

lemma result_for_execute_tool: "result_for tc (fst (execute_tool env tc st))"
  by (simp add: result_for_def execute_tool_def Let_def case_prod_beta)

lemma result_for_executeTools: "list_all2 result_for tcs (fst (executeTools env tcs st))"
proof (induction tcs arbitrary: st)
  case (Cons tc tcs)
  from Cons [of "snd (execute_tool env tc st)"] show ?case
    by (simp add: Let_def case_prod_beta result_for_execute_tool)
qed simp

lemma reject_loop_length: "length (fst (reject_loop env store tcs c)) = length tcs"
proof (induction tcs arbitrary: c)
  case (Cons tc tcs)
  from Cons [of "snd (rejectToolCall env tc store c)"] show ?case by (simp add: Let_def case_prod_beta)
qed simp

lemma result_for_rejected:
  assumes "rejectedToolBatchResults env tcs store c = (Some rs, c')"
  shows "list_all2 result_for tcs rs" "list_all tr_IsError rs"
proof -
  let ?reasons = "fst (reject_loop env store tcs c)"
  from assms obtain names where rs: "rs = map2 (rejection_result names) tcs ?reasons"
    by (auto simp: rejectedToolBatchResults_def Let_def case_prod_beta split: if_splits)
  have "length ?reasons = length tcs" by (rule reject_loop_length)
  with rs show "list_all2 result_for tcs rs"
    by (simp add: list_all2_conv_all_nth result_for_def rejection_result_def)
  from rs show "list_all tr_IsError rs"
    by (auto simp: list_all_iff rejection_result_def)
qed

lemma call_resolved_build: "result_for tc r \<Longrightarrow> call_resolved (buildResolvedToolCall tc r) r"
  by (simp add: result_for_def call_resolved_def buildResolvedToolCall_def)

lemma resolved_all2:
  "list_all2 result_for tcs rs \<Longrightarrow> list_all2 call_resolved (buildResolvedToolCalls tcs rs) rs"
  unfolding buildResolvedToolCalls_def
  by (induction rule: list_all2_induct) (simp_all add: call_resolved_build)

lemma resolved_nonempty:
  "list_all2 result_for tcs rs \<Longrightarrow> tcs \<noteq> [] \<Longrightarrow> buildResolvedToolCalls tcs rs \<noteq> []"
  unfolding buildResolvedToolCalls_def by (cases tcs; cases rs) auto

text \<open>A round that continues the loop, and one that ends it.\<close>

definition advances :: "'w runner_env \<Rightarrow> 'w run_state \<Rightarrow> 'w run_state \<Rightarrow> bool" where
  "advances env st st' \<longleftrightarrow>
     (\<exists>t es. rs_ToolTurns st' = rs_ToolTurns st @ [t] \<and> turn_ok t
        \<and> rs_executed st' = rs_executed st @ es \<and> (\<forall>x \<in> set es. executed_ok env x))
     \<and> rs_delivered st' = rs_delivered st \<and> rs_FinalText st' = rs_FinalText st
     \<and> rs_calls st' = rs_calls st"

definition finishes :: "'w runner_env \<Rightarrow> 'w run_state \<Rightarrow> 'w run_state \<Rightarrow> bool" where
  "finishes env st st' \<longleftrightarrow>
     (\<exists>ts es. rs_ToolTurns st' = rs_ToolTurns st @ ts \<and> length ts \<le> 1 \<and> (\<forall>t \<in> set ts. turn_ok t)
        \<and> rs_executed st' = rs_executed st @ es \<and> (\<forall>x \<in> set es. executed_ok env x))
     \<and> rs_delivered st' = rs_delivered st
         @ (if env_hasCallback env \<and> rs_ToolTurns st' \<noteq> [] then [rs_ToolTurns st'] else [])
     \<and> rs_calls st' = rs_calls st"

lemma deliver_frames [simp]:
  "rs_ToolTurns (deliverToolTurns env st) = rs_ToolTurns st"
  "rs_FinalText (deliverToolTurns env st) = rs_FinalText st"
  "rs_calls (deliverToolTurns env st) = rs_calls st"
  "rs_executed (deliverToolTurns env st) = rs_executed st"
  "rs_toolsDisabled (deliverToolTurns env st) = rs_toolsDisabled st"
  "rs_delivered (deliverToolTurns env st) = rs_delivered st
     @ (if env_hasCallback env \<and> rs_ToolTurns st \<noteq> [] then [rs_ToolTurns st] else [])"
  by (simp_all add: deliverToolTurns_def)

lemma finish_frames [simp]:
  "rs_ToolTurns (finishToolRound mr r st) = rs_ToolTurns st"
  "rs_FinalText (finishToolRound mr r st) = rs_FinalText st"
  "rs_calls (finishToolRound mr r st) = rs_calls st"
  "rs_executed (finishToolRound mr r st) = rs_executed st"
  "rs_delivered (finishToolRound mr r st) = rs_delivered st"
  by (simp_all add: finishToolRound_def disableTools_def set_posts_def Let_def)

lemma append_frames [simp]:
  "rs_FinalText (appendToolTurnAndPost resp rtcs rs st) = rs_FinalText st"
  "rs_calls (appendToolTurnAndPost resp rtcs rs st) = rs_calls st"
  "rs_executed (appendToolTurnAndPost resp rtcs rs st) = rs_executed st"
  "rs_delivered (appendToolTurnAndPost resp rtcs rs st) = rs_delivered st"
  "rs_toolsDisabled (appendToolTurnAndPost resp rtcs rs st) = rs_toolsDisabled st"
  "rs_opts (appendToolTurnAndPost resp rtcs rs st) = rs_opts st"
  by (simp_all add: appendToolTurnAndPost_def)

lemma append_turns:
  "\<exists>t. rs_ToolTurns (appendToolTurnAndPost resp rtcs rs st) = rs_ToolTurns st @ [t]
     \<and> tt_AssistantToolCalls t = rtcs \<and> tt_ToolResults t = rs"
  by (simp add: appendToolTurnAndPost_def)

lemmas send_core = core_send [THEN coreD(1)] core_send [THEN coreD(2)] core_send [THEN coreD(3)]
  core_send [THEN coreD(4)] core_send [THEN coreD(5)] core_send [THEN coreD(6)] core_send [THEN coreD(7)]
  core_send [THEN coreD(8)]

lemma rejected_round_cases:
  assumes "list_all2 result_for tcs rs" "tcs \<noteq> []"
  shows "(\<exists>st'. rejected_round env mr round resp tcs rs st = Next st' \<and> advances env st st')
       \<or> (\<exists>st'. rejected_round env mr round resp tcs rs st = Done ExitCancelled st' \<and> finishes env st st')"
proof -
  let ?rtcs = "buildResolvedToolCalls tcs rs"
  let ?st1 = "appendToolTurnAndPost resp ?rtcs rs st"
  obtain t where t: "rs_ToolTurns ?st1 = rs_ToolTurns st @ [t]"
    "tt_AssistantToolCalls t = ?rtcs" "tt_ToolResults t = rs" using append_turns by blast
  then have ok: "turn_ok t" using assms by (simp add: turn_ok_def resolved_all2 resolved_nonempty)
  let ?send = "send env (toolCallBatchEvent ToolCallPhaseResolved ?rtcs) ?st1"
  show ?thesis
  proof (cases "fst ?send")
    case True
    then have "rejected_round env mr round resp tcs rs st = Next (finishToolRound mr round (snd ?send))"
      by (simp add: rejected_round_def Let_def case_prod_beta)
    moreover have "advances env st (finishToolRound mr round (snd ?send))"
      using t ok by (simp add: advances_def send_core)
    ultimately show ?thesis by blast
  next
    case False
    then have "rejected_round env mr round resp tcs rs st = Done ExitCancelled (deliverToolTurns env (snd ?send))"
      by (simp add: rejected_round_def Let_def case_prod_beta)
    moreover have "finishes env st (deliverToolTurns env (snd ?send))"
      using t ok by (simp add: finishes_def send_core)
    ultimately show ?thesis by blast
  qed
qed

lemma awaiting_round_finishes:
  "\<exists>st'. awaiting_round env tcs approved st = Done ExitAwaitingDecision st' \<and> finishes env st st'
     \<and> rs_executed st' = rs_executed st"
  by (simp add: awaiting_round_def Let_def case_prod_beta finishes_def send_core)

lemma executing_round_cases:
  assumes "tcs \<noteq> []" and ok: "\<And>tc. tc \<in> set tcs \<Longrightarrow> approve env st tc"
  shows "(\<exists>st'. executing_round env mr round resp tcs st = Next st' \<and> advances env st st')
       \<or> (\<exists>st'. executing_round env mr round resp tcs st = Done ExitCancelled st' \<and> finishes env st st')"
proof -
  define calls where "calls = map (\<lambda>tc. tc\<lparr>tc_WouldAutoExecute := True\<rparr>) tcs"
  define s1 where "s1 = send env (toolCallBatchEvent ToolCallPhaseExecuting calls) st"
  define log where "log = map (\<lambda>tc. (tc, rs_context st, rs_world st)) tcs"
  define run where "run = executeTools env calls ((snd s1)\<lparr>rs_executed := rs_executed (snd s1) @ log\<rparr>)"
  define s3 where "s3 = ctx_Err env (snd run)"
  define resolved where "resolved = buildResolvedToolCalls calls (fst run)"
  define s5 where "s5 = appendToolTurnAndPost resp resolved (fst run)
     (recordMCPDynamicSearchLoadCallSuccess calls (fst run) (snd s3))"
  define s6 where "s6 = send env (toolCallBatchEvent ToolCallPhaseResolved resolved) s5"
  have round: "executing_round env mr round resp tcs st =
      (if \<not> fst s1 then Done ExitCancelled (deliverToolTurns env (snd s1))
       else if fst s3 then Done ExitCancelled (deliverToolTurns env (snd s3))
       else if \<not> fst s6 then Done ExitCancelled (deliverToolTurns env (snd s6))
       else Next (finishToolRound mr round (snd s6)))"
    by (simp add: executing_round_def Let_def case_prod_beta calls_def s1_def log_def run_def s3_def
        resolved_def s5_def s6_def)
  have log_ok: "\<forall>x \<in> set log. executed_ok env x"
    using ok by (auto simp: log_def executed_ok_def approve_def)
  have "core (snd s3) = core ((snd s1)\<lparr>rs_executed := rs_executed (snd s1) @ log\<rparr>)"
    by (simp add: s3_def run_def)
  note c3 = coreD [OF this]
  have c1: "rs_ToolTurns (snd s1) = rs_ToolTurns st" "rs_FinalText (snd s1) = rs_FinalText st"
    "rs_delivered (snd s1) = rs_delivered st" "rs_calls (snd s1) = rs_calls st"
    "rs_executed (snd s1) = rs_executed st"
    by (simp_all add: s1_def send_core)
  have "core (recordMCPDynamicSearchLoadCallSuccess calls (fst run) (snd s3)) = core (snd s3)" by simp
  note c4 = coreD [OF this]
  have res: "list_all2 result_for calls (fst run)"
    unfolding run_def by (rule result_for_executeTools)
  have "calls \<noteq> []" using assms(1) by (simp add: calls_def)
  obtain t where t: "rs_ToolTurns s5 = rs_ToolTurns st @ [t]" "tt_AssistantToolCalls t = resolved"
    "tt_ToolResults t = fst run"
    using append_turns [of resp resolved "fst run" "recordMCPDynamicSearchLoadCallSuccess calls (fst run) (snd s3)"]
    by (auto simp: s5_def c4 c3 c1)
  have t_ok: "turn_ok t"
    unfolding turn_ok_def t(2,3) resolved_def
    using resolved_all2 [OF res] resolved_nonempty [OF res \<open>calls \<noteq> []\<close>] by simp
  have c6: "rs_ToolTurns (snd s6) = rs_ToolTurns st @ [t]" "rs_FinalText (snd s6) = rs_FinalText st"
    "rs_delivered (snd s6) = rs_delivered st" "rs_calls (snd s6) = rs_calls st"
    "rs_executed (snd s6) = rs_executed st @ log"
    by (simp_all add: s6_def send_core t) (simp_all add: s5_def c4 c3 c1)
  have f1: "finishes env st (deliverToolTurns env (snd s1))"
    by (simp add: finishes_def c1)
  have f3: "finishes env st (deliverToolTurns env (snd s3))"
    using log_ok by (simp add: finishes_def c3 c1)
  have f6: "finishes env st (deliverToolTurns env (snd s6))"
    using log_ok t_ok by (simp add: finishes_def c6)
  have a6: "advances env st (finishToolRound mr round (snd s6))"
    using log_ok t_ok by (simp add: advances_def c6)
  show ?thesis unfolding round using f1 f3 f6 a6 by simp
qed

lemma advances_context [simp]: "advances env (set_context c st) st' = advances env st st'"
  by (simp add: advances_def set_context_def)

lemma finishes_context [simp]: "finishes env (set_context c st) st' = finishes env st st'"
  by (simp add: finishes_def set_context_def)

lemma tool_round_cases:
  assumes "ar_toolCalls resp \<noteq> []"
  shows "(\<exists>st'. tool_round env mr round resp st = Next st' \<and> advances env st st')
       \<or> (\<exists>x st'. tool_round env mr round resp st = Done x st' \<and> finishes env st st'
            \<and> (x = ExitCancelled \<or> x = ExitAwaitingDecision))"
proof -
  let ?store = "store_of (rs_context st)"
  obtain rejected c where rej: "rejectedToolBatchResults env (ar_toolCalls resp) ?store (rs_context st) = (rejected, c)"
    by force
  show ?thesis
  proof (cases rejected)
    case (Some rs)
    from result_for_rejected(1) rej Some have "list_all2 result_for (ar_toolCalls resp) rs" by blast
    from rejected_round_cases [OF this assms, of env mr round resp "set_context c st"]
    show ?thesis using rej Some by (auto simp: tool_round_def Let_def)
  next
    case None
    let ?tcs = "enrichToolCallsForApproval (ar_toolCalls resp) ?store"
    let ?approved = "map (approve env (set_context c st)) ?tcs"
    show ?thesis
    proof (cases "list_all id ?approved")
      case False
      from awaiting_round_finishes [of env ?tcs ?approved "set_context c st"]
      show ?thesis using rej None False by (auto simp: tool_round_def Let_def)
    next
      case True
      have "?tcs \<noteq> []" using assms by (simp add: enrichToolCallsForApproval_def)
      moreover from True have "approve env (set_context c st) tc" if "tc \<in> set ?tcs" for tc
        using that by (simp add: list_all_iff)
      ultimately have "(\<exists>st'. executing_round env mr round resp ?tcs (set_context c st) = Next st' \<and> advances env (set_context c st) st')
        \<or> (\<exists>st'. executing_round env mr round resp ?tcs (set_context c st) = Done ExitCancelled st' \<and> finishes env (set_context c st) st')"
        by (rule executing_round_cases)
      then show ?thesis using rej None True by (auto simp: tool_round_def Let_def)
    qed
  qed
qed

lemma advances_core: "core st1 = core st \<Longrightarrow> advances env st1 st' = advances env st st'"
  by (simp add: advances_def core_def)

lemma finishes_core: "core st1 = core st \<Longrightarrow> finishes env st1 st' = finishes env st st'"
  by (simp add: finishes_def core_def)

text \<open>
  The three ways out of a round body; the loop only goes on while tools are enabled.
\<close>

lemma round_body_cases:
  "(\<exists>st'. round_body env mr round stream st = Next st' \<and> advances env st st' \<and> \<not> rs_toolsDisabled st)
   \<or> (\<exists>x st'. round_body env mr round stream st = Done x st' \<and> finishes env st st'
        \<and> (rs_toolsDisabled st \<longrightarrow> rs_executed st' = rs_executed st \<and> rs_ToolTurns st' = rs_ToolTurns st)
        \<and> x \<noteq> ExitExhausted \<and> x \<noteq> ExitCallFailed)"
proof -
  obtain resp st1 where dr: "drainStream env stream st = (resp, st1)" by force
  obtain cancelled st2 where ce: "ctx_Err env st1 = (cancelled, st2)" by force
  have core2: "core st2 = core st"
    using core_ctx_Err [of env st1] core_drainStream [of env stream st] dr ce by simp
  note c = coreD [OF core2]
  have fin: "finishes env st (deliverToolTurns env st2)"
    by (simp add: finishes_def c)
  have fin_final: "finishes env st (send_ignore env e (deliverToolTurns env (st2\<lparr>rs_FinalText := t\<rparr>)))" for e t
    by (simp add: finishes_def send_core c)
  show ?thesis
  proof (cases "cancelled \<or> ar_err resp \<noteq> None")
    case True
    then show ?thesis using fin dr ce by (auto simp: round_body_def c)
  next
    case False
    show ?thesis
    proof (cases "rs_toolsDisabled st2 \<or> ar_toolCalls resp = []")
      case True
      then show ?thesis using False fin_final dr ce
        by (auto simp: round_body_def Let_def send_core c)
    next
      case tools: False
      then have "round_body env mr round stream st = tool_round env mr round resp st2"
        using False dr ce by (simp add: round_body_def Let_def)
      moreover have "\<not> rs_toolsDisabled st" using tools c by simp
      ultimately show ?thesis
        using tool_round_cases [of resp env mr round st2] tools
        by (auto simp: advances_core [OF core2] finishes_core [OF core2])
    qed
  qed
qed

text \<open>A round that continues ends in \<open>finishToolRound\<close>, with the options it started with.\<close>

definition from_finish :: "nat \<Rightarrow> nat \<Rightarrow> 'w run_state \<Rightarrow> 'w run_state \<Rightarrow> bool" where
  "from_finish mr round st st' \<longleftrightarrow>
     (\<exists>pre p. st' = finishToolRound mr round pre \<and> rs_opts pre = rs_opts st
        \<and> rs_toolsDisabled pre = rs_toolsDisabled st
        \<and> req_Posts (rs_req pre) = req_Posts (rs_req st) @ [p] \<and> p_Role p = PostRoleBot
        \<and> rs_ToolTurns pre \<noteq> [] \<and> p_ToolUse p = tt_AssistantToolCalls (last (rs_ToolTurns pre)))"

lemma append_post:
  "\<exists>p. req_Posts (rs_req (appendToolTurnAndPost resp rtcs rs st)) = req_Posts (rs_req st) @ [p]
     \<and> p_Role p = PostRoleBot \<and> p_ToolUse p = rtcs"
  by (simp add: appendToolTurnAndPost_def)

lemma append_last:
  "rs_ToolTurns (appendToolTurnAndPost resp rtcs rs st) \<noteq> []
   \<and> tt_AssistantToolCalls (last (rs_ToolTurns (appendToolTurnAndPost resp rtcs rs st))) = rtcs"
  by (simp add: appendToolTurnAndPost_def)

lemma from_finish_append:
  assumes "core st4 = (core st :: ToolTurn list \<times> string \<times> ToolTurn list list \<times> lm_option list \<times> bool
    \<times> (nat \<times> lm_option list) list \<times> (ToolCall \<times> Context option \<times> 'w) list \<times> Post list)
    \<or> (\<exists>l. core st4 = core (st\<lparr>rs_executed := l\<rparr>))"
  shows "from_finish mr round st
     (finishToolRound mr round (snd (send env e (appendToolTurnAndPost resp rtcs rs (st4 :: 'w run_state)))))"
proof -
  have c: "rs_opts st4 = rs_opts st" "rs_toolsDisabled st4 = rs_toolsDisabled st"
    "req_Posts (rs_req st4) = req_Posts (rs_req st)"
    using assms by (auto simp: core_def)
  obtain p where "req_Posts (rs_req (appendToolTurnAndPost resp rtcs rs st4)) = req_Posts (rs_req st) @ [p]"
    "p_Role p = PostRoleBot" "p_ToolUse p = rtcs"
    using append_post [of resp rtcs rs st4] c by auto
  with c show ?thesis
    unfolding from_finish_def by (intro exI [of _ "snd (send env e (appendToolTurnAndPost resp rtcs rs st4))"] exI [of _ p])
      (simp add: send_core append_last)
qed

lemma rejected_round_finish:
  "rejected_round env mr round resp tcs rs st = Next st' \<Longrightarrow> from_finish mr round st st'"
  by (auto simp: rejected_round_def Let_def case_prod_beta intro!: from_finish_append split: if_splits)

lemma executing_round_finish:
  assumes "executing_round env mr round resp tcs st = Next st'"
  shows "from_finish mr round st st'"
proof -
  define calls where "calls = map (\<lambda>tc. tc\<lparr>tc_WouldAutoExecute := True\<rparr>) tcs"
  define s1 where "s1 = snd (send env (toolCallBatchEvent ToolCallPhaseExecuting calls) st)"
  define s1' where "s1' = s1\<lparr>rs_executed := rs_executed s1 @ map (\<lambda>tc. (tc, rs_context st, rs_world st)) tcs\<rparr>"
  define run where "run = executeTools env calls s1'"
  define s4 where "s4 = recordMCPDynamicSearchLoadCallSuccess calls (fst run) (snd (ctx_Err env (snd run)))"
  define resolved where "resolved = buildResolvedToolCalls calls (fst run)"
  have "st' = finishToolRound mr round (snd (send env (toolCallBatchEvent ToolCallPhaseResolved resolved)
      (appendToolTurnAndPost resp resolved (fst run) s4)))"
    using assms by (auto simp: executing_round_def Let_def case_prod_beta calls_def s1_def s1'_def run_def s4_def
        resolved_def split: if_splits)
  moreover have "core s4 = core s1'" by (simp add: s4_def run_def)
  moreover have "core s1' = core (st\<lparr>rs_executed := rs_executed s1'\<rparr>)"
    by (simp add: core_def s1'_def s1_def send_core)
  ultimately show ?thesis by (simp, intro from_finish_append) metis
qed

lemma from_finish_context [simp]: "from_finish mr round (set_context c st) st' = from_finish mr round st st'"
  by (simp add: from_finish_def set_context_def)

lemma from_finish_core: "core st1 = core st \<Longrightarrow> from_finish mr round st1 st' = from_finish mr round st st'"
  by (simp add: from_finish_def core_def)

lemma round_body_finish:
  assumes "round_body env mr round stream st = Next st'"
  shows "from_finish mr round st st'"
proof -
  obtain resp st1 where dr: "drainStream env stream st = (resp, st1)" by force
  obtain cancelled st2 where ce: "ctx_Err env st1 = (cancelled, st2)" by force
  have core2: "core st2 = core st"
    using core_ctx_Err [of env st1] core_drainStream [of env stream st] dr ce by simp
  obtain resp' where "tool_round env mr round resp' st2 = Next st'"
    using assms dr ce by (auto simp: round_body_def Let_def split: if_splits)
  then have "from_finish mr round st2 st'"
    by (auto simp: tool_round_def Let_def awaiting_round_def case_prod_beta
        dest!: rejected_round_finish executing_round_finish split: option.splits if_splits)
  then show ?thesis using from_finish_core [OF core2] by simp
qed

lemma finishToolRound_options:
  assumes "\<not> rs_toolsDisabled pre"
  shows "rs_opts (finishToolRound mr round pre) = rs_opts pre
      @ (if rs_toolsDisabled (finishToolRound mr round pre) then [WithToolsDisabled] else [])"
    and "rs_toolsDisabled (finishToolRound mr round pre) \<longleftrightarrow>
      CountTrailingFailedToolCalls (req_Posts (rs_req pre)) \<ge> MaxConsecutiveToolCallFailures \<or> round + 1 \<ge> mr"
  using assms by (auto simp: finishToolRound_def Let_def disableTools_def set_posts_def)

section \<open>The whole run\<close>

definition loop_inv :: "'w runner_env \<Rightarrow> nat \<Rightarrow> lm_option list \<Rightarrow> nat \<Rightarrow> 'w run_state \<Rightarrow> bool" where
  "loop_inv env mr opts round st \<longleftrightarrow>
     length (rs_ToolTurns st) = round \<and> (\<forall>t \<in> set (rs_ToolTurns st). turn_ok t)
     \<and> (\<forall>x \<in> set (rs_executed st). executed_ok env x)
     \<and> rs_delivered st = [] \<and> rs_FinalText st = []
     \<and> rs_opts st = opts @ (if rs_toolsDisabled st then [WithToolsDisabled] else [])
     \<and> (mr \<le> round \<longrightarrow> rs_toolsDisabled st)
     \<and> map fst (rs_calls st) = [0..<round] \<and> (\<forall>(r, os) \<in> set (rs_calls st). os = opts \<and> r < mr)"

definition run_ok :: "'w runner_env \<Rightarrow> nat \<Rightarrow> lm_option list \<Rightarrow> exit \<times> 'w run_state \<Rightarrow> bool" where
  "run_ok env mr opts res \<longleftrightarrow> (case res of (x, st) \<Rightarrow>
     x \<noteq> ExitExhausted \<and> length (rs_ToolTurns st) \<le> mr \<and> (\<forall>t \<in> set (rs_ToolTurns st). turn_ok t)
     \<and> (\<forall>x \<in> set (rs_executed st). executed_ok env x)
     \<and> rs_delivered st = (if env_hasCallback env \<and> rs_ToolTurns st \<noteq> [] then [rs_ToolTurns st] else [])
     \<and> (\<exists>n \<le> mr. map fst (rs_calls st) = [0..<Suc n]
          \<and> (\<forall>r < n. snd (rs_calls st ! r) = opts)
          \<and> (snd (rs_calls st ! n) = opts \<and> n < mr \<or> snd (rs_calls st ! n) = opts @ [WithToolsDisabled])))"

lemma loop_inv_Next:
  assumes inv: "loop_inv env mr opts round st" and r: "round_body env mr round stream
      (st\<lparr>rs_world := w, rs_calls := rs_calls st @ [(round, rs_opts st)]\<rparr>) = Next st'"
  shows "loop_inv env mr opts (Suc round) st'" "round < mr"
proof -
  let ?st1 = "st\<lparr>rs_world := w, rs_calls := rs_calls st @ [(round, rs_opts st)]\<rparr>"
  have adv: "advances env ?st1 st'" and on: "\<not> rs_toolsDisabled ?st1"
    using round_body_cases [of env mr round stream ?st1] r by auto
  then show less: "round < mr" using inv by (auto simp: loop_inv_def)
  obtain pre where pre: "st' = finishToolRound mr round pre" "rs_opts pre = rs_opts st"
    "rs_toolsDisabled pre = rs_toolsDisabled st"
    using round_body_finish [OF r] by (auto simp: from_finish_def)
  then have o: "rs_opts st' = opts @ (if rs_toolsDisabled st' then [WithToolsDisabled] else [])"
    using finishToolRound_options(1) [of pre mr round] on inv by (simp add: loop_inv_def)
  have d: "mr \<le> Suc round \<longrightarrow> rs_toolsDisabled st'"
    using finishToolRound_options(2) [of pre mr round] on pre by simp
  show "loop_inv env mr opts (Suc round) st'"
    using adv inv on o d less by (auto simp: loop_inv_def advances_def)
qed

lemma run_ok_Done:
  assumes inv: "loop_inv env mr opts round st" and le: "round \<le> mr"
    and fin: "finishes env (st\<lparr>rs_world := w, rs_calls := rs_calls st @ [(round, rs_opts st)]\<rparr>) st'"
    and dis: "rs_toolsDisabled st \<Longrightarrow> rs_ToolTurns st' = rs_ToolTurns st" and x: "x \<noteq> ExitExhausted"
  shows "run_ok env mr opts (x, st')"
proof -
  obtain ts es where ts: "rs_ToolTurns st' = rs_ToolTurns st @ ts" "length ts \<le> 1" "\<forall>t \<in> set ts. turn_ok t"
    "rs_executed st' = rs_executed st @ es" "\<forall>x \<in> set es. executed_ok env x"
    and calls: "rs_calls st' = rs_calls st @ [(round, rs_opts st)]"
    and del: "rs_delivered st' = (if env_hasCallback env \<and> rs_ToolTurns st' \<noteq> [] then [rs_ToolTurns st'] else [])"
    using fin inv by (auto simp: finishes_def loop_inv_def)
  have len: "length (rs_calls st) = round"
    using inv by (metis loop_inv_def length_map length_upt minus_nat.diff_0)
  have turns: "length (rs_ToolTurns st') \<le> mr"
  proof (cases "rs_toolsDisabled st")
    case True
    with dis inv le show ?thesis by (simp add: loop_inv_def)
  next
    case False
    with inv have "round < mr" by (auto simp: loop_inv_def)
    with ts inv show ?thesis by (simp add: loop_inv_def)
  qed
  have nth: "snd (rs_calls st' ! r) = opts" if "r < round" for r
  proof -
    from that len have "rs_calls st' ! r = rs_calls st ! r" "rs_calls st ! r \<in> set (rs_calls st)"
      by (simp_all add: calls nth_append)
    with inv show ?thesis by (auto simp: loop_inv_def)
  qed
  have last: "snd (rs_calls st' ! round) = rs_opts st" using len by (simp add: calls nth_append)
  have fst: "map fst (rs_calls st') = [0..<Suc round]" using inv by (simp add: calls loop_inv_def)
  have opt: "rs_opts st = opts \<and> round < mr \<or> rs_opts st = opts @ [WithToolsDisabled]"
    using inv le by (cases "rs_toolsDisabled st") (auto simp: loop_inv_def)
  have all_turns: "\<forall>t \<in> set (rs_ToolTurns st'). turn_ok t" using ts inv by (auto simp: loop_inv_def)
  have all_ex: "\<forall>x \<in> set (rs_executed st'). executed_ok env x" using ts inv by (auto simp: loop_inv_def)
  show ?thesis
    unfolding run_ok_def prod.case
  proof (intro conjI exI [of _ round])
    show "\<forall>r < round. snd (rs_calls st' ! r) = opts" using nth by blast
    show "snd (rs_calls st' ! round) = opts \<and> round < mr
        \<or> snd (rs_calls st' ! round) = opts @ [WithToolsDisabled]"
      unfolding last by (rule opt)
  qed (fact x turns all_turns all_ex del le fst)+
qed

lemma chat_call_simps:
  "chat_call env round st =
     (fst (env_chat env round (rs_req st) (rs_opts st) (rs_world st)),
      st\<lparr>rs_world := snd (env_chat env round (rs_req st) (rs_opts st) (rs_world st)),
         rs_calls := rs_calls st @ [(round, rs_opts st)]\<rparr>)"
  by (simp add: chat_call_def case_prod_beta)

lemma full_round_ok:
  assumes inv: "loop_inv env mr opts round st" and le: "round \<le> mr"
  shows "(\<exists>st'. full_round env mr round st = Next st' \<and> loop_inv env mr opts (Suc round) st' \<and> round < mr)
       \<or> (\<exists>x st'. full_round env mr round st = Done x st' \<and> run_ok env mr opts (x, st'))"
proof -
  let ?c = "env_chat env round (rs_req st) (rs_opts st) (rs_world st)"
  let ?st1 = "st\<lparr>rs_world := snd ?c, rs_calls := rs_calls st @ [(round, rs_opts st)]\<rparr>"
  show ?thesis
  proof (cases "fst ?c")
    case (Inl err)
    let ?st' = "send_ignore env (event EventTypeError (VError (llm_failed err))) (deliverToolTurns env ?st1)"
    have "finishes env ?st1 ?st'" by (simp add: finishes_def send_core)
    moreover have "rs_ToolTurns ?st' = rs_ToolTurns st" by (simp add: send_core)
    ultimately have "run_ok env mr opts (ExitCallFailed, ?st')"
      by (intro run_ok_Done [OF inv le, where w = "snd ?c"]) simp_all
    moreover have "full_round env mr round st = Done ExitCallFailed ?st'"
      using Inl by (simp add: full_round_def chat_call_simps)
    ultimately show ?thesis by blast
  next
    case (Inr stream)
    then have eq: "full_round env mr round st = round_body env mr round stream ?st1"
      by (simp add: full_round_def chat_call_simps)
    from round_body_cases [of env mr round stream ?st1] show ?thesis
    proof (elim disjE exE conjE)
      fix st' assume "round_body env mr round stream ?st1 = Next st'"
      with loop_inv_Next [OF inv this] eq show ?thesis by auto
    next
      fix x st'
      assume done': "round_body env mr round stream ?st1 = Done x st'" "finishes env ?st1 st'"
        "rs_toolsDisabled ?st1 \<longrightarrow> rs_executed st' = rs_executed ?st1 \<and> rs_ToolTurns st' = rs_ToolTurns ?st1"
        "x \<noteq> ExitExhausted"
      then have "run_ok env mr opts (x, st')"
        by (intro run_ok_Done [OF inv le done'(2)]) auto
      with eq done' show ?thesis by auto
    qed
  qed
qed

lemma loop_from_ok:
  "loop_inv env mr opts round st \<Longrightarrow> round + n = Suc mr \<Longrightarrow> round \<le> mr \<Longrightarrow>
   run_ok env mr opts (loop_from env mr round n st)"
proof (induction n arbitrary: round st)
  case (Suc n)
  from full_round_ok [OF Suc.prems(1,3)] show ?case
  proof (elim disjE exE conjE)
    fix st' assume st': "full_round env mr round st = Next st'" "loop_inv env mr opts (Suc round) st'" "round < mr"
    with Suc.IH [OF st'(2)] Suc.prems(2) show ?thesis by simp
  next
    fix x st' assume "full_round env mr round st = Done x st'" "run_ok env mr opts (x, st')"
    then show ?thesis by simp
  qed
qed simp

lemma Run_eq_loop:
  "Run env mr request opts w = Inr res \<Longrightarrow> res = loop_from env mr 0 (Suc mr) (initial_state request opts w)"
  by (auto simp: Run_def runLoop_def full_round_def split: prod.splits sum.splits step.splits)

lemma loop_inv_initial: "0 < mr \<Longrightarrow> loop_inv env mr opts 0 (initial_state request opts w)"
  by (simp add: loop_inv_def initial_state_def)

lemma Run_ok:
  assumes "Run env mr request opts w = Inr res" "0 < mr"
  shows "run_ok env mr opts res"
  unfolding Run_eq_loop [OF assms(1)] by (rule loop_from_ok [OF loop_inv_initial [OF assms(2)]]) simp_all

section \<open>How the stream ends\<close>

definition noEnd :: "TextStreamEvent list \<Rightarrow> bool" where
  "noEnd es \<longleftrightarrow> list_all (\<lambda>e. ev_Type e \<noteq> EventTypeEnd) es"

abbreviation end_event :: TextStreamEvent where "end_event \<equiv> event EventTypeEnd VNil"

definition error_event :: "TextStreamEvent \<Rightarrow> bool" where
  "error_event e \<longleftrightarrow> ev_Type e = EventTypeError \<and> (case ev_Value e of VError _ \<Rightarrow> True | _ \<Rightarrow> False)"

definition error_seen :: "TextStreamEvent list \<Rightarrow> bool" where
  "error_seen es \<longleftrightarrow> list_ex error_event es"

lemma noEnd_simps [simp]:
  "noEnd []" "noEnd (es @ fs) \<longleftrightarrow> noEnd es \<and> noEnd fs"
  "noEnd (e # es) \<longleftrightarrow> ev_Type e \<noteq> EventTypeEnd \<and> noEnd es"
  by (simp_all add: noEnd_def)

lemma event_simps [simp]: "ev_Type (event t v) = t" "ev_Value (event t v) = v"
  by (simp_all add: event_def)

lemma batch_type [simp]: "ev_Type (toolCallBatchEvent ph cs) = EventTypeToolCallBatch"
  by (simp add: toolCallBatchEvent_def)

lemma noEnd_forwarded: "subseq es (filter forwarded fs) \<Longrightarrow> noEnd es"
  by (auto simp: noEnd_def list_all_iff forwarded_def elim!: list_emb_set)

lemma error_seen_append [simp]: "error_seen (a @ b) \<longleftrightarrow> error_seen a \<or> error_seen b"
  by (simp add: error_seen_def)

text \<open>
  How a round may extend the stream: events other than the end, then at most one end event.
  With a live context, which exit it is decides the ending.
\<close>

definition stream_ending :: "'w runner_env \<Rightarrow> exit \<Rightarrow> TextStreamEvent list \<Rightarrow> bool" where
  "stream_ending env x new \<longleftrightarrow>
     (\<exists>es tl. new = es @ tl \<and> noEnd es \<and> (tl = [] \<or> tl = [end_event])
        \<and> (never_cancelled env \<longrightarrow> x \<noteq> ExitCancelled
             \<and> (tl = [end_event] \<longleftrightarrow> x = ExitFinal \<or> x = ExitAwaitingDecision)
             \<and> (x = ExitStreamError \<or> x = ExitCallFailed \<longrightarrow> error_seen es)))"

lemma stream_ending_open:
  assumes "noEnd es" and "never_cancelled env \<Longrightarrow> x \<noteq> ExitCancelled \<and> x \<noteq> ExitFinal \<and> x \<noteq> ExitAwaitingDecision
     \<and> (x = ExitStreamError \<or> x = ExitCallFailed \<longrightarrow> error_seen es)"
  shows "stream_ending env x es"
  using assms unfolding stream_ending_def by (intro exI [of _ es] exI [of _ "[]"]) auto

lemma stream_ending_closed:
  assumes "noEnd es" and "x = ExitFinal \<or> x = ExitAwaitingDecision"
  shows "stream_ending env x (es @ [end_event])"
  using assms unfolding stream_ending_def by (intro exI [of _ es] exI [of _ "[end_event]"]) auto

lemma stream_ending_prepend:
  assumes "stream_ending env x new" "noEnd old"
  shows "stream_ending env x (old @ new)"
proof -
  from assms(1) obtain es tl where new: "new = es @ tl" "noEnd es" "tl = [] \<or> tl = [end_event]"
    "never_cancelled env \<longrightarrow> x \<noteq> ExitCancelled
             \<and> (tl = [end_event] \<longleftrightarrow> x = ExitFinal \<or> x = ExitAwaitingDecision)
             \<and> (x = ExitStreamError \<or> x = ExitCallFailed \<longrightarrow> error_seen es)"
    unfolding stream_ending_def by blast
  then show ?thesis
    unfolding stream_ending_def using assms(2) by (intro exI [of _ "old @ es"] exI [of _ tl]) auto
qed

definition extends_out :: "'w run_state \<Rightarrow> 'w run_state \<Rightarrow> (TextStreamEvent list \<Rightarrow> bool) \<Rightarrow> bool" where
  "extends_out st st' P \<longleftrightarrow> (\<exists>new. rs_out st' = rs_out st @ new \<and> P new)"

lemma send_cases:
  obtains (sent) "fst (send env e st)" "rs_out (snd (send env e st)) = rs_out st @ [e]"
  | (lost) "\<not> fst (send env e st)" "\<not> never_cancelled env" "rs_out (snd (send env e st)) = rs_out st"
  using send_live [of env e st] out_send [of env e st] by (cases "fst (send env e st)") auto

lemma out_rejected_round:
  "rejected_round env mr round resp tcs rs st = Next st' \<Longrightarrow> extends_out st st' noEnd"
  "rejected_round env mr round resp tcs rs st = Done x st' \<Longrightarrow> extends_out st st' (stream_ending env x)"
proof -
  let ?st1 = "appendToolTurnAndPost resp (buildResolvedToolCalls tcs rs) rs st"
  let ?e = "toolCallBatchEvent ToolCallPhaseResolved (buildResolvedToolCalls tcs rs)"
  show "rejected_round env mr round resp tcs rs st = Next st' \<Longrightarrow> extends_out st st' noEnd"
    by (cases rule: send_cases [of env ?e ?st1])
      (auto simp: rejected_round_def Let_def case_prod_beta extends_out_def)
  show "rejected_round env mr round resp tcs rs st = Done x st' \<Longrightarrow> extends_out st st' (stream_ending env x)"
    by (cases rule: send_cases [of env ?e ?st1])
      (auto simp: rejected_round_def Let_def case_prod_beta extends_out_def intro!: stream_ending_open)
qed

lemma out_awaiting_round:
  assumes "awaiting_round env tcs approved st = Done x st'"
  shows "extends_out st st' (stream_ending env x)"
proof -
  define s1 where "s1 = send env (toolCallBatchEvent ToolCallPhaseAwaitingDecision
     (map2 (\<lambda>tc a. tc\<lparr>tc_WouldAutoExecute := a\<rparr>) tcs approved)) (deliverToolTurns env st)"
  have st': "st' = (if fst s1 then send_ignore env end_event (snd s1) else snd s1)" "x = ExitAwaitingDecision"
    using assms by (auto simp: awaiting_round_def Let_def case_prod_beta s1_def)
  let ?b = "toolCallBatchEvent ToolCallPhaseAwaitingDecision
     (map2 (\<lambda>tc a. tc\<lparr>tc_WouldAutoExecute := a\<rparr>) tcs approved)"
  have s1: "rs_out (snd s1) = rs_out st @ (if fst s1 then [?b] else [])"
    "never_cancelled env \<Longrightarrow> fst s1"
    by (simp_all add: s1_def out_send send_live)
  show ?thesis
  proof (cases rule: send_cases [of env end_event "snd s1"])
    case sent
    then show ?thesis using s1 stream_ending_closed [of "[?b]" x env]
      by (auto simp: st' extends_out_def intro!: stream_ending_open)
  next
    case lost
    then show ?thesis using s1 by (auto simp: st' extends_out_def intro!: stream_ending_open)
  qed
qed

lemma out_executing_round:
  "executing_round env mr round resp tcs st = Next st' \<Longrightarrow> extends_out st st' noEnd"
  "executing_round env mr round resp tcs st = Done x st' \<Longrightarrow> extends_out st st' (stream_ending env x)"
proof -
  define calls where "calls = map (\<lambda>tc. tc\<lparr>tc_WouldAutoExecute := True\<rparr>) tcs"
  define s1 where "s1 = send env (toolCallBatchEvent ToolCallPhaseExecuting calls) st"
  define log where "log = map (\<lambda>tc. (tc, rs_context st, rs_world st)) tcs"
  define run where "run = executeTools env calls ((snd s1)\<lparr>rs_executed := rs_executed (snd s1) @ log\<rparr>)"
  define s3 where "s3 = ctx_Err env (snd run)"
  define resolved where "resolved = buildResolvedToolCalls calls (fst run)"
  define s5 where "s5 = appendToolTurnAndPost resp resolved (fst run)
     (recordMCPDynamicSearchLoadCallSuccess calls (fst run) (snd s3))"
  define s6 where "s6 = send env (toolCallBatchEvent ToolCallPhaseResolved resolved) s5"
  have round: "executing_round env mr round resp tcs st =
      (if \<not> fst s1 then Done ExitCancelled (deliverToolTurns env (snd s1))
       else if fst s3 then Done ExitCancelled (deliverToolTurns env (snd s3))
       else if \<not> fst s6 then Done ExitCancelled (deliverToolTurns env (snd s6))
       else Next (finishToolRound mr round (snd s6)))"
    by (simp add: executing_round_def Let_def case_prod_beta calls_def s1_def log_def run_def s3_def
        resolved_def s5_def s6_def)
  have out1: "rs_out (snd s1) = rs_out st @ (if fst s1 then [toolCallBatchEvent ToolCallPhaseExecuting calls] else [])"
    unfolding s1_def by (rule out_send)
  have out5: "rs_out s5 = rs_out (snd s1)" "rs_out (snd s3) = rs_out (snd s1)"
    by (simp_all add: s5_def s3_def run_def)
  have out6: "rs_out (snd s6) = rs_out s5 @ (if fst s6 then [toolCallBatchEvent ToolCallPhaseResolved resolved] else [])"
    unfolding s6_def by (rule out_send)
  have live: "never_cancelled env \<Longrightarrow> fst s1 \<and> \<not> fst s3 \<and> fst s6"
    by (simp add: s1_def s3_def s6_def send_live ctx_Err_live)
  show "executing_round env mr round resp tcs st = Next st' \<Longrightarrow> extends_out st st' noEnd"
    by (auto simp: round extends_out_def out1 out5 out6 split: if_splits)
  show "executing_round env mr round resp tcs st = Done x st' \<Longrightarrow> extends_out st st' (stream_ending env x)"
    using live by (auto simp: round extends_out_def out1 out5 out6 split: if_splits intro!: stream_ending_open)
qed

lemma extends_out_context [simp]: "extends_out (set_context c st) st' P = extends_out st st' P"
  by (simp add: extends_out_def)

lemma out_tool_round:
  "tool_round env mr round resp st = Next st' \<Longrightarrow> extends_out st st' noEnd"
  "tool_round env mr round resp st = Done x st' \<Longrightarrow> extends_out st st' (stream_ending env x)"
  by (auto simp: tool_round_def Let_def case_prod_beta
      dest!: out_rejected_round out_executing_round out_awaiting_round split: option.splits if_splits)
    (simp add: awaiting_round_def Let_def case_prod_beta)

lemma drain_event_err:
  "ar_err (fst (snd (drain_event env e (sq, resp, st)))) \<noteq> None \<Longrightarrow>
     ar_err resp \<noteq> None \<or> (error_event e \<and> forwarded e)"
  by (cases "ev_Type e"; cases "ev_Value e") (simp_all add: drain_event_def error_event_def forwarded_def)

lemma drain_fold_err:
  "ar_err (fst (snd (fold (drain_event env) es acc))) \<noteq> None
     \<Longrightarrow> ar_err (fst (snd acc)) \<noteq> None \<or> error_seen (filter forwarded es)"
proof (induction es arbitrary: acc)
  case (Cons e es)
  obtain sq resp st where acc: "acc = (sq, resp, st)" by (cases acc)
  from Cons.prems have "ar_err (fst (snd (fold (drain_event env) es (drain_event env e acc)))) \<noteq> None" by simp
  from Cons.IH [OF this] show ?case
    using drain_event_err [of env e sq resp st] by (auto simp: acc error_seen_def)
qed simp

lemma drainStream_err:
  assumes "ar_err (fst (drainStream env es st)) \<noteq> None"
  shows "error_seen (filter forwarded es)"
  using drain_fold_err [of env es "([], empty_response, st)"] assms
  by (auto simp: drainStream_def case_prod_beta empty_response_def)

lemma extends_out_trans:
  assumes "rs_out st1 = rs_out st @ old" "extends_out st1 st' P" "\<And>new. P new \<Longrightarrow> Q (old @ new)"
  shows "extends_out st st' Q"
  using assms by (auto simp: extends_out_def)

lemma out_round_body:
  "round_body env mr round stream st = Next st' \<Longrightarrow> extends_out st st' noEnd"
  "round_body env mr round stream st = Done x st' \<Longrightarrow> extends_out st st' (stream_ending env x)"
proof -
  obtain resp st1 where dr: "drainStream env stream st = (resp, st1)" by force
  obtain cancelled st2 where ce: "ctx_Err env st1 = (cancelled, st2)" by force
  obtain es where es: "rs_out st1 = rs_out st @ es" "subseq es (filter forwarded stream)"
    by (rule out_drainStream [of env stream st]) (use dr in simp)
  have nE: "noEnd es" using es(2) by (rule noEnd_forwarded)
  have out2: "rs_out st2 = rs_out st @ es" using ce es by (metis out_frames(1) snd_conv)
  have live: "never_cancelled env \<Longrightarrow> \<not> cancelled \<and> es = filter forwarded stream"
    using ctx_Err_live [of env st1] ce out_drainStream_live [of env stream st] dr es by simp
  have err: "ar_err resp \<noteq> None \<Longrightarrow> error_seen (filter forwarded stream)"
    using drainStream_err [of env stream st] dr by simp
  show "round_body env mr round stream st = Next st' \<Longrightarrow> extends_out st st' noEnd"
    using dr ce nE out_tool_round(1)
    by (auto simp: round_body_def Let_def split: if_splits intro!: extends_out_trans [OF out2])
  show "extends_out st st' (stream_ending env x)" if d: "round_body env mr round stream st = Done x st'"
  proof (cases "cancelled \<or> ar_err resp \<noteq> None")
    case True
    have "rs_out st' = rs_out st @ es \<and> (x = ExitCancelled \<and> cancelled \<or> x = ExitStreamError \<and> ar_err resp \<noteq> None)"
      using True d dr ce out2 by (auto simp: round_body_def split: if_splits)
    then show ?thesis using live err nE by (auto simp: extends_out_def intro!: stream_ending_open)
  next
    case False
    show ?thesis
    proof (cases "rs_toolsDisabled st2 \<or> ar_toolCalls resp = []")
      case True
      then obtain t where st': "x = ExitFinal"
        "st' = send_ignore env end_event (deliverToolTurns env (st2\<lparr>rs_FinalText := t\<rparr>))"
        using False d dr ce by (auto simp: round_body_def Let_def split: if_splits)
      then show ?thesis
      proof (cases rule: send_cases [of env end_event "deliverToolTurns env (st2\<lparr>rs_FinalText := t\<rparr>)"])
        case sent
        then show ?thesis using st' out2 nE stream_ending_closed [of es x env] by (simp add: extends_out_def)
      next
        case lost
        then show ?thesis using st' out2 nE by (auto simp: extends_out_def intro!: stream_ending_open)
      qed
    next
      case tools: False
      then have "tool_round env mr round resp st2 = Done x st'"
        using False d dr ce by (simp add: round_body_def Let_def)
      show ?thesis
        by (rule extends_out_trans [OF out2 out_tool_round(2) [OF \<open>tool_round env mr round resp st2 = Done x st'\<close>]])
          (rule stream_ending_prepend [OF _ nE])
    qed
  qed
qed

lemma out_full_round:
  "full_round env mr round st = Next st' \<Longrightarrow> extends_out st st' noEnd"
  "full_round env mr round st = Done x st' \<Longrightarrow> extends_out st st' (stream_ending env x)"
proof -
  let ?c = "env_chat env round (rs_req st) (rs_opts st) (rs_world st)"
  let ?st1 = "st\<lparr>rs_world := snd ?c, rs_calls := rs_calls st @ [(round, rs_opts st)]\<rparr>"
  have same: "extends_out ?st1 st' P = extends_out st st' P" for P
    by (simp add: extends_out_def)
  show "full_round env mr round st = Next st' \<Longrightarrow> extends_out st st' noEnd"
    by (auto simp: full_round_def chat_call_simps same split: sum.splits dest!: out_round_body(1))
  show "full_round env mr round st = Done x st' \<Longrightarrow> extends_out st st' (stream_ending env x)"
  proof (cases "fst ?c")
    case (Inl err)
    let ?e = "event EventTypeError (VError (llm_failed err))"
    assume "full_round env mr round st = Done x st'"
    then have "x = ExitCallFailed" "st' = send_ignore env ?e (deliverToolTurns env ?st1)"
      using Inl by (auto simp: full_round_def chat_call_simps)
    then show ?thesis
      by (cases rule: send_cases [of env ?e "deliverToolTurns env ?st1"])
        (auto simp: extends_out_def error_seen_def error_event_def intro!: stream_ending_open)
  next
    case (Inr stream)
    assume "full_round env mr round st = Done x st'"
    with Inr show ?thesis by (auto simp: full_round_def chat_call_simps same dest!: out_round_body(2))
  qed
qed

lemma loop_from_out:
  assumes "loop_inv env mr opts round st" "round + n = Suc mr" "round \<le> mr" "noEnd (rs_out st)"
    and "loop_from env mr round n st = (x, st')"
  shows "stream_ending env x (rs_out st')"
  using assms
proof (induction n arbitrary: round st)
  case (Suc n)
  show ?case
  proof (cases "full_round env mr round st")
    case (Done x1 st1)
    with Suc.prems out_full_round(2) [OF Done] show ?thesis
      by (auto simp: extends_out_def intro: stream_ending_prepend)
  next
    case (Next st1)
    have inv: "loop_inv env mr opts (Suc round) st1 \<and> round < mr"
      using full_round_ok [OF Suc.prems(1,3)] Next by auto
    have "noEnd (rs_out st1)"
      using out_full_round(1) [OF Next] Suc.prems(4) by (auto simp: extends_out_def)
    with Suc.IH [of "Suc round" st1] inv Suc.prems Next show ?thesis by simp
  qed
qed simp

lemma Run_out:
  assumes "Run env mr request opts w = Inr (x, st)" "0 < mr"
  shows "stream_ending env x (rs_out st)"
  by (rule loop_from_out [OF loop_inv_initial [OF assms(2)], where n = "Suc mr"])
    (use Run_eq_loop [OF assms(1)] in \<open>simp_all add: initial_state_def\<close>)

end
