(* ===== verification/Runner_Properties.thy ===== *)
theory Runner_Properties
  imports Tool_Runner
begin

text \<open>
  What the tool runner guarantees, for every language model, tool, policy and cancellation: the
  theorems about \<open>Run\<close>, \<open>drainStream\<close> and the rounds of \<open>Tool_Runner\<close>.
\<close>

section \<open>Draining a stream\<close>

definition stream_text :: "TextStreamEvent list \<Rightarrow> string" where
  "stream_text es = concat (map (\<lambda>e. if ev_Type e = EventTypeText
     then (case ev_Value e of VString t \<Rightarrow> t | _ \<Rightarrow> []) else []) es)"

definition stream_calls :: "TextStreamEvent list \<Rightarrow> ToolCall list" where
  "stream_calls es = concat (map (\<lambda>e. if ev_Type e = EventTypeToolCalls
     then (case ev_Value e of VToolCalls tcs \<Rightarrow> tcs | _ \<Rightarrow> []) else []) es)"

lemma stream_text_Cons: "stream_text (e # es) = (if ev_Type e = EventTypeText
     then (case ev_Value e of VString t \<Rightarrow> t | _ \<Rightarrow> []) else []) @ stream_text es"
  by (simp add: stream_text_def)

lemma stream_calls_Cons: "stream_calls (e # es) = (if ev_Type e = EventTypeToolCalls
     then (case ev_Value e of VToolCalls tcs \<Rightarrow> tcs | _ \<Rightarrow> []) else []) @ stream_calls es"
  by (simp add: stream_calls_def)

lemma drain_event_sequence:
  "seq_ok sq \<Longrightarrow> seq_ok (fst (drain_event env e (sq, resp, st)))"
  "seqText (fst (drain_event env e (sq, resp, st))) = seqText sq @ stream_text [e]"
  "ar_toolCalls (fst (snd (drain_event env e (sq, resp, st)))) = ar_toolCalls resp @ stream_calls [e]"
  by (simp_all add: drain_event_def stream_text_def stream_calls_def seqText_AppendText seq_ok_AppendText
      seq_ok_AppendReasoning seq_ok_FinishReasoning seq_ok_RecordServerTools
      split: EventType.split event_value.split)

lemma drain_fold_sequence:
  "seq_ok (fst acc) \<Longrightarrow> seq_ok (fst (fold (drain_event env) es acc))
     \<and> seqText (fst (fold (drain_event env) es acc)) = seqText (fst acc) @ stream_text es
     \<and> ar_toolCalls (fst (snd (fold (drain_event env) es acc))) = ar_toolCalls (fst (snd acc)) @ stream_calls es"
proof (induction es arbitrary: acc)
  case Nil
  then show ?case by (simp add: stream_text_def stream_calls_def)
next
  case (Cons e es)
  obtain sq resp st where acc: "acc = (sq, resp, st)" by (cases acc)
  from Cons.IH [of "drain_event env e acc"] Cons.prems drain_event_sequence [where sq = sq and env = env and e = e and resp = resp and st = st]
  show ?case by (simp add: acc stream_text_def stream_calls_def)
qed

text \<open>
  Draining a model's stream collects its text chunks and its tool calls in arrival
  order, and records them as segments that spell out that text, with no empty or adjacent text
  segments and one segment per server tool invocation.
\<close>

theorem drainStream_collects:
  "ar_text (fst (drainStream env es st)) = stream_text es
   \<and> ar_toolCalls (fst (drainStream env es st)) = stream_calls es
   \<and> seqText (ar_segments (fst (drainStream env es st))) = stream_text es
   \<and> seq_ok (ar_segments (fst (drainStream env es st)))"
  using drain_fold_sequence [of "([], empty_response, st)" env es]
  by (simp add: drainStream_def case_prod_beta empty_response_def)

section \<open>The run\<close>

lemma WithMaxRounds_pos [simp]: "0 < WithMaxRounds n"
  by (simp add: WithMaxRounds_def defaultMaxRounds_def)

lemma Run_ok_cases:
  obtains e where "Run env (WithMaxRounds n) request opts w = Inl e"
  | x st where "Run env (WithMaxRounds n) request opts w = Inr (x, st)"
      "run_ok env (WithMaxRounds n) opts (x, st)" "stream_ending env x (rs_out st)"
proof (cases "Run env (WithMaxRounds n) request opts w")
  case (Inr res)
  obtain x st where res: "res = (x, st)" by (cases res)
  have "Run env (WithMaxRounds n) request opts w = Inr (x, st)" using Inr res by simp
  from that(2) [OF this] Run_ok [OF this] Run_out [OF this] show thesis by simp
qed (use that in blast)

text \<open>
  C1: every tool call a run hands to execution had been approved by the caller's policy, in
  the state it was decided in, and none of them is a call the user has to answer.
\<close>

theorem Run_only_runs_approved_calls:
  "case Run env (WithMaxRounds n) request opts w of
     Inl _ \<Rightarrow> True
   | Inr (_, st) \<Rightarrow>
       list_all (\<lambda>(tc, c, w'). env_shouldExecute env c w' tc \<and> tc_UserInteraction tc = []) (rs_executed st)"
  by (cases rule: Run_ok_cases [where env = env and n = n and request = request and opts = opts and w = w])
    (auto simp: run_ok_def executed_ok_def list_all_iff)

text \<open>
  C4: a run makes at most one LLM call more than its ceiling of tool rounds, in round order;
  all but the last call offer the caller's options unchanged, and a call made at the ceiling has
  tools disabled. The loop never ends by exhausting its rounds, so the error kept for that case is
  unreachable.
\<close>

theorem Run_call_budget:
  "case Run env (WithMaxRounds n) request opts w of
     Inl _ \<Rightarrow> True
   | Inr (x, st) \<Rightarrow> x \<noteq> ExitExhausted
       \<and> (\<exists>k. k \<le> WithMaxRounds n \<and> map fst (rs_calls st) = [0..<Suc k]
            \<and> map snd (butlast (rs_calls st)) = replicate k opts
            \<and> (snd (last (rs_calls st)) = opts \<and> k < WithMaxRounds n
               \<or> snd (last (rs_calls st)) = opts @ [WithToolsDisabled]))"
proof (cases rule: Run_ok_cases [where env = env and n = n and request = request and opts = opts and w = w])
  case (2 x st)
  then obtain k where k: "k \<le> WithMaxRounds n" "map fst (rs_calls st) = [0..<Suc k]"
    "\<forall>r < k. snd (rs_calls st ! r) = opts"
    "snd (rs_calls st ! k) = opts \<and> k < WithMaxRounds n \<or> snd (rs_calls st ! k) = opts @ [WithToolsDisabled]"
    and x: "x \<noteq> ExitExhausted"
    by (auto simp: run_ok_def)
  have len: "length (rs_calls st) = Suc k"
    using k(2) by (metis length_map length_upt minus_nat.diff_0)
  then have ne: "rs_calls st \<noteq> []" by auto
  have last: "last (rs_calls st) = rs_calls st ! k" using len ne by (simp add: last_conv_nth)
  have but: "map snd (butlast (rs_calls st)) = replicate k opts"
    using k(3) len by (intro nth_equalityI) (simp_all add: nth_butlast)
  show ?thesis
    unfolding 2(1) sum.case prod.case
    by (intro conjI exI [of _ k]) (use x k last but in simp_all)
qed simp

text \<open>
  C5: every tool round a run records has a result for each call of the assistant, in order,
  with the call's id and name; the call carries that result, and its status is Error exactly when
  the result is an error. There are no more rounds than the ceiling.
\<close>

theorem Run_turns_well_formed:
  "case Run env (WithMaxRounds n) request opts w of
     Inl _ \<Rightarrow> True
   | Inr (_, st) \<Rightarrow> length (rs_ToolTurns st) \<le> WithMaxRounds n
       \<and> list_all (\<lambda>t. tt_AssistantToolCalls t \<noteq> []
           \<and> list_all2 (\<lambda>tc r. tr_ToolCallID r = tc_ID tc \<and> tr_Name r = tc_Name tc \<and> tc_Result tc = tr_Result r
                \<and> tc_Status tc = (if tr_IsError r then ToolCallStatusError else ToolCallStatusAutoApproved))
              (tt_AssistantToolCalls t) (tt_ToolResults t)) (rs_ToolTurns st)"
  by (cases rule: Run_ok_cases [where env = env and n = n and request = request and opts = opts and w = w])
    (auto simp: run_ok_def turn_ok_def list_all_iff call_resolved_def [abs_def])

text \<open>
  C6: however a run ends, the callback is called at most once, exactly when there are turns
  to persist, and it is given all of them.
\<close>

theorem Run_delivers_turns_once:
  "case Run env (WithMaxRounds n) request opts w of
     Inl _ \<Rightarrow> True
   | Inr (_, st) \<Rightarrow> rs_delivered st =
       (if env_hasCallback env \<and> rs_ToolTurns st \<noteq> [] then [rs_ToolTurns st] else [])"
  by (cases rule: Run_ok_cases [where env = env and n = n and request = request and opts = opts and w = w])
    (auto simp: run_ok_def)

text \<open>
  C7: the consumer's stream holds at most one end event and nothing after it. When the
  request is never cancelled, the run ends with that end event exactly when it reached an answer or
  a decision, and otherwise the stream carries an error.
\<close>

theorem Run_stream_terminates:
  "case Run env (WithMaxRounds n) request opts w of
     Inl _ \<Rightarrow> True
   | Inr (x, st) \<Rightarrow>
       (\<exists>es tl. rs_out st = es @ tl \<and> list_all (\<lambda>e. ev_Type e \<noteq> EventTypeEnd) es
          \<and> (tl = [] \<or> tl = [event EventTypeEnd VNil])
          \<and> (never_cancelled env \<longrightarrow>
               (tl = [event EventTypeEnd VNil] \<longleftrightarrow> x = ExitFinal \<or> x = ExitAwaitingDecision)
               \<and> (tl = [] \<longrightarrow> list_ex error_event es)))"
proof (cases rule: Run_ok_cases [where env = env and n = n and request = request and opts = opts and w = w])
  case (2 x st)
  from 2(3) obtain es tl where new: "rs_out st = es @ tl" "noEnd es" "tl = [] \<or> tl = [end_event]"
    "never_cancelled env \<longrightarrow> x \<noteq> ExitCancelled
             \<and> (tl = [end_event] \<longleftrightarrow> x = ExitFinal \<or> x = ExitAwaitingDecision)
             \<and> (x = ExitStreamError \<or> x = ExitCallFailed \<longrightarrow> error_seen es)"
    unfolding stream_ending_def by blast
  have x: "x \<noteq> ExitExhausted" using 2(2) by (simp add: run_ok_def)
  have "never_cancelled env \<longrightarrow> (tl = [] \<longrightarrow> list_ex error_event es)"
  proof (intro impI)
    assume live: "never_cancelled env" and "tl = []"
    with new(4) x have "x = ExitStreamError \<or> x = ExitCallFailed" by (cases x) auto
    with new(4) live show "list_ex error_event es" by (auto simp: error_seen_def)
  qed
  with new show ?thesis
    unfolding 2(1) sum.case prod.case noEnd_def by blast
qed simp

section \<open>Rejected batches\<close>

fun step_state :: "'w step \<Rightarrow> 'w run_state" where
  "step_state (Done _ st) = st"
| "step_state (Next st) = st"

definition call_rejected :: "'w runner_env \<Rightarrow> ToolStore option \<Rightarrow> ToolCall \<Rightarrow> bool" where
  "call_rejected env store tc \<longleftrightarrow> fst (rejectToolCall env tc store None) \<noteq> None"

lemma rejectToolCall_context: "fst (rejectToolCall env tc store c) = fst (rejectToolCall env tc store None)"
  by (simp add: rejectToolCall_def split: option.split)

lemma reject_loop_reasons:
  "fst (reject_loop env store tcs c) = map (\<lambda>tc. fst (rejectToolCall env tc store None)) tcs"
proof (induction tcs arbitrary: c)
  case (Cons tc tcs)
  then show ?case by (simp add: Let_def case_prod_beta rejectToolCall_context [of env tc store c])
qed simp

lemma filter_zip_map: "filter (\<lambda>(_, r). r \<noteq> None) (zip xs (map f xs)) = [] \<longleftrightarrow> list_all (\<lambda>x. f x = None) xs"
  by (induction xs) auto

lemma rejectedToolBatchResults_None_iff:
  "fst (rejectedToolBatchResults env tcs store c) = None \<longleftrightarrow> list_all (\<lambda>tc. \<not> call_rejected env store tc) tcs"
  by (simp add: rejectedToolBatchResults_def Let_def case_prod_beta reject_loop_reasons filter_zip_map call_rejected_def
      del: not_None_eq)


section \<open>Turning tools off\<close>

text \<open>
  After a tool round that continues, tools are off for the next call exactly when the
  last three or more tool executions of the request all failed or the ceiling of rounds is
  reached.
\<close>

theorem tools_disabled_after_failures:
  assumes "\<not> rs_toolsDisabled st" "round_body env maxRounds round stream st = Next st'"
  shows "\<exists>post. p_Role post = PostRoleBot \<and> rs_ToolTurns st' = rs_ToolTurns st @ [last (rs_ToolTurns st')]
     \<and> p_ToolUse post = tt_AssistantToolCalls (last (rs_ToolTurns st'))
     \<and> (rs_toolsDisabled st' \<longleftrightarrow>
          3 \<le> CountTrailingFailedToolCalls (req_Posts (rs_req st) @ [post]) \<or> maxRounds \<le> round + 1)"
proof -
  obtain pre p where pre: "st' = finishToolRound maxRounds round pre" "rs_toolsDisabled pre = rs_toolsDisabled st"
    "req_Posts (rs_req pre) = req_Posts (rs_req st) @ [p]" "p_Role p = PostRoleBot"
    "p_ToolUse p = tt_AssistantToolCalls (last (rs_ToolTurns pre))"
    using round_body_finish [OF assms(2)] by (auto simp: from_finish_def)
  obtain t where "rs_ToolTurns st' = rs_ToolTurns st @ [t]"
    using round_body_cases [of env maxRounds round stream st] assms(2) by (auto simp: advances_def)
  with pre finishToolRound_options(2) [of pre maxRounds round] assms(1) show ?thesis
    by (intro exI [of _ p]) (simp add: MaxConsecutiveToolCallFailures_def)
qed

text \<open>
  Once tools are off the round is the last one: no tool runs and no turn is recorded,
  whatever calls the provider still emits.
\<close>

theorem disabled_round_is_final:
  assumes "rs_toolsDisabled st"
  shows "\<exists>x st'. round_body env maxRounds round stream st = Done x st'
     \<and> rs_executed st' = rs_executed st \<and> rs_ToolTurns st' = rs_ToolTurns st"
  using round_body_cases [of env maxRounds round stream st] assms by auto

text \<open>
  A run that ends with an answer reports the text of its last stream, except that the
  preamble of calls the provider made although tools were off is dropped.
\<close>

theorem final_text_is_last_answer:
  assumes "round_body env maxRounds round stream st = Done ExitFinal st'"
  shows "rs_FinalText st' =
     (if rs_toolsDisabled st \<and> stream_calls stream \<noteq> [] then [] else stream_text stream)
   \<and> (rs_toolsDisabled st \<or> stream_calls stream = [])"
proof -
  obtain resp st1 where dr: "drainStream env stream st = (resp, st1)" by force
  obtain cancelled st2 where ce: "ctx_Err env st1 = (cancelled, st2)" by force
  have core2: "core st2 = core st"
    using core_ctx_Err [of env st1] core_drainStream [of env stream st] dr ce by simp
  have resp: "ar_text resp = stream_text stream" "ar_toolCalls resp = stream_calls stream"
    using drain_fold_sequence [of "([], empty_response, st)" env stream] dr
    by (auto simp: drainStream_def case_prod_beta empty_response_def)
  show ?thesis
  proof (cases "rs_toolsDisabled st2 \<or> ar_toolCalls resp = []")
    case True
    then show ?thesis using assms dr ce resp coreD(5) [OF core2]
      by (auto simp: round_body_def Let_def send_core finalAssistantText_def split: if_splits)
  next
    case False
    then have "tool_round env maxRounds round resp st2 = Done ExitFinal st'"
      using assms dr ce by (auto simp: round_body_def Let_def split: if_splits)
    with tool_round_cases [of resp env maxRounds round st2] False show ?thesis by auto
  qed
qed

section \<open>The tool that runs is the tool that was looked up\<close>

text \<open>
  Resolving a call by the runtime name its lookup reported runs exactly the tool that
  lookup found, whichever of the exact name, the bare name and the origin found it.
\<close>

theorem resolve_runs_looked_up_tool:
  assumes "ctx_Tools c = Some st" "store_ok st" "LookupTool (Some st) name origin = Some l"
  shows "ResolveToolCall env (tl_RuntimeName l) info arguments c w = env_resolver env (tl_Tool l) info arguments c w"
  using store.lookup_once [of "Some st" name origin l] assms
  by (auto simp: ResolveToolCall_def lookupTool_def)

section \<open>A concrete run\<close>

text \<open>
  A request with one built-in tool, \<open>echo\<close>, and a model that calls it once, then answers: the
  inputs the properties with hypotheses are applied at.
\<close>

definition ex_call :: "string \<Rightarrow> ToolCall" where
  "ex_call name = \<lparr>tc_ID = ''c1'', tc_Name = name, tc_Description = [], tc_Arguments = ''{}'',
     tc_Result = [], tc_Status = ToolCallStatusPending, tc_MCPBareName = [], tc_Title = [],
     tc_UserInteraction = [], tc_WouldAutoExecute = False, tc_ServerOrigin = []\<rparr>"

definition ex_call_stream :: "string \<Rightarrow> TextStreamEvent list" where
  "ex_call_stream name = [event EventTypeText (VString ''calling''), event EventTypeToolCalls (VToolCalls [ex_call name]),
     event EventTypeEnd VNil]"

definition ex_answer_stream :: "TextStreamEvent list" where
  "ex_answer_stream = [event EventTypeText (VString ''done''), event EventTypeEnd VNil]"

definition ex_env :: "nat runner_env" where
  "ex_env = \<lparr>env_chat = (\<lambda>_ _ _ w. (Inr (if w = 0 then ex_call_stream ''echo'' else ex_answer_stream), Suc w)),
     env_resolver = (\<lambda>_ _ args c w. ((args, None), c, w)), env_validate = (\<lambda>_ _. None),
     env_shouldExecute = (\<lambda>_ _ _. True), env_errorResult = None, env_hasCallback = True,
     env_quote = (\<lambda>s. s), env_cancelled = (\<lambda>_. False), env_sendWins = (\<lambda>_. True)\<rparr>"

text \<open>The run executes the tool, records one turn, delivers it and ends with the answer.\<close>

lemma ex_run:
  "map_sum id (\<lambda>(x, st). (x, length (rs_ToolTurns st), length (rs_delivered st), rs_FinalText st, length (rs_executed st),
        length (rs_calls st)))
     (Run ex_env (WithMaxRounds 0) ex_request [] 0) = Inr (ExitFinal, 1, 1, ''done'', 1, 2)"
  by code_simp

abbreviation ex_state :: "nat run_state" where
  "ex_state \<equiv> initial_state ex_request [] 0"


fun is_Next :: "'w step \<Rightarrow> bool" where
  "is_Next (Next _) = True"
| "is_Next (Done _ _) = False"

fun is_Final :: "'w step \<Rightarrow> bool" where
  "is_Final (Done ExitFinal _) = True"
| "is_Final _ = False"

lemma is_NextD: "is_Next s \<Longrightarrow> s = Next (step_state s)"
  by (cases s) simp_all

lemma is_FinalD: "is_Final s \<Longrightarrow> s = Done ExitFinal (step_state s)"
  by (cases s rule: is_Final.cases) simp_all

lemma tools_disabled_after_failures_witness:
  "rs_toolsDisabled (step_state (round_body ex_env 1 0 (ex_call_stream ''echo'') ex_state))"
proof -
  have "is_Next (round_body ex_env 1 0 (ex_call_stream ''echo'') ex_state)" by code_simp
  from tools_disabled_after_failures [OF _ is_NextD [OF this]] show ?thesis
    by (auto simp: initial_state_def)
qed

lemma disabled_round_is_final_witness:
  "\<exists>x st'. round_body ex_env 3 1 (ex_call_stream ''echo'') (disableTools ex_state) = Done x st'
     \<and> rs_executed st' = [] \<and> rs_ToolTurns st' = []"
  using disabled_round_is_final [of "disableTools ex_state" ex_env 3 1 "ex_call_stream ''echo''"]
  by (simp add: disableTools_def initial_state_def)

lemma final_text_is_last_answer_witness:
  "rs_FinalText (step_state (round_body ex_env 3 0 ex_answer_stream ex_state)) = ''done''"
proof -
  have "is_Final (round_body ex_env 3 0 ex_answer_stream ex_state)" by code_simp
  from final_text_is_last_answer [OF is_FinalD [OF this]] show ?thesis
    by (simp add: initial_state_def ex_answer_stream_def stream_text_def stream_calls_def)
qed

definition ex_mcp_store :: ToolStore where
  "ex_mcp_store = AddTools [example_tool ''jira__get'' ''J'', example_tool ''gh__list'' ''G''] NewToolStore"

lemma resolve_runs_looked_up_tool_witness:
  "ResolveToolCall ex_env ''jira__get'' \<lparr>ci_ID = ''c1'', ci_Execution = []\<rparr> ''{}''
       (ex_context\<lparr>ctx_Tools := Some ex_mcp_store\<rparr>) 7
     = env_resolver ex_env (example_tool ''jira__get'' ''J'') \<lparr>ci_ID = ''c1'', ci_Execution = []\<rparr> ''{}''
       (ex_context\<lparr>ctx_Tools := Some ex_mcp_store\<rparr>) 7"
proof -
  have "store_ok ex_mcp_store"
    unfolding ex_mcp_store_def by (intro reachable_store_invariant reachable_store.intros)
  moreover have "LookupTool (Some ex_mcp_store) ''get'' ''J'' = Some (toolLookup (example_tool ''jira__get'' ''J''))"
    by code_simp
  ultimately show ?thesis
    using resolve_runs_looked_up_tool [of "ex_context\<lparr>ctx_Tools := Some ex_mcp_store\<rparr>" ex_mcp_store "''get''" "''J''"
        "toolLookup (example_tool ''jira__get'' ''J'')" ex_env "\<lparr>ci_ID = ''c1'', ci_Execution = []\<rparr>" "''{}''" 7]
    by (simp add: example_tool_def)
qed

lemma Run_stream_terminates_witness:
  "case Run ex_env (WithMaxRounds 0) ex_request [] 0 of
     Inl _ \<Rightarrow> False
   | Inr (x, st) \<Rightarrow> (\<exists>es. rs_out st = es @ [event EventTypeEnd VNil] \<and> list_all (\<lambda>e. ev_Type e \<noteq> EventTypeEnd) es)"
proof -
  obtain st where run: "Run ex_env (WithMaxRounds 0) ex_request [] 0 = Inr (ExitFinal, st)"
    using ex_run by (cases "Run ex_env (WithMaxRounds 0) ex_request [] 0") auto
  have "never_cancelled ex_env" by (simp add: never_cancelled_def ex_env_def)
  then show ?thesis
    using Run_stream_terminates [of ex_env 0 ex_request "[]" 0] by (auto simp: run)
qed

end
