(* ===== verification/Service_Config.thy ===== *)
theory Service_Config
  imports Llm_Context
begin

text \<open>
  Service and agent configuration (\<open>src/llm/configuration.go\<close>, \<open>src/llm/skills.go\<close>): validity,
  the effective settings the runtime uses, and the resolution of a service's fallback chain.

  Parameters: \<open>json.Valid\<close> and the load-test profile parser decide two validity cases, \<open>quote\<close> is
  \<open>%q\<close>, and \<open>model.IsValidId\<close> is Mattermost's. Access levels are the source's ints. The walk of a
  fallback chain may not end on an arbitrary lookup function, so it is a partial function: a
  value \<open>None\<close> is non-termination.
\<close>

section \<open>Services\<close>

record ServiceConfig =
  sc_ID :: string
  sc_Name :: string
  sc_Type :: string
  sc_APIKey :: string
  sc_DefaultModel :: string
  sc_APIURL :: string
  sc_Region :: string
  sc_VertexProjectID :: string
  sc_VertexAuthCredentials :: string
  sc_InputTokenLimit :: int
  sc_OutputTokenLimit :: int
  sc_UseResponsesAPI :: bool
  sc_FallbackServiceID :: string
  sc_LoadTestMockConfig :: string
  sc_StructuredOutputPolicy :: string

definition StructuredOutputPolicyAuto :: string where "StructuredOutputPolicyAuto = ''auto''"
definition StructuredOutputPolicyNative :: string where "StructuredOutputPolicyNative = ''native''"
definition StructuredOutputPolicyPromptFallback :: string where
  "StructuredOutputPolicyPromptFallback = ''prompt_fallback''"

definition IsValidStructuredOutputPolicy :: "string \<Rightarrow> bool" where
  "IsValidStructuredOutputPolicy policy \<longleftrightarrow>
     List.member [[], StructuredOutputPolicyAuto, StructuredOutputPolicyNative,
                  StructuredOutputPolicyPromptFallback] policy"

definition EffectiveStructuredOutputPolicy :: "ServiceConfig \<Rightarrow> string" where
  "EffectiveStructuredOutputPolicy c =
     (if sc_StructuredOutputPolicy c = [] then StructuredOutputPolicyAuto else sc_StructuredOutputPolicy c)"

definition ServiceUsesResponsesAPI :: "ServiceConfig \<Rightarrow> bool" where
  "ServiceUsesResponsesAPI cfg =
     (if sc_Type cfg = ''openai'' \<or> sc_Type cfg = ''north'' then True
      else if sc_Type cfg = ''openaicompatible'' \<or> sc_Type cfg = ''azure'' then sc_UseResponsesAPI cfg
      else False)"

record service_env =
  sv_jsonValid :: "string \<Rightarrow> bool"
  sv_profileParses :: "string \<Rightarrow> bool"
  sv_quote :: "string \<Rightarrow> string"
  sv_isValidId :: "string \<Rightarrow> bool"

definition IsValidService :: "service_env \<Rightarrow> ServiceConfig \<Rightarrow> bool" where
  "IsValidService env service =
     (let t = sc_Type service; key = sc_APIKey service \<noteq> []; url = sc_APIURL service \<noteq> [] in
      if sc_ID service = [] \<or> t = [] then False
      else if \<not> IsValidStructuredOutputPolicy (sc_StructuredOutputPolicy service) then False
      else if t = ''openai'' then key
      else if t = ''openaicompatible'' then url
      else if t = ''azure'' then key \<and> url
      else if t = ''anthropic'' then key
      else if t = ''cohere'' then key
      else if t = ''north'' then key \<and> url
      else if t = ''bedrock'' then sc_Region service \<noteq> []
      else if t = ''mistral'' then key
      else if t = ''scale'' then key \<and> url
      else if t = ''gemini'' then key
      else if t = ''vertex'' then
        (if sc_VertexProjectID service = [] \<or> sc_Region service = [] then False
         else if sc_VertexAuthCredentials service = [] then True
         else sv_jsonValid env (sc_VertexAuthCredentials service))
      else if t = ''loadtest_mock'' then sv_profileParses env (sc_LoadTestMockConfig service)
      else False)"

section \<open>Fallback chains\<close>

text \<open>\<open>ServiceLookup\<close>: the first service with an id wins.\<close>

fun index_services :: "ServiceConfig list \<Rightarrow> (string \<rightharpoonup> ServiceConfig) \<Rightarrow> string \<rightharpoonup> ServiceConfig" where
  "index_services [] byID = byID"
| "index_services (svc # svcs) byID =
     index_services svcs (if byID (sc_ID svc) = None then byID(sc_ID svc \<mapsto> svc) else byID)"

definition ServiceLookup :: "ServiceConfig list \<Rightarrow> string \<rightharpoonup> ServiceConfig" where
  "ServiceLookup services = index_services services Map.empty"

definition chain_cycle :: "service_env \<Rightarrow> string \<Rightarrow> string \<Rightarrow> go_error" where
  "chain_cycle env primary cur = ErrorNew (''fallback chain of service '' @ sv_quote env primary
     @ '' contains a cycle at service '' @ sv_quote env cur)"

definition chain_missing :: "service_env \<Rightarrow> string \<Rightarrow> string \<Rightarrow> go_error" where
  "chain_missing env primary cur = ErrorNew (''fallback service '' @ sv_quote env cur
     @ '' in the chain of service '' @ sv_quote env primary @ '' does not exist'')"

definition chain_invalid :: "service_env \<Rightarrow> string \<Rightarrow> string \<Rightarrow> go_error" where
  "chain_invalid env primary cur = ErrorNew (''fallback service '' @ sv_quote env cur
     @ '' in the chain of service '' @ sv_quote env primary @ '' has an invalid configuration'')"

partial_function (option) chain_loop ::
  "service_env \<Rightarrow> (string \<rightharpoonup> ServiceConfig) \<Rightarrow> string \<Rightarrow> string list \<Rightarrow> string \<Rightarrow> ServiceConfig list
   \<Rightarrow> ServiceConfig list result option" where
  "chain_loop env getServiceByID primary visited cur chain =
     (if cur = [] then Some (Inr chain)
      else if cur \<in> set visited then Some (Inl (chain_cycle env primary cur))
      else (case getServiceByID cur of
              None \<Rightarrow> Some (Inl (chain_missing env primary cur))
            | Some svc \<Rightarrow>
                if \<not> IsValidService env svc then Some (Inl (chain_invalid env primary cur))
                else chain_loop env getServiceByID primary (cur # visited) (sc_FallbackServiceID svc)
                       (chain @ [svc])))"

definition ResolveFallbackChain ::
  "service_env \<Rightarrow> string \<Rightarrow> (string \<rightharpoonup> ServiceConfig) \<Rightarrow> ServiceConfig list result option" where
  "ResolveFallbackChain env primary getServiceByID =
     (case getServiceByID primary of
        None \<Rightarrow> Some (Inr [])
      | Some p \<Rightarrow> chain_loop env getServiceByID primary [primary] (sc_FallbackServiceID p) [])"

section \<open>Agents\<close>

definition MaxCustomInstructionsRunes :: nat where "MaxCustomInstructionsRunes = 100000"
definition DefaultMaxToolTurns :: int where "DefaultMaxToolTurns = 30"
definition MaxAllowedMaxToolTurns :: int where "MaxAllowedMaxToolTurns = 250"
definition MaxSkillDescriptionRunes :: nat where "MaxSkillDescriptionRunes = 1024"

definition ChannelAccessLevelAll :: int where "ChannelAccessLevelAll = 0"
definition ChannelAccessLevelAllow :: int where "ChannelAccessLevelAllow = 1"
definition ChannelAccessLevelBlock :: int where "ChannelAccessLevelBlock = 2"
definition ChannelAccessLevelNone :: int where "ChannelAccessLevelNone = 3"

definition UserAccessLevelAll :: int where "UserAccessLevelAll = 0"
definition UserAccessLevelAllow :: int where "UserAccessLevelAllow = 1"
definition UserAccessLevelBlock :: int where "UserAccessLevelBlock = 2"
definition UserAccessLevelNone :: int where "UserAccessLevelNone = 3"
definition UserAccessLevelAttributeBased :: int where "UserAccessLevelAttributeBased = 4"

lemmas access_level_defs =
  ChannelAccessLevelAll_def ChannelAccessLevelAllow_def ChannelAccessLevelBlock_def ChannelAccessLevelNone_def
  UserAccessLevelAll_def UserAccessLevelAllow_def UserAccessLevelBlock_def UserAccessLevelNone_def
  UserAccessLevelAttributeBased_def

record SkillsConfig =
  sk_Disabled :: bool
  sk_AllowPersonal :: bool
  sk_EnabledSharedIDs :: "string list"
  sk_DescriptionOverrides :: "string gomap"

record BotConfig =
  bc_ID :: string
  bc_Name :: string
  bc_DisplayName :: string
  bc_CustomInstructions :: string
  bc_ServiceID :: string
  bc_Model :: string
  bc_EnableVision :: bool
  bc_DisableTools :: bool
  bc_ChannelAccessLevel :: int
  bc_ChannelIDs :: "string list"
  bc_UserAccessLevel :: int
  bc_UserIDs :: "string list"
  bc_TeamIDs :: "string list"
  bc_EnabledNativeTools :: "string list"
  bc_EnabledMCPTools :: "EnabledMCPTool list"
  bc_AutoEnableNewMCPTools :: bool
  bc_MCPDynamicToolLoading :: bool
  bc_UseServiceAccountAuth :: bool
  bc_MaxToolTurns :: int
  bc_Skills :: SkillsConfig
  bc_BotUserID :: string
  bc_CreatorID :: string
  bc_AdminUserIDs :: "string list"

text \<open>\<open>SkillsConfig.Validate\<close>; the overrides are visited in map order.\<close>

definition skills_Validate :: "service_env \<Rightarrow> SkillsConfig \<Rightarrow> go_error option" where
  "skills_Validate env s =
     (if list_ex (\<lambda>i. \<not> sv_isValidId env i) (sk_EnabledSharedIDs s)
      then Some (ErrorNew ''skills.enabledSharedIDs must contain skill IDs'')
      else (case filter (\<lambda>(i, d). \<not> sv_isValidId env i \<or> RuneCount d > MaxSkillDescriptionRunes)
                   (sk_DescriptionOverrides s) of
              [] \<Rightarrow> None
            | (i, d) # _ \<Rightarrow>
                if \<not> sv_isValidId env i
                then Some (ErrorNew ''skills.descriptionOverrides must be keyed by skill ID'')
                else Some (ErrorNew (''skill description overrides must be at most ''
                       @ Itoa MaxSkillDescriptionRunes @ '' characters''))))"

definition Validate :: "service_env \<Rightarrow> BotConfig \<Rightarrow> go_error option" where
  "Validate env c =
     (if bc_Name c = [] then Some (ErrorNew ''name is required'')
      else if bc_DisplayName c = [] then Some (ErrorNew ''displayName is required'')
      else if bc_ServiceID c = [] then Some (ErrorNew ''serviceID is required'')
      else if bc_ChannelAccessLevel c < ChannelAccessLevelAll \<or> bc_ChannelAccessLevel c > ChannelAccessLevelNone
      then Some (ErrorNew ''channelAccessLevel is out of range'')
      else if bc_UserAccessLevel c < UserAccessLevelAll \<or> bc_UserAccessLevel c > UserAccessLevelAttributeBased
      then Some (ErrorNew ''userAccessLevel is out of range'')
      else if RuneCount (bc_CustomInstructions c) > MaxCustomInstructionsRunes
      then Some (ErrorNew (''customInstructions exceeds maximum length of ''
             @ Itoa MaxCustomInstructionsRunes @ '' characters''))
      else if bc_MaxToolTurns c < 0 then Some (ErrorNew ''maxToolTurns must be greater than or equal to 0'')
      else if bc_MaxToolTurns c > MaxAllowedMaxToolTurns
      then Some (ErrorNew (''maxToolTurns must be less than or equal to '' @ Itoa (nat MaxAllowedMaxToolTurns)))
      else skills_Validate env (bc_Skills c))"

definition EffectiveMaxToolTurns :: "BotConfig \<Rightarrow> int" where
  "EffectiveMaxToolTurns c = (if bc_MaxToolTurns c \<le> 0 then DefaultMaxToolTurns else bc_MaxToolTurns c)"

definition IsValid :: "service_env \<Rightarrow> BotConfig \<Rightarrow> bool" where
  "IsValid env c \<longleftrightarrow> Validate env c = None"

definition IsCreator :: "BotConfig \<Rightarrow> string \<Rightarrow> bool" where
  "IsCreator c userID = (if userID = [] \<or> bc_CreatorID c = [] then False else bc_CreatorID c = userID)"

definition IsAdmin :: "BotConfig \<Rightarrow> string \<Rightarrow> bool" where
  "IsAdmin c userID = (if userID = [] then False else IsCreator c userID \<or> List.member (bc_AdminUserIDs c) userID)"

section \<open>Lemmas on chains\<close>

lemma ServiceLookup_spec: "index_services svcs m k = (case m k of Some s \<Rightarrow> Some s | None \<Rightarrow> find (\<lambda>s. sc_ID s = k) svcs)"
  by (induction svcs arbitrary: m) (auto split: option.splits)

lemma ServiceLookup_find: "ServiceLookup svcs k = find (\<lambda>s. sc_ID s = k) svcs"
  by (simp add: ServiceLookup_def ServiceLookup_spec)

lemma ServiceLookup_ID: "ServiceLookup svcs k = Some s \<Longrightarrow> sc_ID s = k \<and> s \<in> set svcs"
  by (auto simp: ServiceLookup_find find_Some_iff)

lemma finite_dom_ServiceLookup: "finite (dom (ServiceLookup svcs))"
proof (rule finite_subset)
  show "dom (ServiceLookup svcs) \<subseteq> sc_ID ` set svcs"
    using ServiceLookup_ID by (fastforce simp: dom_def)
qed simp

text \<open>A chain follows the fallback ids from \<open>cur\<close> to a service without one.\<close>

fun linked :: "service_env \<Rightarrow> (string \<rightharpoonup> ServiceConfig) \<Rightarrow> string \<Rightarrow> ServiceConfig list \<Rightarrow> bool" where
  "linked env look cur [] \<longleftrightarrow> cur = []"
| "linked env look cur (s # ss) \<longleftrightarrow> cur \<noteq> [] \<and> look cur = Some s \<and> IsValidService env s
     \<and> linked env look (sc_FallbackServiceID s) ss"

fun chain_keys :: "string \<Rightarrow> ServiceConfig list \<Rightarrow> string list" where
  "chain_keys cur [] = []"
| "chain_keys cur (s # ss) = cur # chain_keys (sc_FallbackServiceID s) ss"

lemma chain_loop_terminates:
  assumes "finite (dom look)"
  shows "\<exists>r. chain_loop env look primary visited cur chain = Some r"
proof (induction "card (dom look - set visited)" arbitrary: visited cur chain rule: less_induct)
  case less
  show ?case
  proof (cases "cur = [] \<or> cur \<in> set visited \<or> look cur = None \<or> (\<exists>s. look cur = Some s \<and> \<not> IsValidService env s)")
    case True
    then show ?thesis by (subst chain_loop.simps) auto
  next
    case False
    then obtain s where s: "look cur = Some s" "IsValidService env s" by auto
    have "card (dom look - set (cur # visited)) < card (dom look - set visited)"
      using assms s False by (intro psubset_card_mono) auto
    from less [OF this] show ?thesis using False s by (subst chain_loop.simps) simp
  qed
qed

lemma chain_loop_linked:
  assumes "finite (dom look)" "chain_loop env look primary visited cur chain = Some (Inr res)"
  shows "\<exists>ss. res = chain @ ss \<and> linked env look cur ss \<and> distinct (chain_keys cur ss)
        \<and> set (chain_keys cur ss) \<inter> set visited = {}"
  using assms(2)
proof (induction "card (dom look - set visited)" arbitrary: visited cur chain rule: less_induct)
  case less
  show ?case
  proof (cases "cur = []")
    case True
    with less.prems have "res = chain" by (subst (asm) chain_loop.simps) simp
    with True show ?thesis by (intro exI [of _ "[]"]) simp
  next
    case False
    with less.prems obtain s where s: "cur \<notin> set visited" "look cur = Some s" "IsValidService env s"
      "chain_loop env look primary (cur # visited) (sc_FallbackServiceID s) (chain @ [s]) = Some (Inr res)"
      by (subst (asm) chain_loop.simps) (auto split: if_splits option.splits)
    have "card (dom look - set (cur # visited)) < card (dom look - set visited)"
      using assms(1) s by (intro psubset_card_mono) auto
    from less.hyps [OF this s(4)] obtain ss where
      ss: "res = (chain @ [s]) @ ss" "linked env look (sc_FallbackServiceID s) ss"
        "distinct (chain_keys (sc_FallbackServiceID s) ss)"
        "set (chain_keys (sc_FallbackServiceID s) ss) \<inter> set (cur # visited) = {}" by blast
    then show ?thesis using s False by (intro exI [of _ "s # ss"]) auto
  qed
qed

lemma ResolveFallbackChain_returns: "\<exists>r. ResolveFallbackChain env primary (ServiceLookup services) = Some r"
  using chain_loop_terminates [OF finite_dom_ServiceLookup]
  by (auto simp: ResolveFallbackChain_def split: option.split)

text \<open>
  C37: on a configured service list, resolving a fallback chain always ends; a chain it
  returns is the sequence of valid services the fallback ids name one after the other, ends at a
  service without a fallback, and never repeats a service or returns to the primary.
\<close>

theorem ResolveFallbackChain_correct:
  "\<exists>r. ResolveFallbackChain env primary (ServiceLookup services) = Some r
     \<and> (case r of
          Inl _ \<Rightarrow> True
        | Inr chain \<Rightarrow>
            (case ServiceLookup services primary of
               None \<Rightarrow> chain = []
             | Some p \<Rightarrow> linked env (ServiceLookup services) (sc_FallbackServiceID p) chain
                 \<and> distinct (primary # chain_keys (sc_FallbackServiceID p) chain)))"
proof (cases "ServiceLookup services primary")
  case None
  then show ?thesis by (simp add: ResolveFallbackChain_def)
next
  case (Some p)
  let ?loop = "chain_loop env (ServiceLookup services) primary [primary] (sc_FallbackServiceID p) []"
  obtain r where r: "?loop = Some r"
    using chain_loop_terminates [OF finite_dom_ServiceLookup] by blast
  show ?thesis
  proof (cases r)
    case (Inl e)
    with r Some show ?thesis by (simp add: ResolveFallbackChain_def)
  next
    case (Inr chain)
    with chain_loop_linked [OF finite_dom_ServiceLookup] r
    obtain ss where "chain = [] @ ss" "linked env (ServiceLookup services) (sc_FallbackServiceID p) ss"
      "distinct (chain_keys (sc_FallbackServiceID p) ss)"
      "set (chain_keys (sc_FallbackServiceID p) ss) \<inter> set [primary] = {}" by blast
    with r Inr Some show ?thesis by (simp add: ResolveFallbackChain_def)
  qed
qed

lemma chain_keys_ids:
  "linked env (ServiceLookup svcs) cur ss \<Longrightarrow> chain_keys cur ss = map sc_ID ss"
  by (induction ss arbitrary: cur) (auto dest: ServiceLookup_ID)

text \<open>
  A cycle is an error: a chain that follows the configured ids back to a service already
  visited resolves to no chain.
\<close>

theorem ResolveFallbackChain_cycle:
  assumes "ServiceLookup services a = Some sa" "ServiceLookup services b = Some sb"
    "sc_FallbackServiceID sa = b" "sc_FallbackServiceID sb = a" "IsValidService env sb"
    "a \<noteq> []" "b \<noteq> []" "a \<noteq> b"
  shows "ResolveFallbackChain env a (ServiceLookup services) = Some (Inl (chain_cycle env a a))"
  using assms
  by (simp add: ResolveFallbackChain_def chain_loop.simps [of _ _ _ "[a]"] chain_loop.simps [of _ _ _ "[b, a]"])

definition ex_service :: "string \<Rightarrow> string \<Rightarrow> ServiceConfig" where
  "ex_service i fb = \<lparr>sc_ID = i, sc_Name = i, sc_Type = ''openai'', sc_APIKey = ''k'', sc_DefaultModel = ''m'' @ i,
     sc_APIURL = [], sc_Region = [], sc_VertexProjectID = [], sc_VertexAuthCredentials = [],
     sc_InputTokenLimit = 0, sc_OutputTokenLimit = 0, sc_UseResponsesAPI = False,
     sc_FallbackServiceID = fb, sc_LoadTestMockConfig = [], sc_StructuredOutputPolicy = []\<rparr>"

definition ex_service_env :: service_env where
  "ex_service_env = \<lparr>sv_jsonValid = (\<lambda>_. True), sv_profileParses = (\<lambda>_. True), sv_quote = (\<lambda>s. s),
     sv_isValidId = (\<lambda>s. length s = 2)\<rparr>"

lemma ResolveFallbackChain_cycle_witness:
  "ResolveFallbackChain ex_service_env ''a'' (ServiceLookup [ex_service ''a'' ''b'', ex_service ''b'' ''a''])
     = Some (Inl (chain_cycle ex_service_env ''a'' ''a''))"
  by (rule ResolveFallbackChain_cycle [where sa = "ex_service ''a'' ''b''" and sb = "ex_service ''b'' ''a''" and b = "''b''"])
    (simp_all add: ServiceLookup_find ex_service_def IsValidService_def IsValidStructuredOutputPolicy_def)

text \<open>
  A configuration that validates gives the tool runner a ceiling between 1 and the
  maximum, and its access levels are ones the access checks know.
\<close>

theorem Validate_bounds:
  assumes "IsValid env c"
  shows "1 \<le> EffectiveMaxToolTurns c \<and> EffectiveMaxToolTurns c \<le> MaxAllowedMaxToolTurns
     \<and> bc_UserAccessLevel c \<in> {UserAccessLevelAll, UserAccessLevelAllow, UserAccessLevelBlock,
         UserAccessLevelNone, UserAccessLevelAttributeBased}
     \<and> bc_ChannelAccessLevel c \<in> {ChannelAccessLevelAll, ChannelAccessLevelAllow, ChannelAccessLevelBlock,
         ChannelAccessLevelNone}"
  using assms
  by (auto simp: IsValid_def Validate_def EffectiveMaxToolTurns_def access_level_defs DefaultMaxToolTurns_def
      MaxAllowedMaxToolTurns_def split: if_splits)

definition ex_config :: BotConfig where
  "ex_config = \<lparr>bc_ID = ''id'', bc_Name = ''bot'', bc_DisplayName = ''Bot'', bc_CustomInstructions = [],
     bc_ServiceID = ''a'', bc_Model = [], bc_EnableVision = False, bc_DisableTools = False,
     bc_ChannelAccessLevel = ChannelAccessLevelAll, bc_ChannelIDs = [],
     bc_UserAccessLevel = UserAccessLevelAll, bc_UserIDs = [], bc_TeamIDs = [], bc_EnabledNativeTools = [],
     bc_EnabledMCPTools = [], bc_AutoEnableNewMCPTools = False, bc_MCPDynamicToolLoading = True,
     bc_UseServiceAccountAuth = False, bc_MaxToolTurns = 0,
     bc_Skills = \<lparr>sk_Disabled = False, sk_AllowPersonal = False, sk_EnabledSharedIDs = [], sk_DescriptionOverrides = []\<rparr>,
     bc_BotUserID = [], bc_CreatorID = [], bc_AdminUserIDs = []\<rparr>"

lemma Validate_bounds_witness:
  "1 \<le> EffectiveMaxToolTurns ex_config \<and> EffectiveMaxToolTurns ex_config \<le> MaxAllowedMaxToolTurns"
proof -
  have "IsValid ex_service_env ex_config"
    by (simp add: IsValid_def Validate_def ex_config_def access_level_defs skills_Validate_def
        RuneCount.simps MaxAllowedMaxToolTurns_def)
  from Validate_bounds [OF this] show ?thesis by blast
qed

end
