(* ===== verification/Mcp_Config.thy ===== *)
theory Mcp_Config
  imports Service_Config
begin

text \<open>
  The MCP server configuration (\<open>src/config/mcp_config.go\<close>): tool policies, service-account
  headers, the stable server ids access policies are keyed by, and their reconciliation on save;
  and the parts of the plugin configuration the license gates read.

  Go maps built in a loop are association lists in insertion order. \<open>canonical\<close> is
  \<open>textproto.CanonicalMIMEHeaderKey\<close>, \<open>quote\<close> is \<open>%q\<close>.
\<close>

section \<open>Data\<close>

definition MCPToolPolicyAsk :: string where "MCPToolPolicyAsk = ''ask''"
definition MCPToolPolicyAutoRunInDM :: string where "MCPToolPolicyAutoRunInDM = ''auto_run_in_dm''"
definition MCPToolPolicyAutoRunEverywhere :: string where "MCPToolPolicyAutoRunEverywhere = ''auto_run_everywhere''"

lemmas policy_defs = MCPToolPolicyAsk_def MCPToolPolicyAutoRunInDM_def MCPToolPolicyAutoRunEverywhere_def

definition MCPEmbeddedServerOrigin :: string where "MCPEmbeddedServerOrigin = ''embedded://mattermost''"

definition PluginServerOrigin :: "string \<Rightarrow> string" where
  "PluginServerOrigin pluginID = ''plugin://'' @ pluginID"

record MCPToolConfig =
  tcf_Name :: string
  tcf_Policy :: string
  tcf_Enabled :: bool
  tcf_RetrievalDescriptionOverride :: string

definition IsToolPolicyAutoRunInDM :: "string \<Rightarrow> bool" where
  "IsToolPolicyAutoRunInDM policy \<longleftrightarrow> policy = MCPToolPolicyAutoRunInDM \<or> policy = MCPToolPolicyAutoRunEverywhere"

definition IsToolPolicyAutoRunEverywhere :: "string \<Rightarrow> bool" where
  "IsToolPolicyAutoRunEverywhere policy \<longleftrightarrow> policy = MCPToolPolicyAutoRunEverywhere"

record MCPEmbeddedServerConfig =
  es_ID :: string
  es_Enabled :: bool
  es_ToolConfigs :: "MCPToolConfig list"

record MCPServerConfig =
  ms_ID :: string
  ms_Name :: string
  ms_Enabled :: bool
  ms_BaseURL :: string
  ms_Headers :: "string gomap"
  ms_Description :: string
  ms_DMOnly :: bool
  ms_ServiceAccountHeaders :: "string gomap"
  ms_ClientID :: string
  ms_ClientSecret :: string
  ms_ToolConfigs :: "MCPToolConfig list"

record PluginServerConfig =
  ps_ID :: string
  ps_PluginID :: string
  ps_Name :: string
  ps_Path :: string
  ps_Enabled :: bool
  ps_ExposeExternal :: bool
  ps_ToolConfigs :: "MCPToolConfig list"

record MCPConfig =
  mcp_Enabled :: bool
  mcp_EnablePluginServer :: bool
  mcp_Servers :: "MCPServerConfig list"
  mcp_PluginServers :: "PluginServerConfig list"
  mcp_EmbeddedServer :: MCPEmbeddedServerConfig
  mcp_IdleTimeoutMinutes :: int

section \<open>Tool policies\<close>

text \<open>The loop keeps the last entry of the name; \<open>cmp.Or\<close> is the first non-empty string.\<close>

fun policy_loop :: "string \<Rightarrow> string \<Rightarrow> MCPToolConfig list \<Rightarrow> string \<times> bool \<Rightarrow> string \<times> bool" where
  "policy_loop toolName dflt [] acc = acc"
| "policy_loop toolName dflt (tc # tcs) acc =
     policy_loop toolName dflt tcs
       (if tcf_Name tc = toolName
        then (if tcf_Policy tc \<noteq> [] then tcf_Policy tc else dflt, tcf_Enabled tc) else acc)"

definition GetToolPolicyOrDefault :: "MCPServerConfig option \<Rightarrow> string \<Rightarrow> string \<Rightarrow> string \<times> bool" where
  "GetToolPolicyOrDefault s toolName defaultPolicy =
     (case s of
        None \<Rightarrow> (MCPToolPolicyAsk, False)
      | Some srv \<Rightarrow>
          if toolName = [] then (MCPToolPolicyAsk, False)
          else if \<not> ms_Enabled srv then (MCPToolPolicyAsk, False)
          else (let (policy, enabled) = policy_loop toolName defaultPolicy (ms_ToolConfigs srv) (defaultPolicy, True)
                in (if \<not> IsToolPolicyAutoRunInDM policy \<and> policy \<noteq> MCPToolPolicyAsk
                    then MCPToolPolicyAsk else policy, enabled)))"

definition GetToolPolicy :: "MCPServerConfig option \<Rightarrow> string \<Rightarrow> string \<times> bool" where
  "GetToolPolicy s toolName = GetToolPolicyOrDefault s toolName MCPToolPolicyAsk"

definition IsToolAutoRunInDM :: "MCPServerConfig option \<Rightarrow> string \<Rightarrow> bool" where
  "IsToolAutoRunInDM s toolName = (let (policy, enabled) = GetToolPolicy s toolName
     in IsToolPolicyAutoRunInDM policy \<and> enabled)"

section \<open>Service-account headers\<close>

definition header_key :: "(string \<Rightarrow> string) \<Rightarrow> string \<times> string \<Rightarrow> string" where
  "header_key canonical kv = canonical (TrimSpace (fst kv))"

definition header_usable :: "(string \<Rightarrow> string) \<Rightarrow> string \<times> string \<Rightarrow> bool" where
  "header_usable canonical kv \<longleftrightarrow> \<not> (header_key canonical kv = [] \<or> TrimSpace (snd kv) = [])"

text \<open>The first loop's \<open>counts\<close>: the usable rows of each canonical name.\<close>

definition header_count :: "(string \<Rightarrow> string) \<Rightarrow> string gomap \<Rightarrow> string \<Rightarrow> nat" where
  "header_count canonical m k =
     length (filter (\<lambda>kv. header_usable canonical kv \<and> header_key canonical kv = k) m)"

definition EffectiveServiceAccountHeaders :: "(string \<Rightarrow> string) \<Rightarrow> MCPServerConfig option \<Rightarrow> string gomap" where
  "EffectiveServiceAccountHeaders canonical s =
     (case s of
        None \<Rightarrow> []
      | Some srv \<Rightarrow>
          map (\<lambda>kv. (header_key canonical kv, TrimSpace (snd kv)))
            (filter (\<lambda>kv. header_usable canonical kv
                \<and> \<not> header_count canonical (ms_ServiceAccountHeaders srv) (header_key canonical kv) > 1)
              (ms_ServiceAccountHeaders srv)))"

definition HasServiceAccountAuth :: "(string \<Rightarrow> string) \<Rightarrow> MCPServerConfig option \<Rightarrow> bool" where
  "HasServiceAccountAuth canonical s \<longleftrightarrow> EffectiveServiceAccountHeaders canonical s \<noteq> []"

section \<open>Server identity\<close>

text \<open>The (origin, id) pairs of the servers that have an id, in the order the loops visit them.\<close>

definition identified_servers :: "MCPConfig \<Rightarrow> (string \<times> string) list" where
  "identified_servers c =
     map (\<lambda>s. (ms_BaseURL s, ms_ID s)) (filter (\<lambda>s. \<not> ms_ID s = []) (mcp_Servers c))
     @ (if es_ID (mcp_EmbeddedServer c) \<noteq> [] then [(MCPEmbeddedServerOrigin, es_ID (mcp_EmbeddedServer c))] else [])
     @ map (\<lambda>p. (PluginServerOrigin (ps_PluginID p), ps_ID p))
         (filter (\<lambda>p. \<not> (ps_ID p = [] \<or> ps_PluginID p = [])) (mcp_PluginServers c))"

definition ServerIDByOrigin :: "MCPConfig \<Rightarrow> string gomap" where
  "ServerIDByOrigin c = fold (\<lambda>(origin, sid) out. AList.update origin sid out) (identified_servers c) []"

definition OriginByServerID :: "MCPConfig \<Rightarrow> string gomap" where
  "OriginByServerID c = fold (\<lambda>(origin, sid) out. AList.update sid origin out) (identified_servers c) []"

definition ErrMCPServerIDConflict :: go_error where
  "ErrMCPServerIDConflict = Sentinel ''ErrMCPServerIDConflict'' ''MCP server identity conflict''"

definition ReconcileEmbeddedMCPServerID ::
  "(string \<Rightarrow> string) \<Rightarrow> MCPEmbeddedServerConfig \<Rightarrow> MCPEmbeddedServerConfig \<Rightarrow> MCPEmbeddedServerConfig result" where
  "ReconcileEmbeddedMCPServerID quote nxt prev =
     (if es_ID nxt = [] then Inr (nxt\<lparr>es_ID := es_ID prev\<rparr>)
      else if es_ID prev \<noteq> [] \<and> es_ID nxt \<noteq> es_ID prev
      then Inl (ErrorWrap (errText ErrMCPServerIDConflict @ '': embedded server carries ID '' @ quote (es_ID nxt)
             @ '' that differs from the stored ID '' @ quote (es_ID prev)) [ErrMCPServerIDConflict])
      else Inr nxt)"

text \<open>The ids every resource claims, with its label.\<close>

definition id_claims :: "(string \<Rightarrow> string) \<Rightarrow> MCPConfig \<Rightarrow> (string \<times> string) list" where
  "id_claims quote cfg =
     map (\<lambda>s. (ms_ID s, ''remote server '' @ quote (ms_Name s))) (mcp_Servers cfg)
     @ [(es_ID (mcp_EmbeddedServer cfg), ''embedded server'')]
     @ map (\<lambda>p. (ps_ID p, ''plugin server '' @ quote (ps_PluginID p))) (mcp_PluginServers cfg)"

fun claim_ids :: "(string \<Rightarrow> string) \<Rightarrow> (string \<times> string) list \<Rightarrow> string gomap \<Rightarrow> go_error option" where
  "claim_ids quote [] seen = None"
| "claim_ids quote ((sid, label) # cs) seen =
     (if sid = [] then claim_ids quote cs seen
      else (case map_of seen sid of
              Some other \<Rightarrow> Some (ErrorWrap (errText ErrMCPServerIDConflict @ '': '' @ other @ '' and '' @ label
                    @ '' share ID '' @ quote sid) [ErrMCPServerIDConflict])
            | None \<Rightarrow> claim_ids quote cs (AList.update sid label seen)))"

definition ValidateMCPServerIDUniqueness :: "(string \<Rightarrow> string) \<Rightarrow> MCPConfig \<Rightarrow> go_error option" where
  "ValidateMCPServerIDUniqueness quote cfg = claim_ids quote (id_claims quote cfg) []"

definition ReconcileMCPConfigIDs :: "(string \<Rightarrow> string) \<Rightarrow> MCPConfig \<Rightarrow> MCPConfig \<Rightarrow> MCPConfig result" where
  "ReconcileMCPConfigIDs quote nxt prev =
     (let next1 = nxt\<lparr>mcp_PluginServers := mcp_PluginServers prev\<rparr> in
      bindR (ReconcileEmbeddedMCPServerID quote (mcp_EmbeddedServer next1) (mcp_EmbeddedServer prev))
        (\<lambda>embedded.
           let next2 = next1\<lparr>mcp_EmbeddedServer := embedded\<rparr> in
           case ValidateMCPServerIDUniqueness quote next2 of Some err \<Rightarrow> Inl err | None \<Rightarrow> Inr next2))"

section \<open>Lemmas\<close>

lemma policy_loop_spec:
  "policy_loop n d tcs acc =
     (case filter (\<lambda>tc. tcf_Name tc = n) tcs of
        [] \<Rightarrow> acc
      | es \<Rightarrow> (if tcf_Policy (last es) \<noteq> [] then tcf_Policy (last es) else d, tcf_Enabled (last es)))"
  by (induction tcs arbitrary: acc) (auto split: list.splits)

text \<open>
  A tool policy lookup only ever answers one of the three policies, and never enables a
  tool of a disabled server.
\<close>

theorem GetToolPolicyOrDefault_range:
  "fst (GetToolPolicyOrDefault s toolName defaultPolicy)
      \<in> {MCPToolPolicyAsk, MCPToolPolicyAutoRunInDM, MCPToolPolicyAutoRunEverywhere}
   \<and> (snd (GetToolPolicyOrDefault s toolName defaultPolicy) =
       (case s of None \<Rightarrow> False
        | Some srv \<Rightarrow> toolName \<noteq> [] \<and> ms_Enabled srv
            \<and> (case filter (\<lambda>tc. tcf_Name tc = toolName) (ms_ToolConfigs srv) of
                 [] \<Rightarrow> True | es \<Rightarrow> tcf_Enabled (last es))))"
  by (auto simp: GetToolPolicyOrDefault_def policy_loop_spec IsToolPolicyAutoRunInDM_def Let_def case_prod_beta
      split: option.split list.split)

lemma header_count_same_map:
  assumes "same_map m n"
  shows "header_count canonical m k = header_count canonical n k"
  unfolding header_count_def by (rule same_map_mset [OF same_map_filter [OF assms]])

lemma effective_headers_keys:
  assumes "(k, v) \<in> set (EffectiveServiceAccountHeaders canonical (Some srv))"
    "(k, v') \<in> set (EffectiveServiceAccountHeaders canonical (Some srv))"
    "wf_map (ms_ServiceAccountHeaders srv)"
  shows "v = v'"
proof -
  let ?m = "ms_ServiceAccountHeaders srv"
  let ?P = "\<lambda>kv. header_usable canonical kv \<and> header_key canonical kv = k"
  obtain a b where a: "a \<in> set (filter ?P ?m)" "v = TrimSpace (snd a)"
    and b: "b \<in> set (filter ?P ?m)" "v' = TrimSpace (snd b)"
    and one: "length (filter ?P ?m) \<le> 1"
    using assms(1,2) by (auto simp: EffectiveServiceAccountHeaders_def header_count_def not_less)
  have "a = b" using a(1) b(1) one
    by (cases "filter ?P ?m") auto
  with a b show ?thesis by simp
qed

text \<open>
  The headers a service-account connection sends do not depend on the order Go's map
  iteration visits the configured rows in, and no header name is sent twice.
\<close>

theorem EffectiveServiceAccountHeaders_deterministic:
  assumes "same_map (ms_ServiceAccountHeaders a) (ms_ServiceAccountHeaders b)"
  shows "set (EffectiveServiceAccountHeaders canonical (Some a)) = set (EffectiveServiceAccountHeaders canonical (Some b))
     \<and> (\<forall>k v v'. (k, v) \<in> set (EffectiveServiceAccountHeaders canonical (Some a))
          \<and> (k, v') \<in> set (EffectiveServiceAccountHeaders canonical (Some a)) \<longrightarrow> v = v')"
proof
  show "set (EffectiveServiceAccountHeaders canonical (Some a)) = set (EffectiveServiceAccountHeaders canonical (Some b))"
    using assms by (simp add: EffectiveServiceAccountHeaders_def header_count_same_map [OF assms] same_map_def)
  show "\<forall>k v v'. (k, v) \<in> set (EffectiveServiceAccountHeaders canonical (Some a))
          \<and> (k, v') \<in> set (EffectiveServiceAccountHeaders canonical (Some a)) \<longrightarrow> v = v'"
    using effective_headers_keys [of _ _ canonical a] assms by (auto simp: same_map_def)
qed

definition ex_server :: "string \<Rightarrow> string \<Rightarrow> MCPServerConfig" where
  "ex_server sid url = \<lparr>ms_ID = sid, ms_Name = url, ms_Enabled = True, ms_BaseURL = url, ms_Headers = [],
     ms_Description = [], ms_DMOnly = False, ms_ServiceAccountHeaders = [], ms_ClientID = [],
     ms_ClientSecret = [], ms_ToolConfigs = []\<rparr>"

lemma EffectiveServiceAccountHeaders_deterministic_witness:
  "set (EffectiveServiceAccountHeaders (\<lambda>s. s) (Some ((ex_server ''s'' ''u'')\<lparr>ms_ServiceAccountHeaders := [(''A'', ''1''), ('' A'', ''2'')]\<rparr>)))
   = set (EffectiveServiceAccountHeaders (\<lambda>s. s) (Some ((ex_server ''s'' ''u'')\<lparr>ms_ServiceAccountHeaders := [('' A'', ''2''), (''A'', ''1'')]\<rparr>)))"
  using EffectiveServiceAccountHeaders_deterministic
    [of "(ex_server ''s'' ''u'')\<lparr>ms_ServiceAccountHeaders := [(''A'', ''1''), ('' A'', ''2'')]\<rparr>"
        "(ex_server ''s'' ''u'')\<lparr>ms_ServiceAccountHeaders := [('' A'', ''2''), (''A'', ''1'')]\<rparr>" "\<lambda>s. s"]
  by (auto simp: same_map_def)

text \<open>The uniqueness check claims the non-empty ids one after the other.\<close>

lemma claim_ids_None_iff:
  "claim_ids quote cs seen = None \<longleftrightarrow>
     distinct (filter (\<lambda>i. i \<noteq> []) (map fst cs)) \<and> set (filter (\<lambda>i. i \<noteq> []) (map fst cs)) \<inter> dom (map_of seen) = {}"
proof (induction cs arbitrary: seen)
  case (Cons c cs)
  show ?case
  proof (cases "fst c = []")
    case True
    with Cons show ?thesis by (cases c) simp
  next
    case False
    then show ?thesis
      by (cases c; cases "map_of seen (fst c)")
        (auto simp: Cons.IH update_conv' dom_def split: if_splits)
  qed
qed simp

definition server_ids_of :: "MCPConfig \<Rightarrow> string list" where
  "server_ids_of cfg = filter (\<lambda>i. i \<noteq> []) (map ms_ID (mcp_Servers cfg) @ [es_ID (mcp_EmbeddedServer cfg)]
     @ map ps_ID (mcp_PluginServers cfg))"

lemma ValidateMCPServerIDUniqueness_iff:
  "ValidateMCPServerIDUniqueness quote cfg = None \<longleftrightarrow> distinct (server_ids_of cfg)"
  by (simp add: ValidateMCPServerIDUniqueness_def claim_ids_None_iff server_ids_of_def id_claims_def comp_def)

text \<open>
  A save that passes reconciliation keeps the stored plugin servers and the stored
  embedded identity, changes nothing else, and leaves no two MCP resources with the same id.
\<close>

theorem ReconcileMCPConfigIDs_identity:
  assumes "ReconcileMCPConfigIDs quote nxt prev = Inr cfg"
  shows "distinct (server_ids_of cfg) \<and> mcp_PluginServers cfg = mcp_PluginServers prev
     \<and> mcp_Servers cfg = mcp_Servers nxt
     \<and> (es_ID (mcp_EmbeddedServer prev) \<noteq> [] \<longrightarrow> es_ID (mcp_EmbeddedServer cfg) = es_ID (mcp_EmbeddedServer prev))
     \<and> es_ToolConfigs (mcp_EmbeddedServer cfg) = es_ToolConfigs (mcp_EmbeddedServer nxt)"
  using assms
  by (auto simp: ReconcileMCPConfigIDs_def Let_def bindR_eq_Inr ReconcileEmbeddedMCPServerID_def
      ValidateMCPServerIDUniqueness_iff split: option.splits if_splits)

definition ex_mcp_config :: "MCPServerConfig list \<Rightarrow> string \<Rightarrow> MCPConfig" where
  "ex_mcp_config srvs sid = \<lparr>mcp_Enabled = True, mcp_EnablePluginServer = True, mcp_Servers = srvs,
     mcp_PluginServers = [], mcp_EmbeddedServer = \<lparr>es_ID = sid, es_Enabled = True, es_ToolConfigs = []\<rparr>,
     mcp_IdleTimeoutMinutes = 0\<rparr>"

lemma ReconcileMCPConfigIDs_identity_witness:
  "distinct (server_ids_of (ex_mcp_config [ex_server ''s1'' ''u1''] ''emb''))"
  using ReconcileMCPConfigIDs_identity [of "\<lambda>s. s" "ex_mcp_config [ex_server ''s1'' ''u1''] []" "ex_mcp_config [] ''emb''"
      "ex_mcp_config [ex_server ''s1'' ''u1''] ''emb''"]
  by (simp add: ReconcileMCPConfigIDs_def ReconcileEmbeddedMCPServerID_def ex_mcp_config_def ex_server_def
      ValidateMCPServerIDUniqueness_iff server_ids_of_def)

lemma map_of_ServerIDByOrigin:
  "map_of (ServerIDByOrigin c) = map_of (rev (identified_servers c))"
  by (rule ext) (simp add: ServerIDByOrigin_def case_prod_unfold map_of_fold_update split: option.split)

lemma map_of_OriginByServerID:
  "map_of (OriginByServerID c) = map_of (map (\<lambda>(origin, sid). (sid, origin)) (rev (identified_servers c)))"
  by (rule ext) (simp add: OriginByServerID_def case_prod_unfold map_of_fold_update split: option.split)

text \<open>
  With distinct origins and distinct ids, the two identity maps are inverse to each
  other.
\<close>

theorem server_identity_inverse:
  assumes "distinct (map fst (identified_servers c))" "distinct (map snd (identified_servers c))"
  shows "map_of (ServerIDByOrigin c) origin = Some sid \<longleftrightarrow> map_of (OriginByServerID c) sid = Some origin"
proof -
  have "map fst (map (\<lambda>(origin, sid). (sid, origin)) (rev (identified_servers c))) = rev (map snd (identified_servers c))"
    by (simp add: rev_map case_prod_unfold comp_def)
  with assms(2) have d: "distinct (map fst (map (\<lambda>(origin, sid). (sid, origin)) (rev (identified_servers c))))"
    by simp
  have "distinct (map fst (rev (identified_servers c)))"
    using assms(1) by (simp add: rev_map [symmetric])
  then show ?thesis
    unfolding map_of_ServerIDByOrigin map_of_OriginByServerID
    using map_of_eq_Some_iff [OF d] by (auto simp: map_of_eq_Some_iff)
qed

lemma server_identity_inverse_witness:
  "map_of (ServerIDByOrigin (ex_mcp_config [ex_server ''s1'' ''u1''] ''emb'')) ''u1'' = Some ''s1''
     \<longleftrightarrow> map_of (OriginByServerID (ex_mcp_config [ex_server ''s1'' ''u1''] ''emb'')) ''s1'' = Some ''u1''"
  by (rule server_identity_inverse)
    (simp_all add: identified_servers_def ex_mcp_config_def ex_server_def MCPEmbeddedServerOrigin_def)

text \<open>
  Two servers configured under one origin break the inverse: both ids lead to the origin, the
  origin leads to the last id only.
\<close>

lemma server_identity_not_inverse:
  "map_of (OriginByServerID (ex_mcp_config [ex_server ''s1'' ''u'', ex_server ''s2'' ''u''] [])) ''s1'' = Some ''u''"
  "map_of (ServerIDByOrigin (ex_mcp_config [ex_server ''s1'' ''u'', ex_server ''s2'' ''u''] [])) ''u'' = Some ''s2''"
  by code_simp+

end
