(* ===== verification/Licensing.thy ===== *)
theory Licensing
  imports Mcp_Config
begin

text \<open>
  License levels and capabilities (\<open>src/enterprise/license.go\<close>) and the gates on configuration
  changes (\<open>src/config/license_gates.go\<close>).

  A \<open>Level\<close> is one of the four constants, ordered as the source orders its ints. What the
  plugin API answers is a parameter: whether the server is configured for development, and the
  SKU names of the server's license package. The configuration record has the fields the gates
  read.
\<close>

section \<open>Levels\<close>

datatype Level = LevelUnlicensed | LevelProfessional | LevelEnterprise | LevelEnterpriseAdvanced

fun level_int :: "Level \<Rightarrow> nat" where
  "level_int LevelUnlicensed = 0"
| "level_int LevelProfessional = 1"
| "level_int LevelEnterprise = 2"
| "level_int LevelEnterpriseAdvanced = 3"

instantiation Level :: linorder
begin

definition less_eq_Level :: "Level \<Rightarrow> Level \<Rightarrow> bool" where
  "less_eq_Level a b \<longleftrightarrow> level_int a \<le> level_int b"

definition less_Level :: "Level \<Rightarrow> Level \<Rightarrow> bool" where
  "less_Level a b \<longleftrightarrow> level_int a < level_int b"

instance
proof
  fix x y z :: Level
  show "x \<le> y \<Longrightarrow> y \<le> x \<Longrightarrow> x = y"
    by (cases x; cases y) (simp_all add: less_eq_Level_def)
qed (auto simp: less_eq_Level_def less_Level_def)

end

fun Level_String :: "Level \<Rightarrow> string" where
  "Level_String LevelProfessional = ''Professional''"
| "Level_String LevelEnterprise = ''Enterprise''"
| "Level_String LevelEnterpriseAdvanced = ''Enterprise Advanced''"
| "Level_String LevelUnlicensed = ''Free''"

fun Level_Key :: "Level \<Rightarrow> string" where
  "Level_Key LevelProfessional = ''professional''"
| "Level_Key LevelEnterprise = ''enterprise''"
| "Level_Key LevelEnterpriseAdvanced = ''enterprise_advanced''"
| "Level_Key LevelUnlicensed = ''unlicensed''"

record Features =
  ft_FutureFeatures :: "bool option"
  ft_LDAP :: "bool option"

record License =
  lc_SkuShortName :: string
  lc_Features :: "Features option"

record sku_names =
  sku_EnterpriseAdvanced :: string
  sku_Enterprise :: string
  sku_Entry :: string
  sku_E20 :: string
  sku_Professional :: string
  sku_E10 :: string

definition LevelFor :: "sku_names \<Rightarrow> bool \<Rightarrow> License option \<Rightarrow> Level" where
  "LevelFor sku development license =
     (if development then LevelEnterpriseAdvanced
      else case license of
        None \<Rightarrow> LevelUnlicensed
      | Some l \<Rightarrow>
          if lc_SkuShortName l = sku_EnterpriseAdvanced sku then LevelEnterpriseAdvanced
          else if lc_SkuShortName l = sku_Enterprise sku \<or> lc_SkuShortName l = sku_Entry sku
             \<or> lc_SkuShortName l = sku_E20 sku then LevelEnterprise
          else if lc_SkuShortName l = sku_Professional sku \<or> lc_SkuShortName l = sku_E10 sku then LevelProfessional
          else case lc_Features l of
                 None \<Rightarrow> LevelUnlicensed
               | Some f \<Rightarrow>
                   if ft_FutureFeatures f = Some True then LevelEnterprise
                   else if ft_LDAP f = Some True then LevelProfessional
                   else LevelUnlicensed)"

section \<open>Capabilities\<close>

definition CapMultiplayerChannels :: string where "CapMultiplayerChannels = ''multiplayer_channels''"
definition CapThreadSummarization :: string where "CapThreadSummarization = ''thread_summarization''"
definition CapChannelSummarization :: string where "CapChannelSummarization = ''channel_summarization''"
definition CapProviderWebSearch :: string where "CapProviderWebSearch = ''provider_web_search''"
definition CapAgentAccessControls :: string where "CapAgentAccessControls = ''agent_access_controls''"
definition CapTokenAccounting :: string where "CapTokenAccounting = ''token_accounting''"
definition CapSovereignWebSearch :: string where "CapSovereignWebSearch = ''sovereign_web_search''"
definition CapToolApprovalPolicies :: string where "CapToolApprovalPolicies = ''tool_approval_policies''"
definition CapRemoteMCP :: string where "CapRemoteMCP = ''remote_mcp''"
definition CapSemanticSearch :: string where "CapSemanticSearch = ''semantic_search''"
definition CapMeetings :: string where "CapMeetings = ''meetings''"
definition CapMCPServiceAccount :: string where "CapMCPServiceAccount = ''mcp_service_account''"
definition CapSharedPrompts :: string where "CapSharedPrompts = ''shared_prompts''"
definition CapMultipleLLMServices :: string where "CapMultipleLLMServices = ''multiple_llm_services''"
definition CapModelFallback :: string where "CapModelFallback = ''model_fallback''"
definition CapStateChangingTools :: string where "CapStateChangingTools = ''state_changing_tools''"
definition CapChannelAutoReply :: string where "CapChannelAutoReply = ''channel_auto_reply''"
definition CapAttributeBasedAccess :: string where "CapAttributeBasedAccess = ''attribute_based_access''"

lemmas capability_defs = CapMultiplayerChannels_def CapThreadSummarization_def CapChannelSummarization_def
  CapProviderWebSearch_def CapAgentAccessControls_def CapTokenAccounting_def CapSovereignWebSearch_def
  CapToolApprovalPolicies_def CapRemoteMCP_def CapSemanticSearch_def CapMeetings_def CapMCPServiceAccount_def
  CapSharedPrompts_def CapMultipleLLMServices_def CapModelFallback_def CapStateChangingTools_def
  CapChannelAutoReply_def CapAttributeBasedAccess_def

definition capabilities :: "(string \<times> Level \<times> string) list" where
  "capabilities =
    [(CapMultiplayerChannels, LevelProfessional, ''Multiplayer agents in channels''),
     (CapThreadSummarization, LevelProfessional, ''Thread summarization''),
     (CapChannelSummarization, LevelProfessional, ''Channel and unread summarization''),
     (CapProviderWebSearch, LevelProfessional, ''Provider-native web search''),
     (CapAgentAccessControls, LevelProfessional, ''Agent access controls''),
     (CapTokenAccounting, LevelProfessional, ''Token accounting''),
     (CapMultipleLLMServices, LevelEnterprise, ''Multiple LLM services''),
     (CapStateChangingTools, LevelEnterprise, ''State-changing Mattermost tools''),
     (CapSovereignWebSearch, LevelEnterprise, ''Sovereign web search''),
     (CapToolApprovalPolicies, LevelEnterprise, ''Tool approval policies''),
     (CapRemoteMCP, LevelEnterprise, ''Remote and external MCP servers''),
     (CapSemanticSearch, LevelEnterprise, ''Semantic AI search''),
     (CapMeetings, LevelEnterprise, ''Meeting transcription and summaries''),
     (CapMCPServiceAccount, LevelEnterprise, ''MCP service-account authentication''),
     (CapSharedPrompts, LevelEnterprise, ''Shared prompt libraries''),
     (CapChannelAutoReply, LevelEnterpriseAdvanced, ''Channel agent auto-reply''),
     (CapAttributeBasedAccess, LevelEnterpriseAdvanced, ''Attribute-based access control''),
     (CapModelFallback, LevelEnterpriseAdvanced, ''LLM fallback chains'')]"

definition RequiredLevel :: "string \<Rightarrow> Level" where
  "RequiredLevel capability =
     (case map_of capabilities capability of Some (l, _) \<Rightarrow> l | None \<Rightarrow> LevelEnterpriseAdvanced)"

definition DisplayName :: "string \<Rightarrow> string" where
  "DisplayName capability =
     (case map_of capabilities capability of Some (_, d) \<Rightarrow> d | None \<Rightarrow> ''This feature'')"

definition ErrNotLicensed :: go_error where
  "ErrNotLicensed = Sentinel ''ErrNotLicensed'' ''license does not support this feature''"

record LicenseError =
  le_Capability :: string
  le_RequiredLevel :: Level
  le_CurrentLevel :: Level

definition LicenseError_Error :: "LicenseError \<Rightarrow> string" where
  "LicenseError_Error e = DisplayName (le_Capability e) @ '' requires a Mattermost ''
     @ Level_String (le_RequiredLevel e) @ '' license or higher; the current license level is ''
     @ Level_String (le_CurrentLevel e)"

definition NewLicenseError :: "string \<Rightarrow> Level \<Rightarrow> LicenseError" where
  "NewLicenseError capability current =
     \<lparr>le_Capability = capability, le_RequiredLevel = RequiredLevel capability, le_CurrentLevel = current\<rparr>"

text \<open>A denial as the Go error value: the two types of the source, with their \<open>Unwrap\<close> chain.\<close>

datatype license_denial = DeniedCapability LicenseError | DeniedAgentLimit LicenseError nat

fun denial_error :: "license_denial \<Rightarrow> go_error" where
  "denial_error (DeniedCapability e) = ErrorWrap (LicenseError_Error e) [ErrNotLicensed]"
| "denial_error (DeniedAgentLimit e limit) =
     ErrorWrap (''the current license level allows '' @ Itoa limit @ '' ''
       @ (if limit = 1 then ''AI agent'' else ''AI agents'')
       @ ''; more agents require a Mattermost '' @ Level_String (le_RequiredLevel e) @ '' license'')
       [ErrorWrap (LicenseError_Error e) [ErrNotLicensed]]"

text \<open>A checker's level: \<open>None\<close> is a nil checker or client.\<close>

definition checker_Level :: "Level option \<Rightarrow> Level" where
  "checker_Level e = (case e of None \<Rightarrow> LevelUnlicensed | Some l \<Rightarrow> l)"

definition Allows :: "Level option \<Rightarrow> string \<Rightarrow> bool" where
  "Allows e capability \<longleftrightarrow> checker_Level e \<ge> RequiredLevel capability"

definition Check :: "Level option \<Rightarrow> string \<Rightarrow> LicenseError option" where
  "Check e capability =
     (if checker_Level e \<ge> RequiredLevel capability then None
      else Some (NewLicenseError capability (checker_Level e)))"

definition AgentLimitFor :: "Level \<Rightarrow> nat option" where
  "AgentLimitFor level =
     (if level \<ge> LevelEnterprise then None else if level \<ge> LevelProfessional then Some 3 else Some 1)"

definition ServiceLimitFor :: "Level \<Rightarrow> nat option" where
  "ServiceLimitFor level = (if level \<ge> LevelEnterprise then None else Some 1)"

definition AgentLimitError :: "Level \<Rightarrow> license_denial option" where
  "AgentLimitError current =
     (case AgentLimitFor current of
        None \<Rightarrow> None
      | Some limit \<Rightarrow>
          Some (DeniedAgentLimit \<lparr>le_Capability = [],
              le_RequiredLevel = (if current \<ge> LevelProfessional then LevelEnterprise else LevelProfessional),
              le_CurrentLevel = current\<rparr> limit))"

section \<open>The gated configuration\<close>

record Config =
  cfg_Services :: "ServiceConfig list"
  cfg_Bots :: "BotConfig list"
  cfg_DefaultBotUserID :: string
  cfg_DefaultBotName :: string
  cfg_EnableTokenUsageLogging :: bool
  cfg_EnableTokenUsageLogToPlugin :: "bool option"
  cfg_EnableTokenUsageLogToFile :: "bool option"
  cfg_AllowedUpstreamHostnames :: string
  cfg_AllowUnsafeLinks :: bool
  cfg_AllowedLinkDomains :: string
  cfg_EnableHTMLArtifacts :: bool
  cfg_EnableChannelMentionToolCalling :: bool
  cfg_EnableAmbientAutoReply :: bool
  cfg_AllowNativeWebSearchInChannels :: bool
  cfg_WebSearchEnabled :: bool
  cfg_EmbeddingSearchType :: string
  cfg_EnableCallSummary :: bool
  cfg_TranscriptBotUserID :: string
  cfg_TranscriptGenerator :: string
  cfg_MCP :: MCPConfig
  cfg_TelemetryOutput :: string
  cfg_OpenTelemetryEndpoint :: string
  cfg_OpenTelemetryTLS :: bool
  cfg_OpenTelemetryHeaders :: string
  cfg_AgentVersionsToKeep :: int

definition transcriptAgentConfigured :: "Config \<Rightarrow> bool" where
  "transcriptAgentConfigured c \<longleftrightarrow> cfg_TranscriptBotUserID c \<noteq> [] \<or> cfg_TranscriptGenerator c \<noteq> []"

definition LicensedServices :: "Config option \<Rightarrow> Level \<Rightarrow> ServiceConfig list" where
  "LicensedServices cfg level =
     (case cfg of
        None \<Rightarrow> []
      | Some c \<Rightarrow>
          (case ServiceLimitFor level of
             None \<Rightarrow> cfg_Services c
           | Some limit \<Rightarrow> if length (cfg_Services c) \<le> limit then cfg_Services c else take limit (cfg_Services c)))"

definition ActiveServiceIDs :: "Config option \<Rightarrow> Level \<Rightarrow> string list" where
  "ActiveServiceIDs cfg level = filter (\<lambda>i. i \<noteq> []) (map sc_ID (LicensedServices cfg level))"

definition BotHasProviderWebSearch :: "BotConfig \<Rightarrow> bool" where
  "BotHasProviderWebSearch cfg \<longleftrightarrow> List.member (bc_EnabledNativeTools cfg) ''web_search''"

definition BotHasAccessControls :: "BotConfig \<Rightarrow> bool" where
  "BotHasAccessControls cfg =
     (if bc_ChannelAccessLevel cfg \<noteq> ChannelAccessLevelAll then True
      else if bc_ChannelIDs cfg \<noteq> [] \<or> bc_UserIDs cfg \<noteq> [] \<or> bc_TeamIDs cfg \<noteq> [] then True
      else bc_UserAccessLevel cfg = UserAccessLevelAllow \<or> bc_UserAccessLevel cfg = UserAccessLevelBlock
           \<or> bc_UserAccessLevel cfg = UserAccessLevelNone)"

definition AccessControlsNewlyRestricted :: "BotConfig \<Rightarrow> BotConfig \<Rightarrow> bool" where
  "AccessControlsNewlyRestricted prev nxt \<longleftrightarrow> BotHasAccessControls nxt \<and> \<not> BotHasAccessControls prev"

definition ToolPolicyReach :: "string \<Rightarrow> nat" where
  "ToolPolicyReach policy =
     (if policy = MCPToolPolicyAutoRunEverywhere then 2
      else if policy = MCPToolPolicyAutoRunInDM then 1 else 0)"

text \<open>\<open>prevReach\<close> as a map, the last entry of a name winning.\<close>

definition prev_reach :: "MCPToolConfig list \<Rightarrow> string \<rightharpoonup> nat" where
  "prev_reach prev = map_of (rev (map (\<lambda>tc. (tcf_Name tc, ToolPolicyReach (tcf_Policy tc))) prev))"

definition toolPoliciesNewlyAuto ::
  "MCPToolConfig list \<Rightarrow> MCPToolConfig list \<Rightarrow> (string \<Rightarrow> string) option \<Rightarrow> bool" where
  "toolPoliciesNewlyAuto prev nxt defaultFor =
     list_ex (\<lambda>tc.
       let baseline = (case prev_reach prev (tcf_Name tc) of
                         Some r \<Rightarrow> r
                       | None \<Rightarrow> (case defaultFor of None \<Rightarrow> 0 | Some d \<Rightarrow> ToolPolicyReach (d (tcf_Name tc))))
       in ToolPolicyReach (tcf_Policy tc) > baseline) nxt"

definition headersNonEmpty :: "string gomap \<Rightarrow> bool" where
  "headersNonEmpty h = list_ex (\<lambda>(k, v). TrimSpace k \<noteq> [] \<and> TrimSpace v \<noteq> []) h"

text \<open>\<open>byKey\<close> with the lookup of a missing key's zero value.\<close>

definition byKey :: "('a \<Rightarrow> string) \<Rightarrow> 'a list \<Rightarrow> string \<rightharpoonup> 'a" where
  "byKey key items = map_of (rev (map (\<lambda>item. (key item, item)) (filter (\<lambda>item. key item \<noteq> []) items)))"

definition zero_bot :: BotConfig where
  "zero_bot = \<lparr>bc_ID = [], bc_Name = [], bc_DisplayName = [], bc_CustomInstructions = [], bc_ServiceID = [],
     bc_Model = [], bc_EnableVision = False, bc_DisableTools = False, bc_ChannelAccessLevel = 0,
     bc_ChannelIDs = [], bc_UserAccessLevel = 0, bc_UserIDs = [], bc_TeamIDs = [], bc_EnabledNativeTools = [],
     bc_EnabledMCPTools = [], bc_AutoEnableNewMCPTools = False, bc_MCPDynamicToolLoading = False,
     bc_UseServiceAccountAuth = False, bc_MaxToolTurns = 0,
     bc_Skills = \<lparr>sk_Disabled = False, sk_AllowPersonal = False, sk_EnabledSharedIDs = [], sk_DescriptionOverrides = []\<rparr>,
     bc_BotUserID = [], bc_CreatorID = [], bc_AdminUserIDs = []\<rparr>"

definition zero_mcp :: MCPConfig where
  "zero_mcp = \<lparr>mcp_Enabled = False, mcp_EnablePluginServer = False, mcp_Servers = [], mcp_PluginServers = [],
     mcp_EmbeddedServer = \<lparr>es_ID = [], es_Enabled = False, es_ToolConfigs = []\<rparr>, mcp_IdleTimeoutMinutes = 0\<rparr>"

definition zero_config :: Config where
  "zero_config = \<lparr>cfg_Services = [], cfg_Bots = [], cfg_DefaultBotUserID = [], cfg_DefaultBotName = [],
     cfg_EnableTokenUsageLogging = False, cfg_EnableTokenUsageLogToPlugin = None, cfg_EnableTokenUsageLogToFile = None,
     cfg_AllowedUpstreamHostnames = [], cfg_AllowUnsafeLinks = False, cfg_AllowedLinkDomains = [],
     cfg_EnableHTMLArtifacts = False, cfg_EnableChannelMentionToolCalling = False, cfg_EnableAmbientAutoReply = False,
     cfg_AllowNativeWebSearchInChannels = False, cfg_WebSearchEnabled = False, cfg_EmbeddingSearchType = [],
     cfg_EnableCallSummary = False, cfg_TranscriptBotUserID = [], cfg_TranscriptGenerator = [], cfg_MCP = zero_mcp,
     cfg_TelemetryOutput = [], cfg_OpenTelemetryEndpoint = [], cfg_OpenTelemetryTLS = False,
     cfg_OpenTelemetryHeaders = [], cfg_AgentVersionsToKeep = 0\<rparr>"

type_synonym gate = "bool \<times> string"

definition firstDenied :: "gate list \<Rightarrow> Level \<Rightarrow> license_denial option" where
  "firstDenied gates level =
     map_option (\<lambda>(_, capability). DeniedCapability (NewLicenseError capability level))
       (find (\<lambda>(newlyOn, capability). newlyOn \<and> level < RequiredLevel capability) gates)"

definition agentGates :: "BotConfig \<Rightarrow> BotConfig \<Rightarrow> gate list" where
  "agentGates prev nxt =
     [(bc_UserAccessLevel nxt = UserAccessLevelAttributeBased \<and> bc_UserAccessLevel prev \<noteq> UserAccessLevelAttributeBased,
         CapAttributeBasedAccess),
      (AccessControlsNewlyRestricted prev nxt, CapAgentAccessControls),
      (bc_UseServiceAccountAuth nxt \<and> \<not> bc_UseServiceAccountAuth prev, CapMCPServiceAccount),
      (BotHasProviderWebSearch nxt \<and> \<not> BotHasProviderWebSearch prev, CapProviderWebSearch)]"

definition ValidateAgentTransition :: "BotConfig \<Rightarrow> BotConfig \<Rightarrow> Level \<Rightarrow> license_denial option" where
  "ValidateAgentTransition prev nxt level = firstDenied (agentGates prev nxt) level"

definition scalar_gates :: "(string \<Rightarrow> (string \<Rightarrow> string) option) \<Rightarrow> Config \<Rightarrow> Config \<Rightarrow> gate list" where
  "scalar_gates defaultFor from nxt =
     [(cfg_EnableTokenUsageLogging nxt \<and> \<not> cfg_EnableTokenUsageLogging from, CapTokenAccounting),
      (cfg_AllowNativeWebSearchInChannels nxt \<and> \<not> cfg_AllowNativeWebSearchInChannels from, CapProviderWebSearch),
      (cfg_WebSearchEnabled nxt \<and> \<not> cfg_WebSearchEnabled from, CapSovereignWebSearch),
      (cfg_EmbeddingSearchType nxt \<noteq> [] \<and> cfg_EmbeddingSearchType from = [], CapSemanticSearch),
      ((cfg_EnableCallSummary nxt \<and> \<not> cfg_EnableCallSummary from)
         \<or> (transcriptAgentConfigured nxt \<and> \<not> transcriptAgentConfigured from), CapMeetings),
      (mcp_EnablePluginServer (cfg_MCP nxt) \<and> \<not> mcp_EnablePluginServer (cfg_MCP from), CapRemoteMCP),
      (toolPoliciesNewlyAuto (es_ToolConfigs (mcp_EmbeddedServer (cfg_MCP from)))
         (es_ToolConfigs (mcp_EmbeddedServer (cfg_MCP nxt))) (defaultFor MCPEmbeddedServerOrigin),
       CapToolApprovalPolicies)]"

definition service_gate :: "(string \<rightharpoonup> ServiceConfig) \<Rightarrow> ServiceConfig \<Rightarrow> gate list" where
  "service_gate prevServices svc =
     (let prevFallback = (case prevServices (sc_ID svc) of Some p \<Rightarrow> sc_FallbackServiceID p | None \<Rightarrow> [])
      in [(sc_FallbackServiceID svc \<noteq> [] \<and> sc_FallbackServiceID svc \<noteq> prevFallback, CapModelFallback)])"

definition bot_gates :: "(string \<rightharpoonup> BotConfig) \<Rightarrow> BotConfig \<Rightarrow> gate list" where
  "bot_gates prevBots b = agentGates (case prevBots (bc_ID b) of Some p \<Rightarrow> p | None \<Rightarrow> zero_bot) b"

definition server_gates ::
  "(string \<Rightarrow> (string \<Rightarrow> string) option) \<Rightarrow> (string \<rightharpoonup> MCPServerConfig) \<Rightarrow> MCPServerConfig \<Rightarrow> gate list" where
  "server_gates defaultFor prevServers srv =
     (let prevSrv = prevServers (ms_ID srv) in
      [(prevSrv = None \<or> (ms_Enabled srv \<and> \<not> (case prevSrv of Some p \<Rightarrow> ms_Enabled p | None \<Rightarrow> False)), CapRemoteMCP),
       (headersNonEmpty (ms_ServiceAccountHeaders srv)
          \<and> \<not> headersNonEmpty (case prevSrv of Some p \<Rightarrow> ms_ServiceAccountHeaders p | None \<Rightarrow> []), CapMCPServiceAccount),
       (toolPoliciesNewlyAuto (case prevSrv of Some p \<Rightarrow> ms_ToolConfigs p | None \<Rightarrow> []) (ms_ToolConfigs srv)
          (defaultFor (ms_BaseURL srv)), CapToolApprovalPolicies)])"

definition plugin_gates ::
  "(string \<Rightarrow> (string \<Rightarrow> string) option) \<Rightarrow> (string \<rightharpoonup> PluginServerConfig) \<Rightarrow> PluginServerConfig \<Rightarrow> gate list" where
  "plugin_gates defaultFor prevPlugins ps =
     (let prevPS = prevPlugins (ps_PluginID ps) in
      [((case prevPS of Some p \<Rightarrow> ps_Enabled ps \<and> \<not> ps_Enabled p | None \<Rightarrow> False), CapRemoteMCP),
       (toolPoliciesNewlyAuto (case prevPS of Some p \<Rightarrow> ps_ToolConfigs p | None \<Rightarrow> []) (ps_ToolConfigs ps)
          (defaultFor (PluginServerOrigin (ps_PluginID ps))), CapToolApprovalPolicies)])"

definition all_gates :: "(string \<Rightarrow> (string \<Rightarrow> string) option) \<Rightarrow> Config \<Rightarrow> Config \<Rightarrow> gate list" where
  "all_gates defaultFor from nxt =
     scalar_gates defaultFor from nxt
     @ concat (map (service_gate (byKey sc_ID (cfg_Services from))) (cfg_Services nxt))
     @ concat (map (bot_gates (byKey bc_ID (cfg_Bots from))) (cfg_Bots nxt))
     @ concat (map (server_gates defaultFor (byKey ms_ID (mcp_Servers (cfg_MCP from)))) (mcp_Servers (cfg_MCP nxt)))
     @ concat (map (plugin_gates defaultFor (byKey ps_PluginID (mcp_PluginServers (cfg_MCP from))))
         (mcp_PluginServers (cfg_MCP nxt)))"

definition ValidateLicenseTransition ::
  "Config option \<Rightarrow> Config \<Rightarrow> Level option \<Rightarrow> (string \<Rightarrow> string \<Rightarrow> string) option \<Rightarrow> license_denial option" where
  "ValidateLicenseTransition prev nxt checker defaultPolicy =
     (let level = checker_Level checker;
          from = (case prev of None \<Rightarrow> zero_config | Some p \<Rightarrow> p);
          over = (\<lambda>limit n m. case limit of None \<Rightarrow> False | Some l \<Rightarrow> n > l \<and> n > m)
      in if over (ServiceLimitFor level) (length (cfg_Services nxt)) (length (cfg_Services from))
         then Some (DeniedCapability (NewLicenseError CapMultipleLLMServices level))
         else if over (AgentLimitFor level) (length (cfg_Bots nxt)) (length (cfg_Bots from))
         then AgentLimitError level
         else firstDenied (all_gates (\<lambda>url. map_option (\<lambda>d. d url) defaultPolicy) from nxt) level)"

section \<open>Gates that open upwards\<close>

text \<open>
  The contract of every license gate: what a level allows, each higher level allows. A client
  may conclude from one level to the others.
\<close>

locale level_gate =
  fixes allowed :: "Level \<Rightarrow> 'a \<Rightarrow> bool"
  assumes mono: "l \<le> l' \<Longrightarrow> allowed l x \<Longrightarrow> allowed l' x"
begin

lemma denied_below: "l \<le> l' \<Longrightarrow> \<not> allowed l' x \<Longrightarrow> \<not> allowed l x"
  using mono by blast

lemma allowed_everywhere: "(\<forall>l. allowed l x) \<longleftrightarrow> allowed LevelUnlicensed x"
  using mono [of LevelUnlicensed] by (auto simp: less_eq_Level_def)

lemma allowed_somewhere: "(\<exists>l. allowed l x) \<longleftrightarrow> allowed LevelEnterpriseAdvanced x"
proof
  assume "\<exists>l. allowed l x"
  then obtain l where "allowed l x" ..
  moreover have "l \<le> LevelEnterpriseAdvanced" by (cases l) (simp_all add: less_eq_Level_def)
  ultimately show "allowed LevelEnterpriseAdvanced x" using mono by blast
qed blast

end

lemma level_top [simp]: "l \<le> LevelEnterpriseAdvanced" "LevelUnlicensed \<le> l"
  by (cases l; simp add: less_eq_Level_def)+

interpretation capability_gate: level_gate "\<lambda>l cap. Allows (Some l) cap"
  by unfold_locales (auto simp: Allows_def checker_Level_def)

lemma firstDenied_None_iff:
  "firstDenied gates level = None \<longleftrightarrow> (\<forall>(on, cap) \<in> set gates. on \<longrightarrow> RequiredLevel cap \<le> level)"
  by (auto simp: firstDenied_def find_None_iff not_less)

interpretation agent_gate: level_gate "\<lambda>l (prev, nxt). ValidateAgentTransition prev nxt l = None"
  by unfold_locales (auto simp: ValidateAgentTransition_def firstDenied_None_iff intro: order_trans)

lemma limits_mono:
  assumes "l \<le> l'"
  shows "AgentLimitFor l' = None \<or> (\<exists>n m. AgentLimitFor l = Some n \<and> AgentLimitFor l' = Some m \<and> n \<le> m)"
    and "ServiceLimitFor l' = None \<or> ServiceLimitFor l' = ServiceLimitFor l"
  using assms by (cases l; cases l'; simp add: AgentLimitFor_def ServiceLimitFor_def less_eq_Level_def)+

lemma AgentLimitError_Some: "AgentLimitFor l = Some n \<Longrightarrow> AgentLimitError l \<noteq> None"
  by (simp add: AgentLimitError_def)

lemma ValidateLicenseTransition_None_iff:
  "ValidateLicenseTransition prev nxt (Some l) dp = None \<longleftrightarrow>
     (let from = (case prev of None \<Rightarrow> zero_config | Some p \<Rightarrow> p) in
      (\<forall>n. ServiceLimitFor l = Some n \<longrightarrow> length (cfg_Services nxt) \<le> max n (length (cfg_Services from)))
      \<and> (\<forall>n. AgentLimitFor l = Some n \<longrightarrow> length (cfg_Bots nxt) \<le> max n (length (cfg_Bots from)))
      \<and> firstDenied (all_gates (\<lambda>url. map_option (\<lambda>d. d url) dp) from nxt) l = None)"
  using AgentLimitError_Some [of l]
  by (cases "ServiceLimitFor l"; cases "AgentLimitFor l")
    (auto simp: ValidateLicenseTransition_def Let_def checker_Level_def max_def)

lemma transition_mono:
  assumes "l \<le> l'" "ValidateLicenseTransition prev nxt (Some l) dp = None"
  shows "ValidateLicenseTransition prev nxt (Some l') dp = None"
proof -
  let ?from = "case prev of None \<Rightarrow> zero_config | Some p \<Rightarrow> p"
  have gates: "firstDenied (all_gates (\<lambda>url. map_option (\<lambda>d. d url) dp) ?from nxt) l' = None"
    using assms by (auto simp: ValidateLicenseTransition_None_iff Let_def firstDenied_None_iff intro: order_trans)
  have agents: "\<forall>n. AgentLimitFor l' = Some n \<longrightarrow> length (cfg_Bots nxt) \<le> max n (length (cfg_Bots ?from))"
    using assms limits_mono(1) [OF assms(1)]
    by (auto simp: ValidateLicenseTransition_None_iff Let_def max_def split: if_splits)
  have services: "\<forall>n. ServiceLimitFor l' = Some n \<longrightarrow> length (cfg_Services nxt) \<le> max n (length (cfg_Services ?from))"
    using assms limits_mono(2) [OF assms(1)]
    by (auto simp: ValidateLicenseTransition_None_iff Let_def)
  show ?thesis using gates agents services by (simp add: ValidateLicenseTransition_None_iff Let_def)
qed

interpretation transition_gate: level_gate
  "\<lambda>l (prev, nxt, dp). ValidateLicenseTransition prev nxt (Some l) dp = None"
  by unfold_locales (auto intro: transition_mono)

lemma RequiredLevel_top: "RequiredLevel cap \<le> LevelEnterpriseAdvanced"
  by simp



text \<open>
  A denied change names a capability the current level lacks, or a numeric limit it
  has; either way the error unwraps to the not-licensed sentinel, and an unlicensed or nil checker
  denies everything a gated capability newly needs.
\<close>

theorem license_denial_justified:
  assumes "ValidateLicenseTransition prev nxt checker defaultPolicy = Some d"
  shows "errors_Is (denial_error d) ErrNotLicensed
     \<and> (case d of
          DeniedCapability e \<Rightarrow> le_CurrentLevel e = checker_Level checker
            \<and> \<not> Allows checker (le_Capability e) \<and> Check checker (le_Capability e) = Some e
        | DeniedAgentLimit e limit \<Rightarrow> AgentLimitFor (checker_Level checker) = Some limit
            \<and> limit < length (cfg_Bots nxt))"
proof -
  let ?l = "checker_Level checker"
  let ?from = "case prev of None \<Rightarrow> zero_config | Some p \<Rightarrow> p"
  have cap: ?thesis if "d = DeniedCapability (NewLicenseError c ?l)" "?l < RequiredLevel c" for c
    using that by (simp add: NewLicenseError_def Allows_def Check_def not_le ErrNotLicensed_def)
  consider (services) "d = DeniedCapability (NewLicenseError CapMultipleLLMServices ?l)" "ServiceLimitFor ?l \<noteq> None"
    | (agents) n where "AgentLimitError ?l = Some d" "AgentLimitFor ?l = Some n" "n < length (cfg_Bots nxt)"
    | (gate) "firstDenied (all_gates (\<lambda>url. map_option (\<lambda>d. d url) defaultPolicy) ?from nxt) ?l = Some d"
  proof (cases "\<exists>n. ServiceLimitFor ?l = Some n \<and> length (cfg_Services nxt) > n \<and> length (cfg_Services nxt) > length (cfg_Services ?from)")
    case True
    with assms show ?thesis by (intro that(1)) (auto simp: ValidateLicenseTransition_def Let_def)
  next
    case S: False
    show ?thesis
    proof (cases "\<exists>n. AgentLimitFor ?l = Some n \<and> length (cfg_Bots nxt) > n \<and> length (cfg_Bots nxt) > length (cfg_Bots ?from)")
      case True
      then obtain n where n: "AgentLimitFor ?l = Some n" "length (cfg_Bots nxt) > n"
        "length (cfg_Bots nxt) > length (cfg_Bots ?from)" by blast
      have "AgentLimitError ?l = Some d"
        using S assms n by (cases "ServiceLimitFor ?l") (simp_all add: ValidateLicenseTransition_def Let_def split: if_splits)
      with n show ?thesis by (intro that(2)) simp_all
    next
      case False
      have "firstDenied (all_gates (\<lambda>url. map_option (\<lambda>d. d url) defaultPolicy) ?from nxt) ?l = Some d"
        using S False assms
        by (cases "ServiceLimitFor ?l"; cases "AgentLimitFor ?l") (simp_all add: ValidateLicenseTransition_def Let_def split: if_splits)
      then show ?thesis by (rule that(3))
    qed
  qed
  then show ?thesis
  proof cases
    case services
    have "RequiredLevel CapMultipleLLMServices = LevelEnterprise" by code_simp
    with services show ?thesis by (intro cap) (auto simp: ServiceLimitFor_def split: if_splits)
  next
    case agents
    then show ?thesis by (auto simp: AgentLimitError_def ErrNotLicensed_def)
  next
    case gate
    then obtain c where "d = DeniedCapability (NewLicenseError c ?l)" "?l < RequiredLevel c"
      by (auto simp: firstDenied_def find_Some_iff)
    then show ?thesis by (rule cap)
  qed
qed

lemma license_denial_justified_witness:
  "errors_Is (denial_error (DeniedCapability (NewLicenseError CapTokenAccounting LevelUnlicensed))) ErrNotLicensed"
proof -
  have "ValidateLicenseTransition None (zero_config\<lparr>cfg_EnableTokenUsageLogging := True\<rparr>) None None
      = Some (DeniedCapability (NewLicenseError CapTokenAccounting LevelUnlicensed))" by code_simp
  from license_denial_justified [OF this] show ?thesis by blast
qed

section \<open>Saving without a change\<close>

lemma byKey_self:
  assumes "distinct (map key items)" "item \<in> set items" "key item \<noteq> []"
  shows "byKey key items (key item) = Some item"
proof -
  let ?ps = "map (\<lambda>item. (key item, item)) (filter (\<lambda>item. key item \<noteq> []) items)"
  have "distinct (map fst (rev ?ps))"
    using assms(1) by (simp add: rev_map [symmetric] comp_def distinct_map_filter)
  then show ?thesis
    using assms(2,3) by (simp add: byKey_def map_of_eq_Some_iff)
qed

lemma prev_reach_self:
  "distinct (map tcf_Name tcs) \<Longrightarrow> tc \<in> set tcs \<Longrightarrow> prev_reach tcs (tcf_Name tc) = Some (ToolPolicyReach (tcf_Policy tc))"
  unfolding prev_reach_def
  by (subst map_of_eq_Some_iff) (simp_all add: rev_map [symmetric] comp_def)

lemma toolPolicies_self: "distinct (map tcf_Name tcs) \<Longrightarrow> \<not> toolPoliciesNewlyAuto tcs tcs d"
  by (auto simp: toolPoliciesNewlyAuto_def list_ex_iff prev_reach_self Let_def)

lemma agentGates_self: "(on, cap) \<in> set (agentGates b b) \<Longrightarrow> \<not> on"
  by (auto simp: agentGates_def AccessControlsNewlyRestricted_def)

definition keyed_config :: "Config \<Rightarrow> bool" where
  "keyed_config c \<longleftrightarrow>
     distinct (map sc_ID (cfg_Services c)) \<and> (\<forall>x \<in> set (cfg_Services c). sc_ID x \<noteq> [])
   \<and> distinct (map bc_ID (cfg_Bots c)) \<and> (\<forall>x \<in> set (cfg_Bots c). bc_ID x \<noteq> [])
   \<and> distinct (map ms_ID (mcp_Servers (cfg_MCP c))) \<and> (\<forall>x \<in> set (mcp_Servers (cfg_MCP c)). ms_ID x \<noteq> [])
   \<and> distinct (map ps_PluginID (mcp_PluginServers (cfg_MCP c))) \<and> (\<forall>x \<in> set (mcp_PluginServers (cfg_MCP c)). ps_PluginID x \<noteq> [])
   \<and> (\<forall>s \<in> set (mcp_Servers (cfg_MCP c)). distinct (map tcf_Name (ms_ToolConfigs s)))
   \<and> (\<forall>p \<in> set (mcp_PluginServers (cfg_MCP c)). distinct (map tcf_Name (ps_ToolConfigs p)))
   \<and> distinct (map tcf_Name (es_ToolConfigs (mcp_EmbeddedServer (cfg_MCP c))))"

lemma gates_self:
  assumes "keyed_config c" "(on, cap) \<in> set (all_gates d c c)"
  shows "\<not> on"
proof -
  from assms(2) consider "(on, cap) \<in> set (scalar_gates d c c)"
    | s where "s \<in> set (cfg_Services c)" "(on, cap) \<in> set (service_gate (byKey sc_ID (cfg_Services c)) s)"
    | b where "b \<in> set (cfg_Bots c)" "(on, cap) \<in> set (bot_gates (byKey bc_ID (cfg_Bots c)) b)"
    | m where "m \<in> set (mcp_Servers (cfg_MCP c))"
        "(on, cap) \<in> set (server_gates d (byKey ms_ID (mcp_Servers (cfg_MCP c))) m)"
    | p where "p \<in> set (mcp_PluginServers (cfg_MCP c))"
        "(on, cap) \<in> set (plugin_gates d (byKey ps_PluginID (mcp_PluginServers (cfg_MCP c))) p)"
    by (auto simp: all_gates_def)
  then show ?thesis
  proof cases
    case 1
    with assms(1) show ?thesis by (auto simp: scalar_gates_def keyed_config_def toolPolicies_self)
  next
    case (2 s)
    then have "byKey sc_ID (cfg_Services c) (sc_ID s) = Some s"
      using assms(1) by (intro byKey_self) (auto simp: keyed_config_def)
    with 2 show ?thesis by (simp add: service_gate_def)
  next
    case (3 b)
    then have "byKey bc_ID (cfg_Bots c) (bc_ID b) = Some b"
      using assms(1) by (intro byKey_self) (auto simp: keyed_config_def)
    with 3 show ?thesis by (auto simp: bot_gates_def dest: agentGates_self)
  next
    case (4 m)
    then have "byKey ms_ID (mcp_Servers (cfg_MCP c)) (ms_ID m) = Some m" "distinct (map tcf_Name (ms_ToolConfigs m))"
      using assms(1) by (auto intro!: byKey_self simp: keyed_config_def)
    with 4 show ?thesis by (auto simp: server_gates_def toolPolicies_self)
  next
    case (5 p)
    then have "byKey ps_PluginID (mcp_PluginServers (cfg_MCP c)) (ps_PluginID p) = Some p"
      "distinct (map tcf_Name (ps_ToolConfigs p))"
      using assms(1) by (auto intro!: byKey_self simp: keyed_config_def)
    with 5 show ?thesis by (auto simp: plugin_gates_def toolPolicies_self)
  qed
qed

text \<open>
  Saving a configuration unchanged is never denied, at any license level, even when it
  uses capabilities the level lacks, as long as its services, agents, servers and tool entries have
  their own keys.
\<close>

theorem unchanged_config_never_denied:
  assumes "keyed_config c"
  shows "ValidateLicenseTransition (Some c) c checker defaultPolicy = None"
proof -
  have "firstDenied (all_gates d c c) l = None" for d l
    using gates_self [OF assms] by (auto simp: firstDenied_None_iff)
  then show ?thesis
    by (simp add: ValidateLicenseTransition_def Let_def split: option.split)
qed

lemma unchanged_config_never_denied_witness:
  "ValidateLicenseTransition (Some (zero_config\<lparr>cfg_Bots := [ex_config\<lparr>bc_UserAccessLevel := UserAccessLevelAttributeBased\<rparr>]\<rparr>))
     (zero_config\<lparr>cfg_Bots := [ex_config\<lparr>bc_UserAccessLevel := UserAccessLevelAttributeBased\<rparr>]\<rparr>) None None = None"
  by (rule unchanged_config_never_denied) (simp add: keyed_config_def zero_config_def zero_mcp_def ex_config_def)

end
