(* ===== verification/Mcp_Policy.thy ===== *)
theory Mcp_Policy
  imports Licensing
begin

text \<open>
  The policy a tool runs under (\<open>src/mcp/tool_policy.go\<close>) and the vetted defaults it starts
  from (\<open>src/mcp/vetted_tools.go\<close>).

  \<open>hostOf\<close> is the host name \<open>url.Parse\<close> reads off a base URL, \<open>None\<close> when it does not parse or
  has none. The seed tables are the source's. A missing origin or a disabled server yields the
  pair (ask, not enabled).
\<close>

section \<open>Vetted tools\<close>

definition IsRemoteServerOrigin :: "string \<Rightarrow> bool" where
  "IsRemoteServerOrigin origin \<longleftrightarrow>
     NormalizeMCPServerOrigin origin \<noteq> [] \<and> NormalizeMCPServerOrigin origin \<noteq> MCPEmbeddedServerOrigin"

definition autoRunInDMToolConfigs :: "string list \<Rightarrow> MCPToolConfig list" where
  "autoRunInDMToolConfigs toolNames =
     map (\<lambda>n. \<lparr>tcf_Name = n, tcf_Policy = MCPToolPolicyAutoRunInDM, tcf_Enabled = True,
               tcf_RetrievalDescriptionOverride = []\<rparr>) toolNames"

definition atlassianVettedToolConfigs :: "MCPToolConfig list" where
  "atlassianVettedToolConfigs = autoRunInDMToolConfigs
     [''search'', ''fetch'', ''atlassianUserInfo'', ''getAccessibleAtlassianResources'', ''getConfluenceSpaces'',
      ''getConfluencePage'', ''getPagesInConfluenceSpace'', ''getConfluencePageAncestors'',
      ''getConfluencePageDescendants'', ''getConfluencePageFooterComments'',
      ''getConfluencePageInlineComments'', ''searchConfluenceUsingCql'', ''getJiraIssue'',
      ''getJiraIssueRemoteIssueLinks'', ''getTransitionsForJiraIssue'', ''getVisibleJiraProjects'',
      ''getJiraProjectIssueTypesMetadata'', ''getJiraIssueTypeMetaWithFields'', ''lookupJiraAccountId'',
      ''searchJiraIssuesUsingJql'']"

definition figmaVettedToolConfigs :: "MCPToolConfig list" where
  "figmaVettedToolConfigs = autoRunInDMToolConfigs
     [''get_design_context'', ''get_metadata'', ''get_screenshot'', ''get_variable_defs'', ''get_figjam'',
      ''get_code_connect_map'', ''get_code_connect_suggestions'', ''whoami'']"

definition mattermostVettedToolConfigs :: "MCPToolConfig list" where
  "mattermostVettedToolConfigs = autoRunInDMToolConfigs
     [''read_post'', ''get_post_info'', ''list_pinned_posts'', ''list_saved_posts'', ''list_scheduled_posts'',
      ''get_post_reactions'', ''list_custom_emoji'', ''search_custom_emoji'',
      ''get_threads'', ''get_mentions'', ''get_unread_counts'', ''get_posts_around_unread'',
      ''get_channel_unread'', ''list_sidebar_categories'',
      ''read_channel'', ''get_channel_info'', ''get_channel_stats'', ''get_channel_member_counts'',
      ''search_channels'', ''list_team_channels'', ''list_archived_channels'',
      ''get_channel_members'', ''get_channel_member'', ''get_channel_members_by_ids'',
      ''get_channel_members_by_status'', ''get_users_not_in_channel'', ''search_users_in_channel'',
      ''get_user_channel_memberships'', ''list_channel_bookmarks'',
      ''get_me'', ''get_user'', ''get_user_by_username'', ''get_user_by_email'', ''get_users_by_ids'',
      ''get_users_by_usernames'', ''get_user_stats'', ''get_user_channels'', ''list_cpa_fields'',
      ''get_user_cpa_values'',
      ''get_user_status'', ''get_users_statuses'', ''get_user_custom_status'',
      ''get_team_info'', ''get_team_members'', ''get_team_member'', ''get_team_stats'', ''search_teams'',
      ''get_users_in_team'', ''get_users_not_in_team'', ''get_new_users_in_team'', ''get_dm_common_teams'',
      ''get_user_teams'', ''search_users_in_team'',
      ''search_posts'', ''search_users'', ''search_files'', ''get_file_info'', ''get_post_files'', ''read_file'',
      ''get_bot'', ''list_bots'',
      ''get_group_info'', ''list_groups'', ''get_channel_groups'', ''get_team_groups'', ''get_user_groups'',
      ''get_users_in_group_channels'',
      ''get_role'', ''get_channel_moderations'']"

definition SeedVettedToolConfigs :: "(string \<Rightarrow> string option) \<Rightarrow> string \<Rightarrow> MCPToolConfig list" where
  "SeedVettedToolConfigs hostOf baseURL =
     (if baseURL = MCPEmbeddedServerOrigin then mattermostVettedToolConfigs
      else case (if baseURL = [] then None else hostOf baseURL) of
             None \<Rightarrow> []
           | Some host \<Rightarrow>
               if host = ''mcp.atlassian.com'' \<or> HasSuffix host ''.mcp.atlassian.com''
               then atlassianVettedToolConfigs
               else if host = ''mcp.figma.com'' \<or> HasSuffix host ''.mcp.figma.com''
               then figmaVettedToolConfigs
               else [])"

definition mergeSeedConfigs :: "MCPToolConfig list \<Rightarrow> MCPToolConfig list \<Rightarrow> MCPToolConfig list" where
  "mergeSeedConfigs stored seed =
     (if stored = [] then seed
      else stored @ filter (\<lambda>tc. \<not> List.member (map tcf_Name stored) (tcf_Name tc)) seed)"

section \<open>Policy lookup\<close>

definition ToolPolicyLookupName :: "MCPToolConfig list \<Rightarrow> string \<Rightarrow> string" where
  "ToolPolicyLookupName toolConfigs toolName =
     (if toolName = [] \<or> IsBareMCPToolName toolName then toolName
      else if list_ex (\<lambda>tc. tcf_Name tc = toolName) toolConfigs then toolName
      else BareMCPToolName toolName)"

definition seed_policy :: "MCPToolConfig list \<Rightarrow> string \<Rightarrow> string option" where
  "seed_policy seed toolName = map_option tcf_Policy (find (\<lambda>tc. tcf_Name tc = toolName) seed)"

definition DefaultToolPolicy :: "(string \<Rightarrow> string option) \<Rightarrow> string \<Rightarrow> string \<Rightarrow> string" where
  "DefaultToolPolicy hostOf serverBaseURL toolName =
     (case seed_policy (SeedVettedToolConfigs hostOf serverBaseURL) toolName of
        Some p \<Rightarrow> p | None \<Rightarrow> MCPToolPolicyAsk)"

definition unlicensedDefaultToolPolicy :: "(string \<Rightarrow> string option) \<Rightarrow> string \<Rightarrow> string \<Rightarrow> string" where
  "unlicensedDefaultToolPolicy hostOf serverBaseURL toolName =
     (if serverBaseURL = MCPEmbeddedServerOrigin then
        let seed = SeedVettedToolConfigs hostOf MCPEmbeddedServerOrigin;
            lookupName = ToolPolicyLookupName seed toolName
        in (case find (\<lambda>tc. tcf_Name tc = lookupName \<or> tcf_Name tc = toolName) seed of
              Some tc \<Rightarrow> tcf_Policy tc | None \<Rightarrow> MCPToolPolicyAsk)
      else MCPToolPolicyAsk)"

definition EffectiveDefaultToolPolicy :: "(string \<Rightarrow> string option) \<Rightarrow> string \<Rightarrow> string \<Rightarrow> bool \<Rightarrow> string" where
  "EffectiveDefaultToolPolicy hostOf serverBaseURL toolName policiesLicensed =
     (if policiesLicensed then DefaultToolPolicy hostOf serverBaseURL toolName
      else unlicensedDefaultToolPolicy hostOf serverBaseURL toolName)"

definition SuggestedToolPolicy :: "(string \<Rightarrow> string option) \<Rightarrow> string \<Rightarrow> string \<Rightarrow> bool \<Rightarrow> bool \<Rightarrow> string" where
  "SuggestedToolPolicy hostOf serverBaseURL toolName readOnlyHint policiesLicensed =
     (if \<not> policiesLicensed \<or> \<not> readOnlyHint \<or> serverBaseURL = MCPEmbeddedServerOrigin
      then EffectiveDefaultToolPolicy hostOf serverBaseURL toolName policiesLicensed
      else case seed_policy (SeedVettedToolConfigs hostOf serverBaseURL) toolName of
             Some p \<Rightarrow> p | None \<Rightarrow> MCPToolPolicyAutoRunInDM)"

definition EmbeddedServerName :: string where "EmbeddedServerName = ''Mattermost''"

text \<open>The synthetic server config the embedded and plugin branches query.\<close>

definition enabled_server :: "string \<Rightarrow> string \<Rightarrow> MCPToolConfig list \<Rightarrow> MCPServerConfig" where
  "enabled_server name baseURL toolConfigs = \<lparr>ms_ID = [], ms_Name = name, ms_Enabled = True, ms_BaseURL = baseURL,
     ms_Headers = [], ms_Description = [], ms_DMOnly = False, ms_ServiceAccountHeaders = [], ms_ClientID = [],
     ms_ClientSecret = [], ms_ToolConfigs = toolConfigs\<rparr>"

definition query_server :: "(string \<Rightarrow> string option) \<Rightarrow> string \<Rightarrow> MCPServerConfig \<Rightarrow> string \<Rightarrow> string \<times> bool" where
  "query_server hostOf serverBaseURL srv toolName =
     (let lookupName = ToolPolicyLookupName (ms_ToolConfigs srv) toolName
      in GetToolPolicyOrDefault (Some srv) lookupName (DefaultToolPolicy hostOf serverBaseURL lookupName))"

definition LookupToolPolicy ::
  "(string \<Rightarrow> string option) \<Rightarrow> MCPConfig \<Rightarrow> string \<Rightarrow> string \<Rightarrow> string \<times> bool" where
  "LookupToolPolicy hostOf cfg serverBaseURL toolName =
     (if serverBaseURL = MCPEmbeddedServerOrigin then
        query_server hostOf MCPEmbeddedServerOrigin
          (enabled_server EmbeddedServerName MCPEmbeddedServerOrigin
             (mergeSeedConfigs (es_ToolConfigs (mcp_EmbeddedServer cfg))
                (SeedVettedToolConfigs hostOf MCPEmbeddedServerOrigin))) toolName
      else case find (\<lambda>s. ms_BaseURL s = serverBaseURL) (mcp_Servers cfg) of
             Some srv \<Rightarrow> query_server hostOf serverBaseURL srv toolName
           | None \<Rightarrow>
               if \<not> HasPrefix serverBaseURL (PluginServerOrigin []) then (MCPToolPolicyAsk, False)
               else let pluginID = drop (length (PluginServerOrigin [])) serverBaseURL in
                 (case find (\<lambda>p. ps_PluginID p = pluginID) (mcp_PluginServers cfg) of
                    None \<Rightarrow> (MCPToolPolicyAsk, False)
                  | Some ps \<Rightarrow>
                      if \<not> ps_Enabled ps then (MCPToolPolicyAsk, False)
                      else query_server hostOf serverBaseURL
                             (enabled_server (ps_Name ps) serverBaseURL (ps_ToolConfigs ps)) toolName))"

definition LookupEffectiveToolPolicy ::
  "(string \<Rightarrow> string option) \<Rightarrow> MCPConfig \<Rightarrow> string \<Rightarrow> string \<Rightarrow> bool \<Rightarrow> string \<times> bool" where
  "LookupEffectiveToolPolicy hostOf cfg serverBaseURL toolName policiesLicensed =
     (let (policy, enabled) = LookupToolPolicy hostOf cfg serverBaseURL toolName in
      if policiesLicensed then (policy, enabled)
      else let defaultPolicy = unlicensedDefaultToolPolicy hostOf serverBaseURL toolName in
        if ToolPolicyReach policy < ToolPolicyReach defaultPolicy then (policy, enabled)
        else (defaultPolicy, enabled))"

section \<open>Properties\<close>

lemma reach_simps [simp]:
  "ToolPolicyReach MCPToolPolicyAsk = 0" "ToolPolicyReach MCPToolPolicyAutoRunInDM = 1"
  "ToolPolicyReach MCPToolPolicyAutoRunEverywhere = 2"
  by (simp_all add: ToolPolicyReach_def policy_defs)

lemma seed_all_dm: "\<forall>tc \<in> set (SeedVettedToolConfigs hostOf url). tcf_Policy tc = MCPToolPolicyAutoRunInDM"
  by (auto simp: SeedVettedToolConfigs_def mattermostVettedToolConfigs_def atlassianVettedToolConfigs_def
      figmaVettedToolConfigs_def autoRunInDMToolConfigs_def split: option.splits if_splits)

lemma unlicensed_default_range:
  "unlicensedDefaultToolPolicy hostOf url n \<in> {MCPToolPolicyAsk, MCPToolPolicyAutoRunInDM}"
  using seed_all_dm [of hostOf MCPEmbeddedServerOrigin]
  by (auto simp: unlicensedDefaultToolPolicy_def Let_def find_Some_iff split: option.splits)

text \<open>
  Without a license for tool policies, a tool auto-runs no more widely than the
  product default, which never reaches channels and is ask outside the embedded server, and no more
  widely than what is stored; being enabled does not depend on the license.
\<close>

theorem unlicensed_policy_bounded:
  "ToolPolicyReach (fst (LookupEffectiveToolPolicy hostOf cfg url n False))
     = min (ToolPolicyReach (fst (LookupToolPolicy hostOf cfg url n)))
           (ToolPolicyReach (unlicensedDefaultToolPolicy hostOf url n))
   \<and> \<not> IsToolPolicyAutoRunEverywhere (fst (LookupEffectiveToolPolicy hostOf cfg url n False))
   \<and> (url = MCPEmbeddedServerOrigin
      \<or> ToolPolicyReach (fst (LookupEffectiveToolPolicy hostOf cfg url n False)) = 0)
   \<and> snd (LookupEffectiveToolPolicy hostOf cfg url n lic) = snd (LookupToolPolicy hostOf cfg url n)"
proof -
  obtain p e where lk: "LookupToolPolicy hostOf cfg url n = (p, e)" by force
  let ?d = "unlicensedDefaultToolPolicy hostOf url n"
  let ?x = "fst (LookupEffectiveToolPolicy hostOf cfg url n False)"
  have x: "?x = (if ToolPolicyReach p < ToolPolicyReach ?d then p else ?d)"
    by (simp add: LookupEffectiveToolPolicy_def lk Let_def)
  have dr: "ToolPolicyReach ?d \<le> 1"
    using unlicensed_default_range [of hostOf url n] by auto
  have d0: "url \<noteq> MCPEmbeddedServerOrigin \<Longrightarrow> ToolPolicyReach ?d = 0"
    by (simp add: unlicensedDefaultToolPolicy_def)
  have r: "ToolPolicyReach ?x = min (ToolPolicyReach p) (ToolPolicyReach ?d)"
    by (simp add: x min_def)
  have "ToolPolicyReach ?x \<noteq> 2" using r dr by simp
  then have ne: "\<not> IsToolPolicyAutoRunEverywhere ?x"
    by (auto simp: IsToolPolicyAutoRunEverywhere_def)
  have "snd (LookupEffectiveToolPolicy hostOf cfg url n lic) = e"
    by (simp add: LookupEffectiveToolPolicy_def lk Let_def)
  moreover have "url = MCPEmbeddedServerOrigin \<or> ToolPolicyReach ?x = 0"
    using r d0 by (cases "url = MCPEmbeddedServerOrigin") simp_all
  ultimately show ?thesis using ne r by (simp add: lk)
qed

text \<open>The stored policy of a tool, where the lookup finds one, and the vetted default elsewhere.\<close>

lemma query_server_default:
  assumes "ms_Enabled srv" "n \<noteq> []"
    "ToolPolicyLookupName (ms_ToolConfigs srv) n \<noteq> []"
    "\<forall>tc \<in> set (ms_ToolConfigs srv). tcf_Name tc \<noteq> ToolPolicyLookupName (ms_ToolConfigs srv) n"
  shows "query_server hostOf url srv n
     = (DefaultToolPolicy hostOf url (ToolPolicyLookupName (ms_ToolConfigs srv) n), True)"
proof -
  let ?l = "ToolPolicyLookupName (ms_ToolConfigs srv) n"
  have none: "filter (\<lambda>tc. tcf_Name tc = ?l) (ms_ToolConfigs srv) = []"
    using assms(4) by (simp add: filter_empty_conv)
  have "DefaultToolPolicy hostOf url ?l \<in> {MCPToolPolicyAsk, MCPToolPolicyAutoRunInDM}"
    using seed_all_dm [of hostOf url] by (auto simp: DefaultToolPolicy_def seed_policy_def find_Some_iff split: option.splits)
  then show ?thesis
    using assms(1,3) none
    by (auto simp: query_server_def GetToolPolicyOrDefault_def policy_loop_spec Let_def IsToolPolicyAutoRunInDM_def)
qed

text \<open>
  A tool of an origin that no enabled configured server has, and that is not the
  embedded server, is never enabled and never auto-runs, whatever its name and the license.
\<close>

theorem unknown_origin_asks:
  assumes "url \<noteq> MCPEmbeddedServerOrigin"
    "find (\<lambda>s. ms_BaseURL s = url) (mcp_Servers cfg) = None \<or> (\<exists>s. find (\<lambda>s. ms_BaseURL s = url) (mcp_Servers cfg) = Some s \<and> \<not> ms_Enabled s)"
    "\<And>p. p \<in> set (mcp_PluginServers cfg) \<Longrightarrow> ps_Enabled p \<Longrightarrow> url \<noteq> PluginServerOrigin (ps_PluginID p)"
  shows "LookupEffectiveToolPolicy hostOf cfg url n lic = (MCPToolPolicyAsk, False)"
proof -
  have origin: "url = PluginServerOrigin (drop (length (PluginServerOrigin [])) url)"
    if "HasPrefix url (PluginServerOrigin [])"
    using that by (auto simp: PluginServerOrigin_def prefix_def)
  have "LookupToolPolicy hostOf cfg url n = (MCPToolPolicyAsk, False)"
  proof (cases "find (\<lambda>s. ms_BaseURL s = url) (mcp_Servers cfg)")
    case (Some srv)
    with assms(2) have "\<not> ms_Enabled srv" by simp
    then show ?thesis
      by (simp add: LookupToolPolicy_def Some assms(1) query_server_def GetToolPolicyOrDefault_def Let_def)
  next
    case None
    let ?ps = "find (\<lambda>p. ps_PluginID p = drop (length (PluginServerOrigin [])) url) (mcp_PluginServers cfg)"
    show ?thesis
    proof (cases "HasPrefix url (PluginServerOrigin []) \<and> ?ps \<noteq> None")
      case True
      then obtain q where q: "?ps = Some q" by auto
      then have "q \<in> set (mcp_PluginServers cfg)" "ps_PluginID q = drop (length (PluginServerOrigin [])) url"
        by (auto simp: find_Some_iff)
      with assms(3) origin True have "\<not> ps_Enabled q" by metis
      then show ?thesis by (simp add: LookupToolPolicy_def None assms(1) q Let_def)
    next
      case False
      then show ?thesis by (auto simp: LookupToolPolicy_def None assms(1) Let_def)
    qed
  qed
  with assms(1) show ?thesis
    by (simp add: LookupEffectiveToolPolicy_def unlicensedDefaultToolPolicy_def)
qed

lemma unknown_origin_asks_witness:
  "LookupEffectiveToolPolicy (\<lambda>_. None) (ex_mcp_config [ex_server ''s1'' ''https://a''] []) ''https://b'' ''x'' True
     = (MCPToolPolicyAsk, False)"
  by (rule unknown_origin_asks) (simp_all add: ex_mcp_config_def ex_server_def MCPEmbeddedServerOrigin_def)

text \<open>
  The read-only annotation a server reports only ever changes the suggestion, never the
  policy in effect, and it never raises a suggestion beyond direct messages.
\<close>

theorem annotation_is_only_a_suggestion:
  "SuggestedToolPolicy hostOf url n False lic = EffectiveDefaultToolPolicy hostOf url n lic
   \<and> SuggestedToolPolicy hostOf url n True False = EffectiveDefaultToolPolicy hostOf url n False
   \<and> \<not> IsToolPolicyAutoRunEverywhere (SuggestedToolPolicy hostOf url n hint lic)
   \<and> ToolPolicyReach (EffectiveDefaultToolPolicy hostOf url n lic) \<le> ToolPolicyReach (SuggestedToolPolicy hostOf url n True lic)"
proof -
  have seed: "seed_policy (SeedVettedToolConfigs hostOf url) n = None
      \<or> seed_policy (SeedVettedToolConfigs hostOf url) n = Some MCPToolPolicyAutoRunInDM"
    using seed_all_dm [of hostOf url] by (cases "find (\<lambda>tc. tcf_Name tc = n) (SeedVettedToolConfigs hostOf url)")
      (auto simp: seed_policy_def find_Some_iff)
  have un: "unlicensedDefaultToolPolicy hostOf url n = MCPToolPolicyAsk
      \<or> unlicensedDefaultToolPolicy hostOf url n = MCPToolPolicyAutoRunInDM"
    using unlicensed_default_range [of hostOf url n] by simp
  have ne: "MCPToolPolicyAsk \<noteq> MCPToolPolicyAutoRunEverywhere" "MCPToolPolicyAutoRunInDM \<noteq> MCPToolPolicyAutoRunEverywhere"
    by (simp_all add: policy_defs)
  from seed un ne show ?thesis
    by (auto simp: SuggestedToolPolicy_def EffectiveDefaultToolPolicy_def DefaultToolPolicy_def
        IsToolPolicyAutoRunEverywhere_def)
qed

end
