(* ===== verification/Access.thy ===== *)
theory Access
  imports Licensing
begin

text \<open>
  Who may use an agent, a service or an MCP server: the policy enforcement point
  (\<open>src/accesscontrol/checker.go\<close>), the per-request usage gates (\<open>src/bots/permissions.go\<close>) and the
  fallback hops a request may reach (\<open>src/bots/fallback_access.go\<close>).

  The Mattermost server is a parameter: \<open>ac_isValidId\<close> is \<open>model.IsValidId\<close>, \<open>ac_Evaluate\<close> the
  plugin API's policy decision (an error, no decision, or a decision), \<open>ac_noPolicy\<close> the decision
  \<open>model.NewNoPolicyAccessDecision\<close> builds, \<open>ac_VisualAST\<close> the availability probe (\<open>None\<close> without a
  plugin API), \<open>ac_GetMember\<close> the team membership lookup. Spans and logs carry no behaviour and are
  left out. Times are integers in nanoseconds; a check that reads the clock twice is given both
  readings.
\<close>

section \<open>Decisions\<close>

record AccessDecision =
  ad_Decision :: bool
  ad_NoPolicy :: bool

datatype membership = MemberNotFound | MemberError go_error | Member int | MemberNil

record access_env =
  ac_isValidId :: "string \<Rightarrow> bool"
  ac_separator :: string
  ac_Evaluate :: "string \<Rightarrow> string \<Rightarrow> string \<Rightarrow> string \<Rightarrow> AccessDecision option result"
  ac_noPolicy :: AccessDecision
  ac_VisualAST :: "(string \<Rightarrow> string \<Rightarrow> string \<Rightarrow> unit option result) option"
  ac_mcpIDsByOrigin :: "string gomap"
  ac_GetMember :: "(string \<Rightarrow> string \<Rightarrow> membership) option"
  ac_service :: service_env
  ac_Level :: "Level option"
  ac_quote :: "string \<Rightarrow> string"

definition ErrAccessDenied :: go_error where
  "ErrAccessDenied = Sentinel ''accesscontrol.ErrAccessDenied'' ''access denied by policy''"

definition ErrABACUnavailable :: go_error where
  "ErrABACUnavailable = Sentinel ''accesscontrol.ErrABACUnavailable''
     ''attribute-based access requires Attribute-Based Access Control to be licensed and enabled on this server''"

definition errNoDecision :: go_error where
  "errNoDecision = Sentinel ''accesscontrol.errNoDecision'' ''access control evaluation returned no decision''"

definition errInvalidSubject :: go_error where
  "errInvalidSubject = Sentinel ''accesscontrol.errInvalidSubject''
     ''access control evaluation requires a valid user ID''"

definition PluginID :: string where "PluginID = ''mattermost-ai''"
definition ActionUse :: string where "ActionUse = ''use''"

definition ResourceTypeAgent :: "access_env \<Rightarrow> string" where
  "ResourceTypeAgent env = PluginID @ ac_separator env @ ''agent''"
definition ResourceTypeService :: "access_env \<Rightarrow> string" where
  "ResourceTypeService env = PluginID @ ac_separator env @ ''service''"
definition ResourceTypeMCP :: "access_env \<Rightarrow> string" where
  "ResourceTypeMCP env = PluginID @ ac_separator env @ ''mcp''"

definition evaluate :: "access_env \<Rightarrow> string \<Rightarrow> string \<Rightarrow> string \<Rightarrow> AccessDecision result" where
  "evaluate env userID resourceType resourceID =
     (if \<not> ac_isValidId env userID then Inl errInvalidSubject
      else if \<not> ac_isValidId env resourceID then Inr (ac_noPolicy env)
      else case ac_Evaluate env userID resourceType resourceID ActionUse of
             Inl err \<Rightarrow> Inl err
           | Inr None \<Rightarrow> Inl errNoDecision
           | Inr (Some d) \<Rightarrow> Inr d)"

text \<open>\<open>legacyCheck\<close> is a callback the caller may leave nil; here, what it answers.\<close>

definition CanUseAgent ::
  "access_env \<Rightarrow> string \<Rightarrow> BotConfig \<Rightarrow> go_error option option \<Rightarrow> go_error option" where
  "CanUseAgent env userID cfg legacyCheck =
     (let deny = Some (wrapf (''agent '' @ bc_ID cfg) ErrAccessDenied);
          runLegacy = (case legacyCheck of Some r \<Rightarrow> r | None \<Rightarrow> None);
          attributeBased = (bc_UserAccessLevel cfg = UserAccessLevelAttributeBased)
      in case evaluate env userID (ResourceTypeAgent env) (bc_ID cfg) of
           Inl _ \<Rightarrow> deny
         | Inr decision \<Rightarrow>
             if \<not> ad_Decision decision then deny
             else if attributeBased then (if ad_NoPolicy decision then deny else None)
             else runLegacy)"

definition canUseResource :: "access_env \<Rightarrow> string \<Rightarrow> string \<Rightarrow> string \<Rightarrow> go_error option" where
  "canUseResource env userID resourceType resourceID =
     (let deny = Some (wrapf (resourceType @ '' '' @ resourceID) ErrAccessDenied)
      in case evaluate env userID resourceType resourceID of
           Inl _ \<Rightarrow> deny
         | Inr decision \<Rightarrow> if \<not> ad_Decision decision then deny else None)"

definition CanUseService :: "access_env \<Rightarrow> string \<Rightarrow> string \<Rightarrow> go_error option" where
  "CanUseService env userID serviceID = canUseResource env userID (ResourceTypeService env) serviceID"

definition CanUseMCPServer :: "access_env \<Rightarrow> string \<Rightarrow> string \<Rightarrow> go_error option" where
  "CanUseMCPServer env userID serverID = canUseResource env userID (ResourceTypeMCP env) serverID"

definition PassthroughClient :: "access_env \<Rightarrow> access_env" where
  "PassthroughClient env = env\<lparr>ac_Evaluate := \<lambda>_ _ _ _. Inr (Some (ac_noPolicy env))\<rparr>"

section \<open>Availability\<close>

definition availabilityCacheTTL :: int where "availabilityCacheTTL = 30 * 10 ^ 9"
definition availabilityProbeExpression :: string where "availabilityProbeExpression = ''true''"

record checker_state =
  ck_availabilityValue :: bool
  ck_availabilityChecked :: "int option"

definition IsAvailable :: "access_env \<Rightarrow> int \<Rightarrow> int \<Rightarrow> string \<Rightarrow> checker_state \<Rightarrow> bool \<times> checker_state" where
  "IsAvailable env now later actingUserID st =
     (let probe = (case ac_VisualAST env of
                     None \<Rightarrow> False
                   | Some ast \<Rightarrow>
                       (case ast actingUserID (ResourceTypeAgent env) availabilityProbeExpression of
                          Inl _ \<Rightarrow> False | Inr r \<Rightarrow> r \<noteq> None));
          fresh = (probe, st\<lparr>ck_availabilityValue := probe, ck_availabilityChecked := Some later\<rparr>)
      in case ck_availabilityChecked st of
           None \<Rightarrow> fresh
         | Some t \<Rightarrow> if now - t < availabilityCacheTTL then (ck_availabilityValue st, st) else fresh)"

section \<open>Saving an agent\<close>

fun new_origins_loop :: "string list \<Rightarrow> string list \<Rightarrow> EnabledMCPTool list \<Rightarrow> string list" where
  "new_origins_loop prevOrigins seen [] = []"
| "new_origins_loop prevOrigins seen (t # ts) =
     (let origin = NormalizeMCPServerOrigin (emt_ServerOrigin t)
      in if origin \<in> set prevOrigins then new_origins_loop prevOrigins seen ts
         else if origin \<in> set seen then new_origins_loop prevOrigins seen ts
         else origin # new_origins_loop prevOrigins (origin # seen) ts)"

definition newlyReferencedMCPOrigins :: "BotConfig \<Rightarrow> BotConfig option \<Rightarrow> string list" where
  "newlyReferencedMCPOrigins cfg prev =
     new_origins_loop
       (case prev of None \<Rightarrow> [] | Some p \<Rightarrow> map (NormalizeMCPServerOrigin \<circ> emt_ServerOrigin) (bc_EnabledMCPTools p))
       [] (bc_EnabledMCPTools cfg)"

definition ids_by_origin :: "string gomap \<Rightarrow> string gomap" where
  "ids_by_origin raw = fold (\<lambda>(orig, i) m. AList.update (NormalizeMCPServerOrigin orig) i m) raw []"

fun check_origins :: "access_env \<Rightarrow> string \<Rightarrow> (string \<rightharpoonup> string) \<Rightarrow> string list \<Rightarrow> go_error option" where
  "check_origins env user idsByOrigin [] = None"
| "check_origins env user idsByOrigin (origin # os) =
     (case idsByOrigin origin of
        None \<Rightarrow> check_origins env user idsByOrigin os
      | Some serverID \<Rightarrow>
          (case CanUseMCPServer env user serverID of
             None \<Rightarrow> check_origins env user idsByOrigin os
           | Some err \<Rightarrow>
               if errors_Is err ErrAccessDenied
               then Some (wrapf (''you do not have access to the MCP server '' @ ac_quote env origin) err)
               else Some err))"

definition check_service_write :: "access_env \<Rightarrow> string \<Rightarrow> BotConfig \<Rightarrow> BotConfig option \<Rightarrow> go_error option" where
  "check_service_write env user cfg prev =
     (if (case prev of None \<Rightarrow> True | Some p \<Rightarrow> bc_ServiceID cfg \<noteq> bc_ServiceID p) then
        (case CanUseService env user (bc_ServiceID cfg) of
           None \<Rightarrow> None
         | Some err \<Rightarrow>
             if errors_Is err ErrAccessDenied
             then Some (wrapf ''you do not have access to the selected service'' err)
             else Some err)
      else None)"

definition ValidateAgentWrite ::
  "access_env \<Rightarrow> int \<Rightarrow> int \<Rightarrow> string \<Rightarrow> BotConfig \<Rightarrow> BotConfig option \<Rightarrow> checker_state
     \<Rightarrow> go_error option \<times> checker_state" where
  "ValidateAgentWrite env now later user cfg prev st =
     (let (available, st1) = (if bc_UserAccessLevel cfg = UserAccessLevelAttributeBased
                              then IsAvailable env now later user st else (True, st))
      in if \<not> available then (Some ErrABACUnavailable, st1)
         else case check_service_write env user cfg prev of
           Some err \<Rightarrow> (Some err, st1)
         | None \<Rightarrow>
             if bc_AutoEnableNewMCPTools cfg then (None, st1)
             else let newOrigins = newlyReferencedMCPOrigins cfg prev in
               if newOrigins = [] then (None, st1)
               else (check_origins env user (map_of (ids_by_origin (ac_mcpIDsByOrigin env))) newOrigins, st1))"

section \<open>Usage restrictions\<close>

definition ErrUsageRestriction :: go_error where
  "ErrUsageRestriction = Sentinel ''bots.ErrUsageRestriction'' ''usage restriction''"

definition CheckUsageRestrictionsForChannel :: "BotConfig \<Rightarrow> Channel \<Rightarrow> go_error option" where
  "CheckUsageRestrictionsForChannel cfg channel =
     (let l = bc_ChannelAccessLevel cfg; inList = List.member (bc_ChannelIDs cfg) (ch_Id channel) in
      if l = ChannelAccessLevelAll then None
      else if l = ChannelAccessLevelAllow then
        (if \<not> inList then Some (wrapf ''channel not allowed'' ErrUsageRestriction) else None)
      else if l = ChannelAccessLevelBlock then
        (if inList then Some (wrapf ''channel blocked'' ErrUsageRestriction) else None)
      else if l = ChannelAccessLevelNone then Some (wrapf ''channel usage block for bot'' ErrUsageRestriction)
      else Some (ErrorNew ''unknown channel assistance level''))"

definition TeamMemberActive :: "access_env \<Rightarrow> string \<Rightarrow> string \<Rightarrow> bool result" where
  "TeamMemberActive env teamID userID =
     (case ac_GetMember env of
        None \<Rightarrow> Inl (ErrorNew ''team membership check requires plugin client'')
      | Some getMember \<Rightarrow>
          (case getMember teamID userID of
             MemberNotFound \<Rightarrow> Inr False
           | MemberError err \<Rightarrow> Inl err
           | Member deleteAt \<Rightarrow> Inr (deleteAt = 0)
           | MemberNil \<Rightarrow> Inr False))"

text \<open>The loop over the teams: the first error or membership ends it.\<close>

fun any_team :: "access_env \<Rightarrow> string \<Rightarrow> string list \<Rightarrow> bool result" where
  "any_team env userID [] = Inr False"
| "any_team env userID (teamID # ts) =
     (case TeamMemberActive env teamID userID of
        Inl err \<Rightarrow> Inl err
      | Inr isMember \<Rightarrow> if isMember then Inr True else any_team env userID ts)"

definition UsageRestrictionsForUserConfig :: "access_env \<Rightarrow> BotConfig \<Rightarrow> string \<Rightarrow> go_error option" where
  "UsageRestrictionsForUserConfig env cfg userID =
     (let l = bc_UserAccessLevel cfg; inList = List.member (bc_UserIDs cfg) userID in
      if l = UserAccessLevelAll then None
      else if l = UserAccessLevelAllow then
        (if inList then None
         else case any_team env userID (bc_TeamIDs cfg) of
                Inl err \<Rightarrow> Some err
              | Inr True \<Rightarrow> None
              | Inr False \<Rightarrow> Some (wrapf ''user not allowed'' ErrUsageRestriction))
      else if l = UserAccessLevelBlock then
        (if inList then Some (wrapf ''user blocked'' ErrUsageRestriction)
         else case any_team env userID (bc_TeamIDs cfg) of
                Inl err \<Rightarrow> Some err
              | Inr True \<Rightarrow> Some (wrapf ''user's team blocked'' ErrUsageRestriction)
              | Inr False \<Rightarrow> None)
      else if l = UserAccessLevelNone then Some (wrapf ''user usage block for bot'' ErrUsageRestriction)
      else if l = UserAccessLevelAttributeBased then None
      else Some (ErrorNew ''unknown user assistance level''))"

definition wrapDeny :: "go_error \<Rightarrow> go_error" where
  "wrapDeny err =
     (if errors_Is err ErrAccessDenied \<and> \<not> errors_Is err ErrUsageRestriction
      then ErrorWrap (errText ErrUsageRestriction @ '': '' @ errText err) [ErrUsageRestriction, err]
      else err)"

definition CheckUsageRestrictionsForUserConfig :: "access_env \<Rightarrow> BotConfig \<Rightarrow> string \<Rightarrow> go_error option" where
  "CheckUsageRestrictionsForUserConfig env cfg userID =
     (case CanUseAgent env userID cfg (Some (UsageRestrictionsForUserConfig env cfg userID)) of
        Some err \<Rightarrow> Some (wrapDeny err)
      | None \<Rightarrow> map_option wrapDeny (CanUseService env userID (bc_ServiceID cfg)))"

definition CheckUsageRestrictions :: "access_env \<Rightarrow> string \<Rightarrow> BotConfig \<Rightarrow> Channel \<Rightarrow> go_error option" where
  "CheckUsageRestrictions env userID cfg channel =
     (case CheckUsageRestrictionsForUserConfig env cfg userID of
        Some err \<Rightarrow> Some err
      | None \<Rightarrow> CheckUsageRestrictionsForChannel cfg channel)"

section \<open>Fallback hops\<close>

fun usable_prefix :: "access_env \<Rightarrow> string \<Rightarrow> ServiceConfig list \<Rightarrow> string list" where
  "usable_prefix env userID [] = []"
| "usable_prefix env userID (svc # svcs) =
     (if CanUseService env userID (sc_ID svc) \<noteq> None then [] else sc_ID svc # usable_prefix env userID svcs)"

definition allowedFallbackServiceIDs ::
  "access_env \<Rightarrow> ServiceConfig list \<Rightarrow> string \<Rightarrow> string \<Rightarrow> string list result option" where
  "allowedFallbackServiceIDs env services userID primary =
     map_option (map_sum id (usable_prefix env userID))
       (ResolveFallbackChain (ac_service env) primary (ServiceLookup services))"

text \<open>\<open>restrict\<close> and \<open>describeFallbacks\<close> of the wrapper that stamps a user's completion.\<close>

record fallbackAccessLLM =
  fa_primaryServiceID :: string
  fa_primaryModel :: string
  fa_fallbackServices :: "ServiceConfig list"

definition restrict ::
  "access_env \<Rightarrow> ServiceConfig list \<Rightarrow> fallbackAccessLLM \<Rightarrow> CompletionRequest \<Rightarrow> CompletionRequest option" where
  "restrict env services w request =
     (if req_RestrictFallbacks request then Some request
      else case Option.bind (req_Context request) ctx_RequestingUser of
        None \<Rightarrow> Some request
      | Some user \<Rightarrow>
          if u_Id user = [] then Some request
          else map_option (\<lambda>r. case r of
                 Inl _ \<Rightarrow> request\<lparr>req_RestrictFallbacks := True\<rparr>
               | Inr ids \<Rightarrow> request\<lparr>req_RestrictFallbacks := True, req_AllowedFallbackServiceIDs := ids\<rparr>)
               (allowedFallbackServiceIDs env services (u_Id user) (fa_primaryServiceID w)))"

fun reachable_loop :: "string list option \<Rightarrow> string list \<Rightarrow> ServiceConfig list \<Rightarrow> string list" where
  "reachable_loop allowed seen [] = []"
| "reachable_loop allowed seen (svc # svcs) =
     (if (case allowed of None \<Rightarrow> False | Some ids \<Rightarrow> sc_ID svc \<notin> set ids) then []
      else let name = TrimSpace (sc_DefaultModel svc) in
        if name = [] \<or> name \<in> set seen then reachable_loop allowed seen svcs
        else name # reachable_loop allowed (name # seen) svcs)"

definition reachableFallbackModels :: "access_env \<Rightarrow> fallbackAccessLLM \<Rightarrow> CompletionRequest \<Rightarrow> string list" where
  "reachableFallbackModels env w request =
     (if fa_fallbackServices w = [] \<or> \<not> Allows (ac_Level env) CapModelFallback then []
      else reachable_loop
             (if req_RestrictFallbacks request then Some (req_AllowedFallbackServiceIDs request) else None)
             [fa_primaryModel w] (fa_fallbackServices w))"

definition fallbackModelsNote :: "string \<Rightarrow> string" where
  "fallbackModelsNote models = ''If the primary model is unavailable, this response may be generated by one of these fallback models instead: ''
     @ models @ ''. When asked which model you are, mention that a fallback model may be answering.''"

fun append_to_system :: "string \<Rightarrow> Post list \<Rightarrow> Post list" where
  "append_to_system note [] = []"
| "append_to_system note (p # ps) =
     (if p_Role p = PostRoleSystem then p\<lparr>p_Message := p_Message p @ note\<rparr> # ps
      else p # append_to_system note ps)"

definition describeFallbacks :: "access_env \<Rightarrow> fallbackAccessLLM \<Rightarrow> CompletionRequest \<Rightarrow> CompletionRequest" where
  "describeFallbacks env w request =
     (let names = reachableFallbackModels env w request in
      if names = [] then request
      else request\<lparr>req_Posts := append_to_system
             ([CHR 0x0A, CHR 0x0A] @ fallbackModelsNote (Join names '', '')) (req_Posts request)\<rparr>)"

definition apply_fallbacks ::
  "access_env \<Rightarrow> ServiceConfig list \<Rightarrow> fallbackAccessLLM \<Rightarrow> CompletionRequest \<Rightarrow> CompletionRequest option" where
  "apply_fallbacks env services w request = map_option (describeFallbacks env w) (restrict env services w request)"

section \<open>The policy gates\<close>

text \<open>
  What a caller relies on: a gate passes only on a decision that allows; the refinement adds that
  a resource gate passes exactly then, and that its denials carry the access-denied sentinel.
\<close>

locale policy_gate =
  fixes decide :: "string \<Rightarrow> 'r \<Rightarrow> AccessDecision result"
    and gate :: "string \<Rightarrow> 'r \<Rightarrow> go_error option"
    and valid :: "string \<Rightarrow> bool"
  assumes invalid_subject: "\<not> valid u \<Longrightarrow> decide u r = Inl errInvalidSubject"
    and fail_closed: "gate u r = None \<Longrightarrow> \<exists>d. decide u r = Inr d \<and> ad_Decision d"
begin

lemma passes_valid: "gate u r = None \<Longrightarrow> valid u"
  using invalid_subject [of u r] fail_closed [of u r] by (cases "valid u") auto

lemma error_denies: "decide u r = Inl e \<Longrightarrow> gate u r \<noteq> None"
  using fail_closed [of u r] by auto

lemma deny_denies: "decide u r = Inr d \<Longrightarrow> \<not> ad_Decision d \<Longrightarrow> gate u r \<noteq> None"
  using fail_closed [of u r] by auto

end

locale resource_gate = policy_gate +
  assumes passes: "decide u r = Inr d \<Longrightarrow> ad_Decision d \<Longrightarrow> gate u r = None"
    and denial: "gate u r = Some e \<Longrightarrow> errors_Is e ErrAccessDenied \<and> \<not> errors_Is e ErrUsageRestriction"
begin

lemma passes_iff: "gate u r = None \<longleftrightarrow> (\<exists>d. decide u r = Inr d \<and> ad_Decision d)"
  using passes fail_closed by blast

lemma wrapped_denial: "gate u r = Some e \<Longrightarrow> errors_Is (wrapDeny e) ErrUsageRestriction"
  using denial [of u r e] by (simp add: wrapDeny_def ErrUsageRestriction_def)

end

lemma evaluate_invalid: "\<not> ac_isValidId env u \<Longrightarrow> evaluate env u ty r = Inl errInvalidSubject"
  by (simp add: evaluate_def)

lemma sentinels_differ [simp]:
  "errors_Is ErrAccessDenied ErrAccessDenied" "\<not> errors_Is ErrAccessDenied ErrUsageRestriction"
  "errors_Is ErrUsageRestriction ErrUsageRestriction" "\<not> errors_Is ErrUsageRestriction ErrAccessDenied"
  by (simp_all add: ErrAccessDenied_def ErrUsageRestriction_def)

lemma canUseResource_denial:
  "canUseResource env u ty r = Some e \<Longrightarrow> errors_Is e ErrAccessDenied \<and> \<not> errors_Is e ErrUsageRestriction"
  by (auto simp: canUseResource_def Let_def split: sum.splits if_splits)

interpretation agent: policy_gate "\<lambda>u (cfg, legacy). evaluate env u (ResourceTypeAgent env) (bc_ID cfg)"
    "\<lambda>u (cfg, legacy). CanUseAgent env u cfg legacy" "ac_isValidId env" for env
  by unfold_locales
    (auto simp: evaluate_invalid CanUseAgent_def Let_def split: sum.splits if_splits prod.splits)

interpretation service: resource_gate "\<lambda>u. evaluate env u (ResourceTypeService env)" "CanUseService env"
    "ac_isValidId env" for env
  by unfold_locales
    (auto simp: evaluate_invalid CanUseService_def canUseResource_denial,
     auto simp: canUseResource_def Let_def split: sum.splits if_splits)

interpretation mcp_server: resource_gate "\<lambda>u. evaluate env u (ResourceTypeMCP env)" "CanUseMCPServer env"
    "ac_isValidId env" for env
  by unfold_locales
    (auto simp: evaluate_invalid CanUseMCPServer_def canUseResource_denial,
     auto simp: canUseResource_def Let_def split: sum.splits if_splits)

section \<open>Agents\<close>


lemma any_team_spec:
  assumes "\<And>t e. t \<in> set ts \<Longrightarrow> TeamMemberActive env t u \<noteq> Inl e"
  shows "any_team env u ts = Inr (\<exists>t \<in> set ts. TeamMemberActive env t u = Inr True)"
  using assms by (induction ts) (auto split: sum.split)

text \<open>
  Where no membership lookup fails, an allow list and a block list over the same users
  and teams are complements, and every refusal of the legacy lists is a usage restriction.
\<close>

theorem allow_and_block_lists:
  assumes "\<And>t e. t \<in> set (bc_TeamIDs cfg) \<Longrightarrow> TeamMemberActive env t u \<noteq> Inl e"
    and "UserAccessLevelAll \<le> l" "l \<le> UserAccessLevelAttributeBased"
  shows "(UsageRestrictionsForUserConfig env (cfg\<lparr>bc_UserAccessLevel := UserAccessLevelAllow\<rparr>) u = None
       \<longleftrightarrow> u \<in> set (bc_UserIDs cfg) \<or> (\<exists>t \<in> set (bc_TeamIDs cfg). TeamMemberActive env t u = Inr True))
     \<and> (UsageRestrictionsForUserConfig env (cfg\<lparr>bc_UserAccessLevel := UserAccessLevelBlock\<rparr>) u = None
       \<longleftrightarrow> UsageRestrictionsForUserConfig env (cfg\<lparr>bc_UserAccessLevel := UserAccessLevelAllow\<rparr>) u \<noteq> None)
     \<and> pred_option (\<lambda>e. errors_Is e ErrUsageRestriction)
         (UsageRestrictionsForUserConfig env (cfg\<lparr>bc_UserAccessLevel := l\<rparr>) u)"
proof -
  have ty: "any_team env u (bc_TeamIDs cfg) = Inr (\<exists>t \<in> set (bc_TeamIDs cfg). TeamMemberActive env t u = Inr True)"
    using any_team_spec assms(1) by blast
  have "l = UserAccessLevelAll \<or> l = UserAccessLevelAllow \<or> l = UserAccessLevelBlock \<or> l = UserAccessLevelNone
      \<or> l = UserAccessLevelAttributeBased"
    using assms(2,3) by (auto simp: access_level_defs)
  then show ?thesis
    by (auto simp: UsageRestrictionsForUserConfig_def Let_def access_level_defs ty split: bool.split)
qed

text \<open>
  The per-request gate lets a user through only when both the agent and its service allow
  the user, and every refusal is a usage restriction unless it is the legacy check's own error.
\<close>

theorem user_gate_spec:
  "(CheckUsageRestrictionsForUserConfig env cfg u = None \<longleftrightarrow>
      CanUseAgent env u cfg (Some (UsageRestrictionsForUserConfig env cfg u)) = None
      \<and> CanUseService env u (bc_ServiceID cfg) = None)
   \<and> pred_option (\<lambda>e. errors_Is e ErrUsageRestriction
         \<or> UsageRestrictionsForUserConfig env cfg u = Some e)
       (CheckUsageRestrictionsForUserConfig env cfg u)"
proof -
  have agent: "errors_Is (wrapDeny e) ErrUsageRestriction \<or> UsageRestrictionsForUserConfig env cfg u = Some (wrapDeny e)"
    if "CanUseAgent env u cfg (Some (UsageRestrictionsForUserConfig env cfg u)) = Some e" for e
    using that by (auto simp: CanUseAgent_def Let_def wrapDeny_def split: sum.splits if_splits)
  have serv: "errors_Is (wrapDeny e) ErrUsageRestriction"
    if "CanUseService env u (bc_ServiceID cfg) = Some e" for e
    using service.wrapped_denial [OF that] .
  show ?thesis
    using agent serv
    by (auto simp: CheckUsageRestrictionsForUserConfig_def pred_option_def split: option.splits)
qed

section \<open>Fallback prefixes\<close>

lemma usable_prefix_takeWhile:
  "usable_prefix env u svcs = map sc_ID (takeWhile (\<lambda>s. CanUseService env u (sc_ID s) = None) svcs)"
  by (induction svcs) auto

lemma usable_prefix_usable: "i \<in> set (usable_prefix env u svcs) \<Longrightarrow> CanUseService env u i = None"
  by (auto simp: usable_prefix_takeWhile dest: set_takeWhileD)

lemma reachable_loop_Cons:
  "n \<in> set (reachable_loop allowed seen (s # svcs)) \<Longrightarrow>
     (case allowed of None \<Rightarrow> True | Some ids \<Rightarrow> sc_ID s \<in> set ids)
     \<and> (n \<in> set (reachable_loop allowed seen svcs)
        \<or> n = TrimSpace (sc_DefaultModel s) \<and> n \<notin> set seen
        \<or> n \<in> set (reachable_loop allowed (TrimSpace (sc_DefaultModel s) # seen) svcs))"
  by (cases allowed; simp add: Let_def split: if_split_asm; blast)

lemma reachable_loop_sound:
  "n \<in> set (reachable_loop (Some ids) seen svcs) \<Longrightarrow>
     n \<notin> set seen \<and> (\<exists>s \<in> set svcs. n = TrimSpace (sc_DefaultModel s) \<and> sc_ID s \<in> set ids)"
proof (induction svcs arbitrary: seen)
  case (Cons s svcs)
  from reachable_loop_Cons [OF Cons.prems] have "sc_ID s \<in> set ids"
    and "n \<in> set (reachable_loop (Some ids) seen svcs) \<or> n = TrimSpace (sc_DefaultModel s) \<and> n \<notin> set seen
        \<or> n \<in> set (reachable_loop (Some ids) (TrimSpace (sc_DefaultModel s) # seen) svcs)" by auto
  then show ?case using Cons.IH [of seen] Cons.IH [of "TrimSpace (sc_DefaultModel s) # seen"] by auto
qed simp

lemma reachable_loop_seen: "n \<in> set (reachable_loop allowed seen svcs) \<Longrightarrow> n \<notin> set seen"
proof (induction svcs arbitrary: seen)
  case (Cons s svcs)
  from reachable_loop_Cons [OF Cons.prems] Cons.IH [of seen] Cons.IH [of "TrimSpace (sc_DefaultModel s) # seen"]
  show ?case by auto
qed simp

lemma reachable_loop_distinct: "distinct (reachable_loop allowed seen svcs)"
proof (induction svcs arbitrary: seen)
  case (Cons s svcs)
  have "TrimSpace (sc_DefaultModel s) \<notin> set (reachable_loop allowed (TrimSpace (sc_DefaultModel s) # seen) svcs)"
    using reachable_loop_seen by fastforce
  with Cons show ?case by (simp add: Let_def)
qed simp

lemma describeFallbacks_fields [simp]:
  "req_RestrictFallbacks (describeFallbacks env w r) = req_RestrictFallbacks r"
  "req_AllowedFallbackServiceIDs (describeFallbacks env w r) = req_AllowedFallbackServiceIDs r"
  "reachableFallbackModels env w (describeFallbacks env w r) = reachableFallbackModels env w r"
  by (simp_all add: describeFallbacks_def Let_def reachableFallbackModels_def)

text \<open>
  A completion of a user is always stamped: the fallback services it may reach are the
  longest usable prefix of the configured chain, none when the chain does not resolve, and every
  model its prompt announces belongs to a service the user may use.
\<close>

theorem fallbacks_restricted_to_usable:
  assumes "\<not> req_RestrictFallbacks request" "req_AllowedFallbackServiceIDs request = []"
    "req_Context request = Some c" "ctx_RequestingUser c = Some user" "u_Id user \<noteq> []"
  shows "\<exists>r. apply_fallbacks env services w request = Some r \<and> req_RestrictFallbacks r
     \<and> req_AllowedFallbackServiceIDs r =
         (case ResolveFallbackChain (ac_service env) (fa_primaryServiceID w) (ServiceLookup services) of
            Some (Inr chain) \<Rightarrow> map sc_ID (takeWhile (\<lambda>s. CanUseService env (u_Id user) (sc_ID s) = None) chain)
          | _ \<Rightarrow> [])
     \<and> distinct (reachableFallbackModels env w r)
     \<and> (\<forall>n \<in> set (reachableFallbackModels env w r). \<exists>s \<in> set (fa_fallbackServices w).
          n = TrimSpace (sc_DefaultModel s) \<and> CanUseService env (u_Id user) (sc_ID s) = None)"
proof -
  obtain res where res: "ResolveFallbackChain (ac_service env) (fa_primaryServiceID w) (ServiceLookup services) = Some res"
    using ResolveFallbackChain_returns by blast
  define ids where "ids = (case res of Inl _ \<Rightarrow> [] | Inr chain \<Rightarrow> usable_prefix env (u_Id user) chain)"
  have r: "restrict env services w request
      = Some (request\<lparr>req_RestrictFallbacks := True, req_AllowedFallbackServiceIDs := ids\<rparr>)"
    using assms by (cases res) (simp_all add: restrict_def allowedFallbackServiceIDs_def res ids_def)
  have usable: "i \<in> set ids \<Longrightarrow> CanUseService env (u_Id user) i = None" for i
    by (cases res) (auto simp: ids_def usable_prefix_usable)
  have ids: "ids = (case Some res of Some (Inr chain) \<Rightarrow>
        map sc_ID (takeWhile (\<lambda>s. CanUseService env (u_Id user) (sc_ID s) = None) chain) | _ \<Rightarrow> [])"
    by (cases res) (simp_all add: ids_def usable_prefix_takeWhile)
  show ?thesis
    unfolding apply_fallbacks_def r res ids [symmetric]
    by (auto simp: reachableFallbackModels_def reachable_loop_distinct dest!: reachable_loop_sound intro: usable)
qed

section \<open>Saved agents\<close>

lemma new_origins_loop_set:
  "set (new_origins_loop prevOrigins seen ts) =
     NormalizeMCPServerOrigin ` emt_ServerOrigin ` set ts - set prevOrigins - set seen"
  by (induction ts arbitrary: seen) (auto simp: Let_def)

lemma check_origins_None:
  "check_origins env u m os = None \<longleftrightarrow>
     (\<forall>orig \<in> set os. \<forall>i. m orig = Some i \<longrightarrow> CanUseMCPServer env u i = None)"
  by (induction os) (auto split: option.splits)

lemma check_origins_denial: "check_origins env u m os = Some e \<Longrightarrow> errors_Is e ErrAccessDenied"
  by (induction os) (auto split: option.splits if_splits dest: mcp_server.denial)

lemma check_service_write_denial: "check_service_write env u cfg prev = Some e \<Longrightarrow> errors_Is e ErrAccessDenied"
  by (auto simp: check_service_write_def split: option.splits if_splits dest: service.denial)

text \<open>
  An agent save passes exactly when attribute-based mode is available where it is used,
  and the acting user may use the service and each identified MCP server the save newly assigns; a
  refusal says either that attribute-based access is unavailable or that access was denied.
\<close>

theorem agent_write_checked:
  "(fst (ValidateAgentWrite env now later u cfg prev st) = None \<longleftrightarrow>
      (bc_UserAccessLevel cfg = UserAccessLevelAttributeBased \<longrightarrow> fst (IsAvailable env now later u st))
      \<and> (map_option bc_ServiceID prev \<noteq> Some (bc_ServiceID cfg) \<longrightarrow> CanUseService env u (bc_ServiceID cfg) = None)
      \<and> (\<not> bc_AutoEnableNewMCPTools cfg \<longrightarrow>
           (\<forall>orig \<in> set (newlyReferencedMCPOrigins cfg prev). \<forall>i.
              map_of (ids_by_origin (ac_mcpIDsByOrigin env)) orig = Some i \<longrightarrow> CanUseMCPServer env u i = None)))
   \<and> pred_option (\<lambda>e. e = ErrABACUnavailable \<or> errors_Is e ErrAccessDenied)
       (fst (ValidateAgentWrite env now later u cfg prev st))"
proof -
  obtain av st1 where av: "(if bc_UserAccessLevel cfg = UserAccessLevelAttributeBased
      then IsAvailable env now later u st else (True, st)) = (av, st1)" by force
  have av_iff: "av \<longleftrightarrow> (bc_UserAccessLevel cfg = UserAccessLevelAttributeBased \<longrightarrow> fst (IsAvailable env now later u st))"
    using av by (auto split: if_splits)
  have sv: "check_service_write env u cfg prev = None \<longleftrightarrow>
      (map_option bc_ServiceID prev \<noteq> Some (bc_ServiceID cfg) \<longrightarrow> CanUseService env u (bc_ServiceID cfg) = None)"
    by (auto simp: check_service_write_def split: option.splits if_splits)
  let ?v = "fst (ValidateAgentWrite env now later u cfg prev st)"
  have v: "?v = (if \<not> av then Some ErrABACUnavailable else case check_service_write env u cfg prev of
        Some e \<Rightarrow> Some e
      | None \<Rightarrow> if bc_AutoEnableNewMCPTools cfg then None
          else check_origins env u (map_of (ids_by_origin (ac_mcpIDsByOrigin env))) (newlyReferencedMCPOrigins cfg prev))"
    unfolding ValidateAgentWrite_def av by (auto simp: Let_def split: option.split)
  have "pred_option (\<lambda>e. e = ErrABACUnavailable \<or> errors_Is e ErrAccessDenied) ?v"
    unfolding v by (auto simp: pred_option_def dest: check_origins_denial check_service_write_denial
        split: if_splits option.splits)
  moreover have "?v = None \<longleftrightarrow> av \<and> check_service_write env u cfg prev = None
      \<and> (\<not> bc_AutoEnableNewMCPTools cfg \<longrightarrow>
           (\<forall>orig \<in> set (newlyReferencedMCPOrigins cfg prev). \<forall>i.
              map_of (ids_by_origin (ac_mcpIDsByOrigin env)) orig = Some i \<longrightarrow> CanUseMCPServer env u i = None))"
    unfolding v by (auto simp: check_origins_None split: option.split)
  ultimately show ?thesis unfolding av_iff sv by blast
qed

section \<open>Concrete checks\<close>

definition ex_access :: "string gomap \<Rightarrow> access_env" where
  "ex_access origins = \<lparr>ac_isValidId = (\<lambda>s. length s = 2), ac_separator = '':'',
     ac_Evaluate = (\<lambda>_ _ r _. Inr (Some \<lparr>ad_Decision = (r \<noteq> ''s2''), ad_NoPolicy = False\<rparr>)),
     ac_noPolicy = \<lparr>ad_Decision = True, ad_NoPolicy = True\<rparr>, ac_VisualAST = None, ac_mcpIDsByOrigin = origins,
     ac_GetMember = Some (\<lambda>t _. if t = ''t1'' then Member 0 else MemberNotFound), ac_service = ex_service_env,
     ac_Level = Some LevelEnterpriseAdvanced, ac_quote = (\<lambda>s. s)\<rparr>"

definition ex_agent :: BotConfig where
  "ex_agent = ex_config\<lparr>bc_ServiceID := ''s1'', bc_TeamIDs := [''t2'', ''t1''],
     bc_EnabledMCPTools := [\<lparr>emt_ServerOrigin = ''http://a'', emt_ToolName = ''x''\<rparr>]\<rparr>"

abbreviation ex_checker :: checker_state where
  "ex_checker \<equiv> \<lparr>ck_availabilityValue = False, ck_availabilityChecked = None\<rparr>"

lemma allow_and_block_lists_witness:
  "UsageRestrictionsForUserConfig (ex_access []) (ex_agent\<lparr>bc_UserAccessLevel := UserAccessLevelAllow\<rparr>) ''u1'' = None
   \<and> UsageRestrictionsForUserConfig (ex_access []) (ex_agent\<lparr>bc_UserAccessLevel := UserAccessLevelBlock\<rparr>) ''u1'' \<noteq> None"
  using allow_and_block_lists [of ex_agent "ex_access []" "''u1''" UserAccessLevelAllow]
  by (simp add: ex_agent_def ex_config_def ex_access_def TeamMemberActive_def access_level_defs)

lemma fallbacks_restricted_to_usable_witness:
  "\<exists>r. apply_fallbacks (ex_access []) [ex_service ''a'' ''s1'', ex_service ''s1'' ''s2'', ex_service ''s2'' []]
        \<lparr>fa_primaryServiceID = ''a'', fa_primaryModel = ''ma'', fa_fallbackServices = [ex_service ''s1'' ''s2'', ex_service ''s2'' []]\<rparr>
        (ex_request\<lparr>req_Context := Some (ex_context\<lparr>ctx_RequestingUser :=
           Some \<lparr>u_Id = ''u1'', u_Username = ''u'', u_FirstName = [], u_LastName = []\<rparr>\<rparr>)\<rparr>) = Some r
     \<and> req_RestrictFallbacks r"
  using fallbacks_restricted_to_usable [of "ex_request\<lparr>req_Context := Some (ex_context\<lparr>ctx_RequestingUser :=
           Some \<lparr>u_Id = ''u1'', u_Username = ''u'', u_FirstName = [], u_LastName = []\<rparr>\<rparr>)\<rparr>"
       "ex_context\<lparr>ctx_RequestingUser := Some \<lparr>u_Id = ''u1'', u_Username = ''u'', u_FirstName = [], u_LastName = []\<rparr>\<rparr>"
       "\<lparr>u_Id = ''u1'', u_Username = ''u'', u_FirstName = [], u_LastName = []\<rparr>" "ex_access []"
       "[ex_service ''a'' ''s1'', ex_service ''s1'' ''s2'', ex_service ''s2'' []]"
       "\<lparr>fa_primaryServiceID = ''a'', fa_primaryModel = ''ma'', fa_fallbackServices = [ex_service ''s1'' ''s2'', ex_service ''s2'' []]\<rparr>"]
  by (auto simp: ex_request_def)

lemma ex_write_passes:
  "fst (ValidateAgentWrite (ex_access [(''http://a'', ''s2''), (''http://a/'', ''s1'')]) 0 0 ''u1'' ex_agent None ex_checker) = None"
  by code_simp

lemma agent_write_checked_witness:
  "map_of (ids_by_origin [(''http://a'', ''s2''), (''http://a/'', ''s1'')]) ''http://a'' = Some ''s1''
   \<and> CanUseMCPServer (ex_access [(''http://a'', ''s2''), (''http://a/'', ''s1'')]) ''u1'' ''s1'' = None"
proof -
  have m: "map_of (ids_by_origin [(''http://a'', ''s2''), (''http://a/'', ''s1'')]) ''http://a'' = Some ''s1''" by code_simp
  have o: "''http://a'' \<in> set (newlyReferencedMCPOrigins ex_agent None)" by code_simp
  have "\<not> bc_AutoEnableNewMCPTools ex_agent" by (simp add: ex_agent_def ex_config_def)
  then have "CanUseMCPServer (ex_access [(''http://a'', ''s2''), (''http://a/'', ''s1'')]) ''u1'' ''s1'' = None"
    using agent_write_checked [of "ex_access [(''http://a'', ''s2''), (''http://a/'', ''s1'')]" 0 0 "''u1''" ex_agent None ex_checker]
      ex_write_passes m o by (auto simp: ex_access_def)
  with m show ?thesis ..
qed

text \<open>
  The identity map is keyed by normalized origins while Go's map iteration fills it, so two
  servers whose configured URLs differ only by a trailing slash make the check depend on the order:
  the same map denies or accepts the same save.
\<close>

lemma agent_write_order_dependent:
  "same_map [(''http://a'', ''s2''), (''http://a/'', ''s1'')] [(''http://a/'', ''s1''), (''http://a'', ''s2'')]
   \<and> fst (ValidateAgentWrite (ex_access [(''http://a'', ''s2''), (''http://a/'', ''s1'')]) 0 0 ''u1'' ex_agent None ex_checker) = None
   \<and> fst (ValidateAgentWrite (ex_access [(''http://a/'', ''s1''), (''http://a'', ''s2'')]) 0 0 ''u1'' ex_agent None ex_checker) \<noteq> None"
proof -
  have "fst (ValidateAgentWrite (ex_access [(''http://a/'', ''s1''), (''http://a'', ''s2'')]) 0 0 ''u1'' ex_agent None ex_checker) \<noteq> None"
    by code_simp
  with ex_write_passes show ?thesis by (auto simp: same_map_def wf_map_def)
qed

text \<open>With origins that stay distinct once normalized, the order does not matter.\<close>

lemma ids_by_origin_order:
  assumes "same_map m n" "distinct (map (NormalizeMCPServerOrigin \<circ> fst) m)" "distinct (map (NormalizeMCPServerOrigin \<circ> fst) n)"
  shows "map_of (ids_by_origin m) = map_of (ids_by_origin n)"
proof -
  have ids: "map_of (ids_by_origin xs) = map_of (map (\<lambda>x. (NormalizeMCPServerOrigin (fst x), snd x)) (rev xs))" for xs
    unfolding ids_by_origin_def case_prod_beta by (rule ext) (simp add: map_of_fold_update split: option.split)
  show ?thesis
    unfolding ids using assms
    by (intro map_of_inject_set [THEN iffD2]) (auto simp: same_map_def comp_def rev_map [symmetric])
qed

end
