(* ===== verification/Text_Safety.thy ===== *)
theory Text_Safety
  imports Prelude_Go
begin

text \<open>
  UTF-8 runes as Go's \<open>range\<close> over a string and \<open>strings.Builder.WriteRune\<close> see them, and the
  escaping of spoofing characters (\<open>SanitizeNonPrintableChars\<close> of \<open>src/llm/tools.go\<close>).

  The Unicode tables are a parameter: \<open>printable r\<close> stands for \<open>unicode.IsPrint(r)\<close> outside the
  variation selectors and default ignorable code points, and is only asked above \<open>0x7E\<close>.
\<close>

section \<open>Runes\<close>

definition byte :: "string \<Rightarrow> nat \<Rightarrow> nat" where
  "byte s i = (if i < length s then of_char (s ! i) else 0)"

text \<open>The rune a string starts with; an invalid encoding reads as U+FFFD.\<close>

definition rune_value :: "string \<Rightarrow> nat" where
  "rune_value s =
     (let x = byte s 0; b1 = byte s 1 mod 64; b2 = byte s 2 mod 64; b3 = byte s 3 mod 64 in
      if rune_width s = 2 then (x - 0xC0) * 64 + b1
      else if rune_width s = 3 then (x - 0xE0) * 4096 + b1 * 64 + b2
      else if rune_width s = 4 then (x - 0xF0) * 262144 + b1 * 4096 + b2 * 64 + b3
      else if x < 0x80 then x else 0xFFFD)"

function runes :: "string \<Rightarrow> nat list" where
  "runes s = (if s = [] then [] else rune_value s # runes (drop (rune_width s) s))"
  by pat_completeness auto
termination
  by (relation "measure length") (auto simp: rune_width_pos)

declare runes.simps [simp del]

definition valid_rune :: "nat \<Rightarrow> bool" where
  "valid_rune r \<longleftrightarrow> r < 0xD800 \<or> 0xE000 \<le> r \<and> r < 0x110000"

definition encode_rune :: "nat \<Rightarrow> string" where
  "encode_rune r =
     (if r < 0x80 then [char_of r]
      else if r < 0x800 then [char_of (0xC0 + r div 64), char_of (0x80 + r mod 64)]
      else if \<not> valid_rune r then [CHR 0xEF, CHR 0xBF, CHR 0xBD]
      else if r < 0x10000 then
        [char_of (0xE0 + r div 4096), char_of (0x80 + r div 64 mod 64), char_of (0x80 + r mod 64)]
      else [char_of (0xF0 + r div 262144), char_of (0x80 + r div 4096 mod 64),
            char_of (0x80 + r div 64 mod 64), char_of (0x80 + r mod 64)])"

section \<open>Sanitizing\<close>

definition isSafeRune :: "(nat \<Rightarrow> bool) \<Rightarrow> nat \<Rightarrow> bool" where
  "isSafeRune printable r \<longleftrightarrow>
     (if 0x20 \<le> r \<and> r \<le> 0x7E then True
      else if r = 0x0A \<or> r = 0x09 \<or> r = 0x0D then True
      else if r > 0x7E then printable r
      else False)"

definition hex_digit :: "nat \<Rightarrow> char" where
  "hex_digit d = char_of (if d < 10 then 48 + d else 55 + d)"

fun Hex :: "nat \<Rightarrow> string" where
  "Hex n = (if n < 16 then [hex_digit n] else Hex (n div 16) @ [hex_digit (n mod 16)])"

declare Hex.simps [simp del]

definition escaped_rune :: "nat \<Rightarrow> string" where
  "escaped_rune r = ''[U+'' @ replicate (4 - length (Hex r)) (CHR ''0'') @ Hex r @ '']''"

definition safe_chunk :: "(nat \<Rightarrow> bool) \<Rightarrow> nat \<Rightarrow> string" where
  "safe_chunk printable r = (if isSafeRune printable r then encode_rune r else escaped_rune r)"

definition SanitizeNonPrintableChars :: "(nat \<Rightarrow> bool) \<Rightarrow> string \<Rightarrow> string" where
  "SanitizeNonPrintableChars printable s =
     (if list_all (isSafeRune printable) (runes s) then s
      else concat (map (safe_chunk printable) (runes s)))"

section \<open>Runes survive encoding\<close>

lemma byte_Cons [simp]:
  "byte (c # s) 0 = of_char c" "byte (c # s) (Suc i) = byte s i"
  "byte (c # s) 2 = byte s 1" "byte (c # s) 3 = byte s 2"
  by (simp_all add: byte_def numeral_2_eq_2 numeral_3_eq_3)

lemma of_char_lt [simp]: "(of_char c :: nat) < 256"
  by simp

lemma split_64:
  fixes r :: nat
  obtains a b c where "r = a * 4096 + b * 64 + c" "b < 64" "c < 64" "r div 4096 = a" "r div 64 mod 64 = b" "r mod 64 = c"
    "r div 64 = a * 64 + b"
proof -
  have d: "r div 4096 = r div 64 div 64" by (simp add: div_mult2_eq [symmetric])
  have q: "r div 64 = r div 64 div 64 * 64 + r div 64 mod 64" by simp
  have "r = (r div 64 div 64 * 64 + r div 64 mod 64) * 64 + r mod 64"
    by (subst q [symmetric]) simp
  then have r: "r = r div 64 div 64 * 4096 + r div 64 mod 64 * 64 + r mod 64"
    by (simp only: add_mult_distrib mult.assoc mult_num_simps semiring_norm)
  show thesis
  proof (rule that)
    show "r div 64 = r div 4096 * 64 + r div 64 mod 64" unfolding d by (rule q)
    show "r = r div 4096 * 4096 + r div 64 mod 64 * 64 + r mod 64" unfolding d by (rule r)
  qed simp_all
qed

lemma mod_64: "b < 64 \<Longrightarrow> (128 + b) mod 64 = (b::nat)"
  using mod_mult_self1 [of b 2 64] by (simp add: add.commute)

lemma encode_cases:
  assumes "valid_rune r"
  obtains (one) "r < 0x80" "encode_rune r = [char_of r]"
  | (two) a b where "r = a * 64 + b" "2 \<le> a" "a < 32" "b < 64"
      "encode_rune r = [char_of (0xC0 + a), char_of (0x80 + b)]"
  | (three) a b c where "r = a * 4096 + b * 64 + c" "a < 16" "b < 64" "c < 64"
      "a = 0 \<Longrightarrow> 32 \<le> b" "a = 13 \<Longrightarrow> b < 32"
      "encode_rune r = [char_of (0xE0 + a), char_of (0x80 + b), char_of (0x80 + c)]"
  | (four) a b c d where "r = a * 262144 + b * 4096 + c * 64 + d" "a < 5" "b < 64" "c < 64" "d < 64"
      "a = 0 \<Longrightarrow> 16 \<le> b" "a = 4 \<Longrightarrow> b < 16"
      "encode_rune r = [char_of (0xF0 + a), char_of (0x80 + b), char_of (0x80 + c), char_of (0x80 + d)]"
proof -
  consider "r < 0x80" | "0x80 \<le> r" "r < 0x800" | "0x800 \<le> r" "r < 0x10000" | "0x10000 \<le> r" by linarith
  then show thesis
  proof cases
    case 1
    then show thesis by (intro one) (simp_all add: encode_rune_def)
  next
    case 2
    show thesis
      by (rule two [of "r div 64" "r mod 64"]) (use 2 in \<open>auto simp: encode_rune_def\<close>)
  next
    case 3
    obtain a b c where abc: "r = a * 4096 + b * 64 + c" "b < 64" "c < 64" "r div 4096 = a"
      "r div 64 mod 64 = b" "r mod 64 = c" by (rule split_64)
    show thesis
    proof (rule three [of a b c])
      show "a = 13 \<Longrightarrow> b < 32" using abc 3 assms by (auto simp: valid_rune_def)
      show "encode_rune r = [char_of (0xE0 + a), char_of (0x80 + b), char_of (0x80 + c)]"
        using 3 assms abc(4-6) by (simp add: encode_rune_def)
    qed (use abc 3 in auto)
  next
    case 4
    have r: "r < 0x110000" using 4 assms by (auto simp: valid_rune_def)
    obtain a b c where abc: "r div 64 = a * 4096 + b * 64 + c" "b < 64" "c < 64" "r div 64 div 4096 = a"
      "r div 64 div 64 mod 64 = b" "r div 64 mod 64 = c" by (rule split_64)
    obtain d where d: "r = r div 64 * 64 + d" "d < 64" "r mod 64 = d"
      by (rule that [of "r mod 64"]) simp_all
    have eq: "r = a * 262144 + b * 4096 + c * 64 + d" using abc(1) d(1) by linarith
    have divs: "r div 262144 = a" "r div 4096 mod 64 = b"
      using abc(4,5) by (simp_all add: div_mult2_eq [symmetric])
    show thesis
    proof (rule four [of a b c d])
      show "encode_rune r = [char_of (0xF0 + a), char_of (0x80 + b), char_of (0x80 + c), char_of (0x80 + d)]"
        using 4 assms abc(6) divs d(3) by (simp add: encode_rune_def)
      show "r = a * 262144 + b * 4096 + c * 64 + d" by (rule eq)
      show "a < 5" using r eq by linarith
      show "16 \<le> b" if "a = 0" using 4 eq that abc(3) d(2) by linarith
      show "b < 16" if "a = 4" using r eq that by linarith
    qed (use abc d in auto)
  qed
qed

lemma encode_decode:
  assumes "valid_rune r"
  shows "rune_width (encode_rune r @ t) = length (encode_rune r)" and "rune_value (encode_rune r @ t) = r"
  using assms
proof (atomize (full), cases r rule: encode_cases)
  case one
  then show "rune_width (encode_rune r @ t) = length (encode_rune r) \<and> rune_value (encode_rune r @ t) = r"
    by (simp add: rune_value_def rune_width_def Let_def)
next
  case (two a b)
  then show "rune_width (encode_rune r @ t) = length (encode_rune r) \<and> rune_value (encode_rune r @ t) = r"
    by (simp add: rune_value_def rune_width_def Let_def mod_64)
next
  case (three a b c)
  then show "rune_width (encode_rune r @ t) = length (encode_rune r) \<and> rune_value (encode_rune r @ t) = r"
    by (auto simp: rune_value_def rune_width_def Let_def cont_byte_def mod_64)
next
  case (four a b c d)
  then show "rune_width (encode_rune r @ t) = length (encode_rune r) \<and> rune_value (encode_rune r @ t) = r"
    by (auto simp: rune_value_def rune_width_def Let_def cont_byte_def mod_64)
qed

lemma rune_width_cases:
  obtains (one) "rune_width s \<le> 1"
  | (two) x where "byte s 0 = 0xC0 + x" "x < 32" "rune_width s = 2"
  | (three) x y where "byte s 0 = 0xE0 + x" "x < 16" "byte s 1 = 0x80 + y" "y < 64" "x = 13 \<Longrightarrow> y < 32" "rune_width s = 3"
  | (four) x y where "byte s 0 = 0xF0 + x" "x < 5" "byte s 1 = 0x80 + y" "y < 64" "x = 0 \<Longrightarrow> 16 \<le> y"
      "x = 4 \<Longrightarrow> y < 16" "rune_width s = 4"
proof (cases s)
  case Nil
  then show thesis by (intro one) (simp add: rune_width_def)
next
  case (Cons a r)
  have b1: "(case r of b # _ \<Rightarrow> (of_char b :: nat) | [] \<Rightarrow> 0) = byte s 1"
    by (cases r) (simp_all add: Cons byte_def)
  let ?x = "of_char a :: nat"
  have x: "byte s 0 = ?x" by (simp add: Cons)
  note w = rune_width_def [of s, unfolded Cons list.case Let_def, folded Cons, unfolded b1]
  show thesis
  proof (cases "rune_width s \<le> 1")
    case True then show thesis by (rule one)
  next
    case False
    then consider "0xC2 \<le> ?x" "?x \<le> 0xDF" "rune_width s = 2"
      | "0xE0 \<le> ?x" "?x \<le> 0xEF" "0x80 \<le> byte s 1" "byte s 1 \<le> (if ?x = 0xED then 0x9F else 0xBF)" "rune_width s = 3"
      | "0xF0 \<le> ?x" "?x \<le> 0xF4" "(if ?x = 0xF0 then 0x90 else 0x80) \<le> byte s 1"
        "byte s 1 \<le> (if ?x = 0xF4 then 0x8F else 0xBF)" "rune_width s = 4"
      by (simp add: w split: if_split_asm)
    then show thesis
    proof cases
      case 1 then show thesis by (intro two [of "?x - 0xC0"]) (simp_all add: x)
    next
      case 2 then show thesis
        by (intro three [of "?x - 0xE0" "byte s 1 - 0x80"]) (simp_all add: x split: if_split_asm)
    next
      case 3 then show thesis
        by (intro four [of "?x - 0xF0" "byte s 1 - 0x80"]) (simp_all add: x split: if_split_asm)
    qed
  qed
qed

lemma valid_rune_value: "valid_rune (rune_value s)"
proof (cases rule: rune_width_cases [of s])
  case one
  then show ?thesis by (simp add: rune_value_def Let_def valid_rune_def)
next
  case (two x)
  have "byte s 1 mod 64 < 64" by simp
  with two have "rune_value s < 0xD800" by (simp add: rune_value_def Let_def)
  then show ?thesis by (simp add: valid_rune_def)
next
  case (three x y)
  have m: "byte s 2 mod 64 < 64" by simp
  have v: "rune_value s = x * 4096 + y * 64 + byte s 2 mod 64"
    using three by (simp add: rune_value_def Let_def mod_64)
  consider "x < 13" | "x = 13" | "13 < x" by linarith
  then show ?thesis
    unfolding v valid_rune_def using three(2,4,5) m by cases auto
next
  case (four x y)
  have m: "byte s 2 mod 64 < 64" "byte s 3 mod 64 < 64" by simp_all
  have v: "rune_value s = x * 262144 + y * 4096 + byte s 2 mod 64 * 64 + byte s 3 mod 64"
    using four by (simp add: rune_value_def Let_def mod_64)
  consider "x = 0" | "0 < x" "x < 4" | "x = 4" using four(2) by linarith
  then show ?thesis
    unfolding v valid_rune_def using four(4-6) m by cases auto
qed

lemma runes_Nil [simp]: "runes [] = []"
  by (simp add: runes.simps)

lemma runes_encode: "valid_rune r \<Longrightarrow> runes (encode_rune r @ t) = r # runes t"
  using encode_decode [of r t]
  by (subst runes.simps) (auto simp: encode_rune_def)

lemma runes_ascii: "of_char c < (0x80 :: nat) \<Longrightarrow> runes (c # t) = of_char c # runes t"
  using runes_encode [of "of_char c" t] by (simp add: encode_rune_def valid_rune_def)

lemma runes_ascii_append:
  "list_all (\<lambda>c. of_char c < (0x80 :: nat)) u \<Longrightarrow> runes (u @ t) = map of_char u @ runes t"
  by (induction u) (simp_all add: runes_ascii)

lemma valid_runes: "r \<in> set (runes s) \<Longrightarrow> valid_rune r"
proof (induction s rule: runes.induct)
  case (1 s)
  then show ?case by (cases "s = []") (auto simp: runes.simps [of s] valid_rune_value)
qed

lemma rune_ascii:
  assumes "rune_value (c # s) < 0x80"
  shows "(of_char c :: nat) = rune_value (c # s) \<and> rune_width (c # s) = 1"
proof -
  let ?x = "of_char c :: nat" and ?w = "rune_width (c # s)"
  have b: "(case s of b # _ \<Rightarrow> (of_char b :: nat) | [] \<Rightarrow> 0) = byte (c # s) 1"
    by (cases s) (simp_all add: byte_def)
  consider "?w = 1" | "?w = 2" "0xC2 \<le> ?x" | "?w = 3" "0xE0 \<le> ?x" "(if ?x = 0xE0 then 0xA0 else 0x80) \<le> byte (c # s) 1" "byte (c # s) 1 \<le> 0xBF"
    | "?w = 4" "0xF0 \<le> ?x" "(if ?x = 0xF0 then 0x90 else 0x80) \<le> byte (c # s) 1" "byte (c # s) 1 \<le> 0xBF"
    using rune_width_def [of "c # s", unfolded list.case Let_def b] by (fastforce split: if_splits)
  then show ?thesis
  proof cases
    case 1
    then show ?thesis using assms by (simp add: rune_value_def Let_def split: if_splits)
  next
    case 2
    then have "rune_value (c # s) = (?x - 0xC0) * 64 + byte (c # s) 1 mod 64" by (simp add: rune_value_def Let_def)
    moreover have "2 * 64 \<le> (?x - 0xC0) * 64" using 2 by (intro mult_le_mono1) simp
    ultimately show ?thesis using assms by linarith
  next
    case 3
    then have v: "rune_value (c # s) = (?x - 0xE0) * 4096 + byte (c # s) 1 mod 64 * 64 + byte (c # s) 2 mod 64"
      by (simp add: rune_value_def Let_def)
    show ?thesis
    proof (cases "?x = 0xE0")
      case True
      then obtain k where "byte (c # s) 1 = 128 + k" "32 \<le> k" "k < 64"
        using 3 by (intro that [of "byte (c # s) 1 - 128"]) auto
      then have "32 \<le> byte (c # s) 1 mod 64" by (simp add: mod_64)
      then show ?thesis using v assms by linarith
    next
      case False
      then have "1 * 4096 \<le> (?x - 0xE0) * 4096" using 3 by (intro mult_le_mono1) simp
      then show ?thesis using v assms by linarith
    qed
  next
    case 4
    then have v: "rune_value (c # s) = (?x - 0xF0) * 262144 + byte (c # s) 1 mod 64 * 4096 + byte (c # s) 2 mod 64 * 64
        + byte (c # s) 3 mod 64"
      by (simp add: rune_value_def Let_def)
    show ?thesis
    proof (cases "?x = 0xF0")
      case True
      then obtain k where "byte (c # s) 1 = 128 + k" "16 \<le> k" "k < 64"
        using 4 by (intro that [of "byte (c # s) 1 - 128"]) auto
      then have "16 \<le> byte (c # s) 1 mod 64" by (simp add: mod_64)
      then show ?thesis using v assms by linarith
    next
      case False
      then have "1 * 262144 \<le> (?x - 0xF0) * 262144" using 4 by (intro mult_le_mono1) simp
      then show ?thesis using v assms by linarith
    qed
  qed
qed

lemma runes_ascii_eq:
  "runes s = map of_char t \<Longrightarrow> list_all (\<lambda>c. of_char c < (0x80 :: nat)) t \<Longrightarrow> s = t"
proof (induction t arbitrary: s)
  case Nil
  then show ?case by (cases "s = []") (simp_all add: runes.simps [of s])
next
  case (Cons x t)
  then obtain c s' where s: "s = c # s'" by (cases s) auto
  have r: "rune_value (c # s') = of_char x" "runes (drop (rune_width (c # s')) (c # s')) = map of_char t"
    using Cons.prems(1) by (simp_all add: s runes.simps [of "c # s'"])
  then have "(of_char c :: nat) = of_char x" "rune_width (c # s') = 1"
    using rune_ascii [of c s'] Cons.prems(2) by (simp_all del: of_char_eq_iff)
  moreover have "runes s' = map of_char t" using r(2) unfolding calculation(2) by simp
  then have "s' = t" using Cons.IH [of s'] Cons.prems(2) by simp
  ultimately show ?case using s by simp
qed

section \<open>Sanitized text is safe\<close>

lemma hex_digit_ascii: "d < 16 \<Longrightarrow> (of_char (hex_digit d) :: nat) < 0x7F \<and> 0x20 \<le> (of_char (hex_digit d) :: nat)"
  by (auto simp: hex_digit_def)

lemma Hex_ascii: "c \<in> set (Hex n) \<Longrightarrow> (of_char c :: nat) < 0x7F \<and> 0x20 \<le> (of_char c :: nat)"
proof (induction n rule: Hex.induct)
  case (1 n)
  then show ?case by (cases "n < 16") (auto simp: Hex.simps [of n] hex_digit_ascii)
qed

lemma escaped_ascii:
  "c \<in> set (escaped_rune r) \<Longrightarrow> (of_char c :: nat) < 0x7F \<and> 0x20 \<le> (of_char c :: nat)"
  by (auto simp: escaped_rune_def dest: Hex_ascii)

lemma runes_safe_chunk:
  assumes "valid_rune r"
  shows "\<exists>rs. runes (safe_chunk printable r @ t) = rs @ runes t \<and> list_all (isSafeRune printable) rs"
proof (cases "isSafeRune printable r")
  case True
  then show ?thesis using runes_encode [OF assms, of t] by (intro exI [of _ "[r]"]) (simp add: safe_chunk_def)
next
  case False
  have "runes (escaped_rune r @ t) = map of_char (escaped_rune r) @ runes t"
    using escaped_ascii [of _ r] by (intro runes_ascii_append) (fastforce simp: list_all_iff)
  moreover have "list_all (isSafeRune printable) (map of_char (escaped_rune r))"
    using escaped_ascii [of _ r] by (fastforce simp: list_all_iff isSafeRune_def)
  ultimately show ?thesis using False by (auto simp: safe_chunk_def)
qed

lemma runes_safe_concat:
  "list_all valid_rune rs \<Longrightarrow> list_all (isSafeRune printable) (runes (concat (map (safe_chunk printable) rs)))"
proof (induction rs)
  case (Cons r rs)
  then show ?case
    using runes_safe_chunk [of r printable "concat (map (safe_chunk printable) rs)"] by auto
qed simp

text \<open>
  Sanitizing leaves no rune outside the safe ones, is idempotent, and does not touch a
  string that is already safe.
\<close>

theorem Sanitize_safe:
  "list_all (isSafeRune printable) (runes (SanitizeNonPrintableChars printable s))
   \<and> SanitizeNonPrintableChars printable (SanitizeNonPrintableChars printable s) = SanitizeNonPrintableChars printable s
   \<and> (if list_all (isSafeRune printable) (runes s) then SanitizeNonPrintableChars printable s = s
      else SanitizeNonPrintableChars printable s = concat (map (safe_chunk printable) (runes s)))"
proof -
  have "list_all (isSafeRune printable) (runes (SanitizeNonPrintableChars printable s))"
    using runes_safe_concat [of "runes s" printable] valid_runes [of _ s]
    by (auto simp: SanitizeNonPrintableChars_def list_all_iff)
  then show ?thesis by (auto simp: SanitizeNonPrintableChars_def)
qed

end
