(* ===== verification/Json_Values.thy ===== *)
theory Json_Values
  imports Text_Safety "HOL-Library.List_Lexorder" "HOL-Library.Char_ord"
begin

text \<open>
  What the program uses of \<open>encoding/json\<close>: the mapping between structs and JSON values, with Go's
  rules for omitted fields, null, kinds that do not match, and field names that match up to case.

  The text of a JSON value is left to the parameter \<open>json_env\<close>: \<open>js_parse\<close> reads a text, \<open>js_print\<close>
  writes one. It is only used where the code keeps raw JSON (\<open>json.RawMessage\<close>). A number is an
  integer literal or a literal with a fraction or an exponent. Turn contents live in a JSONB column,
  which has no key twice and compares objects regardless of key order (\<open>jsonb\<close>).
\<close>

datatype json = JNull | JBool bool | JInt int | JDec string | JStr string
  | JArr "json list" | JObj "(string \<times> json) list"

record json_env =
  js_parse :: "string \<Rightarrow> json option"
  js_print :: "json \<Rightarrow> string"
  js_printable :: "nat \<Rightarrow> bool"

text \<open>A string is encoded as its runes; invalid bytes become U+FFFD.\<close>

definition json_text :: "string \<Rightarrow> string" where
  "json_text s = concat (map encode_rune (runes s))"

definition jsonb_object :: "(string \<times> json) list \<Rightarrow> (string \<times> json) list" where
  "jsonb_object kvs = sort_key fst (fold (\<lambda>kv m. AList.update (fst kv) (snd kv) m) kvs [])"

primrec jsonb :: "json \<Rightarrow> json" where
  "jsonb JNull = JNull"
| "jsonb (JBool b) = JBool b"
| "jsonb (JInt i) = JInt i"
| "jsonb (JDec s) = JDec s"
| "jsonb (JStr s) = JStr s"
| "jsonb (JArr vs) = JArr (map jsonb vs)"
| "jsonb (JObj kvs) = JObj (jsonb_object (map (map_prod id jsonb) kvs))"

section \<open>Decoding\<close>

definition json_type_error :: go_error where
  "json_type_error = ErrorNew ''json: cannot unmarshal value into Go struct field''"

definition json_syntax_error :: go_error where
  "json_syntax_error = ErrorNew ''invalid character in JSON text''"

text \<open>The case folding of field names, whose only non-ASCII cases are the Kelvin sign and the long s.\<close>

fun fold_name :: "string \<Rightarrow> string" where
  "fold_name [] = []"
| "fold_name (a # s) =
     (if 97 \<le> (of_char a :: nat) \<and> (of_char a :: nat) \<le> 122 then char_of (of_char a - 32 :: nat) # fold_name s
      else a # fold_name s)"

fun fold_special :: "string \<Rightarrow> string" where
  "fold_special (a # b # c # s) =
     (if [a, b, c] = [CHR 0xE2, CHR 0x84, CHR 0xAA] then CHR ''K'' # fold_special s
      else if [a, b] = [CHR 0xC5, CHR 0xBF] then CHR ''S'' # fold_special (c # s)
      else a # fold_special (b # c # s))"
| "fold_special [a, b] = (if [a, b] = [CHR 0xC5, CHR 0xBF] then ''S'' else [a, b])"
| "fold_special s = s"

definition match_field :: "string list \<Rightarrow> string \<Rightarrow> string option" where
  "match_field names key =
     (if key \<in> set names then Some key
      else find (\<lambda>n. fold_special (fold_name key) = fold_name n) names)"

text \<open>A struct is the table of its fields; decoding a value yields the assignment to the field.\<close>

type_synonym 'r decoder = "json \<Rightarrow> ('r \<Rightarrow> 'r) result"
type_synonym 'r fields = "(string \<times> 'r decoder) list"

fun decode_fields :: "'r fields \<Rightarrow> (string \<times> json) list \<Rightarrow> 'r \<Rightarrow> 'r result" where
  "decode_fields tbl [] r = Inr r"
| "decode_fields tbl ((k, v) # kvs) r =
     (case match_field (map fst tbl) k of
        None \<Rightarrow> decode_fields tbl kvs r
      | Some n \<Rightarrow> bindR (the (map_of tbl n) v) (\<lambda>f. decode_fields tbl kvs (f r)))"

definition decode_struct :: "'r fields \<Rightarrow> 'r \<Rightarrow> json \<Rightarrow> 'r result" where
  "decode_struct tbl r v =
     (case v of JNull \<Rightarrow> Inr r | JObj kvs \<Rightarrow> decode_fields tbl kvs r | _ \<Rightarrow> Inl json_type_error)"

text \<open>One decoder per Go kind. Null leaves a value as it is and clears a pointer or slice.\<close>

definition d_string :: "(string \<Rightarrow> 'r \<Rightarrow> 'r) \<Rightarrow> 'r decoder" where
  "d_string u v = (case v of JStr s \<Rightarrow> Inr (u s) | JNull \<Rightarrow> Inr id | _ \<Rightarrow> Inl json_type_error)"

definition d_bool :: "(bool \<Rightarrow> 'r \<Rightarrow> 'r) \<Rightarrow> 'r decoder" where
  "d_bool u v = (case v of JBool b \<Rightarrow> Inr (u b) | JNull \<Rightarrow> Inr id | _ \<Rightarrow> Inl json_type_error)"

definition int64 :: "int \<Rightarrow> bool" where
  "int64 i \<longleftrightarrow> - (2 ^ 63) \<le> i \<and> i < 2 ^ 63"

definition d_int :: "(int \<Rightarrow> 'r \<Rightarrow> 'r) \<Rightarrow> 'r decoder" where
  "d_int u v =
     (case v of JInt i \<Rightarrow> if int64 i then Inr (u i) else Inl json_type_error
      | JNull \<Rightarrow> Inr id | _ \<Rightarrow> Inl json_type_error)"

definition d_pointer :: "('a option \<Rightarrow> 'r \<Rightarrow> 'r) \<Rightarrow> (json \<Rightarrow> 'a result) \<Rightarrow> 'r decoder" where
  "d_pointer u elem v = (case v of JNull \<Rightarrow> Inr (u None) | _ \<Rightarrow> bindR (elem v) (\<lambda>a. Inr (u (Some a))))"

fun mapR :: "('a \<Rightarrow> 'b result) \<Rightarrow> 'a list \<Rightarrow> 'b list result" where
  "mapR f [] = Inr []"
| "mapR f (x # xs) = bindR (f x) (\<lambda>y. bindR (mapR f xs) (\<lambda>ys. Inr (y # ys)))"

definition v_slice :: "(json \<Rightarrow> 'a result) \<Rightarrow> json \<Rightarrow> 'a list result" where
  "v_slice elem v = (case v of JNull \<Rightarrow> Inr [] | JArr vs \<Rightarrow> mapR elem vs | _ \<Rightarrow> Inl json_type_error)"

definition d_slice :: "('a list \<Rightarrow> 'r \<Rightarrow> 'r) \<Rightarrow> (json \<Rightarrow> 'a result) \<Rightarrow> 'r decoder" where
  "d_slice u elem v = bindR (v_slice elem v) (\<lambda>xs. Inr (u xs))"

text \<open>The same kinds as elements of a pointer or slice.\<close>

definition v_string :: "json \<Rightarrow> string result" where
  "v_string v = bindR (d_string (\<lambda>s _. s) v) (\<lambda>f. Inr (f []))"

definition v_bool :: "json \<Rightarrow> bool result" where
  "v_bool v = bindR (d_bool (\<lambda>b _. b) v) (\<lambda>f. Inr (f False))"

definition v_int :: "json \<Rightarrow> int result" where
  "v_int v = bindR (d_int (\<lambda>i _. i) v) (\<lambda>f. Inr (f 0))"

definition d_raw :: "json_env \<Rightarrow> (string \<Rightarrow> 'r \<Rightarrow> 'r) \<Rightarrow> 'r decoder" where
  "d_raw env u v = Inr (u (js_print env v))"

section \<open>Encoding\<close>

text \<open>Struct fields, as they appear or are left out under \<open>omitempty\<close>.\<close>

definition e_string :: "string \<Rightarrow> string \<Rightarrow> (string \<times> json) list" where
  "e_string k s = [(k, JStr (json_text s))]"

definition e_string_omit :: "string \<Rightarrow> string \<Rightarrow> (string \<times> json) list" where
  "e_string_omit k s = (if s = [] then [] else e_string k s)"

definition e_int :: "string \<Rightarrow> int \<Rightarrow> (string \<times> json) list" where
  "e_int k i = [(k, JInt i)]"

definition e_bool_omit :: "string \<Rightarrow> bool \<Rightarrow> (string \<times> json) list" where
  "e_bool_omit k b = (if b then [(k, JBool True)] else [])"

definition e_pointer_omit :: "string \<Rightarrow> ('a \<Rightarrow> json) \<Rightarrow> 'a option \<Rightarrow> (string \<times> json) list" where
  "e_pointer_omit k f p = (case p of None \<Rightarrow> [] | Some a \<Rightarrow> [(k, f a)])"

definition e_slice_omit :: "string \<Rightarrow> ('a \<Rightarrow> json) \<Rightarrow> 'a list \<Rightarrow> (string \<times> json) list" where
  "e_slice_omit k f xs = (if xs = [] then [] else [(k, JArr (map f xs))])"

text \<open>Raw JSON must be a JSON text; a nil raw field that is not omitted is null.\<close>

definition e_raw_omit :: "json_env \<Rightarrow> string \<Rightarrow> string \<Rightarrow> (string \<times> json) list result" where
  "e_raw_omit env k s =
     (if s = [] then Inr []
      else case js_parse env s of None \<Rightarrow> Inl json_syntax_error | Some v \<Rightarrow> Inr [(k, v)])"

definition e_raw :: "json_env \<Rightarrow> string \<Rightarrow> string \<Rightarrow> (string \<times> json) list result" where
  "e_raw env k s =
     (if s = [] then Inr [(k, JNull)]
      else case js_parse env s of None \<Rightarrow> Inl json_syntax_error | Some v \<Rightarrow> Inr [(k, v)])"

section \<open>Facts\<close>

lemma json_text_Nil [simp]: "json_text [] = []"
  by (simp add: json_text_def)

lemma runes_concat_encode: "list_all valid_rune rs \<Longrightarrow> runes (concat (map encode_rune rs)) = rs"
  by (induction rs) (simp_all add: runes_encode)

lemma json_text_idem [simp]: "json_text (json_text s) = json_text s"
  using valid_runes [of _ s] by (simp add: json_text_def runes_concat_encode list_all_iff)

lemma json_text_Nil_iff [simp]: "json_text s = [] \<longleftrightarrow> s = []"
proof -
  have "encode_rune r \<noteq> []" for r by (simp add: encode_rune_def)
  then show ?thesis by (cases "s = []") (simp_all add: json_text_def runes.simps [of s])
qed

lemma match_field_exact [simp]: "k \<in> set names \<Longrightarrow> match_field names k = Some k"
  by (simp add: match_field_def)

lemmas d_defs = d_string_def d_bool_def d_int_def d_pointer_def d_slice_def d_raw_def

text \<open>A decoder that leaves the observation \<open>get\<close> alone, and one that decides it.\<close>

definition frames :: "('r \<Rightarrow> 'a) \<Rightarrow> 'r decoder \<Rightarrow> bool" where
  "frames get d \<longleftrightarrow> (\<forall>v f x. d v = Inr f \<longrightarrow> get (f x) = get x)"

definition owns :: "('r \<Rightarrow> 'a) \<Rightarrow> 'r decoder \<Rightarrow> bool" where
  "owns get d \<longleftrightarrow> (\<forall>v f x y. d v = Inr f \<longrightarrow> get x = get y \<longrightarrow> get (f x) = get (f y))"

fun field_of :: "('r \<Rightarrow> 'a) \<Rightarrow> string \<Rightarrow> 'r fields \<Rightarrow> bool" where
  "field_of get k [] = True"
| "field_of get k ((n, d) # tbl) = ((if n = k then owns get d else frames get d) \<and> field_of get k tbl)"

lemma field_ofD: "field_of get k tbl \<Longrightarrow> (n, d) \<in> set tbl \<Longrightarrow> if n = k then owns get d else frames get d"
  by (induction get k tbl rule: field_of.induct) auto

named_theorems field_laws "framing and ownership of the field decoders"

lemma frames_d [field_laws]:
  "(\<And>s x. get (u1 s x) = get x) \<Longrightarrow> frames get (d_string u1)"
  "(\<And>s x. get (u2 s x) = get x) \<Longrightarrow> frames get (d_bool u2)"
  "(\<And>s x. get (u3 s x) = get x) \<Longrightarrow> frames get (d_int u3)"
  "(\<And>s x. get (u4 s x) = get x) \<Longrightarrow> frames get (d_pointer u4 e4)"
  "(\<And>s x. get (u5 s x) = get x) \<Longrightarrow> frames get (d_slice u5 e5)"
  "(\<And>s x. get (u6 s x) = get x) \<Longrightarrow> frames get (d_raw env u6)"
  by (auto simp: frames_def d_defs bindR_eq_Inr split: json.splits if_splits)

lemma owns_d [field_laws]:
  "(\<And>s x. get (u1 s x) = s) \<Longrightarrow> owns get (d_string u1)"
  "(\<And>s x. get2 (u2 s x) = s) \<Longrightarrow> owns get2 (d_bool u2)"
  "(\<And>s x. get3 (u3 s x) = s) \<Longrightarrow> owns get3 (d_int u3)"
  "(\<And>s x. get4 (u4 s x) = s) \<Longrightarrow> owns get4 (d_pointer u4 e4)"
  "(\<And>s x. get5 (u5 s x) = s) \<Longrightarrow> owns get5 (d_slice u5 e5)"
  "(\<And>s x. get6 (u6 s x) = s) \<Longrightarrow> owns get6 (d_raw env u6)"
  by (auto simp: owns_def d_defs bindR_eq_Inr split: json.splits if_splits)

definition assigned :: "'r decoder \<Rightarrow> json \<Rightarrow> 'r \<Rightarrow> 'r" where
  "assigned d v = (case d v of Inr f \<Rightarrow> f | Inl _ \<Rightarrow> id)"

lemma key_in_table:
  assumes "map_of kvs k = Some w" "fst ` set kvs \<subseteq> fst ` set tbl"
  shows "\<exists>d. map_of tbl k = Some d \<and> (k, d) \<in> set tbl"
proof -
  have "k \<in> fst ` set tbl" using assms map_of_SomeD [OF assms(1)] by force
  then show ?thesis by (cases "map_of tbl k") (auto simp: map_of_eq_None_iff dest: map_of_SomeD)
qed

text \<open>A field of a decoded struct depends on the value under its name only, not on the order of keys.\<close>

lemma decode_fields_get:
  assumes "decode_fields tbl kvs r = Inr r'"
    and "distinct (map fst kvs)" and "fst ` set kvs \<subseteq> fst ` set tbl"
    and "field_of get k tbl"
  shows "get r' = (case map_of kvs k of None \<Rightarrow> get r | Some v \<Rightarrow> get (assigned (the (map_of tbl k)) v r))"
  using assms
proof (induction tbl kvs r rule: decode_fields.induct)
  case (2 tbl n v kvs r)
  have n: "match_field (map fst tbl) n = Some n" using "2.prems"(3) by (auto simp: match_field_def)
  obtain d where d: "map_of tbl n = Some d" "(n, d) \<in> set tbl"
    using "2.prems"(3) key_in_table [of "(n, v) # kvs" n v tbl] by auto
  obtain f where f: "d v = Inr f" "decode_fields tbl kvs (f r) = Inr r'"
    using "2.prems"(1) by (auto simp: n d bindR_eq_Inr)
  have IH: "get r' = (case map_of kvs k of None \<Rightarrow> get (f r) | Some v \<Rightarrow> get (assigned (the (map_of tbl k)) v (f r)))"
    by (rule "2.IH"(2) [OF n]) (use f d "2.prems" in auto)
  show ?case
  proof (cases "n = k")
    case True
    then have "map_of kvs k = None" using "2.prems"(2) by (auto simp: map_of_eq_None_iff)
    then show ?thesis using IH f(1) d(1) True by (simp add: assigned_def)
  next
    case False
    have fr: "get (f r) = get r"
    proof -
      have "frames get d" using field_ofD [OF "2.prems"(4) d(2)] False by simp
      then show ?thesis using f(1) by (simp add: frames_def)
    qed
    have "get (assigned (the (map_of tbl k)) w (f r)) = get (assigned (the (map_of tbl k)) w r)"
      if w: "map_of kvs k = Some w" for w
    proof -
      obtain dk where dk: "map_of tbl k = Some dk" "(k, dk) \<in> set tbl"
        using key_in_table [OF w, of tbl] "2.prems"(3) by auto
      then have "owns get dk" using field_ofD [OF "2.prems"(4) dk(2)] by simp
      then have "get (g (f r)) = get (g r)" if "dk w = Inr g" for g
        using that fr unfolding owns_def by blast
      then show ?thesis by (cases "dk w") (use fr dk(1) in \<open>simp_all add: assigned_def\<close>)
    qed
    then show ?thesis using IH fr False by (auto split: option.splits)
  qed
qed simp

lemma decode_fields_ok:
  assumes "fst ` set kvs \<subseteq> fst ` set tbl"
    and "list_all (\<lambda>(k, v). \<exists>f. the (map_of tbl k) v = Inr f) kvs"
  shows "\<exists>r'. decode_fields tbl kvs r = Inr r'"
  using assms by (induction tbl kvs r rule: decode_fields.induct) (auto simp: match_field_def)

text \<open>JSONB keeps what is under each key.\<close>

abbreviation update_all :: "(string \<times> 'v) list \<Rightarrow> (string \<times> 'v) list" where
  "update_all kvs \<equiv> fold (\<lambda>kv m. AList.update (fst kv) (snd kv) m) kvs []"

lemma wf_update_all: "wf_map (update_all kvs)"
proof -
  have "wf_map m \<Longrightarrow> wf_map (fold (\<lambda>kv m. AList.update (fst kv) (snd kv) m) kvs m)" for m
    by (induction kvs arbitrary: m) auto
  then show ?thesis by simp
qed

lemma distinct_jsonb_object: "distinct (map fst (jsonb_object kvs))"
  using wf_update_all [of kvs] unfolding jsonb_object_def wf_map_def by (simp add: distinct_map)

lemma map_of_update_all: "map_of (update_all kvs) = map_of (rev kvs)"
  by (rule ext) (simp add: map_of_fold_update split: option.splits)

lemma map_of_jsonb_object_rev: "map_of (jsonb_object kvs) = map_of (rev kvs)"
proof -
  have "map_of (jsonb_object kvs) = map_of (update_all kvs)"
    using distinct_jsonb_object [of kvs] wf_update_all [of kvs]
    by (subst map_of_inject_set) (simp_all add: jsonb_object_def wf_map_def)
  then show ?thesis by (simp add: map_of_update_all)
qed

lemma set_jsonb_object: "fst ` set (jsonb_object kvs) = fst ` set kvs"
proof -
  have "dom (map_of (jsonb_object kvs)) = dom (map_of (rev kvs))" by (simp add: map_of_jsonb_object_rev)
  then show ?thesis by (simp only: dom_map_of_conv_image_fst set_rev)
qed

lemma map_of_jsonb_object:
  assumes "distinct (map fst kvs)"
  shows "map_of (jsonb_object kvs) = map_of kvs"
  unfolding map_of_jsonb_object_rev using assms by (subst map_of_inject_set) (simp_all add: rev_map [symmetric])

lemma map_of_jsonb_map:
  "distinct (map fst kvs) \<Longrightarrow>
   map_of (jsonb_object (map (map_prod id jsonb) kvs)) k = map_option jsonb (map_of kvs k)"
  by (subst map_of_jsonb_object) (simp_all add: map_prod_def case_prod_unfold comp_def map_of_map [unfolded case_prod_unfold])

lemma mapR_map: "(\<And>x. x \<in> set xs \<Longrightarrow> f (g x) = Inr (h x)) \<Longrightarrow> mapR f (map g xs) = Inr (map h xs)"
  by (induction xs) simp_all

lemma mapR_Inr: "mapR f xs = Inr ys \<Longrightarrow> list_all2 (\<lambda>x y. f x = Inr y) xs ys"
  by (induction xs arbitrary: ys) (auto simp: bindR_eq_Inr)

lemma set_AList_update: "set (AList.update k v m) \<subseteq> insert (k, v) (set m)"
  by (induction m) auto

lemma set_update_all: "set (update_all kvs) \<subseteq> set kvs"
proof -
  have "set (fold (\<lambda>kv m. AList.update (fst kv) (snd kv) m) kvs m) \<subseteq> set kvs \<union> set m" for m
  proof (induction kvs arbitrary: m)
    case (Cons kv kvs)
    then show ?case using set_AList_update [of "fst kv" "snd kv" m] by fastforce
  qed simp
  then show ?thesis by (metis list.set(1) sup_bot.right_neutral)
qed

lemma AList_update_new: "k \<notin> fst ` set m \<Longrightarrow> AList.update k v m = m @ [(k, v)]"
  by (induction m) auto

lemma update_all_distinct: "distinct (map fst kvs) \<Longrightarrow> update_all kvs = kvs"
proof (induction kvs rule: rev_induct)
  case (snoc kv kvs)
  then show ?case by (cases kv) (simp add: AList_update_new)
qed simp

lemma jsonb_object_id: "distinct (map fst kvs) \<Longrightarrow> sorted (map fst kvs) \<Longrightarrow> jsonb_object kvs = kvs"
  by (simp add: jsonb_object_def update_all_distinct sort_key_id_if_sorted)

lemma jsonb_idem [simp]: "jsonb (jsonb v) = jsonb v"
proof (induction v)
  case (JObj kvs)
  let ?o = "jsonb_object (map (map_prod id jsonb) kvs)"
  have "set ?o \<subseteq> set (map (map_prod id jsonb) kvs)"
    using set_update_all [of "map (map_prod id jsonb) kvs"] by (simp add: jsonb_object_def)
  then have "map_prod id jsonb kv = kv" if "kv \<in> set ?o" for kv
    using that JObj by (force simp: map_prod_def)
  then have "map (map_prod id jsonb) ?o = ?o" by (rule map_idI)
  moreover have "jsonb_object ?o = ?o"
    by (rule jsonb_object_id [OF distinct_jsonb_object]) (simp add: jsonb_object_def)
  ultimately show ?case by simp
qed (simp_all cong: map_cong)

section \<open>A struct through JSONB\<close>

text \<open>The fields an encoder writes: at most one entry per name, in the order of the struct.\<close>

definition opt_field :: "string \<Rightarrow> (string \<times> json) list \<Rightarrow> bool" where
  "opt_field k l \<longleftrightarrow> l = [] \<or> (\<exists>v. l = [(k, v)])"

lemma opt_field_e [intro]:
  "opt_field k (e_string k s)" "opt_field k (e_string_omit k s)" "opt_field k (e_int k i)"
  "opt_field k (e_bool_omit k b)" "opt_field k (e_pointer_omit k f p)" "opt_field k (e_slice_omit k g xs)"
  by (auto simp: opt_field_def e_string_def e_string_omit_def e_int_def e_bool_omit_def
      e_pointer_omit_def e_slice_omit_def split: option.splits)

lemma opt_field_raw [intro]:
  "e_raw_omit env k s = Inr l \<Longrightarrow> opt_field k l" "e_raw env k s = Inr l \<Longrightarrow> opt_field k l"
  by (auto simp: opt_field_def e_raw_omit_def e_raw_def split: option.splits if_splits)

lemma fields_last: "opt_field k a \<Longrightarrow> subseq (map fst a) [k]"
  by (auto simp: opt_field_def)

lemma fields_step: "opt_field k a \<Longrightarrow> subseq (map fst r) ks \<Longrightarrow> subseq (map fst (a @ r)) (k # ks)"
  by (auto simp: opt_field_def)

lemma map_of_e:
  "map_of (e_string k s) x = (if x = k then Some (JStr (json_text s)) else None)"
  "map_of (e_string_omit k s) x = (if x = k \<and> s \<noteq> [] then Some (JStr (json_text s)) else None)"
  "map_of (e_int k i) x = (if x = k then Some (JInt i) else None)"
  "map_of (e_bool_omit k b) x = (if x = k \<and> b then Some (JBool True) else None)"
  "map_of (e_pointer_omit k f p) x = (if x = k \<and> p \<noteq> None then Some (f (the p)) else None)"
  "map_of (e_slice_omit k g xs) x = (if x = k \<and> xs \<noteq> [] then Some (JArr (map g xs)) else None)"
  by (auto simp: e_string_def e_string_omit_def e_int_def e_bool_omit_def e_pointer_omit_def
      e_slice_omit_def split: option.splits)

lemmas map_of_members = map_of_e map_of_append map_add_def

lemma subseq_set: "subseq xs ys \<Longrightarrow> set xs \<subseteq> set ys"
  by (induction xs ys rule: list_emb.induct) auto

lemma subseq_distinct: "subseq xs ys \<Longrightarrow> distinct ys \<Longrightarrow> distinct xs"
  by (induction xs ys rule: list_emb.induct) (auto dest: subseq_set)

text \<open>Decoding what JSONB stores of an object.\<close>

lemma decode_stored_get:
  assumes "decode_struct tbl r (jsonb (JObj kvs)) = Inr r'"
    and "subseq (map fst kvs) (map fst tbl)" and "distinct (map fst tbl)" and "field_of get k tbl"
  shows "get r' = (case map_of kvs k of None \<Rightarrow> get r | Some v \<Rightarrow> get (assigned (the (map_of tbl k)) (jsonb v) r))"
proof -
  let ?j = "jsonb_object (map (map_prod id jsonb) kvs)"
  have d: "distinct (map fst kvs)" using assms(2,3) by (rule subseq_distinct)
  have sub: "fst ` set ?j \<subseteq> fst ` set tbl"
    using subseq_set [OF assms(2)] by (simp add: set_jsonb_object image_image)
  have "decode_fields tbl ?j r = Inr r'" using assms(1) by (simp add: decode_struct_def)
  from decode_fields_get [OF this distinct_jsonb_object sub assms(4)]
  show ?thesis by (simp add: map_of_jsonb_map [OF d] split: option.splits)
qed

lemma list_all_e:
  "list_all P (e_string k s) \<longleftrightarrow> P (k, JStr (json_text s))"
  "list_all P (e_string_omit k s) \<longleftrightarrow> s = [] \<or> P (k, JStr (json_text s))"
  "list_all P (e_int k i) \<longleftrightarrow> P (k, JInt i)"
  "list_all P (e_bool_omit k b) \<longleftrightarrow> \<not> b \<or> P (k, JBool True)"
  "list_all P (e_pointer_omit k f p) \<longleftrightarrow> p = None \<or> P (k, f (the p))"
  "list_all P (e_slice_omit k g xs) \<longleftrightarrow> xs = [] \<or> P (k, JArr (map g xs))"
  by (auto simp: e_string_def e_string_omit_def e_int_def e_bool_omit_def e_pointer_omit_def
      e_slice_omit_def split: option.splits)

lemma decode_stored_ok:
  assumes "subseq (map fst kvs) (map fst tbl)" and "distinct (map fst tbl)"
    and "list_all (\<lambda>(k, v). \<exists>f. the (map_of tbl k) (jsonb v) = Inr f) kvs"
  shows "\<exists>r'. decode_struct tbl r (jsonb (JObj kvs)) = Inr r'"
proof -
  let ?j = "jsonb_object (map (map_prod id jsonb) kvs)"
  have d: "distinct (map fst kvs)" using assms(1,2) by (rule subseq_distinct)
  have sub: "fst ` set ?j \<subseteq> fst ` set tbl" using subseq_set [OF assms(1)] by (simp add: set_jsonb_object image_image)
  have "\<exists>f. the (map_of tbl k) v = Inr f" if "(k, v) \<in> set ?j" for k v
  proof -
    have "map_of ?j k = Some v" using that distinct_jsonb_object by (simp add: map_of_eq_Some_iff)
    then obtain w where w: "map_of kvs k = Some w" "v = jsonb w" by (auto simp: map_of_jsonb_map [OF d])
    then show ?thesis using assms(3) map_of_SomeD [OF w(1)] by (auto simp: list_all_iff)
  qed
  then have "list_all (\<lambda>(k, v). \<exists>f. the (map_of tbl k) v = Inr f) ?j" by (auto simp: list_all_iff)
  from decode_fields_ok [OF sub this, of r] show ?thesis by (simp add: decode_struct_def)
qed

lemma json_text_ascii_iff:
  assumes "list_all (\<lambda>c. of_char c < (0x80 :: nat)) t"
  shows "json_text s = t \<longleftrightarrow> s = t"
proof
  have t: "runes t = map of_char t" using runes_ascii_append [OF assms, of "[]"] by simp
  assume "json_text s = t"
  then have "runes (json_text s) = runes t" by simp
  then have "runes s = runes t"
    using valid_runes [of _ s] by (simp add: json_text_def runes_concat_encode list_all_iff)
  then show "s = t" using t assms by (intro runes_ascii_eq) simp_all
next
  assume "s = t"
  have "concat (map (encode_rune \<circ> of_char) t) = t"
    using assms by (induction t) (simp_all add: encode_rune_def)
  then show "json_text s = t"
    using runes_ascii_append [OF assms, of "[]"] \<open>s = t\<close> by (simp add: json_text_def)
qed

lemma decode_fields_invariant:
  assumes "decode_fields tbl kvs r = Inr r'" "P r"
    and "\<forall>(n, d) \<in> set tbl. \<forall>v f x. d v = Inr f \<longrightarrow> P x \<longrightarrow> P (f x)"
  shows "P r'"
  using assms
proof (induction tbl kvs r rule: decode_fields.induct)
  case (2 tbl k v kvs r)
  show ?case
  proof (cases "match_field (map fst tbl) k")
    case None
    then show ?thesis using 2 by simp
  next
    case (Some n)
    then have "n \<in> set (map fst tbl)" by (auto simp: match_field_def find_Some_iff split: if_splits)
    then obtain dec where dec: "map_of tbl n = Some dec" by (cases "map_of tbl n") (auto simp: map_of_eq_None_iff)
    then obtain f where f: "dec v = Inr f" "decode_fields tbl kvs (f r) = Inr r'"
      using "2.prems"(1) Some by (auto simp: bindR_eq_Inr)
    have "P (f r)" using "2.prems"(2,3) map_of_SomeD [OF dec] f(1) by blast
    then show ?thesis using "2.IH"(2) [OF Some, of f] f dec "2.prems"(3) by simp
  qed
qed simp


lemma decode_struct_invariant:
  assumes "decode_struct tbl r v = Inr r'" "P r"
    and "list_all (\<lambda>(n, d). \<forall>v f x. d v = Inr f \<longrightarrow> P x \<longrightarrow> P (f x)) tbl"
  shows "P r'"
  using assms decode_fields_invariant [of tbl _ r r' P]
  by (cases v) (auto simp: decode_struct_def list_all_iff)

lemma mapR_all: "mapR f xs = Inr ys \<Longrightarrow> (\<And>x y. f x = Inr y \<Longrightarrow> P y) \<Longrightarrow> list_all P ys"
  by (induction xs arbitrary: ys) (auto simp: bindR_eq_Inr)

lemma v_slice_all: "v_slice f v = Inr ys \<Longrightarrow> (\<And>x y. f x = Inr y \<Longrightarrow> P y) \<Longrightarrow> list_all P ys"
  by (auto simp: v_slice_def intro: mapR_all split: json.splits)

lemma v_int_int64: "v_int v = Inr i \<Longrightarrow> int64 i"
  by (auto simp: v_int_def d_int_def bindR_eq_Inr int64_def split: json.splits if_splits)

end
