(* ===== verification/Content_Blocks.thy ===== *)
theory Content_Blocks
  imports Json_Values Turn_Sequence
begin

text \<open>
  The content blocks of a turn (\<open>src/conversation/content_block.go\<close>, \<open>src/conversation/helpers.go\<close>):
  their JSON form, the redaction for readers other than the requester, display sanitizing, and the
  blocks a round of the agent loop is written as.

  \<open>Input\<close>, \<open>Results\<close> and \<open>ExecutedQueries\<close> are raw JSON texts and stay strings, with \<open>''''\<close> for nil.
  The content of a turn is the JSON value of its text, \<open>None\<close> for the empty text. Nil and empty
  slices behave alike under every operation here, so both are \<open>[]\<close>, and cloning a value is the value.
\<close>

section \<open>Blocks\<close>

definition BlockTypeText :: string where "BlockTypeText = ''text''"
definition BlockTypeThinking :: string where "BlockTypeThinking = ''thinking''"
definition BlockTypeToolUse :: string where "BlockTypeToolUse = ''tool_use''"
definition BlockTypeToolResult :: string where "BlockTypeToolResult = ''tool_result''"
definition BlockTypeFile :: string where "BlockTypeFile = ''file''"
definition BlockTypeImage :: string where "BlockTypeImage = ''image''"
definition BlockTypeAnnotations :: string where "BlockTypeAnnotations = ''annotations''"
definition BlockTypeServerToolUse :: string where "BlockTypeServerToolUse = ''server_tool_use''"

definition StatusPending :: string where "StatusPending = ''pending''"
definition StatusAccepted :: string where "StatusAccepted = ''accepted''"
definition StatusRejected :: string where "StatusRejected = ''rejected''"
definition StatusError :: string where "StatusError = ''error''"
definition StatusSuccess :: string where "StatusSuccess = ''success''"
definition StatusAutoApproved :: string where "StatusAutoApproved = ''auto_approved''"

named_theorems block_consts "block types and statuses"
declare BlockTypeText_def [block_consts] BlockTypeThinking_def [block_consts]
  BlockTypeToolUse_def [block_consts] BlockTypeToolResult_def [block_consts]
  BlockTypeFile_def [block_consts] BlockTypeImage_def [block_consts]
  BlockTypeAnnotations_def [block_consts] BlockTypeServerToolUse_def [block_consts]
  StatusPending_def [block_consts] StatusAccepted_def [block_consts] StatusRejected_def [block_consts]
  StatusError_def [block_consts] StatusSuccess_def [block_consts] StatusAutoApproved_def [block_consts]

record Citation =
  ct_Type :: string
  ct_URL :: string
  ct_Title :: string
  ct_StartIndex :: int
  ct_EndIndex :: int

record WebSearchContext =
  ws_Results :: string
  ws_ExecutedQueries :: string
  ws_Count :: int

record ContentBlock =
  cb_Type :: string
  cb_Text :: string
  cb_Signature :: string
  cb_Citations :: "Citation list"
  cb_SyntheticKind :: string
  cb_ID :: string
  cb_Name :: string
  cb_ServerOrigin :: string
  cb_Input :: string
  cb_MCPBareName :: string
  cb_Status :: string
  cb_Shared :: "bool option"
  cb_Title :: string
  cb_Description :: string
  cb_UserInteraction :: string
  cb_WouldAutoExecute :: bool
  cb_DecidedAt :: "int option"
  cb_ToolUseID :: string
  cb_Content :: string
  cb_Filename :: string
  cb_MimeType :: string
  cb_FileID :: string
  cb_WebSearchContext :: "WebSearchContext option"
  cb_ServerTool :: "ServerToolUse option"

text \<open>The zero block; a composite literal sets some fields of it.\<close>

definition block0 :: ContentBlock where
  "block0 = \<lparr>cb_Type = [], cb_Text = [], cb_Signature = [], cb_Citations = [], cb_SyntheticKind = [],
     cb_ID = [], cb_Name = [], cb_ServerOrigin = [], cb_Input = [], cb_MCPBareName = [], cb_Status = [],
     cb_Shared = None, cb_Title = [], cb_Description = [], cb_UserInteraction = [],
     cb_WouldAutoExecute = False, cb_DecidedAt = None, cb_ToolUseID = [], cb_Content = [],
     cb_Filename = [], cb_MimeType = [], cb_FileID = [], cb_WebSearchContext = None, cb_ServerTool = None\<rparr>"

section \<open>JSON\<close>

definition members_Citation :: "Citation \<Rightarrow> (string \<times> json) list" where
  "members_Citation c = e_string ''type'' (ct_Type c) @ e_string_omit ''url'' (ct_URL c)
     @ e_string_omit ''title'' (ct_Title c) @ e_int ''start_index'' (ct_StartIndex c)
     @ e_int ''end_index'' (ct_EndIndex c)"

definition encode_Citation :: "Citation \<Rightarrow> json" where
  "encode_Citation c = JObj (members_Citation c)"

definition fields_Citation :: "Citation fields" where
  "fields_Citation =
     [(''type'', d_string (\<lambda>s. ct_Type_update (\<lambda>_. s))),
      (''url'', d_string (\<lambda>s. ct_URL_update (\<lambda>_. s))),
      (''title'', d_string (\<lambda>s. ct_Title_update (\<lambda>_. s))),
      (''start_index'', d_int (\<lambda>i. ct_StartIndex_update (\<lambda>_. i))),
      (''end_index'', d_int (\<lambda>i. ct_EndIndex_update (\<lambda>_. i)))]"

definition decode_Citation :: "json \<Rightarrow> Citation result" where
  "decode_Citation v = decode_struct fields_Citation
     \<lparr>ct_Type = [], ct_URL = [], ct_Title = [], ct_StartIndex = 0, ct_EndIndex = 0\<rparr> v"

definition encode_WebSearchContext :: "json_env \<Rightarrow> WebSearchContext \<Rightarrow> json result" where
  "encode_WebSearchContext env w =
     bindR (e_raw env ''results'' (ws_Results w)) (\<lambda>rs.
     bindR (e_raw env ''executed_queries'' (ws_ExecutedQueries w)) (\<lambda>qs.
       Inr (JObj (rs @ qs @ e_int ''count'' (ws_Count w)))))"

definition fields_WebSearchContext :: "json_env \<Rightarrow> WebSearchContext fields" where
  "fields_WebSearchContext env =
     [(''results'', d_raw env (\<lambda>s. ws_Results_update (\<lambda>_. s))),
      (''executed_queries'', d_raw env (\<lambda>s. ws_ExecutedQueries_update (\<lambda>_. s))),
      (''count'', d_int (\<lambda>i. ws_Count_update (\<lambda>_. i)))]"

definition decode_WebSearchContext :: "json_env \<Rightarrow> json \<Rightarrow> WebSearchContext result" where
  "decode_WebSearchContext env v = decode_struct (fields_WebSearchContext env)
     \<lparr>ws_Results = [], ws_ExecutedQueries = [], ws_Count = 0\<rparr> v"

definition e_string_value :: "string \<Rightarrow> json" where
  "e_string_value s = JStr (json_text s)"

definition members_ServerToolUse :: "ServerToolUse \<Rightarrow> (string \<times> json) list" where
  "members_ServerToolUse u = e_string ''id'' (su_ID u) @ e_string ''tool'' (su_Tool u)
     @ e_string ''status'' (su_Status u) @ e_string_omit ''query'' (su_Query u)
     @ e_string_omit ''url'' (su_URL u) @ e_string_omit ''title'' (su_Title u)
     @ e_string_omit ''sub_tool'' (su_SubTool u) @ e_string_omit ''command'' (su_Command u)
     @ e_string_omit ''output'' (su_Output u) @ e_string_omit ''error_code'' (su_ErrorCode u)
     @ e_slice_omit ''file_ids'' e_string_value (su_FileIDs u)"

definition encode_ServerToolUse :: "ServerToolUse \<Rightarrow> json" where
  "encode_ServerToolUse u = JObj (members_ServerToolUse u)"

definition fields_ServerToolUse :: "ServerToolUse fields" where
  "fields_ServerToolUse =
     [(''id'', d_string (\<lambda>s. su_ID_update (\<lambda>_. s))),
      (''tool'', d_string (\<lambda>s. su_Tool_update (\<lambda>_. s))),
      (''status'', d_string (\<lambda>s. su_Status_update (\<lambda>_. s))),
      (''query'', d_string (\<lambda>s. su_Query_update (\<lambda>_. s))),
      (''url'', d_string (\<lambda>s. su_URL_update (\<lambda>_. s))),
      (''title'', d_string (\<lambda>s. su_Title_update (\<lambda>_. s))),
      (''sub_tool'', d_string (\<lambda>s. su_SubTool_update (\<lambda>_. s))),
      (''command'', d_string (\<lambda>s. su_Command_update (\<lambda>_. s))),
      (''output'', d_string (\<lambda>s. su_Output_update (\<lambda>_. s))),
      (''error_code'', d_string (\<lambda>s. su_ErrorCode_update (\<lambda>_. s))),
      (''file_ids'', d_slice (\<lambda>xs. su_FileIDs_update (\<lambda>_. xs)) v_string)]"

definition server_tool0 :: ServerToolUse where
  "server_tool0 = \<lparr>su_ID = [], su_Tool = [], su_Status = [], su_Query = [], su_URL = [], su_Title = [],
     su_SubTool = [], su_Command = [], su_Output = [], su_ErrorCode = [], su_FileIDs = [], su_ProviderRoute = []\<rparr>"

definition decode_ServerToolUse :: "json \<Rightarrow> ServerToolUse result" where
  "decode_ServerToolUse v = decode_struct fields_ServerToolUse server_tool0 v"

definition e_web_search :: "json_env \<Rightarrow> WebSearchContext option \<Rightarrow> (string \<times> json) list result" where
  "e_web_search env p = (case p of None \<Rightarrow> Inr []
     | Some w \<Rightarrow> bindR (encode_WebSearchContext env w) (\<lambda>v. Inr [(''web_search_context'', v)]))"

text \<open>The members of a block, given those of the two fields that may fail to encode.\<close>

definition members_ContentBlock ::
  "(string \<times> json) list \<Rightarrow> (string \<times> json) list \<Rightarrow> ContentBlock \<Rightarrow> (string \<times> json) list" where
  "members_ContentBlock input web b =
     e_string ''type'' (cb_Type b) @ e_string_omit ''text'' (cb_Text b)
       @ e_string_omit ''signature'' (cb_Signature b) @ e_slice_omit ''citations'' encode_Citation (cb_Citations b)
       @ e_string_omit ''synthetic_kind'' (cb_SyntheticKind b) @ e_string_omit ''id'' (cb_ID b)
       @ e_string_omit ''name'' (cb_Name b) @ e_string_omit ''server_origin'' (cb_ServerOrigin b) @ input
       @ e_string_omit ''mcp_bare_name'' (cb_MCPBareName b) @ e_string_omit ''status'' (cb_Status b)
       @ e_pointer_omit ''shared'' JBool (cb_Shared b) @ e_string_omit ''title'' (cb_Title b)
       @ e_string_omit ''description'' (cb_Description b)
       @ e_string_omit ''user_interaction'' (cb_UserInteraction b)
       @ e_bool_omit ''would_auto_execute'' (cb_WouldAutoExecute b)
       @ e_pointer_omit ''decided_at'' JInt (cb_DecidedAt b) @ e_string_omit ''tool_use_id'' (cb_ToolUseID b)
       @ e_string_omit ''content'' (cb_Content b) @ e_string_omit ''filename'' (cb_Filename b)
       @ e_string_omit ''mime_type'' (cb_MimeType b) @ e_string_omit ''file_id'' (cb_FileID b)
       @ web @ e_pointer_omit ''server_tool'' encode_ServerToolUse (cb_ServerTool b)"

definition encode_ContentBlock :: "json_env \<Rightarrow> ContentBlock \<Rightarrow> json result" where
  "encode_ContentBlock env b =
     bindR (e_raw_omit env ''input'' (cb_Input b)) (\<lambda>input.
     bindR (e_web_search env (cb_WebSearchContext b)) (\<lambda>web.
     Inr (JObj (members_ContentBlock input web b))))"

definition fields_ContentBlock :: "json_env \<Rightarrow> ContentBlock fields" where
  "fields_ContentBlock env =
     [(''type'', d_string (\<lambda>s. cb_Type_update (\<lambda>_. s))),
      (''text'', d_string (\<lambda>s. cb_Text_update (\<lambda>_. s))),
      (''signature'', d_string (\<lambda>s. cb_Signature_update (\<lambda>_. s))),
      (''citations'', d_slice (\<lambda>s. cb_Citations_update (\<lambda>_. s)) decode_Citation),
      (''synthetic_kind'', d_string (\<lambda>s. cb_SyntheticKind_update (\<lambda>_. s))),
      (''id'', d_string (\<lambda>s. cb_ID_update (\<lambda>_. s))),
      (''name'', d_string (\<lambda>s. cb_Name_update (\<lambda>_. s))),
      (''server_origin'', d_string (\<lambda>s. cb_ServerOrigin_update (\<lambda>_. s))),
      (''input'', d_raw env (\<lambda>s. cb_Input_update (\<lambda>_. s))),
      (''mcp_bare_name'', d_string (\<lambda>s. cb_MCPBareName_update (\<lambda>_. s))),
      (''status'', d_string (\<lambda>s. cb_Status_update (\<lambda>_. s))),
      (''shared'', d_pointer (\<lambda>s. cb_Shared_update (\<lambda>_. s)) v_bool),
      (''title'', d_string (\<lambda>s. cb_Title_update (\<lambda>_. s))),
      (''description'', d_string (\<lambda>s. cb_Description_update (\<lambda>_. s))),
      (''user_interaction'', d_string (\<lambda>s. cb_UserInteraction_update (\<lambda>_. s))),
      (''would_auto_execute'', d_bool (\<lambda>s. cb_WouldAutoExecute_update (\<lambda>_. s))),
      (''decided_at'', d_pointer (\<lambda>s. cb_DecidedAt_update (\<lambda>_. s)) v_int),
      (''tool_use_id'', d_string (\<lambda>s. cb_ToolUseID_update (\<lambda>_. s))),
      (''content'', d_string (\<lambda>s. cb_Content_update (\<lambda>_. s))),
      (''filename'', d_string (\<lambda>s. cb_Filename_update (\<lambda>_. s))),
      (''mime_type'', d_string (\<lambda>s. cb_MimeType_update (\<lambda>_. s))),
      (''file_id'', d_string (\<lambda>s. cb_FileID_update (\<lambda>_. s))),
      (''web_search_context'', d_pointer (\<lambda>s. cb_WebSearchContext_update (\<lambda>_. s)) (decode_WebSearchContext env)),
      (''server_tool'', d_pointer (\<lambda>s. cb_ServerTool_update (\<lambda>_. s)) decode_ServerToolUse)]"

definition decode_ContentBlock :: "json_env \<Rightarrow> json \<Rightarrow> ContentBlock result" where
  "decode_ContentBlock env v = decode_struct (fields_ContentBlock env) block0 v"

definition marshalBlocks :: "json_env \<Rightarrow> ContentBlock list \<Rightarrow> json result" where
  "marshalBlocks env blocks = bindR (mapR (encode_ContentBlock env) blocks) (\<lambda>vs. Inr (JArr vs))"

definition UnmarshalBlocks :: "json_env \<Rightarrow> json option \<Rightarrow> ContentBlock list result" where
  "UnmarshalBlocks env raw =
     (case raw of None \<Rightarrow> Inr [] | Some v \<Rightarrow> v_slice (decode_ContentBlock env) v)"

section \<open>Through the database\<close>

definition stored_Citation :: "Citation \<Rightarrow> Citation" where
  "stored_Citation c = \<lparr>ct_Type = json_text (ct_Type c), ct_URL = json_text (ct_URL c),
     ct_Title = json_text (ct_Title c), ct_StartIndex = ct_StartIndex c, ct_EndIndex = ct_EndIndex c\<rparr>"

definition stored_raw :: "json_env \<Rightarrow> string \<Rightarrow> string" where
  "stored_raw env s = js_print env (case js_parse env s of None \<Rightarrow> JNull | Some v \<Rightarrow> jsonb v)"

definition stored_WebSearchContext :: "json_env \<Rightarrow> WebSearchContext \<Rightarrow> WebSearchContext" where
  "stored_WebSearchContext env w =
     (let raw = (\<lambda>s. if s = [] then js_print env JNull else stored_raw env s) in
      \<lparr>ws_Results = raw (ws_Results w), ws_ExecutedQueries = raw (ws_ExecutedQueries w), ws_Count = ws_Count w\<rparr>)"

definition stored_ServerToolUse :: "ServerToolUse \<Rightarrow> ServerToolUse" where
  "stored_ServerToolUse u = \<lparr>su_ID = json_text (su_ID u), su_Tool = json_text (su_Tool u),
     su_Status = json_text (su_Status u), su_Query = json_text (su_Query u), su_URL = json_text (su_URL u),
     su_Title = json_text (su_Title u), su_SubTool = json_text (su_SubTool u),
     su_Command = json_text (su_Command u), su_Output = json_text (su_Output u),
     su_ErrorCode = json_text (su_ErrorCode u), su_FileIDs = map json_text (su_FileIDs u), su_ProviderRoute = []\<rparr>"

text \<open>What a block reads back as after a write: valid UTF-8, raw JSON as JSONB prints it, and no
  provider route.\<close>

definition stored_block :: "json_env \<Rightarrow> ContentBlock \<Rightarrow> ContentBlock" where
  "stored_block env b = \<lparr>cb_Type = json_text (cb_Type b), cb_Text = json_text (cb_Text b),
     cb_Signature = json_text (cb_Signature b), cb_Citations = map stored_Citation (cb_Citations b),
     cb_SyntheticKind = json_text (cb_SyntheticKind b), cb_ID = json_text (cb_ID b),
     cb_Name = json_text (cb_Name b), cb_ServerOrigin = json_text (cb_ServerOrigin b),
     cb_Input = (if cb_Input b = [] then [] else stored_raw env (cb_Input b)),
     cb_MCPBareName = json_text (cb_MCPBareName b), cb_Status = json_text (cb_Status b),
     cb_Shared = cb_Shared b, cb_Title = json_text (cb_Title b), cb_Description = json_text (cb_Description b),
     cb_UserInteraction = json_text (cb_UserInteraction b), cb_WouldAutoExecute = cb_WouldAutoExecute b,
     cb_DecidedAt = cb_DecidedAt b, cb_ToolUseID = json_text (cb_ToolUseID b),
     cb_Content = json_text (cb_Content b), cb_Filename = json_text (cb_Filename b),
     cb_MimeType = json_text (cb_MimeType b), cb_FileID = json_text (cb_FileID b),
     cb_WebSearchContext = map_option (stored_WebSearchContext env) (cb_WebSearchContext b),
     cb_ServerTool = map_option stored_ServerToolUse (cb_ServerTool b)\<rparr>"

text \<open>Every Go int fits in 64 bits.\<close>

definition ints_ok :: "ContentBlock \<Rightarrow> bool" where
  "ints_ok b \<longleftrightarrow> list_all (\<lambda>c. int64 (ct_StartIndex c) \<and> int64 (ct_EndIndex c)) (cb_Citations b)
     \<and> pred_option int64 (cb_DecidedAt b) \<and> pred_option (\<lambda>w. int64 (ws_Count w)) (cb_WebSearchContext b)"

lemmas d_eval = d_string_def d_bool_def d_int_def d_pointer_def d_slice_def d_raw_def v_slice_def
  v_bool_def v_int_def assigned_def

lemma Citation_stored:
  assumes "int64 (ct_StartIndex c)" "int64 (ct_EndIndex c)"
  shows "decode_Citation (jsonb (encode_Citation c)) = Inr (stored_Citation c)"
proof -
  let ?r = "\<lparr>ct_Type = [], ct_URL = [], ct_Title = [], ct_StartIndex = 0, ct_EndIndex = 0\<rparr>"
  note ev = members_Citation_def map_of_members fields_Citation_def d_eval assms
  have sub: "subseq (map fst (members_Citation c)) (map fst fields_Citation)"
    unfolding members_Citation_def fields_Citation_def list.map fst_conv
    by (intro fields_step fields_last opt_field_e)
  have d: "distinct (map fst fields_Citation)" by (simp add: fields_Citation_def)
  have "\<exists>r'. decode_struct fields_Citation ?r (jsonb (JObj (members_Citation c))) = Inr r'"
    by (rule decode_stored_ok [OF sub d]) (simp add: ev list_all_e)
  then obtain r' where r': "decode_struct fields_Citation ?r (jsonb (JObj (members_Citation c))) = Inr r'" by blast
  note G = decode_stored_get [OF r' sub d]
  note gets = G [where k = "''type''" and get = ct_Type] G [where k = "''url''" and get = ct_URL]
    G [where k = "''title''" and get = ct_Title] G [where k = "''start_index''" and get = ct_StartIndex]
    G [where k = "''end_index''" and get = ct_EndIndex]
  have "r' = stored_Citation c"
    by (rule Citation.equality) (simp_all add: gets ev field_laws stored_Citation_def)
  with r' show ?thesis by (simp add: decode_Citation_def encode_Citation_def)
qed

lemma mapR_v_string [simp]: "mapR v_string (map (jsonb \<circ> e_string_value) xs) = Inr (map json_text xs)"
  by (rule mapR_map) (simp add: v_string_def d_string_def e_string_value_def)

lemma ServerToolUse_stored: "decode_ServerToolUse (jsonb (encode_ServerToolUse u)) = Inr (stored_ServerToolUse u)"
proof -
  let ?m = "members_ServerToolUse u"
  note ev = members_ServerToolUse_def map_of_members fields_ServerToolUse_def d_eval
  have sub: "subseq (map fst ?m) (map fst fields_ServerToolUse)"
    unfolding members_ServerToolUse_def fields_ServerToolUse_def list.map fst_conv
    by (intro fields_step fields_last opt_field_e)
  have d: "distinct (map fst fields_ServerToolUse)" by (simp add: fields_ServerToolUse_def)
  have "\<exists>r'. decode_struct fields_ServerToolUse server_tool0 (jsonb (JObj ?m)) = Inr r'"
    by (rule decode_stored_ok [OF sub d])
       (simp add: ev list_all_e)
  then obtain r' where r': "decode_struct fields_ServerToolUse server_tool0 (jsonb (JObj ?m)) = Inr r'" by blast
  note G = decode_stored_get [OF r' sub d]
  note gets = G [where k = "''id''" and get = su_ID] G [where k = "''tool''" and get = su_Tool]
    G [where k = "''status''" and get = su_Status] G [where k = "''query''" and get = su_Query]
    G [where k = "''url''" and get = su_URL] G [where k = "''title''" and get = su_Title]
    G [where k = "''sub_tool''" and get = su_SubTool] G [where k = "''command''" and get = su_Command]
    G [where k = "''output''" and get = su_Output] G [where k = "''error_code''" and get = su_ErrorCode]
    G [where k = "''file_ids''" and get = su_FileIDs] G [where k = "[]" and get = su_ProviderRoute]
  have "r' = stored_ServerToolUse u"
    by (rule ServerToolUse.equality)
       (simp_all add: gets ev field_laws stored_ServerToolUse_def server_tool0_def)
  with r' show ?thesis by (simp add: decode_ServerToolUse_def encode_ServerToolUse_def)
qed

lemma raw_member:
  assumes "e_raw env k s = Inr l"
  shows "map_of l x = (if x = k then Some (if s = [] then JNull else the (js_parse env s)) else None)"
    and "list_all P l \<longleftrightarrow> P (k, if s = [] then JNull else the (js_parse env s))"
    and "s \<noteq> [] \<longrightarrow> js_parse env s \<noteq> None"
  using assms by (auto simp: e_raw_def split: if_splits option.splits)

lemma raw_omit_member:
  assumes "e_raw_omit env k s = Inr l"
  shows "map_of l x = (if x = k \<and> s \<noteq> [] then Some (the (js_parse env s)) else None)"
    and "list_all P l \<longleftrightarrow> s = [] \<or> P (k, the (js_parse env s))"
    and "s \<noteq> [] \<longrightarrow> js_parse env s \<noteq> None"
  using assms by (auto simp: e_raw_omit_def split: if_splits option.splits)

lemma WebSearchContext_stored:
  assumes "encode_WebSearchContext env w = Inr v" "int64 (ws_Count w)"
  shows "decode_WebSearchContext env (jsonb v) = Inr (stored_WebSearchContext env w)"
proof -
  let ?r = "\<lparr>ws_Results = [], ws_ExecutedQueries = [], ws_Count = 0\<rparr>"
  obtain rs qs where rs: "e_raw env ''results'' (ws_Results w) = Inr rs"
    and qs: "e_raw env ''executed_queries'' (ws_ExecutedQueries w) = Inr qs"
    and v: "v = JObj (rs @ qs @ e_int ''count'' (ws_Count w))"
    using assms(1) by (auto simp: encode_WebSearchContext_def bindR_eq_Inr)
  note ev = map_of_members raw_member [OF rs] raw_member [OF qs] fields_WebSearchContext_def d_eval assms(2)
  let ?m = "rs @ qs @ e_int ''count'' (ws_Count w)"
  have sub: "subseq (map fst ?m) (map fst (fields_WebSearchContext env))"
    unfolding fields_WebSearchContext_def list.map fst_conv
    by (intro fields_step fields_last opt_field_e opt_field_raw(2) [OF rs] opt_field_raw(2) [OF qs])
  have d: "distinct (map fst (fields_WebSearchContext env))" by (simp add: fields_WebSearchContext_def)
  have "\<exists>r'. decode_struct (fields_WebSearchContext env) ?r (jsonb (JObj ?m)) = Inr r'"
    by (rule decode_stored_ok [OF sub d]) (simp add: ev list_all_e)
  then obtain r' where r': "decode_struct (fields_WebSearchContext env) ?r (jsonb (JObj ?m)) = Inr r'" by blast
  note G = decode_stored_get [OF r' sub d]
  note gets = G [where k = "''results''" and get = ws_Results]
    G [where k = "''executed_queries''" and get = ws_ExecutedQueries] G [where k = "''count''" and get = ws_Count]
  have "r' = stored_WebSearchContext env w"
    by (rule WebSearchContext.equality)
       (use raw_member(3) [OF rs] raw_member(3) [OF qs] in
         \<open>auto simp: gets ev field_laws stored_WebSearchContext_def stored_raw_def Let_def
           split: option.split\<close>)
  with r' v show ?thesis by (simp add: decode_WebSearchContext_def)
qed

lemma d_pointer_ok: "elem v = Inr a \<Longrightarrow> v \<noteq> JNull \<Longrightarrow> d_pointer u elem v = Inr (u (Some a))"
  by (cases v) (simp_all add: d_pointer_def)

lemma encode_not_null [simp]: "jsonb (encode_ServerToolUse u) \<noteq> JNull"
  by (simp add: encode_ServerToolUse_def)

lemma encode_web_not_null: "encode_WebSearchContext env w = Inr v \<Longrightarrow> jsonb v \<noteq> JNull"
  by (auto simp: encode_WebSearchContext_def bindR_eq_Inr)

lemma mapR_Citations:
  "list_all (\<lambda>c. int64 (ct_StartIndex c) \<and> int64 (ct_EndIndex c)) cs \<Longrightarrow>
   mapR decode_Citation (map (jsonb \<circ> encode_Citation) cs) = Inr (map stored_Citation cs)"
  by (rule mapR_map) (simp add: Citation_stored list_all_iff)

lemma web_member:
  assumes "e_web_search env p = Inr l"
  obtains wv where "l = e_pointer_omit ''web_search_context'' id wv"
    and "p = None \<and> wv = None \<or> (\<exists>w v. p = Some w \<and> encode_WebSearchContext env w = Inr v \<and> wv = Some v)"
  using assms by (auto simp: e_web_search_def e_pointer_omit_def bindR_eq_Inr split: option.splits)

lemma input_member:
  assumes "e_raw_omit env ''input'' s = Inr l"
  obtains iv where "l = e_pointer_omit ''input'' id iv"
    and "s = [] \<and> iv = None \<or> s \<noteq> [] \<and> (\<exists>v. js_parse env s = Some v \<and> iv = Some v)"
  using assms by (auto simp: e_raw_omit_def e_pointer_omit_def split: option.splits if_splits)

lemma decode_WebSearchContext_pointer:
  assumes "encode_WebSearchContext env w = Inr v" "int64 (ws_Count w)"
  shows "d_pointer u (decode_WebSearchContext env) (jsonb v) = Inr (u (Some (stored_WebSearchContext env w)))"
  using WebSearchContext_stored [OF assms] encode_web_not_null [OF assms(1)] by (rule d_pointer_ok)

lemma decode_ServerToolUse_pointer:
  "d_pointer u decode_ServerToolUse (jsonb (encode_ServerToolUse t)) = Inr (u (Some (stored_ServerToolUse t)))"
  using ServerToolUse_stored encode_not_null by (rule d_pointer_ok)

lemma d_pointer_scalars:
  "d_pointer u v_bool (JBool b) = Inr (u (Some b))"
  "int64 i \<Longrightarrow> d_pointer u' v_int (JInt i) = Inr (u' (Some i))"
  by (simp_all add: d_pointer_def v_bool_def v_int_def d_bool_def d_int_def)

lemmas block_eval = map_of_members fields_ContentBlock_def d_string_def d_bool_def d_slice_def d_raw_def
  v_slice_def assigned_def decode_ServerToolUse_pointer d_pointer_scalars mapR_Citations

lemmas block_gets = decode_stored_get [where k = "''type''" and get = cb_Type]
  decode_stored_get [where k = "''text''" and get = cb_Text]
  decode_stored_get [where k = "''signature''" and get = cb_Signature]
  decode_stored_get [where k = "''citations''" and get = cb_Citations]
  decode_stored_get [where k = "''synthetic_kind''" and get = cb_SyntheticKind]
  decode_stored_get [where k = "''id''" and get = cb_ID]
  decode_stored_get [where k = "''name''" and get = cb_Name]
  decode_stored_get [where k = "''server_origin''" and get = cb_ServerOrigin]
  decode_stored_get [where k = "''input''" and get = cb_Input]
  decode_stored_get [where k = "''mcp_bare_name''" and get = cb_MCPBareName]
  decode_stored_get [where k = "''status''" and get = cb_Status]
  decode_stored_get [where k = "''shared''" and get = cb_Shared]
  decode_stored_get [where k = "''title''" and get = cb_Title]
  decode_stored_get [where k = "''description''" and get = cb_Description]
  decode_stored_get [where k = "''user_interaction''" and get = cb_UserInteraction]
  decode_stored_get [where k = "''would_auto_execute''" and get = cb_WouldAutoExecute]
  decode_stored_get [where k = "''decided_at''" and get = cb_DecidedAt]
  decode_stored_get [where k = "''tool_use_id''" and get = cb_ToolUseID]
  decode_stored_get [where k = "''content''" and get = cb_Content]
  decode_stored_get [where k = "''filename''" and get = cb_Filename]
  decode_stored_get [where k = "''mime_type''" and get = cb_MimeType]
  decode_stored_get [where k = "''file_id''" and get = cb_FileID]
  decode_stored_get [where k = "''web_search_context''" and get = cb_WebSearchContext]
  decode_stored_get [where k = "''server_tool''" and get = cb_ServerTool]

lemma ContentBlock_stored:
  assumes "encode_ContentBlock env b = Inr v" "ints_ok b"
  shows "decode_ContentBlock env (jsonb v) = Inr (stored_block env b)"
proof -
  obtain input web where input: "e_raw_omit env ''input'' (cb_Input b) = Inr input"
    and web: "e_web_search env (cb_WebSearchContext b) = Inr web"
    and v: "v = JObj (members_ContentBlock input web b)"
    using assms(1) by (auto simp: encode_ContentBlock_def bindR_eq_Inr)
  obtain iv where iv: "input = e_pointer_omit ''input'' id iv"
    "cb_Input b = [] \<and> iv = None \<or> cb_Input b \<noteq> [] \<and> (\<exists>v. js_parse env (cb_Input b) = Some v \<and> iv = Some v)"
    using input by (rule input_member)
  obtain wv where wv: "web = e_pointer_omit ''web_search_context'' id wv"
    "cb_WebSearchContext b = None \<and> wv = None
     \<or> (\<exists>w v. cb_WebSearchContext b = Some w \<and> encode_WebSearchContext env w = Inr v \<and> wv = Some v)"
    using web by (rule web_member)
  let ?m = "members_ContentBlock input web b" and ?t = "fields_ContentBlock env"
  have sub: "subseq (map fst ?m) (map fst ?t)"
    unfolding members_ContentBlock_def fields_ContentBlock_def list.map fst_conv iv(1) wv(1)
    by (intro fields_step fields_last opt_field_e)
  have d: "distinct (map fst ?t)" by (simp add: fields_ContentBlock_def)
  note ints = assms(2) [unfolded ints_ok_def]
  have dec: "cb_DecidedAt b = None \<or> int64 (the (cb_DecidedAt b))" using ints by (cases "cb_DecidedAt b") auto
  have "list_all (\<lambda>(k, v). \<exists>f. the (map_of ?t k) (jsonb v) = Inr f) ?m"
    unfolding members_ContentBlock_def iv(1) wv(1) list_all_append list_all_e prod.case
    using ints dec iv(2) wv(2) by (auto simp: block_eval decode_WebSearchContext_pointer)
  from decode_stored_ok [OF sub d this]
  obtain r' where r': "decode_struct ?t block0 (jsonb (JObj ?m)) = Inr r'" by blast
  note gets = block_gets [OF r' sub d]
  have "r' = stored_block env b"
    by (rule ContentBlock.equality)
       (use ints dec iv(2) wv(2) in \<open>auto simp: gets block_eval members_ContentBlock_def iv(1) wv(1) field_laws
         stored_block_def block0_def stored_raw_def decode_WebSearchContext_pointer\<close>)
  with r' v show ?thesis by (simp add: decode_ContentBlock_def)
qed

lemma UnmarshalBlocks_stored:
  assumes "marshalBlocks env bs = Inr v" and "list_all ints_ok bs"
  shows "UnmarshalBlocks env (Some (jsonb v)) = Inr (map (stored_block env) bs)"
proof -
  obtain vs where vs: "mapR (encode_ContentBlock env) bs = Inr vs" "v = JArr vs"
    using assms(1) by (auto simp: marshalBlocks_def bindR_eq_Inr)
  have "list_all2 (\<lambda>b v. encode_ContentBlock env b = Inr v) bs vs" using vs(1) by (rule mapR_Inr)
  then have "mapR (decode_ContentBlock env) (map jsonb vs) = Inr (map (stored_block env) bs)"
    using assms(2) by (induction rule: list_all2_induct) (simp_all add: ContentBlock_stored)
  then show ?thesis by (simp add: UnmarshalBlocks_def v_slice_def vs(2))
qed

text \<open>
  C32: a turn's blocks survive the database: marshalled, stored as JSONB (object keys reordered) and
  read back, they come back as they were, up to UTF-8 coercion, the text form of raw JSON, and the
  provider route, which is never persisted.
\<close>

theorem blocks_roundtrip:
  assumes "marshalBlocks env bs = Inr v" and "list_all ints_ok bs"
  shows "UnmarshalBlocks env (Some (jsonb v)) = Inr (map (stored_block env) bs)"
  using assms by (rule UnmarshalBlocks_stored)

definition example_json :: json_env where
  "example_json = \<lparr>js_parse = (\<lambda>s. if s = ''{}'' then Some (JObj []) else None), js_print = (\<lambda>v. ''{}''),
     js_printable = (\<lambda>_. True)\<rparr>"

definition example_use :: ContentBlock where
  "example_use = block0\<lparr>cb_Type := BlockTypeToolUse, cb_ID := ''t'', cb_Name := ''echo'', cb_Input := ''{}'',
     cb_Status := StatusPending\<rparr>"

lemma blocks_roundtrip_witness:
  "UnmarshalBlocks example_json (Some (jsonb (JArr [JObj (members_ContentBlock [(''input'', JObj [])] [] example_use)])))
     = Inr [stored_block example_json example_use]"
  using blocks_roundtrip [of example_json "[example_use]"
      "JArr [JObj (members_ContentBlock [(''input'', JObj [])] [] example_use)]"]
  by (simp add: marshalBlocks_def encode_ContentBlock_def e_raw_omit_def e_web_search_def example_json_def
      example_use_def block0_def ints_ok_def)

lemma json_text_consts [simp]:
  "json_text s = BlockTypeToolUse \<longleftrightarrow> s = BlockTypeToolUse"
  "json_text s = BlockTypeToolResult \<longleftrightarrow> s = BlockTypeToolResult"
  "json_text s = StatusPending \<longleftrightarrow> s = StatusPending"
  "json_text s = StatusAccepted \<longleftrightarrow> s = StatusAccepted"
  "json_text s = StatusRejected \<longleftrightarrow> s = StatusRejected"
  "json_text s = StatusError \<longleftrightarrow> s = StatusError"
  "json_text s = StatusSuccess \<longleftrightarrow> s = StatusSuccess"
  "json_text s = StatusAutoApproved \<longleftrightarrow> s = StatusAutoApproved"
  by (rule json_text_ascii_iff; simp add: block_consts)+

lemma decode_Citation_ints: "decode_Citation v = Inr c \<Longrightarrow> int64 (ct_StartIndex c) \<and> int64 (ct_EndIndex c)"
  unfolding decode_Citation_def
  by (erule decode_struct_invariant)
    (auto simp: fields_Citation_def d_defs bindR_eq_Inr int64_def split: json.splits if_splits)

lemma decode_WebSearchContext_ints: "decode_WebSearchContext env v = Inr w \<Longrightarrow> int64 (ws_Count w)"
  unfolding decode_WebSearchContext_def
  by (erule decode_struct_invariant)
    (auto simp: fields_WebSearchContext_def d_defs bindR_eq_Inr int64_def split: json.splits if_splits)

lemma decode_ContentBlock_ints: "decode_ContentBlock env v = Inr b \<Longrightarrow> ints_ok b"
  unfolding decode_ContentBlock_def
proof (erule decode_struct_invariant)
  show "ints_ok block0" by (simp add: ints_ok_def block0_def)
  show "list_all (\<lambda>(n, d). \<forall>v f x. d v = Inr f \<longrightarrow> ints_ok x \<longrightarrow> ints_ok (f x)) (fields_ContentBlock env)"
    by (auto simp: fields_ContentBlock_def d_defs bindR_eq_Inr ints_ok_def v_int_int64 decode_WebSearchContext_ints
        dest: v_slice_all [of decode_Citation _ _ "\<lambda>c. int64 (ct_StartIndex c) \<and> int64 (ct_EndIndex c)", OF _ decode_Citation_ints]
        split: json.splits if_splits)
qed

lemma decoded_ints: "UnmarshalBlocks env raw = Inr bs \<Longrightarrow> list_all ints_ok bs"
  by (auto simp: UnmarshalBlocks_def intro: v_slice_all decode_ContentBlock_ints split: option.splits)

section \<open>Redaction and display\<close>

definition shared_flag :: "bool option \<Rightarrow> bool" where
  "shared_flag p = (case p of None \<Rightarrow> False | Some s \<Rightarrow> s)"

definition filter_block :: "ContentBlock \<Rightarrow> ContentBlock" where
  "filter_block b =
     (if cb_Type b = BlockTypeToolUse then
        (if cb_Shared b = None \<or> \<not> the (cb_Shared b) then b\<lparr>cb_Input := [], cb_MCPBareName := []\<rparr> else b)
      else if cb_Type b = BlockTypeToolResult then
        (if cb_Shared b = None \<or> \<not> the (cb_Shared b) then b\<lparr>cb_Content := []\<rparr> else b)
      else b)"

definition FilterForNonRequester :: "ContentBlock list \<Rightarrow> ContentBlock list" where
  "FilterForNonRequester blocks = map filter_block blocks"

text \<open>\<open>ServerToolUse.Sanitize\<close> (\<open>src/llm/stream.go\<close>).\<close>

definition SanitizeServerToolUse :: "(nat \<Rightarrow> bool) \<Rightarrow> ServerToolUse \<Rightarrow> ServerToolUse" where
  "SanitizeServerToolUse printable s =
     s\<lparr>su_Query := SanitizeNonPrintableChars printable (su_Query s),
       su_URL := SanitizeNonPrintableChars printable (su_URL s),
       su_Title := SanitizeNonPrintableChars printable (su_Title s),
       su_Command := SanitizeNonPrintableChars printable (su_Command s),
       su_Output := SanitizeNonPrintableChars printable (su_Output s),
       su_ErrorCode := SanitizeNonPrintableChars printable (su_ErrorCode s),
       su_FileIDs := map (SanitizeNonPrintableChars printable) (su_FileIDs s)\<rparr>"

definition sanitize_block :: "(nat \<Rightarrow> bool) \<Rightarrow> ContentBlock \<Rightarrow> ContentBlock" where
  "sanitize_block printable b =
     (let clean = SanitizeNonPrintableChars printable in
      if cb_Type b = BlockTypeToolUse then
        (let b1 = (if cb_Input b \<noteq> [] then b\<lparr>cb_Input := clean (cb_Input b)\<rparr> else b);
             b2 = (if cb_Title b \<noteq> [] then b1\<lparr>cb_Title := clean (cb_Title b)\<rparr> else b1)
         in if cb_Description b \<noteq> [] then b2\<lparr>cb_Description := clean (cb_Description b)\<rparr> else b2)
      else if cb_Type b = BlockTypeToolResult then
        (if cb_Content b \<noteq> [] then b\<lparr>cb_Content := clean (cb_Content b)\<rparr> else b)
      else if cb_Type b = BlockTypeServerToolUse then
        (case cb_ServerTool b of
           None \<Rightarrow> b
         | Some st \<Rightarrow> b\<lparr>cb_ServerTool := Some (SanitizeServerToolUse printable (st\<lparr>su_ProviderRoute := []\<rparr>))\<rparr>)
      else b)"

definition SanitizeForDisplay :: "(nat \<Rightarrow> bool) \<Rightarrow> ContentBlock list \<Rightarrow> ContentBlock list" where
  "SanitizeForDisplay printable blocks = map (sanitize_block printable) blocks"

section \<open>Building blocks\<close>

definition textBlocks :: "string \<Rightarrow> ContentBlock list" where
  "textBlocks message =
     (if message = [] then [] else [block0\<lparr>cb_Type := BlockTypeText, cb_Text := message\<rparr>])"

record FileInfo =
  fi_Id :: string
  fi_ChannelId :: string
  fi_Name :: string
  fi_MimeType :: string
  fi_Size :: int
  fi_Content :: string

text \<open>\<open>GetFileInfo\<close> of the Mattermost client is a parameter, absent for a nil client.\<close>

definition attachment_block :: "(string \<Rightarrow> FileInfo option result) \<Rightarrow> string \<Rightarrow> ContentBlock" where
  "attachment_block getInfo fileID =
     (case getInfo fileID of
        Inr (Some fileInfo) \<Rightarrow>
          (if HasPrefix (fi_MimeType fileInfo) ''image/''
           then block0\<lparr>cb_Type := BlockTypeImage, cb_FileID := fileID, cb_Filename := fi_Name fileInfo,
             cb_MimeType := fi_MimeType fileInfo\<rparr>
           else block0\<lparr>cb_Type := BlockTypeFile, cb_FileID := fileID, cb_Filename := fi_Name fileInfo,
             cb_MimeType := fi_MimeType fileInfo\<rparr>)
      | _ \<Rightarrow> block0\<lparr>cb_Type := BlockTypeFile, cb_FileID := fileID\<rparr>)"

definition userBlocksWithAttachments ::
  "string \<Rightarrow> string list \<Rightarrow> (string \<Rightarrow> FileInfo option result) option \<Rightarrow> ContentBlock list" where
  "userBlocksWithAttachments message fileIDs mmClient =
     (case mmClient of
        None \<Rightarrow> textBlocks message
      | Some getInfo \<Rightarrow> textBlocks message @ map (attachment_block getInfo) fileIDs)"

text \<open>The map \<open>byID\<close> keeps the last activity of an id.\<close>

definition segment_block :: "ServerToolUse list \<Rightarrow> TurnSegment \<Rightarrow> ContentBlock option" where
  "segment_block serverTools segment =
     (if seg_Kind segment = TurnSegmentText then
        (if seg_Text segment = [] then None
         else Some (block0\<lparr>cb_Type := BlockTypeText, cb_Text := seg_Text segment\<rparr>))
      else if seg_Kind segment = TurnSegmentThinking then
        (if seg_Text segment = [] then None
         else Some (block0\<lparr>cb_Type := BlockTypeThinking, cb_Text := seg_Text segment,
           cb_Signature := seg_Signature segment\<rparr>))
      else if seg_Kind segment = TurnSegmentServerTool then
        map_option (\<lambda>use. block0\<lparr>cb_Type := BlockTypeServerToolUse, cb_ServerTool := Some use\<rparr>)
          (map_of (rev (map (\<lambda>use. (su_ID use, use)) serverTools)) (seg_ServerToolID segment))
      else None)"

definition SequenceBlocks :: "TurnSegment list \<Rightarrow> ServerToolUse list \<Rightarrow> ContentBlock list" where
  "SequenceBlocks segments serverTools = List.map_filter (segment_block serverTools) segments"

section \<open>What a reader other than the requester learns\<close>

definition private_use :: "ContentBlock \<Rightarrow> bool" where
  "private_use b \<longleftrightarrow> cb_Type b = BlockTypeToolUse \<and> \<not> shared_flag (cb_Shared b)"

definition private_result :: "ContentBlock \<Rightarrow> bool" where
  "private_result b \<longleftrightarrow> cb_Type b = BlockTypeToolResult \<and> \<not> shared_flag (cb_Shared b)"

text \<open>Blocks that differ at most in data their requester keeps private.\<close>

definition same_public :: "ContentBlock \<Rightarrow> ContentBlock \<Rightarrow> bool" where
  "same_public b c \<longleftrightarrow>
     c = (if private_use b then b\<lparr>cb_Input := cb_Input c, cb_MCPBareName := cb_MCPBareName c\<rparr>
          else if private_result b then b\<lparr>cb_Content := cb_Content c\<rparr> else b)"

lemma filter_block_cases:
  "filter_block b = (if private_use b then b\<lparr>cb_Input := [], cb_MCPBareName := []\<rparr>
     else if private_result b then b\<lparr>cb_Content := []\<rparr> else b)"
  by (auto simp: filter_block_def private_use_def private_result_def shared_flag_def block_consts
      split: option.splits)

lemma private_update [simp]:
  "private_use (b\<lparr>cb_Input := x, cb_MCPBareName := y\<rparr>) = private_use b"
  "private_result (b\<lparr>cb_Content := z\<rparr>) = private_result b"
  "private_use (b\<lparr>cb_Content := z\<rparr>) = private_use b"
  by (simp_all add: private_use_def private_result_def)

lemma filter_block_keeps [simp]:
  "cb_Type (filter_block b) = cb_Type b" "cb_ID (filter_block b) = cb_ID b"
  "cb_Status (filter_block b) = cb_Status b" "cb_Shared (filter_block b) = cb_Shared b"
  "private_use (filter_block b) = private_use b" "private_result (filter_block b) = private_result b"
  by (auto simp: filter_block_cases private_use_def private_result_def)

lemma filter_block_eq_iff: "filter_block b = filter_block c \<longleftrightarrow> same_public b c"
proof
  assume eq: "filter_block b = filter_block c"
  have "private_use c = private_use b" "private_result c = private_result b"
    using filter_block_keeps(5,6) [of b] filter_block_keeps(5,6) [of c] eq by simp_all
  with eq show "same_public b c"
    by (cases b; cases c) (auto simp: filter_block_cases same_public_def split: if_splits)
next
  assume "same_public b c"
  then consider "private_use b" "c = b\<lparr>cb_Input := cb_Input c, cb_MCPBareName := cb_MCPBareName c\<rparr>"
    | "\<not> private_use b" "private_result b" "c = b\<lparr>cb_Content := cb_Content c\<rparr>"
    | "\<not> private_use b" "\<not> private_result b" "c = b"
    by (auto simp: same_public_def split: if_splits)
  then show "filter_block b = filter_block c"
  proof cases
    case 1
    have "filter_block (b\<lparr>cb_Input := x, cb_MCPBareName := y\<rparr>) = filter_block b" for x y
      using 1(1) by (simp add: filter_block_cases)
    then show ?thesis using 1(2) by metis
  next
    case 2
    have "filter_block (b\<lparr>cb_Content := x\<rparr>) = filter_block b" for x
      using 2(1,2) by (simp add: filter_block_cases)
    then show ?thesis using 2(3) by metis
  qed simp
qed

lemma filter_blocks_eq_iff: "map filter_block bs = map filter_block cs \<longleftrightarrow> list_all2 same_public bs cs"
proof (induction bs arbitrary: cs)
  case (Cons b bs)
  then show ?case by (cases cs) (auto simp: filter_block_eq_iff)
qed auto

text \<open>
  C31: a reader other than the requester learns nothing of the private parts of a turn and everything
  else: two turns look the same after the filter exactly when they differ at most in the arguments
  and bare names of unshared calls and the content of unshared results.
\<close>

theorem FilterForNonRequester_noninterference:
  "FilterForNonRequester bs = FilterForNonRequester cs \<longleftrightarrow> list_all2 same_public bs cs"
  by (simp add: FilterForNonRequester_def filter_blocks_eq_iff)

lemma Sanitize_idem [simp]:
  "SanitizeNonPrintableChars p (SanitizeNonPrintableChars p s) = SanitizeNonPrintableChars p s"
proof -
  have "list_all (isSafeRune p) (runes (SanitizeNonPrintableChars p s))"
    using runes_safe_concat [of "runes s" p] valid_runes [of _ s]
    by (auto simp: SanitizeNonPrintableChars_def list_all_iff)
  then show ?thesis by (subst SanitizeNonPrintableChars_def) simp
qed

lemma Sanitize_Nil [simp]: "SanitizeNonPrintableChars p [] = []"
  by (simp add: SanitizeNonPrintableChars_def)

lemma sanitize_block_cases:
  "sanitize_block p b =
     (if cb_Type b = BlockTypeToolUse then
        b\<lparr>cb_Input := SanitizeNonPrintableChars p (cb_Input b), cb_Title := SanitizeNonPrintableChars p (cb_Title b),
          cb_Description := SanitizeNonPrintableChars p (cb_Description b)\<rparr>
      else if cb_Type b = BlockTypeToolResult then b\<lparr>cb_Content := SanitizeNonPrintableChars p (cb_Content b)\<rparr>
      else if cb_Type b = BlockTypeServerToolUse then
        b\<lparr>cb_ServerTool := map_option (\<lambda>st. SanitizeServerToolUse p (st\<lparr>su_ProviderRoute := []\<rparr>)) (cb_ServerTool b)\<rparr>
      else b)"
  by (cases b) (auto simp: sanitize_block_def Let_def split: option.splits)

definition display_safe :: "(nat \<Rightarrow> bool) \<Rightarrow> ContentBlock \<Rightarrow> bool" where
  "display_safe p b \<longleftrightarrow>
     (if cb_Type b = BlockTypeToolUse then
        list_all (isSafeRune p) (runes (cb_Input b) @ runes (cb_Title b) @ runes (cb_Description b))
      else if cb_Type b = BlockTypeToolResult then list_all (isSafeRune p) (runes (cb_Content b)) else True)"

text \<open>
  Display sanitizing is stable and commutes with the redaction, so a block shown to any reader
  has no spoofing character left in its tool arguments, title, description or result, in whichever
  order the two are applied.
\<close>

theorem SanitizeForDisplay_spec:
  "SanitizeForDisplay p (SanitizeForDisplay p bs) = SanitizeForDisplay p bs
   \<and> FilterForNonRequester (SanitizeForDisplay p bs) = SanitizeForDisplay p (FilterForNonRequester bs)
   \<and> map cb_Status (SanitizeForDisplay p bs) = map cb_Status bs
   \<and> list_all (display_safe p) (SanitizeForDisplay p bs)"
proof -
  have safe: "list_all (isSafeRune p) (runes (SanitizeNonPrintableChars p s))" for s
    using Sanitize_idem [of p s] runes_safe_concat [of "runes s" p] valid_runes [of _ s]
    by (auto simp: SanitizeNonPrintableChars_def list_all_iff)
  have st: "SanitizeServerToolUse p (SanitizeServerToolUse p (st\<lparr>su_ProviderRoute := []\<rparr>)\<lparr>su_ProviderRoute := []\<rparr>)
      = SanitizeServerToolUse p (st\<lparr>su_ProviderRoute := []\<rparr>)" for st
    by (simp add: SanitizeServerToolUse_def comp_def)
  have idem: "sanitize_block p (sanitize_block p b) = sanitize_block p b" for b
    using st by (auto simp: sanitize_block_cases option.map_comp comp_def)
  have comm: "filter_block (sanitize_block p b) = sanitize_block p (filter_block b)" for b
    by (auto simp: sanitize_block_cases filter_block_cases private_use_def private_result_def block_consts)
  have status: "cb_Status (sanitize_block p b) = cb_Status b" for b
    by (simp add: sanitize_block_cases)
  have clean: "display_safe p (sanitize_block p b)" for b
    by (simp add: display_safe_def sanitize_block_cases safe)
  then have "list_all (display_safe p) (map (sanitize_block p) bs)" by (simp add: list_all_iff)
  then show ?thesis
    unfolding SanitizeForDisplay_def FilterForNonRequester_def map_map comp_def idem comm status by simp
qed

end
