(* ===== verification/Turn_Store.thy ===== *)
theory Turn_Store
  imports Content_Blocks
begin

text \<open>
  The two tables of the conversation store (\<open>src/store/turns.go\<close>, \<open>src/store/conversations.go\<close>,
  \<open>src/store/store.go\<close>).

  A table is the list of its rows. A statement either violates a constraint (a unique index of
  migration 7, or text that is no JSON) and changes nothing, or reports the rows it changed. The
  driver may also fail a call, and then the statement has or has not been applied: \<open>io\<close> says which. A
  turn's content column is JSONB, so a write stores the canonical value \<open>jsonb v\<close>.
\<close>

section \<open>Rows\<close>

record Turn =
  tn_ID :: string
  tn_ConversationID :: string
  tn_PostID :: "string option"
  tn_Role :: string
  tn_Content :: "json option"
  tn_TokensIn :: int
  tn_TokensOut :: int
  tn_Sequence :: int
  tn_CreatedAt :: int

record Conversation =
  cv_ID :: string
  cv_UserID :: string
  cv_BotID :: string
  cv_ChannelID :: "string option"
  cv_RootPostID :: "string option"
  cv_Title :: string
  cv_SystemPrompt :: string
  cv_Operation :: string
  cv_CreatedAt :: int
  cv_UpdatedAt :: int
  cv_DeleteAt :: int

record db =
  db_turns :: "Turn list"
  db_conversations :: "Conversation list"

section \<open>Statements\<close>

datatype io = IoOk | IoFails go_error bool

type_synonym statement = "db \<Rightarrow> (nat \<times> db) result"

definition unique_violation :: go_error where
  "unique_violation = Sentinel ''pq.23505'' ''duplicate key value violates unique constraint''"

definition isUniqueViolation :: "go_error \<Rightarrow> bool" where
  "isUniqueViolation err = errors_Is err unique_violation"

definition run_sql :: "io \<Rightarrow> statement \<Rightarrow> db \<Rightarrow> nat result \<times> db" where
  "run_sql io stmt d =
     (case io of
        IoOk \<Rightarrow> (case stmt d of Inl e \<Rightarrow> (Inl e, d) | Inr (n, d') \<Rightarrow> (Inr n, d'))
      | IoFails e applied \<Rightarrow>
          (Inl e, if applied then (case stmt d of Inl _ \<Rightarrow> d | Inr (_, d') \<Rightarrow> d') else d))"

definition execBuilderRows :: "string \<Rightarrow> io \<Rightarrow> statement \<Rightarrow> db \<Rightarrow> bool result \<times> db" where
  "execBuilderRows desc io stmt d =
     (case run_sql io stmt d of
        (Inl e, d') \<Rightarrow> (Inl (wrapf (''failed to '' @ desc) e), d')
      | (Inr n, d') \<Rightarrow> (Inr (0 < n), d'))"

definition execBuilder :: "string \<Rightarrow> io \<Rightarrow> statement \<Rightarrow> db \<Rightarrow> go_error option \<times> db" where
  "execBuilder desc io stmt d =
     (case execBuilderRows desc io stmt d of (Inl e, d') \<Rightarrow> (Some e, d') | (Inr _, d') \<Rightarrow> (None, d'))"

definition read_sql :: "string \<Rightarrow> io \<Rightarrow> 'a \<Rightarrow> 'a result" where
  "read_sql desc io a = (case io of IoOk \<Rightarrow> Inr a | IoFails e _ \<Rightarrow> Inl (wrapf (''failed to '' @ desc) e))"

text \<open>\<open>UPDATE LLM_Turns SET .. WHERE ..\<close> on columns no index covers.\<close>

definition update_turns :: "(Turn \<Rightarrow> bool) \<Rightarrow> (Turn \<Rightarrow> Turn) \<Rightarrow> statement" where
  "update_turns P f d =
     Inr (length (filter P (db_turns d)), d\<lparr>db_turns := map (\<lambda>t. if P t then f t else t) (db_turns d)\<rparr>)"

section \<open>Turns\<close>

definition bump_activity :: "Turn \<Rightarrow> Conversation \<Rightarrow> Conversation" where
  "bump_activity turn c =
     (if cv_ID c = tn_ConversationID turn then c\<lparr>cv_UpdatedAt := max (cv_UpdatedAt c) (tn_CreatedAt turn)\<rparr> else c)"

definition insert_turn :: "Turn \<Rightarrow> statement" where
  "insert_turn turn d =
     (case tn_Content turn of
        None \<Rightarrow> Inl json_syntax_error
      | Some v \<Rightarrow>
          (if list_ex (\<lambda>t. tn_ID t = tn_ID turn
                \<or> (tn_ConversationID t = tn_ConversationID turn \<and> tn_Sequence t = tn_Sequence turn)) (db_turns d)
           then Inl unique_violation
           else Inr (1, d\<lparr>db_turns := db_turns d @ [turn\<lparr>tn_Content := Some (jsonb v)\<rparr>],
                          db_conversations := map (bump_activity turn) (db_conversations d)\<rparr>)))"

definition CreateTurn :: "io \<Rightarrow> Turn \<Rightarrow> db \<Rightarrow> go_error option \<times> db" where
  "CreateTurn io turn = execBuilder ''create turn'' io (insert_turn turn)"

definition turns_of :: "string \<Rightarrow> db \<Rightarrow> Turn list" where
  "turns_of convID d = filter (\<lambda>t. tn_ConversationID t = convID) (db_turns d)"

definition GetTurnsForConversation :: "io \<Rightarrow> string \<Rightarrow> db \<Rightarrow> Turn list result" where
  "GetTurnsForConversation io convID d =
     read_sql ''get turns for conversation'' io (sort_key tn_Sequence (turns_of convID d))"

definition UpdateTurnContent :: "io \<Rightarrow> string \<Rightarrow> json option \<Rightarrow> db \<Rightarrow> go_error option \<times> db" where
  "UpdateTurnContent io tid content =
     execBuilder ''update turn content'' io
       (\<lambda>d. case content of
              None \<Rightarrow> Inl json_syntax_error
            | Some v \<Rightarrow> update_turns (\<lambda>t. tn_ID t = tid) (\<lambda>t. t\<lparr>tn_Content := Some (jsonb v)\<rparr>) d)"

definition cas_statement :: "string \<Rightarrow> json option \<Rightarrow> json option \<Rightarrow> statement" where
  "cas_statement tid expected content d =
     (case (expected, content) of
        (Some e, Some v) \<Rightarrow>
          update_turns (\<lambda>t. tn_ID t = tid \<and> tn_Content t = Some (jsonb e)) (\<lambda>t. t\<lparr>tn_Content := Some (jsonb v)\<rparr>) d
      | _ \<Rightarrow> Inl json_syntax_error)"

definition CompareAndSwapTurnContent ::
  "io \<Rightarrow> string \<Rightarrow> json option \<Rightarrow> json option \<Rightarrow> db \<Rightarrow> bool result \<times> db" where
  "CompareAndSwapTurnContent io tid expected content d =
     (case run_sql io (cas_statement tid expected content) d of
        (Inl e, d') \<Rightarrow> (Inl (wrapf ''failed to compare-and-swap turn content'' e), d')
      | (Inr n, d') \<Rightarrow> (Inr (n = 1), d'))"

definition max_sequence :: "string \<Rightarrow> db \<Rightarrow> int" where
  "max_sequence convID d =
     (case map tn_Sequence (turns_of convID d) of [] \<Rightarrow> 0 | s # ss \<Rightarrow> fold max ss s)"

definition GetMaxSequenceForConversation :: "io \<Rightarrow> string \<Rightarrow> db \<Rightarrow> int result" where
  "GetMaxSequenceForConversation io convID d = read_sql ''get max sequence'' io (max_sequence convID d)"

text \<open>The table has no order, so the row a lookup of one row returns is the first of some order.\<close>

definition GetTurnByPostID :: "io \<Rightarrow> string \<Rightarrow> db \<Rightarrow> Turn option result" where
  "GetTurnByPostID io postID d =
     read_sql ''get turn by post ID'' io (find (\<lambda>t. tn_PostID t = Some postID) (db_turns d))"

definition maxAutoSequenceRetries :: nat where "maxAutoSequenceRetries = 3"

text \<open>
  One attempt of \<open>CreateTurnAutoSequence\<close>: the subquery reads the maximum from the snapshot the
  statement sees, other transactions commit (\<open>others\<close>), then the row is inserted.
\<close>

definition auto_attempt :: "io \<Rightarrow> (db \<Rightarrow> db) \<Rightarrow> Turn \<Rightarrow> db \<Rightarrow> int result \<times> db" where
  "auto_attempt io others turn d =
     (let seq = max_sequence (tn_ConversationID turn) d + 1
      in case run_sql io (insert_turn (turn\<lparr>tn_Sequence := seq\<rparr>)) (others d) of
           (Inl e, d') \<Rightarrow> (Inl e, d')
         | (Inr _, d') \<Rightarrow> (Inr seq, d'))"

fun auto_loop ::
  "nat \<Rightarrow> (nat \<Rightarrow> io) \<Rightarrow> (nat \<Rightarrow> db \<Rightarrow> db) \<Rightarrow> Turn \<Rightarrow> go_error \<Rightarrow> db \<Rightarrow> int result \<times> db" where
  "auto_loop 0 io others turn lastErr d =
     (Inl (wrapf (''failed to create turn after '' @ Itoa maxAutoSequenceRetries @ '' retries'') lastErr), d)"
| "auto_loop (Suc n) io others turn lastErr d =
     (case auto_attempt (io n) (others n) turn d of
        (Inr seq, d') \<Rightarrow> (Inr seq, d')
      | (Inl e, d') \<Rightarrow>
          if \<not> isUniqueViolation e then (Inl (wrapf ''failed to create turn'' e), d')
          else auto_loop n io others turn e d')"

definition CreateTurnAutoSequence ::
  "(nat \<Rightarrow> io) \<Rightarrow> (nat \<Rightarrow> db \<Rightarrow> db) \<Rightarrow> Turn \<Rightarrow> db \<Rightarrow> int result \<times> db" where
  "CreateTurnAutoSequence io others turn d =
     auto_loop maxAutoSequenceRetries io others turn (ErrorNew []) d"

definition UpdateTurnPostID :: "io \<Rightarrow> string \<Rightarrow> string option \<Rightarrow> db \<Rightarrow> go_error option \<times> db" where
  "UpdateTurnPostID io tid postID =
     execBuilder ''update turn post id'' io
       (update_turns (\<lambda>t. tn_ID t = tid) (\<lambda>t. t\<lparr>tn_PostID := postID\<rparr>))"

definition UpdateTurnTokens :: "io \<Rightarrow> string \<Rightarrow> int \<Rightarrow> int \<Rightarrow> db \<Rightarrow> go_error option \<times> db" where
  "UpdateTurnTokens io tid tokensIn tokensOut =
     execBuilder ''update turn tokens'' io
       (update_turns (\<lambda>t. tn_ID t = tid) (\<lambda>t. t\<lparr>tn_TokensIn := tokensIn, tn_TokensOut := tokensOut\<rparr>))"

definition anchor_sequence :: "string \<Rightarrow> string \<Rightarrow> db \<Rightarrow> int option" where
  "anchor_sequence convID postID d =
     map_option tn_Sequence
       (find (\<lambda>t. tn_Role t = ''assistant'' \<and> tn_PostID t = Some postID) (turns_of convID d))"

definition user_sequence_before :: "string \<Rightarrow> int \<Rightarrow> db \<Rightarrow> int" where
  "user_sequence_before convID s d =
     (case map tn_Sequence (filter (\<lambda>t. tn_Role t = ''user'' \<and> tn_Sequence t < s) (turns_of convID d)) of
        [] \<Rightarrow> 0 | x # xs \<Rightarrow> fold max xs x)"

text \<open>A comparison with the NULL of a missing anchor holds for no row.\<close>

definition response_turn :: "string \<Rightarrow> string \<Rightarrow> db \<Rightarrow> Turn \<Rightarrow> bool" where
  "response_turn convID postID d t \<longleftrightarrow>
     (case anchor_sequence convID postID d of
        None \<Rightarrow> False
      | Some a \<Rightarrow> tn_ConversationID t = convID \<and> user_sequence_before convID a d < tn_Sequence t
          \<and> tn_Sequence t \<le> a)"

definition DeleteResponseTurns :: "io \<Rightarrow> string \<Rightarrow> string \<Rightarrow> db \<Rightarrow> go_error option \<times> db" where
  "DeleteResponseTurns io convID postID d =
     (let gone = response_turn convID postID d in
      case run_sql io (\<lambda>d. Inr (length (filter gone (db_turns d)),
             d\<lparr>db_turns := filter (\<lambda>t. \<not> gone t) (db_turns d)\<rparr>)) d of
        (Inl e, d') \<Rightarrow> (Some (wrapf ''failed to delete response turns'' e), d')
      | (Inr _, d') \<Rightarrow> (None, d'))"

section \<open>Conversations\<close>

definition ErrConversationNotFound :: go_error where
  "ErrConversationNotFound = Sentinel ''store.ErrConversationNotFound'' ''conversation not found''"
definition ErrConversationConflict :: go_error where
  "ErrConversationConflict = Sentinel ''store.ErrConversationConflict''
     ''conversation already exists for this thread and bot''"

text \<open>Two rows the partial unique index of the table forbids together.\<close>

definition same_thread :: "Conversation \<Rightarrow> Conversation \<Rightarrow> bool" where
  "same_thread c e \<longleftrightarrow> cv_RootPostID c \<noteq> None \<and> cv_DeleteAt c = 0 \<and> cv_DeleteAt e = 0
     \<and> cv_RootPostID c = cv_RootPostID e \<and> cv_BotID c = cv_BotID e \<and> cv_UserID c = cv_UserID e"

definition insert_conversation :: "Conversation \<Rightarrow> statement" where
  "insert_conversation conv d =
     (if list_ex (\<lambda>c. cv_ID c = cv_ID conv \<or> same_thread c conv) (db_conversations d)
      then Inl unique_violation
      else Inr (1, d\<lparr>db_conversations := db_conversations d @ [conv]\<rparr>))"

definition CreateConversation :: "io \<Rightarrow> Conversation \<Rightarrow> db \<Rightarrow> go_error option \<times> db" where
  "CreateConversation io conv d =
     (case execBuilder ''create conversation'' io (insert_conversation conv) d of
        (Some e, d') \<Rightarrow> (if isUniqueViolation e then Some ErrConversationConflict else Some e, d')
      | (None, d') \<Rightarrow> (None, d'))"

definition get_conversation :: "string \<Rightarrow> io \<Rightarrow> (Conversation \<Rightarrow> bool) \<Rightarrow> db \<Rightarrow> Conversation result" where
  "get_conversation desc io P d =
     bindR (read_sql desc io (find (\<lambda>c. P c \<and> cv_DeleteAt c = 0) (db_conversations d)))
       (\<lambda>r. case r of None \<Rightarrow> Inl ErrConversationNotFound | Some c \<Rightarrow> Inr c)"

definition GetConversation :: "io \<Rightarrow> string \<Rightarrow> db \<Rightarrow> Conversation result" where
  "GetConversation io cid = get_conversation ''get conversation'' io (\<lambda>c. cv_ID c = cid)"

definition GetConversationByThreadBotUser ::
  "io \<Rightarrow> string \<Rightarrow> string \<Rightarrow> string \<Rightarrow> db \<Rightarrow> Conversation result" where
  "GetConversationByThreadBotUser io rootPostID botID userID =
     get_conversation ''get conversation by thread/bot/user'' io
       (\<lambda>c. cv_RootPostID c = Some rootPostID \<and> cv_BotID c = botID \<and> cv_UserID c = userID)"

definition update_conversations :: "(Conversation \<Rightarrow> bool) \<Rightarrow> (Conversation \<Rightarrow> Conversation) \<Rightarrow> db \<Rightarrow> nat \<times> db" where
  "update_conversations P f d =
     (length (filter P (db_conversations d)),
      d\<lparr>db_conversations := map (\<lambda>c. if P c then f c else c) (db_conversations d)\<rparr>)"

definition SetConversationTitleIfUnset :: "io \<Rightarrow> string \<Rightarrow> string \<Rightarrow> db \<Rightarrow> bool result \<times> db" where
  "SetConversationTitleIfUnset io cid title =
     execBuilderRows ''set conversation title if unset'' io
       (\<lambda>d. Inr (update_conversations (\<lambda>c. cv_ID c = cid \<and> cv_Title c = [] \<and> cv_DeleteAt c = 0)
          (\<lambda>c. c\<lparr>cv_Title := title\<rparr>) d))"

definition RenameConversation :: "io \<Rightarrow> string \<Rightarrow> string \<Rightarrow> db \<Rightarrow> bool result \<times> db" where
  "RenameConversation io cid title =
     execBuilderRows ''rename conversation'' io
       (\<lambda>d. Inr (update_conversations (\<lambda>c. cv_ID c = cid \<and> cv_DeleteAt c = 0) (\<lambda>c. c\<lparr>cv_Title := title\<rparr>) d))"

text \<open>Moving a conversation to a thread, or soft-deleting it, changes columns of the partial index.\<close>

definition distinct_threads :: "Conversation list \<Rightarrow> bool" where
  "distinct_threads cs \<longleftrightarrow> sorted_wrt (\<lambda>c e. \<not> same_thread c e) cs"

definition update_indexed :: "(Conversation \<Rightarrow> bool) \<Rightarrow> (Conversation \<Rightarrow> Conversation) \<Rightarrow> statement" where
  "update_indexed P f d =
     (let (n, d') = update_conversations P f d
      in if distinct_threads (db_conversations d') then Inr (n, d') else Inl unique_violation)"

definition UpdateConversationRootPostID :: "io \<Rightarrow> int \<Rightarrow> string \<Rightarrow> string \<Rightarrow> db \<Rightarrow> go_error option \<times> db" where
  "UpdateConversationRootPostID io now cid rootPostID =
     execBuilder ''update conversation root post ID'' io
       (update_indexed (\<lambda>c. cv_ID c = cid) (\<lambda>c. c\<lparr>cv_RootPostID := Some rootPostID, cv_UpdatedAt := now\<rparr>))"

definition SoftDeleteConversation :: "io \<Rightarrow> string \<Rightarrow> int \<Rightarrow> db \<Rightarrow> go_error option \<times> db" where
  "SoftDeleteConversation io cid deleteAt =
     execBuilder ''soft delete conversation'' io
       (update_indexed (\<lambda>c. cv_ID c = cid) (\<lambda>c. c\<lparr>cv_DeleteAt := deleteAt, cv_UpdatedAt := deleteAt\<rparr>))"

record ConversationSummary =
  cs_ID :: string
  cs_UserID :: string
  cs_BotID :: string
  cs_ChannelID :: "string option"
  cs_RootPostID :: "string option"
  cs_Title :: string
  cs_TurnCount :: nat
  cs_UpdatedAt :: int

definition summary_of :: "db \<Rightarrow> Conversation \<Rightarrow> ConversationSummary" where
  "summary_of d c = \<lparr>cs_ID = cv_ID c, cs_UserID = cv_UserID c, cs_BotID = cv_BotID c,
     cs_ChannelID = cv_ChannelID c, cs_RootPostID = cv_RootPostID c, cs_Title = cv_Title c,
     cs_TurnCount = length (turns_of (cv_ID c) d), cs_UpdatedAt = cv_UpdatedAt c\<rparr>"

text \<open>The database's collation of ids is taken to be byte order.\<close>

definition GetConversationSummariesForUser ::
  "io \<Rightarrow> string \<Rightarrow> int \<Rightarrow> int \<Rightarrow> db \<Rightarrow> ConversationSummary list result" where
  "GetConversationSummariesForUser io userID limit offset d =
     read_sql ''get conversation summaries'' io
       (take (nat limit) (drop (nat offset)
         (sort_key (\<lambda>s. (- cs_UpdatedAt s, cs_ID s))
           (map (summary_of d) (filter (\<lambda>c. cv_UserID c = userID \<and> cv_DeleteAt c = 0) (db_conversations d))))))"

text \<open>One transaction: a failure anywhere before the commit rolls everything back.\<close>

definition CleanupDeletedConversations :: "io \<Rightarrow> db \<Rightarrow> go_error option \<times> db" where
  "CleanupDeletedConversations io d =
     (let gone = map cv_ID (filter (\<lambda>c. 0 < cv_DeleteAt c) (db_conversations d));
          d' = d\<lparr>db_turns := filter (\<lambda>t. tn_ConversationID t \<notin> set gone) (db_turns d),
                 db_conversations := filter (\<lambda>c. \<not> 0 < cv_DeleteAt c) (db_conversations d)\<rparr>
      in case io of
           IoOk \<Rightarrow> (None, d')
         | IoFails e applied \<Rightarrow> (Some (wrapf ''failed to commit cleanup transaction'' e), if applied then d' else d))"

section \<open>The indexes hold\<close>

abbreviation turn_key :: "Turn \<Rightarrow> string \<times> int" where
  "turn_key t \<equiv> (tn_ConversationID t, tn_Sequence t)"

definition canonical :: "Turn \<Rightarrow> bool" where
  "canonical t \<longleftrightarrow> (case tn_Content t of None \<Rightarrow> False | Some v \<Rightarrow> jsonb v = v)"

definition turns_ok :: "Turn list \<Rightarrow> bool" where
  "turns_ok ts \<longleftrightarrow> distinct (map tn_ID ts) \<and> distinct (map turn_key ts) \<and> list_all canonical ts"

definition conversations_ok :: "Conversation list \<Rightarrow> bool" where
  "conversations_ok cs \<longleftrightarrow> distinct (map cv_ID cs) \<and> distinct_threads cs"

definition db_ok :: "db \<Rightarrow> bool" where
  "db_ok d \<longleftrightarrow> turns_ok (db_turns d) \<and> conversations_ok (db_conversations d)"

lemma canonical_simps [simp]:
  "canonical (t\<lparr>tn_Content := Some (jsonb v)\<rparr>)"
  "canonical (t\<lparr>tn_PostID := p\<rparr>) = canonical t"
  "canonical (t\<lparr>tn_TokensIn := a, tn_TokensOut := b\<rparr>) = canonical t"
  by (simp_all add: canonical_def)

lemma map_update_key: "(\<And>t. g (f t) = g t) \<Longrightarrow> map g (map (\<lambda>t. if P t then f t else t) ts) = map g ts"
  by (induction ts) auto

lemma turns_ok_update:
  assumes "turns_ok ts" "\<And>t. tn_ID (f t) = tn_ID t" "\<And>t. turn_key (f t) = turn_key t"
    and "\<And>t. canonical t \<Longrightarrow> canonical (f t)"
  shows "turns_ok (map (\<lambda>t. if P t then f t else t) ts)"
proof -
  have "map tn_ID (map (\<lambda>t. if P t then f t else t) ts) = map tn_ID ts"
    by (rule map_update_key) (rule assms(2))
  moreover have "map turn_key (map (\<lambda>t. if P t then f t else t) ts) = map turn_key ts"
    by (rule map_update_key) (rule assms(3))
  moreover have "list_all canonical (map (\<lambda>t. if P t then f t else t) ts)"
    using assms(1,4) by (auto simp: turns_ok_def list_all_iff)
  ultimately show ?thesis using assms(1) unfolding turns_ok_def by metis
qed

lemma turns_ok_filter: "turns_ok ts \<Longrightarrow> turns_ok (filter P ts)"
  by (auto simp: turns_ok_def distinct_map_filter list_all_iff)

lemma turns_ok_snoc:
  assumes "turns_ok ts" "canonical t" "\<not> list_ex (\<lambda>u. tn_ID u = tn_ID t \<or> turn_key u = turn_key t) ts"
  shows "turns_ok (ts @ [t])"
  using assms by (auto simp: turns_ok_def list_ex_iff)

lemma distinct_threads_map:
  "(\<And>c e. same_thread (f c) (f e) = same_thread c e) \<Longrightarrow> distinct_threads (map f cs) = distinct_threads cs"
  by (simp add: distinct_threads_def sorted_wrt_map)

lemma conversations_ok_map:
  assumes "\<And>c. cv_ID (f c) = cv_ID c" "\<And>c e. same_thread (f c) (f e) = same_thread c e"
  shows "conversations_ok (map f cs) = conversations_ok cs"
proof -
  have "map cv_ID (map f cs) = map cv_ID cs" by (simp add: assms(1))
  then show ?thesis unfolding conversations_ok_def distinct_threads_map [OF assms(2)] by (simp only:)
qed

lemma distinct_threads_snoc:
  "distinct_threads cs \<Longrightarrow> \<not> list_ex (\<lambda>c. same_thread c e) cs \<Longrightarrow> distinct_threads (cs @ [e])"
  by (auto simp: distinct_threads_def sorted_wrt_append list_ex_iff)

lemma conversations_ok_filter: "conversations_ok cs \<Longrightarrow> conversations_ok (filter P cs)"
  by (simp add: conversations_ok_def distinct_threads_def sorted_wrt_filter distinct_map_filter)

text \<open>A statement keeps the indexes when it does so where it succeeds.\<close>

definition keeps :: "statement \<Rightarrow> bool" where
  "keeps stmt \<longleftrightarrow> (\<forall>d n d'. db_ok d \<longrightarrow> stmt d = Inr (n, d') \<longrightarrow> db_ok d')"

lemma run_sql_ok: "keeps stmt \<Longrightarrow> db_ok d \<Longrightarrow> db_ok (snd (run_sql io stmt d))"
  by (auto simp: run_sql_def keeps_def split: io.splits sum.splits)

lemma snd_execBuilderRows [simp]: "snd (execBuilderRows desc io stmt d) = snd (run_sql io stmt d)"
  by (simp add: execBuilderRows_def split: prod.splits sum.splits)

lemma snd_execBuilder [simp]: "snd (execBuilder desc io stmt d) = snd (run_sql io stmt d)"
  using snd_execBuilderRows [of desc io stmt d]
  by (auto simp: execBuilder_def simp del: snd_execBuilderRows split: prod.splits sum.splits)

lemma keeps_update_turns:
  assumes "\<And>t. tn_ID (f t) = tn_ID t" "\<And>t. turn_key (f t) = turn_key t" "\<And>t. canonical t \<Longrightarrow> canonical (f t)"
  shows "keeps (update_turns P f)"
  using turns_ok_update [of _ f P] assms by (auto simp: keeps_def update_turns_def db_ok_def)

lemma conversations_ok_bump [simp]: "conversations_ok (map (bump_activity turn) cs) = conversations_ok cs"
  by (rule conversations_ok_map) (auto simp: bump_activity_def same_thread_def)

lemma keeps_insert_turn: "keeps (insert_turn turn)"
  using turns_ok_snoc [of _ "turn\<lparr>tn_Content := Some (jsonb v)\<rparr>" for v]
  by (auto simp: keeps_def insert_turn_def db_ok_def split: option.splits if_splits)

lemma keeps_cas: "keeps (cas_statement tid expected content)"
  using keeps_update_turns [of "\<lambda>t. t\<lparr>tn_Content := Some (jsonb v)\<rparr>" "\<lambda>t. tn_ID t = tid \<and> tn_Content t = Some (jsonb e)" for v e]
  by (auto simp: keeps_def cas_statement_def split: option.splits)

lemma keeps_update_content:
  "keeps (\<lambda>d. case content of None \<Rightarrow> Inl json_syntax_error
     | Some v \<Rightarrow> update_turns P (\<lambda>t. t\<lparr>tn_Content := Some (jsonb v)\<rparr>) d)"
  using keeps_update_turns [of "\<lambda>t. t\<lparr>tn_Content := Some (jsonb v)\<rparr>" P for v]
  by (auto simp: keeps_def split: option.splits)

lemma keeps_update_conversations:
  assumes "\<And>c. cv_ID (f c) = cv_ID c" "\<And>c e. same_thread (f c) (f e) = same_thread c e"
    "\<And>c e. same_thread (f c) e = same_thread c e" "\<And>c e. same_thread c (f e) = same_thread c e"
  shows "keeps (\<lambda>d. Inr (update_conversations P f d))"
proof -
  have "conversations_ok (map (\<lambda>c. if P c then f c else c) cs) = conversations_ok cs" for cs
    by (rule conversations_ok_map) (simp_all add: assms)
  then show ?thesis by (auto simp: keeps_def update_conversations_def db_ok_def)
qed

lemma keeps_update_indexed:
  assumes "\<And>c. cv_ID (f c) = cv_ID c"
  shows "keeps (update_indexed P f)"
proof -
  have "map cv_ID (map (\<lambda>c. if P c then f c else c) cs) = map cv_ID cs" for cs
    by (simp add: assms)
  then show ?thesis
    by (auto simp: keeps_def update_indexed_def update_conversations_def db_ok_def conversations_ok_def
        simp del: map_map split: if_splits)
qed

lemma keeps_insert_conversation: "keeps (insert_conversation conv)"
  using distinct_threads_snoc [of _ conv]
  by (auto simp: keeps_def insert_conversation_def db_ok_def conversations_ok_def list_ex_iff split: if_splits)

lemma keeps_delete: "keeps (\<lambda>d. Inr (n, d\<lparr>db_turns := filter P (db_turns d)\<rparr>))"
  by (auto simp: keeps_def db_ok_def turns_ok_filter)

text \<open>Every call of the store, with its arguments, failures and concurrent insertions.\<close>

inductive store_step :: "db \<Rightarrow> db \<Rightarrow> bool" where
  create_turn: "store_step d (snd (CreateTurn io turn d))"
| auto_turn: "store_step d (snd (auto_attempt io id turn d))"
| update_content: "store_step d (snd (UpdateTurnContent io tid content d))"
| cas_content: "store_step d (snd (CompareAndSwapTurnContent io tid expected content d))"
| update_post: "store_step d (snd (UpdateTurnPostID io tid postID d))"
| update_tokens: "store_step d (snd (UpdateTurnTokens io tid i j d))"
| delete_response: "store_step d (snd (DeleteResponseTurns io convID post d))"
| create_conversation: "store_step d (snd (CreateConversation io conv d))"
| set_title: "store_step d (snd (SetConversationTitleIfUnset io cid title d))"
| rename: "store_step d (snd (RenameConversation io cid title d))"
| set_root: "store_step d (snd (UpdateConversationRootPostID io now cid root d))"
| soft_delete: "store_step d (snd (SoftDeleteConversation io cid now d))"
| cleanup: "store_step d (snd (CleanupDeletedConversations io d))"

inductive reachable_db :: "db \<Rightarrow> bool" where
  empty: "reachable_db \<lparr>db_turns = [], db_conversations = []\<rparr>"
| step: "reachable_db d \<Longrightarrow> store_step d d' \<Longrightarrow> reachable_db d'"

lemma snd_auto_attempt:
  "snd (auto_attempt io others turn d) =
   snd (run_sql io (insert_turn (turn\<lparr>tn_Sequence := max_sequence (tn_ConversationID turn) d + 1\<rparr>)) (others d))"
  by (simp add: auto_attempt_def Let_def split: prod.splits sum.splits)

lemma snd_cas: "snd (CompareAndSwapTurnContent io tid e c d) = snd (run_sql io (cas_statement tid e c) d)"
  by (simp add: CompareAndSwapTurnContent_def split: prod.splits sum.splits)

lemma snd_delete:
  "snd (DeleteResponseTurns io convID post d) =
   snd (run_sql io (\<lambda>e. Inr (length (filter (response_turn convID post d) (db_turns e)),
     e\<lparr>db_turns := filter (\<lambda>t. \<not> response_turn convID post d t) (db_turns e)\<rparr>)) d)"
  by (simp add: DeleteResponseTurns_def Let_def split: prod.splits sum.splits)

lemma keeps_delete_response:
  "keeps (\<lambda>e. Inr (length (filter Q (db_turns e)), e\<lparr>db_turns := filter P (db_turns e)\<rparr>))"
  by (auto simp: keeps_def db_ok_def turns_ok_filter)

lemma snd_create_conversation: "snd (CreateConversation io conv d) = snd (run_sql io (insert_conversation conv) d)"
proof -
  have "snd (CreateConversation io conv d) = snd (execBuilder ''create conversation'' io (insert_conversation conv) d)"
    unfolding CreateConversation_def
    by (cases "execBuilder ''create conversation'' io (insert_conversation conv) d") (auto split: option.splits)
  then show ?thesis by simp
qed

lemma keeps_title: "keeps (\<lambda>d. Inr (update_conversations P (\<lambda>c. c\<lparr>cv_Title := title\<rparr>) d))"
  by (rule keeps_update_conversations) (simp_all add: same_thread_def)

lemma store_step_ok: "store_step d d' \<Longrightarrow> db_ok d \<Longrightarrow> db_ok d'"
proof (induction rule: store_step.induct)
  case (cleanup d io)
  then show ?case
    by (auto simp: CleanupDeletedConversations_def Let_def db_ok_def turns_ok_filter conversations_ok_filter
        split: io.splits)
qed (simp_all add: CreateTurn_def snd_auto_attempt UpdateTurnContent_def snd_cas UpdateTurnPostID_def
      UpdateTurnTokens_def snd_delete snd_create_conversation SetConversationTitleIfUnset_def
      RenameConversation_def UpdateConversationRootPostID_def SoftDeleteConversation_def run_sql_ok
      keeps_insert_turn keeps_update_content keeps_cas keeps_update_turns keeps_delete_response
      keeps_insert_conversation keeps_title keeps_update_indexed)

text \<open>
  C22: whatever calls the store receives, failed and half-acknowledged ones included, turn ids and
  the positions of the turns of a conversation stay unique, every stored content is canonical JSONB,
  and no two live conversations share a thread, an agent and a user.
\<close>

theorem reachable_db_ok: "reachable_db d \<Longrightarrow> db_ok d"
proof (induction rule: reachable_db.induct)
  case empty
  show ?case by (simp add: db_ok_def turns_ok_def conversations_ok_def distinct_threads_def)
next
  case (step d d')
  then show ?case using store_step_ok by blast
qed

section \<open>Compare-and-swap\<close>

text \<open>
  The contract its clients rely on: a register per key whose conditional write reports success only
  when the register held the expected value, and a failed call writes the new value or nothing. A
  value is closed when no claim expects it.
\<close>

locale cas_register =
  fixes content :: "'s \<Rightarrow> 'k \<Rightarrow> 'v option"
    and cas :: "'i \<Rightarrow> 'k \<Rightarrow> 'v \<Rightarrow> 'v \<Rightarrow> 's \<Rightarrow> bool result \<times> 's"
    and canon :: "'v \<Rightarrow> 'v"
    and valid :: "'s \<Rightarrow> bool"
  assumes cas_true: "valid s \<Longrightarrow> cas i k e v s = (Inr True, s') \<Longrightarrow>
        content s k = Some (canon e) \<and> content s' k = Some (canon v)"
    and cas_writes: "valid s \<Longrightarrow> cas i k e v s = (r, s') \<Longrightarrow> s' = s
        \<or> (content s k = Some (canon e) \<and> content s' k = Some (canon v))"
    and cas_frame: "valid s \<Longrightarrow> k' \<noteq> k \<Longrightarrow> content (snd (cas i k e v s)) k' = content s k'"
begin

definition closed :: "('v \<Rightarrow> bool) \<Rightarrow> 's \<Rightarrow> 'k \<Rightarrow> bool" where
  "closed claimable s k \<longleftrightarrow> pred_option (\<lambda>v. \<not> claimable v) (content s k)"

lemma claim_closes:
  assumes "valid s" "cas i k e v s = (Inr True, s')" "claimable (canon e)" "\<not> claimable (canon v)"
  shows "\<not> closed claimable s k \<and> closed claimable s' k"
  using cas_true [OF assms(1,2)] assms(3,4) by (simp add: closed_def)

lemma closed_refuses:
  assumes "valid s" "closed claimable s k" "claimable (canon e)" "cas i k e v s = (r, s')"
  shows "s' = s \<and> r \<noteq> Inr True"
proof
  have "content s k \<noteq> Some (canon e)" using assms(2,3) by (auto simp: closed_def)
  then show "s' = s" "r \<noteq> Inr True"
    using cas_writes [OF assms(1,4)] cas_true [OF assms(1)] assms(4) by blast+
qed

lemma closed_stays:
  assumes "valid s" "closed claimable s k" "\<not> claimable (canon v)"
  shows "closed claimable (snd (cas i k' e v s)) k"
proof (cases "k' = k")
  case True
  obtain r s' where rs: "cas i k e v s = (r, s')" by fastforce
  show ?thesis using cas_writes [OF assms(1) rs] assms(2,3) True rs by (auto simp: closed_def)
next
  case False
  then show ?thesis using cas_frame [OF assms(1), of k k'] assms(2) by (simp add: closed_def)
qed

text \<open>Of two claims of the same value, in either order, one at most wins.\<close>

lemma one_winner:
  assumes "valid s" "cas i k e v s = (Inr True, s')" "valid s'" "canon v \<noteq> canon e"
  shows "fst (cas j k e w s') \<noteq> Inr True"
  using cas_true [OF assms(1,2)] cas_true [OF assms(3), of j k e w] assms(4) by (metis option.inject prod.collapse)

end

definition turn_content :: "db \<Rightarrow> string \<Rightarrow> json option" where
  "turn_content d tid = (case find (\<lambda>t. tn_ID t = tid) (db_turns d) of None \<Rightarrow> None | Some t \<Rightarrow> tn_Content t)"

lemma find_unique:
  "distinct (map f ts) \<Longrightarrow> t \<in> set ts \<Longrightarrow> f t = k \<Longrightarrow> find (\<lambda>t. f t = k) ts = Some t"
  by (induction ts) (auto simp: rev_image_eqI)

lemma find_pred: "find P xs = Some x \<Longrightarrow> P x"
  by (auto simp: find_Some_iff)

lemma length_filter_unique:
  "distinct (map f ts) \<Longrightarrow> length (filter (\<lambda>t. f t = k \<and> Q t) ts)
     = (case find (\<lambda>t. f t = k) ts of None \<Rightarrow> 0 | Some t \<Rightarrow> if Q t then 1 else 0)"
proof (induction ts)
  case (Cons t ts)
  have "f t = k \<Longrightarrow> filter (\<lambda>t. f t = k \<and> Q t) ts = []"
    using Cons.prems by (auto simp: filter_empty_conv image_iff)
  with Cons show ?case by (auto split: option.splits)
qed simp

lemma find_map_update:
  "(\<And>t. g (f t) = g t) \<Longrightarrow>
   find (\<lambda>t. g t = k) (map (\<lambda>t. if P t then f t else t) ts)
     = map_option (\<lambda>t. if P t then f t else t) (find (\<lambda>t. g t = k) ts)"
  by (induction ts) auto

lemma turn_content_update:
  assumes "\<And>t. tn_ID (f t) = tn_ID t"
  shows "turn_content (d\<lparr>db_turns := map (\<lambda>t. if P t then f t else t) (db_turns d)\<rparr>) tid
     = (case find (\<lambda>t. tn_ID t = tid) (db_turns d) of None \<Rightarrow> None | Some t \<Rightarrow> if P t then tn_Content (f t) else tn_Content t)"
  using find_map_update [of tn_ID f tid P "db_turns d"] assms
  by (simp add: turn_content_def split: option.split)

lemma cas_statement_cases:
  assumes "db_ok d" "cas_statement tid (Some e) (Some v) d = r"
  obtains (swapped) d' where "r = Inr (1, d')" "turn_content d tid = Some (jsonb e)" "turn_content d' tid = Some (jsonb v)"
      "\<And>k. k \<noteq> tid \<Longrightarrow> turn_content d' k = turn_content d k"
    | (kept) "r = Inr (0, d)" "turn_content d tid \<noteq> Some (jsonb e)"
proof -
  let ?P = "\<lambda>t. tn_ID t = tid \<and> tn_Content t = Some (jsonb e)"
  let ?f = "\<lambda>t. t\<lparr>tn_Content := Some (jsonb v)\<rparr>"
  let ?d = "d\<lparr>db_turns := map (\<lambda>t. if ?P t then ?f t else t) (db_turns d)\<rparr>"
  have dist: "distinct (map tn_ID (db_turns d))" using assms(1) by (simp add: db_ok_def turns_ok_def)
  have r: "r = Inr (length (filter ?P (db_turns d)), ?d)"
    using assms(2) by (simp add: cas_statement_def update_turns_def)
  have other: "turn_content ?d k = turn_content d k" if "k \<noteq> tid" for k
  proof (cases "find (\<lambda>t. tn_ID t = k) (db_turns d)")
    case None
    then show ?thesis by (subst turn_content_update) (simp_all add: turn_content_def)
  next
    case (Some t)
    then have "tn_ID t = k" by (auto simp: find_Some_iff)
    then show ?thesis using Some that by (subst turn_content_update) (simp_all add: turn_content_def)
  qed
  show thesis
  proof (cases "turn_content d tid = Some (jsonb e)")
    case True
    then obtain t where t: "find (\<lambda>t. tn_ID t = tid) (db_turns d) = Some t" "tn_Content t = Some (jsonb e)"
      by (auto simp: turn_content_def split: option.splits)
    have "turn_content ?d tid = Some (jsonb v)"
      using t find_pred [OF t(1)] by (subst turn_content_update) simp_all
    then show thesis
      using swapped [of ?d] True other r t length_filter_unique [OF dist, of tid "\<lambda>t. tn_Content t = Some (jsonb e)"]
      by simp
  next
    case False
    then have none: "filter ?P (db_turns d) = []"
      using find_unique [OF dist] by (force simp: filter_empty_conv turn_content_def)
    then have "map (\<lambda>t. if ?P t then ?f t else t) (db_turns d) = db_turns d"
      by (intro map_idI) (auto simp: filter_empty_conv)
    then show thesis using kept False r none by simp
  qed
qed

text \<open>The store's columns are such registers.\<close>

interpretation turn_cas: cas_register turn_content "\<lambda>io tid e v. CompareAndSwapTurnContent io tid (Some e) (Some v)" jsonb db_ok
proof
  fix s i k e v s'
  assume ok: "db_ok s" and cas: "CompareAndSwapTurnContent i k (Some e) (Some v) s = (Inr True, s')"
  show "turn_content s k = Some (jsonb e) \<and> turn_content s' k = Some (jsonb v)"
    using cas by (cases rule: cas_statement_cases [OF ok refl, of k e v])
      (auto simp: CompareAndSwapTurnContent_def run_sql_def split: io.splits)
next
  fix s i k e v r s'
  assume ok: "db_ok s" and cas: "CompareAndSwapTurnContent i k (Some e) (Some v) s = (r, s')"
  show "s' = s \<or> (turn_content s k = Some (jsonb e) \<and> turn_content s' k = Some (jsonb v))"
    using cas by (cases rule: cas_statement_cases [OF ok refl, of k e v])
      (auto simp: CompareAndSwapTurnContent_def run_sql_def split: io.splits if_splits)
next
  fix s i and k k' :: string and e v
  assume ok: "db_ok s" and neq: "k' \<noteq> k"
  show "turn_content (snd (CompareAndSwapTurnContent i k (Some e) (Some v) s)) k' = turn_content s k'"
    using neq by (cases rule: cas_statement_cases [OF ok refl, of k e v])
      (auto simp: CompareAndSwapTurnContent_def run_sql_def split: io.splits)
qed

text \<open>
  Of two conditional writes that expect the same content of a turn, at most one reports success,
  whatever the second one writes and however its call ends.
\<close>

theorem CompareAndSwap_one_winner:
  assumes "db_ok d" "CompareAndSwapTurnContent io tid (Some e) (Some v) d = (Inr True, d')" "jsonb v \<noteq> jsonb e"
  shows "fst (CompareAndSwapTurnContent io' tid (Some e) (Some w) d') \<noteq> Inr True"
proof (rule turn_cas.one_winner [OF assms(1,2) _ assms(3)])
  show "db_ok d'"
    using store_step_ok [OF store_step.cas_content [of d io tid "Some e" "Some v"] assms(1)] assms(2) by simp
qed

definition example_turn :: "string \<Rightarrow> string \<Rightarrow> string option \<Rightarrow> int \<Rightarrow> Turn" where
  "example_turn tid role post s = \<lparr>tn_ID = tid, tn_ConversationID = ''c'', tn_PostID = post, tn_Role = role,
     tn_Content = Some (JArr []), tn_TokensIn = 0, tn_TokensOut = 0, tn_Sequence = s, tn_CreatedAt = 5\<rparr>"

definition example_db :: db where
  "example_db = \<lparr>db_turns = [example_turn ''u'' ''user'' None 1, example_turn ''r'' ''assistant'' None 2,
     example_turn ''a'' ''assistant'' (Some ''p'') 3], db_conversations = []\<rparr>"

lemma example_db_ok: "db_ok example_db"
  by (simp add: db_ok_def example_db_def example_turn_def turns_ok_def conversations_ok_def canonical_def
      distinct_threads_def)

lemma CompareAndSwap_one_winner_witness:
  "fst (CompareAndSwapTurnContent IoOk ''a'' (Some (JArr [])) (Some (JArr [JNull]))
     (snd (CompareAndSwapTurnContent IoOk ''a'' (Some (JArr [])) (Some JNull) example_db))) \<noteq> Inr True"
proof (rule CompareAndSwap_one_winner [OF example_db_ok])
  show "CompareAndSwapTurnContent IoOk ''a'' (Some (JArr [])) (Some JNull) example_db =
    (Inr True, snd (CompareAndSwapTurnContent IoOk ''a'' (Some (JArr [])) (Some JNull) example_db))"
    by (simp add: CompareAndSwapTurnContent_def run_sql_def cas_statement_def update_turns_def example_db_def
        example_turn_def)
qed simp

lemma reachable_db_ok_witness:
  "db_ok (snd (CreateTurn IoOk (example_turn ''u'' ''user'' None 1) \<lparr>db_turns = [], db_conversations = []\<rparr>))
   \<and> map tn_ID (db_turns (snd (CreateTurn IoOk (example_turn ''u'' ''user'' None 1)
       \<lparr>db_turns = [], db_conversations = []\<rparr>))) = [''u'']"
proof
  show "db_ok (snd (CreateTurn IoOk (example_turn ''u'' ''user'' None 1) \<lparr>db_turns = [], db_conversations = []\<rparr>))"
    by (rule reachable_db_ok [OF reachable_db.step [OF reachable_db.empty store_step.create_turn]])
qed (simp add: CreateTurn_def execBuilder_def execBuilderRows_def run_sql_def insert_turn_def example_turn_def
      bump_activity_def)

section \<open>Sequences\<close>

lemma fold_max_upper: "x \<in> set (s # ss) \<Longrightarrow> x \<le> fold max ss (s :: int)"
  using Max_ge [of "set (s # ss)" x] by (simp only: Max.set_eq_fold) simp

lemma fold_max_in: "fold max ss (s :: int) \<in> set (s # ss)"
  using Max_in [of "set (s # ss)"] by (simp only: Max.set_eq_fold) simp

lemma max_sequence_upper:
  assumes "t \<in> set (db_turns d)" "tn_ConversationID t = convID"
  shows "tn_Sequence t \<le> max_sequence convID d"
proof -
  have "tn_Sequence t \<in> set (map tn_Sequence (turns_of convID d))" using assms by (auto simp: turns_of_def)
  then show ?thesis
    using fold_max_upper unfolding max_sequence_def by (cases "map tn_Sequence (turns_of convID d)") auto
qed

lemma insert_turn_Inr:
  assumes "insert_turn turn d = Inr (n, d')"
  obtains v where "tn_Content turn = Some v" "db_turns d' = db_turns d @ [turn\<lparr>tn_Content := Some (jsonb v)\<rparr>]"
    "\<And>t. t \<in> set (db_turns d) \<Longrightarrow> turn_key t \<noteq> turn_key turn \<and> tn_ID t \<noteq> tn_ID turn"
  using assms by (auto simp: insert_turn_def list_ex_iff split: option.splits if_splits)

text \<open>The row an insertion adds is the only one at its position.\<close>

definition appended :: "Turn \<Rightarrow> int \<Rightarrow> db \<Rightarrow> bool" where
  "appended turn s d \<longleftrightarrow>
     (\<exists>v. tn_Content turn = Some v
        \<and> filter (\<lambda>t. turn_key t = (tn_ConversationID turn, s)) (db_turns d)
          = [turn\<lparr>tn_Sequence := s, tn_Content := Some (jsonb v)\<rparr>])"

lemma auto_attempt_Inr:
  assumes "auto_attempt io others turn d = (Inr s, d')"
  shows "appended turn s d'"
proof -
  obtain n where ins: "insert_turn (turn\<lparr>tn_Sequence := s\<rparr>) (others d) = Inr (n, d')"
    using assms by (auto simp: auto_attempt_def run_sql_def Let_def split: io.splits sum.splits prod.splits)
  then show ?thesis
    by (rule insert_turn_Inr) (force simp: appended_def filter_empty_conv)
qed

lemma auto_loop_Inr: "auto_loop n io others turn e d = (Inr s, d') \<Longrightarrow> appended turn s d'"
  by (induction n io others turn e d rule: auto_loop.induct)
     (auto simp: auto_attempt_Inr split: prod.splits sum.splits if_splits)

lemma CreateTurnAutoSequence_quiet:
  assumes "tn_Content turn = Some v" "tn_ID turn \<notin> tn_ID ` set (db_turns d)"
  shows "CreateTurnAutoSequence (\<lambda>_. IoOk) (\<lambda>_. id) turn d =
    (Inr (max_sequence (tn_ConversationID turn) d + 1),
     d\<lparr>db_turns := db_turns d @ [turn\<lparr>tn_Sequence := max_sequence (tn_ConversationID turn) d + 1,
         tn_Content := Some (jsonb v)\<rparr>],
       db_conversations := map (bump_activity turn) (db_conversations d)\<rparr>)"
proof -
  let ?s = "max_sequence (tn_ConversationID turn) d + 1"
  have "tn_Sequence t \<noteq> ?s" if "t \<in> set (db_turns d)" "tn_ConversationID t = tn_ConversationID turn" for t
    using max_sequence_upper [OF that] by simp
  then have "\<not> list_ex (\<lambda>t. tn_ID t = tn_ID turn
      \<or> (tn_ConversationID t = tn_ConversationID turn \<and> tn_Sequence t = ?s)) (db_turns d)"
    using assms(2) unfolding list_ex_iff by (metis image_eqI)
  moreover have "bump_activity (turn\<lparr>tn_Sequence := ?s\<rparr>) = bump_activity turn"
    by (rule ext) (simp add: bump_activity_def)
  ultimately have "insert_turn (turn\<lparr>tn_Sequence := ?s\<rparr>) d = Inr (1,
      d\<lparr>db_turns := db_turns d @ [turn\<lparr>tn_Sequence := ?s, tn_Content := Some (jsonb v)\<rparr>],
        db_conversations := map (bump_activity turn) (db_conversations d)\<rparr>)"
    using assms(1) by (auto simp: insert_turn_def)
  then show ?thesis
    by (simp add: CreateTurnAutoSequence_def maxAutoSequenceRetries_def numeral_3_eq_3 auto_attempt_def
        run_sql_def Let_def)
qed

text \<open>
  A turn created with an automatic position is the only turn of its conversation at that
  position, whatever other writers commit between reading the maximum and inserting; with no other
  writer the first attempt succeeds and the turn becomes the last of its conversation.
\<close>

theorem CreateTurnAutoSequence_spec:
  "(case CreateTurnAutoSequence io others turn d of (Inr s, d') \<Rightarrow> appended turn s d' | (Inl _, _) \<Rightarrow> True)
   \<and> (if tn_Content turn \<noteq> None \<and> tn_ID turn \<notin> tn_ID ` set (db_turns d)
      then CreateTurnAutoSequence (\<lambda>_. IoOk) (\<lambda>_. id) turn d =
        (Inr (max_sequence (tn_ConversationID turn) d + 1),
         d\<lparr>db_turns := db_turns d @ [turn\<lparr>tn_Sequence := max_sequence (tn_ConversationID turn) d + 1,
             tn_Content := map_option jsonb (tn_Content turn)\<rparr>],
           db_conversations := map (bump_activity turn) (db_conversations d)\<rparr>)
      else True)"
  using auto_loop_Inr CreateTurnAutoSequence_quiet [of turn _ d]
  by (auto simp: CreateTurnAutoSequence_def split: prod.splits sum.splits)

lemma user_sequence_upper:
  assumes "t \<in> set (turns_of convID d)" "tn_Role t = ''user''" "tn_Sequence t < s"
  shows "tn_Sequence t \<le> user_sequence_before convID s d"
proof -
  let ?xs = "map tn_Sequence (filter (\<lambda>t. tn_Role t = ''user'' \<and> tn_Sequence t < s) (turns_of convID d))"
  have "tn_Sequence t \<in> set ?xs" using assms by auto
  then show ?thesis using fold_max_upper unfolding user_sequence_before_def by (cases ?xs) auto
qed

text \<open>
  Scrubbing a response removes the turns after the user turn it answers up to its anchor, and
  nothing else: no user turn, no later turn, no turn of another conversation; an unknown post removes
  nothing.
\<close>

theorem DeleteResponseTurns_spec:
  assumes "db_ok d" "DeleteResponseTurns IoOk convID postID d = (None, d')"
  shows "db_turns d' = filter (\<lambda>t. \<not> response_turn convID postID d t) (db_turns d)
    \<and> (\<forall>t \<in> set (db_turns d). t \<notin> set (db_turns d') \<longrightarrow>
         tn_ConversationID t = convID \<and> tn_Role t \<noteq> ''user''
         \<and> pred_option (\<lambda>a. tn_Sequence t \<le> a) (anchor_sequence convID postID d))"
proof -
  have turns: "db_turns d' = filter (\<lambda>t. \<not> response_turn convID postID d t) (db_turns d)"
    using assms(2) by (auto simp: DeleteResponseTurns_def run_sql_def)
  have keys: "inj_on turn_key (set (db_turns d))"
    using assms(1) by (simp add: db_ok_def turns_ok_def distinct_map)
  show ?thesis
  proof (cases "find (\<lambda>t. tn_Role t = ''assistant'' \<and> tn_PostID t = Some postID) (turns_of convID d)")
    case None
    then have "response_turn convID postID d t = False" for t by (simp add: response_turn_def anchor_sequence_def)
    with None show ?thesis by (simp add: turns anchor_sequence_def turns_of_def)
  next
    case (Some a)
    then have a: "a \<in> set (db_turns d)" "tn_ConversationID a = convID" "tn_Role a = ''assistant''"
      by (auto simp: find_Some_iff turns_of_def dest: nth_mem) 
    have anchor: "anchor_sequence convID postID d = Some (tn_Sequence a)" using Some by (simp add: anchor_sequence_def)
    have "tn_Role t \<noteq> ''user''" if "t \<in> set (db_turns d)" "response_turn convID postID d t" for t
    proof
      assume user: "tn_Role t = ''user''"
      have t: "tn_ConversationID t = convID" "user_sequence_before convID (tn_Sequence a) d < tn_Sequence t"
        "tn_Sequence t \<le> tn_Sequence a" using that(2) by (auto simp: response_turn_def anchor)
      have "t \<in> set (turns_of convID d)" using t(1) that(1) by (simp add: turns_of_def)
      from user_sequence_upper [OF this user, of "tn_Sequence a"] t(2)
      have "\<not> tn_Sequence t < tn_Sequence a" by linarith
      then have "tn_Sequence t = tn_Sequence a" using t(3) by simp
      then have "turn_key t = turn_key a" using t(1) a(2) by simp
      with keys have "t = a" using that(1) a(1) by (rule inj_onD)
      with user a(3) show False by simp
    qed
    then show ?thesis by (auto simp: turns response_turn_def anchor)
  qed
qed

lemma DeleteResponseTurns_spec_witness:
  "db_turns (snd (DeleteResponseTurns IoOk ''c'' ''p'' example_db))
     = filter (\<lambda>t. \<not> response_turn ''c'' ''p'' example_db t) (db_turns example_db)
   \<and> map tn_ID (db_turns (snd (DeleteResponseTurns IoOk ''c'' ''p'' example_db))) = [''u'']"
proof
  have ok: "DeleteResponseTurns IoOk ''c'' ''p'' example_db = (None, snd (DeleteResponseTurns IoOk ''c'' ''p'' example_db))"
    by (simp add: DeleteResponseTurns_def run_sql_def)
  show "db_turns (snd (DeleteResponseTurns IoOk ''c'' ''p'' example_db))
     = filter (\<lambda>t. \<not> response_turn ''c'' ''p'' example_db t) (db_turns example_db)"
    using DeleteResponseTurns_spec [OF example_db_ok ok] by blast
  show "map tn_ID (db_turns (snd (DeleteResponseTurns IoOk ''c'' ''p'' example_db))) = [''u'']"
    by code_simp
qed

end
