(* ===== verification/Conversation_Posts.thy ===== *)
theory Conversation_Posts
  imports Turn_Store Tool_Runner
begin

text \<open>
  From stored turns to the posts of a completion request (\<open>src/conversation/convert.go\<close>, and
  \<open>turnsToLLMPosts\<close>, \<open>pairToolResults\<close>, \<open>AssembleRequest\<close> of \<open>src/conversation/service.go\<close>), the
  placeholders of attachments (\<open>src/format/format.go\<close>), the blocks a tool round is written as
  (\<open>src/conversation/helpers.go\<close>) and what history says was loaded
  (\<open>src/conversation/derive_loaded_tools.go\<close>).

  The Mattermost client is a parameter: file metadata, channel permissions and file contents. A file
  reader delivers some bytes and then ends or fails. Unicode's control and format characters are the
  parameter \<open>mm_control\<close>.
\<close>

section \<open>Statuses and roles\<close>

definition RoleFromString :: "string \<Rightarrow> PostRole" where
  "RoleFromString role =
     (if role = ''user'' then PostRoleUser else if role = ''assistant'' then PostRoleBot
      else if role = ''tool_result'' then PostRoleUser else if role = ''system'' then PostRoleSystem
      else PostRoleUser)"

definition StatusFromString :: "string \<Rightarrow> ToolCallStatus" where
  "StatusFromString s =
     (if s = StatusPending then ToolCallStatusPending else if s = StatusAccepted then ToolCallStatusAccepted
      else if s = StatusRejected then ToolCallStatusRejected else if s = StatusError then ToolCallStatusError
      else if s = StatusSuccess then ToolCallStatusSuccess
      else if s = StatusAutoApproved then ToolCallStatusAutoApproved else ToolCallStatusPending)"

fun StatusToString :: "ToolCallStatus \<Rightarrow> string" where
  "StatusToString ToolCallStatusPending = StatusPending"
| "StatusToString ToolCallStatusAccepted = StatusAccepted"
| "StatusToString ToolCallStatusRejected = StatusRejected"
| "StatusToString ToolCallStatusError = StatusError"
| "StatusToString ToolCallStatusSuccess = StatusSuccess"
| "StatusToString ToolCallStatusAutoApproved = StatusAutoApproved"
| "StatusToString (ToolCallStatusOther _) = StatusPending"

section \<open>Blocks of a tool round\<close>

definition reasoning_blocks :: "ReasoningData \<Rightarrow> ContentBlock list" where
  "reasoning_blocks r = (if rd_Text r = [] then []
     else [block0\<lparr>cb_Type := BlockTypeThinking, cb_Text := rd_Text r, cb_Signature := rd_Signature r\<rparr>])"

definition tool_use_block :: "bool \<Rightarrow> ToolCall \<Rightarrow> ContentBlock" where
  "tool_use_block shared tc = block0\<lparr>cb_Type := BlockTypeToolUse, cb_ID := tc_ID tc, cb_Name := tc_Name tc,
     cb_ServerOrigin := tc_ServerOrigin tc, cb_Input := tc_Arguments tc, cb_MCPBareName := tc_MCPBareName tc,
     cb_Status := StatusToString (tc_Status tc), cb_Shared := Some shared,
     cb_UserInteraction := tc_UserInteraction tc, cb_WouldAutoExecute := tc_WouldAutoExecute tc,
     cb_Title := tc_Title tc, cb_Description := tc_Description tc\<rparr>"

definition toolUseBlocks ::
  "string \<Rightarrow> ReasoningData \<Rightarrow> ServerToolUse list \<Rightarrow> TurnSegment list \<Rightarrow> ToolCall list \<Rightarrow> bool \<Rightarrow> ContentBlock list" where
  "toolUseBlocks message reasoning serverTools segments toolCalls shared =
     (if 0 < length segments then SequenceBlocks segments serverTools
      else reasoning_blocks reasoning
        @ map (\<lambda>st. block0\<lparr>cb_Type := BlockTypeServerToolUse, cb_ServerTool := Some st\<rparr>) serverTools
        @ textBlocks message)
     @ map (tool_use_block shared) toolCalls"

definition tool_result_block :: "int \<Rightarrow> bool \<Rightarrow> ToolResult \<Rightarrow> ContentBlock" where
  "tool_result_block now shared tr = block0\<lparr>cb_Type := BlockTypeToolResult, cb_ToolUseID := tr_ToolCallID tr,
     cb_Content := tr_Result tr, cb_Status := (if tr_IsError tr then StatusError else StatusSuccess),
     cb_Shared := Some shared, cb_DecidedAt := Some now\<rparr>"

definition toolResultBlocks :: "int \<Rightarrow> ToolResult list \<Rightarrow> bool \<Rightarrow> ContentBlock list" where
  "toolResultBlocks now results shared = map (tool_result_block now shared) results"

section \<open>Attachments\<close>

datatype UnavailableAttachmentReason = AttachmentImageInputDisabled | AttachmentLoadFailed | AttachmentForbidden

definition maxAttachmentNameRunes :: nat where "maxAttachmentNameRunes = 100"

definition IsSpaceRune :: "nat \<Rightarrow> bool" where
  "IsSpaceRune r \<longleftrightarrow> (9 \<le> r \<and> r \<le> 13) \<or> r = 0x20 \<or> r = 0x85 \<or> r = 0xA0 \<or> r = 0x1680
     \<or> (0x2000 \<le> r \<and> r \<le> 0x200A) \<or> r = 0x2028 \<or> r = 0x2029 \<or> r = 0x202F \<or> r = 0x205F \<or> r = 0x3000"

definition attachment_rune :: "(nat \<Rightarrow> bool) \<Rightarrow> nat \<Rightarrow> nat option" where
  "attachment_rune control r =
     (if r = 0x5B \<or> r = 0x5D then None
      else if IsSpaceRune r then Some 0x20
      else if control r then None
      else Some r)"

text \<open>The words between spaces, joined by one space.\<close>

fun collapse :: "bool \<Rightarrow> nat list \<Rightarrow> nat list" where
  "collapse gap [] = []"
| "collapse gap (r # rs) =
     (if r = 0x20 then collapse True rs else (if gap then [0x20, r] else [r]) @ collapse False rs)"

definition sanitizeAttachmentName :: "(nat \<Rightarrow> bool) \<Rightarrow> string \<Rightarrow> string" where
  "sanitizeAttachmentName control name =
     (let cleaned = collapse False (dropWhile (\<lambda>r. r = 0x20) (List.map_filter (attachment_rune control) (runes name)))
      in if maxAttachmentNameRunes < length cleaned
         then concat (map encode_rune (take maxAttachmentNameRunes cleaned)) @ encode_rune 0x2026
         else concat (map encode_rune cleaned))"

definition UnavailableAttachment :: "(nat \<Rightarrow> bool) \<Rightarrow> string \<Rightarrow> UnavailableAttachmentReason \<Rightarrow> string" where
  "UnavailableAttachment control name0 reason =
     (let name = sanitizeAttachmentName control name0 in
      case reason of
        AttachmentForbidden \<Rightarrow> ''[An attachment here is not available to the requesting user.]''
      | AttachmentImageInputDisabled \<Rightarrow>
          (if name = [] then ''[An image is attached. Image input is disabled for this agent, so you cannot see it.]''
           else ''[Image attached: '' @ name @ ''. Image input is disabled for this agent, so you cannot see it.]'')
      | AttachmentLoadFailed \<Rightarrow>
          (if name = [] then ''[An attachment could not be loaded.]''
           else ''[Attachment '' @ name @ '' could not be loaded.]''))"

definition Itoa_int :: "int \<Rightarrow> string" where
  "Itoa_int i = (if i < 0 then ''-'' @ Itoa (nat (- i)) else Itoa (nat i))"

abbreviation newline :: string where "newline \<equiv> [CHR 0x0A]"

definition WriteFileDescriptor :: "nat \<Rightarrow> FileInfo \<Rightarrow> string" where
  "WriteFileDescriptor number fi =
     (if 0 < number then ''**Attached File '' @ Itoa number @ ''**:'' @ newline else [])
     @ ''Name: '' @ fi_Name fi @ newline @ ''File ID: '' @ fi_Id fi @ newline
     @ (if fi_MimeType fi = [] then [] else ''Type: '' @ fi_MimeType fi @ newline)
     @ ''Size: '' @ Itoa_int (fi_Size fi) @ '' bytes'' @ newline @ newline"

record reader =
  rd_bytes :: string
  rd_failure :: "go_error option"

definition io_ReadAll :: "reader \<Rightarrow> string result" where
  "io_ReadAll r = (case rd_failure r of None \<Rightarrow> Inr (rd_bytes r) | Some e \<Rightarrow> Inl e)"

definition io_LimitReader :: "int \<Rightarrow> reader \<Rightarrow> reader" where
  "io_LimitReader n r =
     (if nat n \<le> length (rd_bytes r) then \<lparr>rd_bytes = take (nat n) (rd_bytes r), rd_failure = None\<rparr> else r)"

record mm_client =
  mm_GetFileInfo :: "string \<Rightarrow> FileInfo option result"
  mm_GetFile :: "string \<Rightarrow> reader result"
  mm_HasPermissionToChannel :: "string \<Rightarrow> string \<Rightarrow> bool"
  mm_control :: "nat \<Rightarrow> bool"

definition ErrFileActionForbidden :: go_error where
  "ErrFileActionForbidden = Sentinel ''mmapi.ErrFileActionForbidden'' ''file action forbidden by policy''"

definition ErrFileChannelForbidden :: go_error where
  "ErrFileChannelForbidden = Sentinel ''mmapi.ErrFileChannelForbidden''
     ''user cannot read the channel the file belongs to''"

definition CheckFileChannelRead :: "mm_client \<Rightarrow> string \<Rightarrow> FileInfo option \<Rightarrow> go_error option" where
  "CheckFileChannelRead mm userID fileInfo =
     (case fileInfo of
        None \<Rightarrow> Some ErrFileChannelForbidden
      | Some fi \<Rightarrow>
          if userID = [] \<or> fi_ChannelId fi = [] then Some ErrFileChannelForbidden
          else if \<not> mm_HasPermissionToChannel mm userID (fi_ChannelId fi) then Some ErrFileChannelForbidden
          else None)"

section \<open>Blocks to a post\<close>

definition DefaultMaxFileSize :: int where "DefaultMaxFileSize = 5 * 1024 * 1024"
definition InlineFileMaxBytes :: int where "InlineFileMaxBytes = 8 * 1024"

definition UnsharedToolResultRedaction :: string where
  "UnsharedToolResultRedaction = ''[arguments and result not shared by user]''"
definition PendingShareToolResultRedaction :: string where
  "PendingShareToolResultRedaction = ''[result pending the user's decision to share it]''"
definition NotExecutedToolResult :: string where
  "NotExecutedToolResult =
     ''Not executed: the user stopped the response or moved on without approving this tool call.''"
definition unsharedToolUseArgumentsRedaction :: string where
  "unsharedToolUseArgumentsRedaction = ''{}''"

record PostConversionOptions =
  pc_RedactUnshared :: bool
  pc_MMClient :: "mm_client option"
  pc_UserID :: string
  pc_EnableVision :: bool
  pc_MaxFileSize :: int
  pc_ToolStore :: "ToolStore option"

definition canReadFileChannel :: "PostConversionOptions \<Rightarrow> mm_client \<Rightarrow> FileInfo \<Rightarrow> bool" where
  "canReadFileChannel opts mm fi \<longleftrightarrow> CheckFileChannelRead mm (pc_UserID opts) (Some fi) = None"

definition attachmentLoadNotice :: "mm_client \<Rightarrow> ContentBlock \<Rightarrow> go_error option \<Rightarrow> string" where
  "attachmentLoadNotice mm block err =
     (case err of
        Some e \<Rightarrow> if errors_Is e ErrFileActionForbidden then UnavailableAttachment (mm_control mm) [] AttachmentForbidden
                  else UnavailableAttachment (mm_control mm) (cb_Filename block) AttachmentLoadFailed
      | None \<Rightarrow> UnavailableAttachment (mm_control mm) (cb_Filename block) AttachmentLoadFailed)"

definition enrichToolCallFromStore :: "ToolCall \<Rightarrow> ToolStore option \<Rightarrow> ToolCall" where
  "enrichToolCallFromStore tc store =
     EnrichToolCall tc store \<lparr>eo_OverwriteDescription = True, eo_BareNameFallback = True\<rparr>"

text \<open>The locals of the loop over the blocks.\<close>

record conversion =
  cn_post :: Post
  cn_textParts :: "string list"
  cn_fileContents :: "string list"
  cn_descriptors :: "string list"
  cn_notices :: "string list"
  cn_resultIDs :: "string list"

abbreviation add_notice :: "string \<Rightarrow> conversion \<Rightarrow> conversion" where
  "add_notice s st \<equiv> st\<lparr>cn_notices := cn_notices st @ [s]\<rparr>"

abbreviation map_post :: "(Post \<Rightarrow> Post) \<Rightarrow> conversion \<Rightarrow> conversion" where
  "map_post f st \<equiv> st\<lparr>cn_post := f (cn_post st)\<rparr>"

abbreviation add_file :: "string \<Rightarrow> int \<Rightarrow> string \<Rightarrow> conversion \<Rightarrow> conversion" where
  "add_file mime sz data \<equiv>
     map_post (\<lambda>p. p\<lparr>p_Files := p_Files p @ [\<lparr>fl_MimeType = mime, fl_Size = sz, fl_Data = data\<rparr>]\<rparr>)"

definition convert_image :: "PostConversionOptions \<Rightarrow> ContentBlock \<Rightarrow> conversion \<Rightarrow> conversion" where
  "convert_image opts block st =
     (case pc_MMClient opts of
        None \<Rightarrow> add_notice ''[An attachment could not be loaded.]'' st
      | Some mm \<Rightarrow>
         (case mm_GetFileInfo mm (cb_FileID block) of
            Inl err \<Rightarrow> add_notice (attachmentLoadNotice mm block (Some err)) st
          | Inr None \<Rightarrow> add_notice (attachmentLoadNotice mm block None) st
          | Inr (Some fi) \<Rightarrow>
              if \<not> canReadFileChannel opts mm fi then st
              else if \<not> pc_EnableVision opts
              then add_notice (UnavailableAttachment (mm_control mm) (fi_Name fi) AttachmentImageInputDisabled) st
              else if \<not> IsSupportedImageMimeType (fi_MimeType fi) then add_file (fi_MimeType fi) (fi_Size fi) [] st
              else (case mm_GetFile mm (cb_FileID block) of
                      Inl err \<Rightarrow> add_notice (attachmentLoadNotice mm block (Some err)) st
                    | Inr r \<Rightarrow> (case io_ReadAll r of
                         Inl err \<Rightarrow> add_notice (attachmentLoadNotice mm block (Some err)) st
                       | Inr data \<Rightarrow> add_file (fi_MimeType fi) (fi_Size fi) data st))))"

definition inline_content :: "FileInfo \<Rightarrow> string \<Rightarrow> string" where
  "inline_content fi content = ''File Name: '' @ fi_Name fi @ newline @ ''Content: '' @ content"

definition convert_file :: "PostConversionOptions \<Rightarrow> int \<Rightarrow> ContentBlock \<Rightarrow> conversion \<Rightarrow> conversion" where
  "convert_file opts effectiveMax block st =
     (case pc_MMClient opts of
        None \<Rightarrow> add_notice ''[An attachment could not be loaded.]'' st
      | Some mm \<Rightarrow>
         (case mm_GetFileInfo mm (cb_FileID block) of
            Inl err \<Rightarrow> add_notice (attachmentLoadNotice mm block (Some err)) st
          | Inr None \<Rightarrow> add_notice (attachmentLoadNotice mm block None) st
          | Inr (Some fi) \<Rightarrow>
              if \<not> canReadFileChannel opts mm fi then st
              else
                let extracted = TrimSpace (fi_Content fi);
                    inlineSize = (if extracted \<noteq> [] then int (length extracted)
                                  else if HasPrefix (fi_MimeType fi) ''text/'' then fi_Size fi else - 1)
                in if inlineSize < 0 \<or> InlineFileMaxBytes < inlineSize
                   then st\<lparr>cn_descriptors := cn_descriptors st
                          @ [TrimRightChar (CHR 0x0A) (WriteFileDescriptor (length (cn_descriptors st) + 1) fi)]\<rparr>
                   else if extracted \<noteq> []
                   then st\<lparr>cn_fileContents := cn_fileContents st @ [inline_content fi extracted]\<rparr>
                   else (case mm_GetFile mm (cb_FileID block) of
                           Inl err \<Rightarrow> add_notice (attachmentLoadNotice mm block (Some err)) st
                         | Inr r \<Rightarrow> (case io_ReadAll (io_LimitReader effectiveMax r) of
                              Inl err \<Rightarrow> add_notice (attachmentLoadNotice mm block (Some err)) st
                            | Inr body \<Rightarrow> st\<lparr>cn_fileContents := cn_fileContents st @ [inline_content fi body]\<rparr>))))"

text \<open>The first call with the result's id takes it; a result of no call becomes a call of its own.\<close>

fun merge_result :: "string \<Rightarrow> string \<Rightarrow> ToolCall list \<Rightarrow> ToolCall list option" where
  "merge_result uid content [] = None"
| "merge_result uid content (tc # tcs) =
     (if tc_ID tc = uid then Some (tc\<lparr>tc_Result := content\<rparr> # tcs)
      else map_option ((#) tc) (merge_result uid content tcs))"

definition blank_call :: ToolCall where
  "blank_call = \<lparr>tc_ID = [], tc_Name = [], tc_Description = [], tc_Arguments = [], tc_Result = [],
     tc_Status = ToolCallStatusPending, tc_MCPBareName = [], tc_Title = [], tc_UserInteraction = [],
     tc_WouldAutoExecute = False, tc_ServerOrigin = []\<rparr>"

definition redacted :: "PostConversionOptions \<Rightarrow> ContentBlock \<Rightarrow> bool" where
  "redacted opts block \<longleftrightarrow> pc_RedactUnshared opts \<and> (cb_Shared block = None \<or> \<not> the (cb_Shared block))"

definition convert_tool_use :: "PostConversionOptions \<Rightarrow> ContentBlock \<Rightarrow> ToolCall" where
  "convert_tool_use opts block =
     (let tc = blank_call\<lparr>tc_ID := cb_ID block, tc_Name := cb_Name block, tc_ServerOrigin := cb_ServerOrigin block,
            tc_Arguments := (if redacted opts block then unsharedToolUseArgumentsRedaction else cb_Input block),
            tc_MCPBareName := cb_MCPBareName block, tc_Status := StatusFromString (cb_Status block),
            tc_Title := cb_Title block, tc_Description := cb_Description block\<rparr>
      in if redacted opts block then tc\<lparr>tc_MCPBareName := []\<rparr> else enrichToolCallFromStore tc (pc_ToolStore opts))"

definition convert_result_content :: "PostConversionOptions \<Rightarrow> ContentBlock \<Rightarrow> string" where
  "convert_result_content opts block =
     (if redacted opts block
      then (if cb_DecidedAt block = None then PendingShareToolResultRedaction else UnsharedToolResultRedaction)
      else cb_Content block)"

definition convert_block :: "PostConversionOptions \<Rightarrow> int \<Rightarrow> ContentBlock \<Rightarrow> conversion \<Rightarrow> conversion" where
  "convert_block opts effectiveMax block st =
     (if cb_Type block = BlockTypeText then
        (let st1 = st\<lparr>cn_textParts := cn_textParts st @ [cb_Text block]\<rparr>
         in if cb_Text block \<noteq> []
            then map_post (\<lambda>p. p\<lparr>p_AssistantSegments := p_AssistantSegments p @ [text_segment (cb_Text block)]\<rparr>) st1
            else st1)
      else if cb_Type block = BlockTypeThinking then
        map_post (\<lambda>p. p\<lparr>p_Reasoning := cb_Text block, p_ReasoningSignature := cb_Signature block\<rparr>) st
      else if cb_Type block = BlockTypeServerToolUse then
        (case cb_ServerTool block of
           None \<Rightarrow> st
         | Some activity \<Rightarrow>
             if su_ID activity = [] then st
             else map_post (\<lambda>p. p\<lparr>p_ServerTools := p_ServerTools p @ [activity],
                    p_AssistantSegments := p_AssistantSegments p @ [server_segment (su_ID activity)]\<rparr>) st)
      else if cb_Type block = BlockTypeToolUse then
        map_post (\<lambda>p. p\<lparr>p_ToolUse := p_ToolUse p @ [convert_tool_use opts block]\<rparr>) st
      else if cb_Type block = BlockTypeToolResult then
        (let content = convert_result_content opts block;
             st1 = st\<lparr>cn_resultIDs := cb_ToolUseID block # cn_resultIDs st\<rparr>
         in case merge_result (cb_ToolUseID block) content (p_ToolUse (cn_post st)) of
              Some tcs \<Rightarrow> map_post (\<lambda>p. p\<lparr>p_ToolUse := tcs\<rparr>) st1
            | None \<Rightarrow> map_post (\<lambda>p. p\<lparr>p_ToolUse := p_ToolUse p @
                  [blank_call\<lparr>tc_ID := cb_ToolUseID block, tc_Result := content,
                     tc_Status := StatusFromString (cb_Status block)\<rparr>]\<rparr>) st1)
      else if cb_Type block = BlockTypeImage then convert_image opts block st
      else if cb_Type block = BlockTypeFile then convert_file opts effectiveMax block st
      else st)"

definition close_call :: "string list \<Rightarrow> ToolCall \<Rightarrow> ToolCall" where
  "close_call resultIDs tc =
     (if tc_ID tc \<in> set resultIDs then tc
      else if tc_Status tc = ToolCallStatusPending \<or> tc_Status tc = ToolCallStatusAccepted
      then tc\<lparr>tc_Result := NotExecutedToolResult, tc_Status := ToolCallStatusRejected\<rparr>
      else tc)"

definition finish_message :: "conversion \<Rightarrow> string" where
  "finish_message st =
     (let m0 = (if cn_textParts st \<noteq> [] then Join (cn_textParts st) newline else []);
          m1 = (if cn_fileContents st \<noteq> []
                then m0 @ newline @ ''Attached File Contents:'' @ newline @ Join (cn_fileContents st) (newline @ newline)
                else m0);
          m2 = (if cn_descriptors st \<noteq> []
                then m1 @ newline @ ''Attached files (call the read_file tool with the File ID to read their contents):''
                  @ newline @ Join (cn_descriptors st) (newline @ newline)
                else m1)
      in if cn_notices st \<noteq> []
         then (if m2 \<noteq> [] then m2 @ newline else m2) @ Join (cn_notices st) newline
         else m2)"

definition finish_post :: "conversion \<Rightarrow> Post" where
  "finish_post st =
     (let p = (cn_post st)\<lparr>p_ToolUse := map (close_call (cn_resultIDs st)) (p_ToolUse (cn_post st)),
            p_Message := finish_message st\<rparr>
      in if p_ServerTools p = [] then p\<lparr>p_AssistantSegments := []\<rparr> else p)"

definition BlocksToPost :: "ContentBlock list \<Rightarrow> string \<Rightarrow> PostConversionOptions \<Rightarrow> Post" where
  "BlocksToPost blocks role opts =
     (let effectiveMax = (if pc_MaxFileSize opts \<le> 0 then DefaultMaxFileSize else pc_MaxFileSize opts);
          st0 = \<lparr>cn_post = mkPost (RoleFromString role) [], cn_textParts = [], cn_fileContents = [],
                 cn_descriptors = [], cn_notices = [], cn_resultIDs = []\<rparr>
      in finish_post (fold (convert_block opts effectiveMax) blocks st0))"

section \<open>Turns to posts\<close>

definition MissingToolResultContent :: string where
  "MissingToolResultContent = ''No result: this tool call was not executed.''"

text \<open>The state of \<open>pairToolResults\<close>: the blocks of each turn, the turn that owns a call, and which
  calls of a turn are answered.\<close>

record pairing =
  pr_blocks :: "ContentBlock list list"
  pr_owner :: "(string \<times> nat) list"
  pr_answered :: "(nat \<times> string) list"

definition pair_assistant_block :: "nat \<Rightarrow> ContentBlock \<Rightarrow> pairing \<Rightarrow> pairing" where
  "pair_assistant_block i b st =
     (let st1 = (if cb_Type b = BlockTypeToolUse \<and> cb_ID b \<noteq> []
                 then st\<lparr>pr_owner := (cb_ID b, i) # pr_owner st\<rparr> else st)
      in if cb_Type b = BlockTypeToolResult
         then st1\<lparr>pr_answered := (i, cb_ToolUseID b) # pr_answered st1\<rparr> else st1)"

definition pair_result_block :: "ContentBlock \<Rightarrow> pairing \<Rightarrow> pairing" where
  "pair_result_block b st =
     (case map_of (pr_owner st) (cb_ToolUseID b) of
        None \<Rightarrow> st
      | Some owner \<Rightarrow>
          if cb_Type b \<noteq> BlockTypeToolResult then st
          else st\<lparr>pr_blocks := (pr_blocks st)[owner := pr_blocks st ! owner @ [b]],
                  pr_answered := (owner, cb_ToolUseID b) # pr_answered st\<rparr>)"

definition pair_turn :: "nat \<times> string \<Rightarrow> pairing \<Rightarrow> pairing" where
  "pair_turn ir st =
     (case ir of (i, role) \<Rightarrow>
        if role = ''assistant'' then fold (pair_assistant_block i) (pr_blocks st ! i) st
        else if role = ''tool_result'' then
          (let st1 = fold pair_result_block (pr_blocks st ! i) st
           in st1\<lparr>pr_blocks := (pr_blocks st1)[i := []]\<rparr>)
        else st)"

definition missing_result :: "ContentBlock \<Rightarrow> ContentBlock" where
  "missing_result b = block0\<lparr>cb_Type := BlockTypeToolResult, cb_ToolUseID := cb_ID b,
     cb_Content := MissingToolResultContent, cb_Status := StatusError, cb_Shared := Some True\<rparr>"

definition needs_missing_result :: "pairing \<Rightarrow> nat \<Rightarrow> ContentBlock \<Rightarrow> bool" where
  "needs_missing_result st i b \<longleftrightarrow>
     \<not> (cb_Type b \<noteq> BlockTypeToolUse \<or> cb_ID b = [] \<or> (i, cb_ID b) \<in> set (pr_answered st))
     \<and> \<not> (cb_Status b = StatusPending \<or> cb_Status b = StatusAccepted)"

definition answer_turn :: "pairing \<Rightarrow> nat \<times> string \<Rightarrow> ContentBlock list" where
  "answer_turn st ir =
     (case ir of (i, role) \<Rightarrow>
        if role \<noteq> ''assistant'' then pr_blocks st ! i
        else pr_blocks st ! i @ map missing_result (filter (needs_missing_result st i) (pr_blocks st ! i)))"

definition pairToolResults :: "string list \<Rightarrow> ContentBlock list list \<Rightarrow> ContentBlock list list" where
  "pairToolResults roles blocksByTurn =
     (let turns = zip [0..<length roles] roles;
          st = fold pair_turn turns \<lparr>pr_blocks = blocksByTurn, pr_owner = [], pr_answered = []\<rparr>
      in map (answer_turn st) turns)"

definition unmarshal_turn :: "json_env \<Rightarrow> Turn \<Rightarrow> ContentBlock list result" where
  "unmarshal_turn env turn =
     (case UnmarshalBlocks env (tn_Content turn) of
        Inl err \<Rightarrow> Inl (wrapf (''failed to unmarshal turn '' @ tn_ID turn @ '' content'') err)
      | Inr blocks \<Rightarrow> Inr blocks)"

definition turn_post :: "PostConversionOptions \<Rightarrow> Turn \<times> ContentBlock list \<Rightarrow> Post option" where
  "turn_post opts tb =
     (case tb of (turn, blocks) \<Rightarrow>
        if tn_Role turn = ''tool_result'' then None
        else let post = BlocksToPost blocks (tn_Role turn) opts
             in Some (if tn_Role turn = ''assistant'' then post\<lparr>p_Reasoning := [], p_ReasoningSignature := []\<rparr> else post))"

definition turnsToLLMPosts :: "json_env \<Rightarrow> Turn list \<Rightarrow> PostConversionOptions \<Rightarrow> Post list result" where
  "turnsToLLMPosts env turns opts =
     bindR (mapR (unmarshal_turn env) turns) (\<lambda>blocksByTurn.
       Inr (List.map_filter (turn_post opts) (zip turns (pairToolResults (map tn_Role turns) blocksByTurn))))"

section \<open>Tools history loaded\<close>

record SearchToolsResultItem =
  si_Name :: string
  si_Summary :: string

record LoadToolResult =
  lr_Loaded :: bool
  lr_Name :: string
  lr_Matches :: "SearchToolsResultItem list"
  lr_Error :: string

definition decode_SearchToolsResultItem :: "json \<Rightarrow> SearchToolsResultItem result" where
  "decode_SearchToolsResultItem v = decode_struct
     [(''name'', d_string (\<lambda>s. si_Name_update (\<lambda>_. s))), (''summary'', d_string (\<lambda>s. si_Summary_update (\<lambda>_. s)))]
     \<lparr>si_Name = [], si_Summary = []\<rparr> v"

text \<open>\<open>Schema\<close> has type \<open>any\<close>: every value decodes into it.\<close>

definition decode_LoadToolResult :: "json \<Rightarrow> LoadToolResult result" where
  "decode_LoadToolResult v = decode_struct
     [(''loaded'', d_bool (\<lambda>b. lr_Loaded_update (\<lambda>_. b))), (''name'', d_string (\<lambda>s. lr_Name_update (\<lambda>_. s))),
      (''schema'', \<lambda>_. Inr id), (''matches'', d_slice (\<lambda>xs. lr_Matches_update (\<lambda>_. xs)) decode_SearchToolsResultItem),
      (''error'', d_string (\<lambda>s. lr_Error_update (\<lambda>_. s)))]
     \<lparr>lr_Loaded = False, lr_Name = [], lr_Matches = [], lr_Error = []\<rparr> v"

definition load_payload :: "json_env \<Rightarrow> string \<Rightarrow> LoadToolResult result" where
  "load_payload env content =
     (case js_parse env content of None \<Rightarrow> Inl json_syntax_error | Some v \<Rightarrow> decode_LoadToolResult v)"

text \<open>The ids of the \<open>load_tool\<close> calls seen, and the names loaded so far.\<close>

definition derive_block :: "json_env \<Rightarrow> ContentBlock \<Rightarrow> string list \<times> string list \<Rightarrow> string list \<times> string list" where
  "derive_block env block acc =
     (case acc of (ids, names) \<Rightarrow>
        if cb_Type block = BlockTypeToolUse then
          (if cb_Name block \<noteq> LoadToolName \<or> cb_ID block = [] then acc else (cb_ID block # ids, names))
        else if cb_Type block = BlockTypeToolResult then
          (if cb_ToolUseID block = [] \<or> cb_ToolUseID block \<notin> set ids \<or> cb_Status block \<noteq> StatusSuccess then acc
           else case load_payload env (cb_Content block) of
                  Inl _ \<Rightarrow> acc
                | Inr payload \<Rightarrow>
                    if \<not> lr_Loaded payload \<or> lr_Name payload = [] \<or> lr_Name payload \<in> set names then acc
                    else (ids, names @ [lr_Name payload]))
        else acc)"

definition derive_turn :: "json_env \<Rightarrow> Turn \<Rightarrow> string list \<times> string list \<Rightarrow> string list \<times> string list" where
  "derive_turn env turn acc =
     (case UnmarshalBlocks env (tn_Content turn) of Inl _ \<Rightarrow> acc | Inr blocks \<Rightarrow> fold (derive_block env) blocks acc)"

definition DeriveLoadedMCPTools :: "json_env \<Rightarrow> Turn list \<Rightarrow> string list" where
  "DeriveLoadedMCPTools env turns = snd (fold (derive_turn env) turns ([], []))"

definition RestoreLoadedMCPToolsFromTurns ::
  "json_env \<Rightarrow> ToolStore option \<Rightarrow> Turn list \<Rightarrow> Tool list \<times> ToolStore option" where
  "RestoreLoadedMCPToolsFromTurns env toolStore turns =
     (if \<not> HasUnloadedMCPTools toolStore then ([], toolStore)
      else case toolStore of
             None \<Rightarrow> ([], None)
           | Some s \<Rightarrow> (let (loaded, s') = LoadMCPTools (DeriveLoadedMCPTools env turns) s in (loaded, Some s')))"

section \<open>Assembling a request\<close>

record BuildOptions =
  bo_ExcludeAfterPostID :: string
  bo_SessionID :: string
  bo_AllowUnsharedToolContent :: bool
  bo_SkipThreadPostsAfterLatestUserTurn :: bool
  bo_ResponsePostID :: string

fun find_index :: "('a \<Rightarrow> bool) \<Rightarrow> 'a list \<Rightarrow> nat option" where
  "find_index P [] = None"
| "find_index P (x # xs) = (if P x then Some 0 else map_option Suc (find_index P xs))"

definition is_anchor :: "string \<Rightarrow> Turn \<Rightarrow> bool" where
  "is_anchor postID t \<longleftrightarrow> tn_Role t = ''assistant'' \<and> tn_PostID t = Some postID"

definition truncate_for_regenerate :: "string \<Rightarrow> Turn list \<Rightarrow> Turn list" where
  "truncate_for_regenerate excludeID turns =
     (case find_index (is_anchor excludeID) turns of
        None \<Rightarrow> turns
      | Some anchorIdx \<Rightarrow>
          (case last_index (\<lambda>t. tn_Role t = ''user'') (take anchorIdx turns) of
             None \<Rightarrow> take anchorIdx turns
           | Some i \<Rightarrow> take (i + 1) turns))"

text \<open>\<open>withPolicy\<close> is \<open>mmapi.WithFilePolicy\<close>; \<open>None\<close> for \<open>opts\<close> is a call without options.\<close>

definition AssembleRequest ::
  "json_env \<Rightarrow> (mm_client option \<Rightarrow> string \<Rightarrow> mm_client option) \<Rightarrow> Conversation \<Rightarrow> Turn list \<Rightarrow> Context option
   \<Rightarrow> mm_client option \<Rightarrow> bool \<Rightarrow> int \<Rightarrow> BuildOptions option \<Rightarrow> (Post list \<times> Context option \<times> string) result" where
  "AssembleRequest env withPolicy conv turns0 context mmClient enableVision maxFileSize opts =
     (let redactUnshared = (case opts of None \<Rightarrow> True | Some o1 \<Rightarrow> \<not> bo_AllowUnsharedToolContent o1);
          turns = (case opts of None \<Rightarrow> turns0
                   | Some o1 \<Rightarrow> if bo_ExcludeAfterPostID o1 = [] then turns0
                               else truncate_for_regenerate (bo_ExcludeAfterPostID o1) turns0);
          context' = map_option (\<lambda>c. c\<lparr>ctx_Tools := snd (RestoreLoadedMCPToolsFromTurns env (ctx_Tools c) turns)\<rparr>) context;
          session = (case opts of None \<Rightarrow> [] | Some o1 \<Rightarrow> bo_SessionID o1);
          conversionOpts = \<lparr>pc_RedactUnshared = redactUnshared, pc_MMClient = withPolicy mmClient session,
            pc_UserID = cv_UserID conv, pc_EnableVision = enableVision, pc_MaxFileSize = maxFileSize,
            pc_ToolStore = store_of context'\<rparr>
      in bindR (turnsToLLMPosts env turns conversionOpts) (\<lambda>posts.
           Inr (mkPost PostRoleSystem (cv_SystemPrompt conv) # posts, context', cv_Operation conv)))"

section \<open>Approval stage of a post\<close>

definition ApprovalStageCall :: string where "ApprovalStageCall = ''call''"
definition ApprovalStageResult :: string where "ApprovalStageResult = ''result''"
definition ApprovalStageDone :: string where "ApprovalStageDone = ''done''"

text \<open>The turns before the anchor, from the nearest on, up to a user turn or another post's turn.\<close>

definition response_turns :: "string \<Rightarrow> Turn list \<Rightarrow> nat \<Rightarrow> Turn list" where
  "response_turns postID turns anchorIdx =
     turns ! anchorIdx #
     takeWhile (\<lambda>t. tn_Role t \<noteq> ''user'' \<and> (tn_PostID t = None \<or> tn_PostID t = Some postID))
       (rev (take anchorIdx turns))"

definition turn_blocks :: "json_env \<Rightarrow> Turn \<Rightarrow> ContentBlock list" where
  "turn_blocks env t = (case UnmarshalBlocks env (tn_Content t) of Inl _ \<Rightarrow> [] | Inr bs \<Rightarrow> bs)"

definition executed_status :: "string \<Rightarrow> bool" where
  "executed_status s \<longleftrightarrow> s = StatusSuccess \<or> s = StatusError \<or> s = StatusAutoApproved"

definition ComputePostApprovalState :: "json_env \<Rightarrow> Turn list \<Rightarrow> string \<Rightarrow> string" where
  "ComputePostApprovalState env turns postID =
     (case last_index (is_anchor postID) turns of
        None \<Rightarrow> ApprovalStageDone
      | Some anchorIdx \<Rightarrow>
          let uses = filter (\<lambda>b. cb_Type b = BlockTypeToolUse \<and> cb_ID b \<noteq> [])
                       (concat (map (turn_blocks env) (response_turns postID turns anchorIdx)));
              pendingToolUse = list_ex (\<lambda>b. cb_Status b = StatusPending \<or> cb_Status b = StatusAccepted) uses;
              executed = map cb_ID (filter (\<lambda>b. executed_status (cb_Status b)) uses);
              results = filter (\<lambda>b. cb_Type b = BlockTypeToolResult \<and> cb_ToolUseID b \<noteq> []
                          \<and> cb_ToolUseID b \<in> set executed) (concat (map (turn_blocks env) turns))
          in if pendingToolUse then ApprovalStageCall
             else if executed = [] then ApprovalStageDone
             else if results = [] then ApprovalStageDone
             else if list_ex (\<lambda>b. cb_DecidedAt b = None) results then ApprovalStageResult
             else ApprovalStageDone)"

section \<open>Private data stays out of a redacted request\<close>

lemma StatusFromString_StatusToString:
  "StatusFromString (StatusToString s) = (case s of ToolCallStatusOther _ \<Rightarrow> ToolCallStatusPending | _ \<Rightarrow> s)"
  by (cases s) (simp_all add: StatusFromString_def block_consts)

lemma filter_block_public [simp]:
  "cb_Name (filter_block b) = cb_Name b" "cb_ServerOrigin (filter_block b) = cb_ServerOrigin b"
  "cb_ToolUseID (filter_block b) = cb_ToolUseID b" "cb_DecidedAt (filter_block b) = cb_DecidedAt b"
  "cb_Text (filter_block b) = cb_Text b" "cb_Signature (filter_block b) = cb_Signature b"
  "cb_ServerTool (filter_block b) = cb_ServerTool b" "cb_Title (filter_block b) = cb_Title b"
  "cb_Description (filter_block b) = cb_Description b" "cb_FileID (filter_block b) = cb_FileID b"
  "cb_Filename (filter_block b) = cb_Filename b" "cb_UserInteraction (filter_block b) = cb_UserInteraction b"
  "cb_WouldAutoExecute (filter_block b) = cb_WouldAutoExecute b"
  by (simp_all add: filter_block_cases)

lemma redacted_filter [simp]: "redacted opts (filter_block b) = redacted opts b"
  by (simp add: redacted_def)

lemma not_redacted: "pc_RedactUnshared opts \<Longrightarrow> \<not> redacted opts b \<Longrightarrow> shared_flag (cb_Shared b)"
  by (cases "cb_Shared b") (auto simp: redacted_def shared_flag_def)

lemma filter_block_kept:
  "\<not> private_use b \<Longrightarrow> cb_Input (filter_block b) = cb_Input b"
  "\<not> private_use b \<Longrightarrow> cb_MCPBareName (filter_block b) = cb_MCPBareName b"
  "\<not> private_result b \<Longrightarrow> cb_Content (filter_block b) = cb_Content b"
  by (simp_all add: filter_block_cases)

lemma convert_tool_use_filter:
  assumes "pc_RedactUnshared opts"
  shows "convert_tool_use opts (filter_block b) = convert_tool_use opts b"
proof (cases "redacted opts b")
  case True
  then show ?thesis by (simp add: convert_tool_use_def Let_def)
next
  case False
  then have "\<not> private_use b" using not_redacted [OF assms] by (simp add: private_use_def)
  then show ?thesis by (simp add: convert_tool_use_def filter_block_kept)
qed

lemma convert_result_filter:
  assumes "pc_RedactUnshared opts"
  shows "convert_result_content opts (filter_block b) = convert_result_content opts b"
proof (cases "redacted opts b")
  case True
  then show ?thesis by (simp add: convert_result_content_def)
next
  case False
  then have "\<not> private_result b" using not_redacted [OF assms] by (simp add: private_result_def)
  then show ?thesis by (simp add: convert_result_content_def filter_block_kept)
qed

lemma convert_attachment_filter [simp]:
  "convert_image opts (filter_block b) st = convert_image opts b st"
  "convert_file opts n (filter_block b) st = convert_file opts n b st"
  by (simp_all add: convert_image_def convert_file_def attachmentLoadNotice_def Let_def
      cong: option.case_cong sum.case_cong if_cong)

lemma convert_block_filter:
  assumes "pc_RedactUnshared opts"
  shows "convert_block opts n (filter_block b) = convert_block opts n b"
  by (rule ext) (unfold convert_block_def filter_block_keeps filter_block_public convert_attachment_filter
      convert_tool_use_filter [OF assms] convert_result_filter [OF assms], rule refl)

lemma BlocksToPost_filter:
  assumes "pc_RedactUnshared opts"
  shows "BlocksToPost (map filter_block bs) role opts = BlocksToPost bs role opts"
  by (simp add: BlocksToPost_def fold_map comp_def convert_block_filter [OF assms])

text \<open>Pairing looks at types, ids and statuses only.\<close>

definition map_pairing :: "(ContentBlock \<Rightarrow> ContentBlock) \<Rightarrow> pairing \<Rightarrow> pairing" where
  "map_pairing f st = st\<lparr>pr_blocks := map (map f) (pr_blocks st)\<rparr>"

lemma map_pairing_simps [simp]:
  "pr_blocks (map_pairing f st) = map (map f) (pr_blocks st)" "pr_owner (map_pairing f st) = pr_owner st"
  "pr_answered (map_pairing f st) = pr_answered st"
  by (simp_all add: map_pairing_def)

lemma pair_assistant_filter:
  "pair_assistant_block i (filter_block b) (map_pairing filter_block st)
     = map_pairing filter_block (pair_assistant_block i b st)"
  by (simp add: pair_assistant_block_def map_pairing_def Let_def)

lemma pair_result_filter:
  assumes "\<forall>(k, i) \<in> set (pr_owner st). i < length (pr_blocks st)"
  shows "pair_result_block (filter_block b) (map_pairing filter_block st)
     = map_pairing filter_block (pair_result_block b st)"
proof (cases "map_of (pr_owner st) (cb_ToolUseID b)")
  case (Some i)
  then have "i < length (pr_blocks st)" using assms by (auto dest: map_of_SomeD)
  then show ?thesis using Some by (simp add: pair_result_block_def map_pairing_def map_update)
qed (simp add: pair_result_block_def)

definition owners_ok :: "pairing \<Rightarrow> bool" where
  "owners_ok st \<longleftrightarrow> (\<forall>(k, i) \<in> set (pr_owner st). i < length (pr_blocks st))"

lemma length_pair_result [simp]: "length (pr_blocks (pair_result_block b st)) = length (pr_blocks st)"
  by (simp add: pair_result_block_def split: option.split)

lemma owners_pair_result: "owners_ok st \<Longrightarrow> owners_ok (pair_result_block b st)"
  by (auto simp: owners_ok_def pair_result_block_def split: option.split)

lemma blocks_pair_assistant [simp]: "pr_blocks (pair_assistant_block i b st) = pr_blocks st"
  by (simp add: pair_assistant_block_def Let_def)

lemma owners_pair_assistant:
  "owners_ok st \<Longrightarrow> i < length (pr_blocks st) \<Longrightarrow> owners_ok (pair_assistant_block i b st)"
  by (auto simp: owners_ok_def pair_assistant_block_def Let_def)

lemma fold_pair_assistant:
  "owners_ok st \<Longrightarrow> i < length (pr_blocks st) \<Longrightarrow>
   owners_ok (fold (pair_assistant_block i) bs st)
   \<and> pr_blocks (fold (pair_assistant_block i) bs st) = pr_blocks st
   \<and> fold (pair_assistant_block i) (map filter_block bs) (map_pairing filter_block st)
       = map_pairing filter_block (fold (pair_assistant_block i) bs st)"
  by (induction bs arbitrary: st) (simp_all add: owners_pair_assistant pair_assistant_filter)

lemma fold_pair_result:
  "owners_ok st \<Longrightarrow>
   owners_ok (fold pair_result_block bs st)
   \<and> length (pr_blocks (fold pair_result_block bs st)) = length (pr_blocks st)
   \<and> fold pair_result_block (map filter_block bs) (map_pairing filter_block st)
       = map_pairing filter_block (fold pair_result_block bs st)"
  by (induction bs arbitrary: st)
     (simp_all add: owners_pair_result pair_result_filter [folded owners_ok_def])

lemma owners_ok_resize: "length bs = length (pr_blocks st) \<Longrightarrow> owners_ok (st\<lparr>pr_blocks := bs\<rparr>) = owners_ok st"
  by (simp add: owners_ok_def)

lemma pair_turn_filter:
  assumes "owners_ok st" "i < length (pr_blocks st)"
  shows "pair_turn (i, role) (map_pairing filter_block st) = map_pairing filter_block (pair_turn (i, role) st)
    \<and> owners_ok (pair_turn (i, role) st) \<and> length (pr_blocks (pair_turn (i, role) st)) = length (pr_blocks st)"
proof -
  let ?a = "fold (pair_assistant_block i) (pr_blocks st ! i) st" and ?r = "fold pair_result_block (pr_blocks st ! i) st"
  note A = fold_pair_assistant [OF assms, of "pr_blocks st ! i"]
  note R = fold_pair_result [OF assms(1), of "pr_blocks st ! i"]
  consider "role = ''assistant''" | "role = ''tool_result''" | "role \<noteq> ''assistant''" "role \<noteq> ''tool_result''" by blast
  then show ?thesis
  proof cases
    case 1
    then show ?thesis using A assms(2) by (simp add: pair_turn_def)
  next
    case 2
    have "owners_ok (?r\<lparr>pr_blocks := (pr_blocks ?r)[i := []]\<rparr>)" using R by (simp add: owners_ok_resize)
    moreover have "map_pairing filter_block (?r\<lparr>pr_blocks := (pr_blocks ?r)[i := []]\<rparr>) =
        (map_pairing filter_block ?r)\<lparr>pr_blocks := (pr_blocks (map_pairing filter_block ?r))[i := []]\<rparr>"
      by (simp add: map_pairing_def map_update)
    ultimately show ?thesis using 2 R assms(2) by (simp add: pair_turn_def Let_def)
  next
    case 3
    then show ?thesis using assms by (simp add: pair_turn_def)
  qed
qed

lemma fold_pair_turn:
  assumes "owners_ok st" "list_all (\<lambda>(i, _). i < length (pr_blocks st)) turns"
  shows "fold pair_turn turns (map_pairing filter_block st) = map_pairing filter_block (fold pair_turn turns st)
    \<and> owners_ok (fold pair_turn turns st) \<and> length (pr_blocks (fold pair_turn turns st)) = length (pr_blocks st)"
  using assms
proof (induction turns arbitrary: st)
  case (Cons t turns)
  obtain i role where t: "t = (i, role)" by force
  have "i < length (pr_blocks st)" using Cons.prems(2) by (simp add: t)
  note step = pair_turn_filter [OF Cons.prems(1) this, of role]
  show ?case using Cons.IH [of "pair_turn t st"] Cons.prems(2) step by (simp add: t)
qed simp

lemma needs_missing_filter [simp]:
  "needs_missing_result (map_pairing f st) i (filter_block b) = needs_missing_result st i b"
  by (simp add: needs_missing_result_def)

lemma missing_result_filter [simp]:
  "missing_result (filter_block b) = missing_result b" "filter_block (missing_result b) = missing_result b"
  by (simp_all add: missing_result_def filter_block_cases private_use_def private_result_def shared_flag_def
      block_consts)

lemma answer_turn_filter:
  "i < length (pr_blocks st) \<Longrightarrow>
   answer_turn (map_pairing filter_block st) (i, role) = map filter_block (answer_turn st (i, role))"
  by (simp add: answer_turn_def filter_map comp_def)

lemma pairToolResults_filter:
  assumes "length bbt = length roles"
  shows "pairToolResults roles (map (map filter_block) bbt) = map (map filter_block) (pairToolResults roles bbt)"
proof -
  let ?st = "\<lparr>pr_blocks = bbt, pr_owner = [], pr_answered = []\<rparr>" and ?turns = "zip [0..<length roles] roles"
  have start: "\<lparr>pr_blocks = map (map filter_block) bbt, pr_owner = [], pr_answered = []\<rparr> = map_pairing filter_block ?st"
    by (simp add: map_pairing_def)
  have bound: "list_all (\<lambda>(i, _). i < length (pr_blocks ?st)) ?turns"
    using assms by (auto simp: list_all_iff set_zip)
  have F: "fold pair_turn ?turns (map_pairing filter_block ?st) = map_pairing filter_block (fold pair_turn ?turns ?st)"
    "length (pr_blocks (fold pair_turn ?turns ?st)) = length bbt"
    using fold_pair_turn [OF _ bound] by (simp_all add: owners_ok_def)
  have "answer_turn (map_pairing filter_block (fold pair_turn ?turns ?st)) t
      = map filter_block (answer_turn (fold pair_turn ?turns ?st) t)" if t: "t \<in> set ?turns" for t
  proof -
    obtain i role where ir: "t = (i, role)" by force
    then have "i < length bbt" using t assms by (auto simp: set_zip)
    then show ?thesis using F(2) ir by (simp add: answer_turn_filter)
  qed
  then show ?thesis unfolding pairToolResults_def start by (simp add: F(1) Let_def)
qed

text \<open>Turns that differ at most in data their requester keeps private.\<close>

definition same_public_turn :: "json_env \<Rightarrow> Turn \<Rightarrow> Turn \<Rightarrow> bool" where
  "same_public_turn env t u \<longleftrightarrow> tn_ID t = tn_ID u \<and> tn_Role t = tn_Role u
     \<and> (case (unmarshal_turn env t, unmarshal_turn env u) of
          (Inr bs, Inr cs) \<Rightarrow> list_all2 same_public bs cs
        | (Inl e, Inl f) \<Rightarrow> e = f
        | _ \<Rightarrow> False)"

lemma mapR_same_public:
  "list_all2 (same_public_turn env) ts us \<Longrightarrow>
   (case (mapR (unmarshal_turn env) ts, mapR (unmarshal_turn env) us) of
      (Inr b, Inr c) \<Rightarrow> map (map filter_block) b = map (map filter_block) c \<and> length b = length ts
    | (Inl e, Inl f) \<Rightarrow> e = f
    | _ \<Rightarrow> False)"
proof (induction rule: list_all2_induct)
  case (Cons t ts u us)
  have eq: "list_all2 same_public bs cs \<Longrightarrow> map filter_block bs = map filter_block cs" for bs cs
    by (simp add: filter_blocks_eq_iff)
  from Cons show ?case
    by (cases "unmarshal_turn env t"; cases "unmarshal_turn env u";
        cases "mapR (unmarshal_turn env) ts"; cases "mapR (unmarshal_turn env) us")
       (auto simp: same_public_turn_def eq)
qed simp

text \<open>
  C9: in a request built with redaction, nothing a requester keeps private reaches the model: two
  conversations that differ at most in the arguments of unshared calls and the content of unshared
  results replay as the same posts.
\<close>

theorem turnsToLLMPosts_private:
  assumes "pc_RedactUnshared opts" and "list_all2 (same_public_turn env) turns turns'"
  shows "turnsToLLMPosts env turns opts = turnsToLLMPosts env turns' opts"
proof -
  let ?posts = "\<lambda>ts bbt. List.map_filter (turn_post opts) (zip ts (pairToolResults (map tn_Role ts) bbt))"
  have roles: "map tn_Role turns' = map tn_Role turns" and len: "length turns' = length turns"
    using assms(2) by (induction rule: list_all2_induct) (auto simp: same_public_turn_def)
  have post: "turn_post opts (t, bs) = turn_post opts (u, cs)"
    if "tn_Role t = tn_Role u" "map filter_block bs = map filter_block cs" for t u bs cs
    using that BlocksToPost_filter [OF assms(1), of bs] BlocksToPost_filter [OF assms(1), of cs]
    by (simp add: turn_post_def)
  have posts: "List.map_filter (turn_post opts) (zip ts xs) = List.map_filter (turn_post opts) (zip us ys)"
    if "map tn_Role us = map tn_Role ts" "map (map filter_block) xs = map (map filter_block) ys" for ts us :: "Turn list" and xs ys
    using that
  proof (induction ts arbitrary: us xs ys)
    case (Cons t ts)
    obtain u us' where us: "us = u # us'" "tn_Role u = tn_Role t" "map tn_Role us' = map tn_Role ts"
      using Cons.prems(1) by (cases us) auto
    show ?case
    proof (cases xs)
      case (Cons x xs')
      then obtain y ys' where ys: "ys = y # ys'" "map filter_block x = map filter_block y"
        "map (map filter_block) xs' = map (map filter_block) ys'" using Cons.prems(2) by (cases ys) auto
      have "turn_post opts (t, x) = turn_post opts (u, y)" using us(2) ys(2) by (intro post) simp_all
      then show ?thesis using Cons us ys Cons.IH [OF us(3) ys(3)]
        by (simp add: List.map_filter_simps split: option.split)
    next
      case Nil
      then have "ys = []" using Cons.prems(2) by simp
      with Nil show ?thesis by (simp add: List.map_filter_simps)
    qed
  qed (simp add: List.map_filter_simps)
  show ?thesis
  proof (cases "mapR (unmarshal_turn env) turns"; cases "mapR (unmarshal_turn env) turns'")
    fix b c
    assume bc: "mapR (unmarshal_turn env) turns = Inr b" "mapR (unmarshal_turn env) turns' = Inr c"
    then have eq: "map (map filter_block) b = map (map filter_block) c" and lb: "length b = length turns"
      using mapR_same_public [OF assms(2)] by simp_all
    have lc: "length c = length turns" using eq lb by (metis length_map)
    have "map (map filter_block) (pairToolResults (map tn_Role turns) b)
        = map (map filter_block) (pairToolResults (map tn_Role turns) c)"
      using pairToolResults_filter [of b "map tn_Role turns"] pairToolResults_filter [of c "map tn_Role turns"]
        lb lc eq by simp
    then have "?posts turns b = ?posts turns' c" using roles by (intro posts) simp_all
    then show ?thesis using bc by (simp add: turnsToLLMPosts_def)
  qed (use mapR_same_public [OF assms(2)] in \<open>auto simp: turnsToLLMPosts_def\<close>)
qed

section \<open>Every replayed call is answered\<close>

definition is_result_for :: "string \<Rightarrow> ContentBlock \<Rightarrow> bool" where
  "is_result_for uid b \<longleftrightarrow> cb_Type b = BlockTypeToolResult \<and> cb_ToolUseID b = uid"

definition open_status :: "string \<Rightarrow> bool" where
  "open_status s \<longleftrightarrow> s = StatusPending \<or> s = StatusAccepted"

text \<open>A call of the turn that was decided has its result among the blocks of the turn.\<close>

definition answered_in :: "ContentBlock list \<Rightarrow> ContentBlock \<Rightarrow> bool" where
  "answered_in bs b =
     (if cb_Type b = BlockTypeToolUse \<and> cb_ID b \<noteq> [] \<and> \<not> open_status (cb_Status b)
      then list_ex (is_result_for (cb_ID b)) bs else True)"

definition pairing_ok :: "string list \<Rightarrow> pairing \<Rightarrow> bool" where
  "pairing_ok roles st \<longleftrightarrow> length (pr_blocks st) = length roles
     \<and> list_all (\<lambda>(k, i). i < length roles \<and> roles ! i = ''assistant'') (pr_owner st)
     \<and> list_all (\<lambda>(i, uid). i < length roles \<and> roles ! i = ''assistant'' \<and> list_ex (is_result_for uid) (pr_blocks st ! i))
         (pr_answered st)"

lemma list_all_mono: "list_all P xs \<Longrightarrow> (\<And>x. P x \<Longrightarrow> Q x) \<Longrightarrow> list_all Q xs"
  by (simp add: list_all_iff)

lemma pairing_ok_assistant_block:
  assumes "pairing_ok roles st" "i < length roles" "roles ! i = ''assistant''" "b \<in> set (pr_blocks st ! i)"
  shows "pairing_ok roles (pair_assistant_block i b st)"
  using assms by (auto simp: pairing_ok_def pair_assistant_block_def is_result_for_def list_ex_iff Let_def)

lemma pairing_ok_result_block:
  assumes "pairing_ok roles st"
  shows "pairing_ok roles (pair_result_block b st)"
proof (cases "map_of (pr_owner st) (cb_ToolUseID b)")
  case (Some j)
  then have j: "j < length roles" "roles ! j = ''assistant''"
    using assms by (auto simp: pairing_ok_def list_all_iff dest!: map_of_SomeD)
  let ?bs = "(pr_blocks st)[j := pr_blocks st ! j @ [b]]"
  have len: "length (pr_blocks st) = length roles" using assms by (simp add: pairing_ok_def)
  have grow: "list_ex (is_result_for uid) (pr_blocks st ! i) \<Longrightarrow> list_ex (is_result_for uid) (?bs ! i)"
    if "i < length roles" for i uid
    using that len by (cases "i = j") auto
  have "list_all (\<lambda>(i, uid). i < length roles \<and> roles ! i = ''assistant'' \<and> list_ex (is_result_for uid) (?bs ! i))
      (pr_answered st)"
    using assms grow unfolding pairing_ok_def by (auto elim!: list_all_mono)
  then show ?thesis
    using assms Some j len
    by (auto simp: pairing_ok_def pair_result_block_def is_result_for_def)
qed (use assms in \<open>simp add: pair_result_block_def\<close>)

lemma pairing_ok_fold_assistant:
  assumes "pairing_ok roles st" "i < length roles" "roles ! i = ''assistant''" "set bs \<subseteq> set (pr_blocks st ! i)"
  shows "pairing_ok roles (fold (pair_assistant_block i) bs st)"
  using assms
proof (induction bs arbitrary: st)
  case (Cons b bs)
  then show ?case using pairing_ok_assistant_block [of roles st i b] by simp
qed simp

lemma pairing_ok_fold_result: "pairing_ok roles st \<Longrightarrow> pairing_ok roles (fold pair_result_block bs st)"
  by (induction bs arbitrary: st) (simp_all add: pairing_ok_result_block)

lemma pairing_ok_turn:
  assumes "pairing_ok roles st" "i < length roles"
  shows "pairing_ok roles (pair_turn (i, roles ! i) st)"
proof -
  consider "roles ! i = ''assistant''" | "roles ! i = ''tool_result''"
    | "roles ! i \<noteq> ''assistant''" "roles ! i \<noteq> ''tool_result''" by blast
  then show ?thesis
  proof cases
    case 1
    then show ?thesis using pairing_ok_fold_assistant [OF assms] by (simp add: pair_turn_def)
  next
    case 2
    let ?r = "fold pair_result_block (pr_blocks st ! i) st"
    have ok: "pairing_ok roles ?r" using assms(1) by (rule pairing_ok_fold_result)
    have "list_all (\<lambda>(j, uid). j < length roles \<and> roles ! j = ''assistant''
        \<and> list_ex (is_result_for uid) ((pr_blocks ?r)[i := []] ! j)) (pr_answered ?r)"
      using ok 2 assms(2) unfolding pairing_ok_def by (auto elim!: list_all_mono simp: nth_list_update)
    then show ?thesis using ok 2 by (simp add: pairing_ok_def pair_turn_def Let_def)
  next
    case 3
    then show ?thesis using assms(1) by (simp add: pair_turn_def)
  qed
qed

lemma pairing_ok_fold_turns:
  assumes "pairing_ok roles st" "list_all (\<lambda>(i, role). i < length roles \<and> role = roles ! i) turns"
  shows "pairing_ok roles (fold pair_turn turns st)"
  using assms
proof (induction turns arbitrary: st)
  case (Cons t turns)
  obtain i where "t = (i, roles ! i)" "i < length roles" using Cons.prems(2) by (cases t) auto
  then show ?case using Cons pairing_ok_turn [OF Cons.prems(1)] by simp
qed simp

lemma answer_turn_answered:
  assumes "pairing_ok roles st" "i < length roles" "roles ! i = ''assistant''"
  shows "list_all (answered_in (answer_turn st (i, roles ! i))) (answer_turn st (i, roles ! i))"
proof -
  let ?bs = "answer_turn st (i, roles ! i)"
  have "answered_in ?bs b" if b: "b \<in> set (pr_blocks st ! i)" for b
  proof (cases "(i, cb_ID b) \<in> set (pr_answered st)")
    case True
    then have "list_ex (is_result_for (cb_ID b)) (pr_blocks st ! i)"
      using assms(1) by (auto simp: pairing_ok_def list_all_iff)
    then show ?thesis using assms(3) by (simp add: answered_in_def answer_turn_def)
  next
    case False
    show ?thesis
    proof (cases "needs_missing_result st i b")
      case True
      then have "missing_result b \<in> set ?bs" using b assms(3) by (simp add: answer_turn_def)
      then have "list_ex (is_result_for (cb_ID b)) ?bs"
        unfolding list_ex_iff by (rule bexI [rotated]) (simp add: is_result_for_def missing_result_def)
      then show ?thesis by (simp add: answered_in_def)
    next
      case no: False
      then show ?thesis using False by (auto simp: needs_missing_result_def answered_in_def open_status_def)
    qed
  qed
  moreover have "answered_in ?bs (missing_result b)" for b
    by (simp add: answered_in_def missing_result_def block_consts)
  ultimately show ?thesis using assms(3) by (auto simp: answer_turn_def list_all_iff)
qed

lemma pairToolResults_answered:
  assumes "length blocksByTurn = length roles" "i < length roles" "roles ! i = ''assistant''"
  shows "list_all (answered_in (pairToolResults roles blocksByTurn ! i)) (pairToolResults roles blocksByTurn ! i)"
proof -
  let ?turns = "zip [0..<length roles] roles"
  let ?st0 = "\<lparr>pr_blocks = blocksByTurn, pr_owner = [], pr_answered = []\<rparr>"
  have ok: "pairing_ok roles (fold pair_turn ?turns ?st0)"
    by (rule pairing_ok_fold_turns) (use assms(1) in \<open>auto simp: pairing_ok_def list_all_iff set_zip\<close>)
  from answer_turn_answered [OF this assms(2,3)] show ?thesis
    using assms(2) by (simp add: pairToolResults_def Let_def)
qed

lemma length_pairToolResults [simp]: "length (pairToolResults roles bbt) = length roles"
  by (simp add: pairToolResults_def Let_def)

section \<open>A replayed post has no open call\<close>

lemma resultIDs_convert:
  "cn_resultIDs (convert_block opts n b st) =
     (if cb_Type b = BlockTypeToolResult then cb_ToolUseID b # cn_resultIDs st else cn_resultIDs st)"
proof -
  have "cn_resultIDs (convert_image opts b st) = cn_resultIDs st"
    by (simp add: convert_image_def split: option.split sum.split)
  moreover have "cn_resultIDs (convert_file opts n b st) = cn_resultIDs st"
    by (simp add: convert_file_def Let_def split: option.split sum.split)
  ultimately show ?thesis
    by (simp add: convert_block_def Let_def block_consts split: option.split)
qed

definition result_ids :: "ContentBlock list \<Rightarrow> string list" where
  "result_ids bs = map cb_ToolUseID (filter (\<lambda>b. cb_Type b = BlockTypeToolResult) bs)"

lemma resultIDs_fold:
  "set (cn_resultIDs (fold (convert_block opts n) bs st)) = set (result_ids bs) \<union> set (cn_resultIDs st)"
  by (induction bs arbitrary: st) (auto simp: resultIDs_convert result_ids_def)

text \<open>What the model is told of a call that is still open, and when.\<close>

definition settled_call :: "string list \<Rightarrow> ToolCall \<Rightarrow> bool" where
  "settled_call ids tc \<longleftrightarrow>
     (if tc_ID tc \<in> set ids then True
      else tc_Status tc \<noteq> ToolCallStatusPending \<and> tc_Status tc \<noteq> ToolCallStatusAccepted)"

text \<open>In a converted post every call without a stored result has been decided.\<close>

lemma BlocksToPost_settles_calls:
  "list_all (settled_call (result_ids blocks)) (p_ToolUse (BlocksToPost blocks role opts))"
proof -
  have "settled_call (result_ids blocks) (close_call ids tc)"
    if "set ids = set (result_ids blocks)" for ids tc
    using that by (simp add: settled_call_def close_call_def)
  moreover have "p_ToolUse (finish_post st) = map (close_call (cn_resultIDs st)) (p_ToolUse (cn_post st))" for st
    by (simp add: finish_post_def Let_def)
  ultimately show ?thesis
    by (simp add: BlocksToPost_def Let_def list_all_iff resultIDs_fold)
qed

lemma EnrichToolCall_keeps [simp]:
  "tc_ID (EnrichToolCall tc s o1) = tc_ID tc" "tc_Status (EnrichToolCall tc s o1) = tc_Status tc"
  "tc_Name (EnrichToolCall tc s o1) = tc_Name tc" "tc_Arguments (EnrichToolCall tc s o1) = tc_Arguments tc"
  "tc_Result (EnrichToolCall tc s o1) = tc_Result tc"
  by (simp_all add: EnrichToolCall_def Let_def split: option.split)

lemma convert_tool_use_keeps [simp]:
  "tc_ID (convert_tool_use opts b) = cb_ID b" "tc_Status (convert_tool_use opts b) = StatusFromString (cb_Status b)"
  "tc_Name (convert_tool_use opts b) = cb_Name b"
  by (simp_all add: convert_tool_use_def Let_def enrichToolCallFromStore_def)

lemma merge_result_keeps:
  "merge_result uid c tcs = Some tcs' \<Longrightarrow>
   map tc_ID tcs' = map tc_ID tcs \<and> map tc_Status tcs' = map tc_Status tcs \<and> map tc_Name tcs' = map tc_Name tcs"
  by (induction uid c tcs arbitrary: tcs' rule: merge_result.induct) (auto split: if_splits)

text \<open>Where a call of the post comes from: a stored result, or a tool_use block.\<close>

definition call_origin :: "ContentBlock list \<Rightarrow> string list \<Rightarrow> string \<times> ToolCallStatus \<Rightarrow> bool" where
  "call_origin bs ids call \<longleftrightarrow>
     fst call \<in> set ids
     \<or> (\<exists>b \<in> set bs. cb_Type b = BlockTypeToolUse \<and> cb_ID b = fst call \<and> StatusFromString (cb_Status b) = snd call)"

abbreviation call_keys :: "conversion \<Rightarrow> (string \<times> ToolCallStatus) list" where
  "call_keys st \<equiv> map (\<lambda>tc. (tc_ID tc, tc_Status tc)) (p_ToolUse (cn_post st))"

lemma attachment_calls [simp]:
  "p_ToolUse (cn_post (convert_image opts b st)) = p_ToolUse (cn_post st)"
  "p_ToolUse (cn_post (convert_file opts n b st)) = p_ToolUse (cn_post st)"
  by (simp_all add: convert_image_def convert_file_def Let_def split: option.split sum.split)

lemma keys_convert:
  "call_keys (convert_block opts n b st) =
     (if cb_Type b = BlockTypeToolUse then call_keys st @ [(cb_ID b, StatusFromString (cb_Status b))]
      else if cb_Type b = BlockTypeToolResult then
        (if cb_ToolUseID b \<in> tc_ID ` set (p_ToolUse (cn_post st)) then call_keys st
         else call_keys st @ [(cb_ToolUseID b, StatusFromString (cb_Status b))])
      else call_keys st)"
proof -
  have merge: "merge_result uid c tcs = None \<longleftrightarrow> uid \<notin> tc_ID ` set tcs" for uid c tcs
    by (induction uid c tcs rule: merge_result.induct) auto
  have keep: "map (\<lambda>tc. (tc_ID tc, tc_Status tc)) tcs' = map (\<lambda>tc. (tc_ID tc, tc_Status tc)) tcs"
    if "merge_result uid c tcs = Some tcs'" for uid c tcs tcs'
    using that by (induction uid c tcs arbitrary: tcs' rule: merge_result.induct) (auto split: if_splits)
  have found: "uid \<in> tc_ID ` set tcs" if "merge_result uid c tcs = Some tcs'" for uid c tcs tcs'
    using that merge [of uid c tcs] by simp
  show ?thesis
    using merge keep found by (auto simp: convert_block_def Let_def block_consts blank_call_def split: option.split)
qed

lemma call_origin_fold:
  assumes "list_all (call_origin (ds @ bs) (result_ids (ds @ bs))) (call_keys st)"
  shows "list_all (call_origin (ds @ bs) (result_ids (ds @ bs))) (call_keys (fold (convert_block opts n) bs st))"
  using assms
proof (induction bs arbitrary: ds st)
  case (Cons b bs)
  have b: "cb_Type b = BlockTypeToolUse \<Longrightarrow> call_origin (ds @ b # bs) ids (cb_ID b, StatusFromString (cb_Status b))"
    "cb_Type b = BlockTypeToolResult \<Longrightarrow> call_origin (ds @ b # bs) (result_ids (ds @ b # bs)) (cb_ToolUseID b, s)"
    for ids s by (auto simp: call_origin_def result_ids_def)
  have "list_all (call_origin ((ds @ [b]) @ bs) (result_ids ((ds @ [b]) @ bs))) (call_keys (convert_block opts n b st))"
    using Cons.prems b by (simp add: keys_convert)
  from Cons.IH [OF this] show ?case by simp
qed simp

text \<open>A call the model sees is answered: by a stored result, or by the notice that it never ran.\<close>

definition replied :: "ContentBlock list \<Rightarrow> ToolCall \<Rightarrow> bool" where
  "replied bs tc \<longleftrightarrow>
     (if tc_ID tc = [] \<or> list_ex (is_result_for (tc_ID tc)) bs then True
      else tc_Result tc = NotExecutedToolResult \<and> tc_Status tc = ToolCallStatusRejected)"

lemma list_ex_result_iff: "list_ex (is_result_for uid) bs \<longleftrightarrow> uid \<in> set (result_ids bs)"
  by (auto simp: list_ex_iff is_result_for_def result_ids_def)

lemma BlocksToPost_replied:
  assumes "list_all (answered_in bs) bs"
  shows "list_all (replied bs) (p_ToolUse (BlocksToPost bs role opts))"
proof -
  let ?n = "if pc_MaxFileSize opts \<le> 0 then DefaultMaxFileSize else pc_MaxFileSize opts"
  let ?st0 = "\<lparr>cn_post = mkPost (RoleFromString role) [], cn_textParts = [], cn_fileContents = [],
    cn_descriptors = [], cn_notices = [], cn_resultIDs = []\<rparr>"
  let ?st = "fold (convert_block opts ?n) bs ?st0"
  have ids: "set (cn_resultIDs ?st) = set (result_ids bs)" by (simp add: resultIDs_fold)
  have "list_all (call_origin ([] @ bs) (result_ids ([] @ bs))) (call_keys ?st)"
    by (rule call_origin_fold) (simp add: mkPost_def)
  then have origin: "call_origin bs (result_ids bs) (tc_ID tc, tc_Status tc)" if "tc \<in> set (p_ToolUse (cn_post ?st))" for tc
    using that by (auto simp: list_all_iff)
  have "replied bs (close_call (cn_resultIDs ?st) tc)" if tc: "tc \<in> set (p_ToolUse (cn_post ?st))" for tc
  proof (cases "tc_ID tc \<in> set (result_ids bs)")
    case True
    then show ?thesis by (simp add: replied_def list_ex_result_iff close_call_def ids)
  next
    case False
    then obtain b where b: "b \<in> set bs" "cb_Type b = BlockTypeToolUse" "cb_ID b = tc_ID tc"
      "StatusFromString (cb_Status b) = tc_Status tc"
      using origin [OF tc] by (auto simp: call_origin_def)
    have "open_status (cb_Status b)" if "tc_ID tc \<noteq> []"
      using assms b that False by (auto simp: list_all_iff answered_in_def list_ex_result_iff split: if_splits)
    then have "tc_Status tc = ToolCallStatusPending \<or> tc_Status tc = ToolCallStatusAccepted" if "tc_ID tc \<noteq> []"
      using b(4) that by (auto simp: open_status_def StatusFromString_def block_consts)
    then show ?thesis using False by (auto simp: replied_def close_call_def ids list_ex_result_iff)
  qed
  then show ?thesis by (simp add: BlocksToPost_def finish_post_def Let_def list_all_iff)
qed



section \<open>History loads what it says\<close>

lemma derive_turn_blocks: "derive_turn env t acc = fold (derive_block env) (turn_blocks env t) acc"
  by (simp add: derive_turn_def turn_blocks_def split: sum.split)

lemma DeriveLoadedMCPTools_blocks:
  "DeriveLoadedMCPTools env turns = snd (fold (derive_block env) (concat (map (turn_blocks env) turns)) ([], []))"
proof -
  have "fold (derive_turn env) turns acc = fold (derive_block env) (concat (map (turn_blocks env) turns)) acc" for acc
    by (induction turns arbitrary: acc) (simp_all add: derive_turn_blocks)
  then show ?thesis by (simp add: DeriveLoadedMCPTools_def)
qed

text \<open>A successful result of a \<open>load_tool\<close> call whose payload says the tool was loaded.\<close>

definition load_call :: "ContentBlock list \<Rightarrow> string \<Rightarrow> bool" where
  "load_call bs uid \<longleftrightarrow> uid \<noteq> [] \<and>
     list_ex (\<lambda>b. cb_Type b = BlockTypeToolUse \<and> cb_Name b = LoadToolName \<and> cb_ID b = uid) bs"

definition loaded_in :: "json_env \<Rightarrow> ContentBlock list \<Rightarrow> string \<Rightarrow> bool" where
  "loaded_in env bs n \<longleftrightarrow> n \<noteq> [] \<and>
     list_ex (\<lambda>r. cb_Type r = BlockTypeToolResult \<and> cb_Status r = StatusSuccess \<and> load_call bs (cb_ToolUseID r)
       \<and> (case load_payload env (cb_Content r) of Inl _ \<Rightarrow> False | Inr p \<Rightarrow> lr_Loaded p \<and> lr_Name p = n)) bs"

definition derive_ok :: "json_env \<Rightarrow> ContentBlock list \<Rightarrow> string list \<times> string list \<Rightarrow> bool" where
  "derive_ok env bs acc \<longleftrightarrow> distinct (snd acc) \<and> list_all (load_call bs) (fst acc) \<and> list_all (loaded_in env bs) (snd acc)"

lemma derive_ok_block:
  assumes "derive_ok env bs acc" "b \<in> set bs"
  shows "derive_ok env bs (derive_block env b acc)"
proof (cases acc)
  case (Pair ids names)
  show ?thesis
  proof (cases "cb_Type b = BlockTypeToolUse")
    case True
    then show ?thesis using assms Pair
      by (auto simp: derive_ok_def derive_block_def load_call_def list_ex_iff)
  next
    case False
    have "loaded_in env bs (lr_Name p)"
      if "cb_Type b = BlockTypeToolResult" "cb_ToolUseID b \<in> set ids" "cb_Status b = StatusSuccess"
        "load_payload env (cb_Content b) = Inr p" "lr_Loaded p" "lr_Name p \<noteq> []" for p
      unfolding loaded_in_def list_ex_iff
      using that assms Pair by (auto simp: derive_ok_def list_all_iff intro!: bexI [of _ b])
    then show ?thesis using assms(1) Pair False
      by (auto simp: derive_ok_def derive_block_def split: sum.split)
  qed
qed

lemma prefix_derive_fold: "prefix (snd acc) (snd (fold (derive_block env) bs acc))"
proof (induction bs arbitrary: acc)
  case (Cons b bs)
  have "prefix (snd acc) (snd (derive_block env b acc))"
    by (cases acc) (auto simp: derive_block_def split: sum.split)
  then show ?case using Cons [of "derive_block env b acc"] by (auto intro: prefix_order.trans)
qed simp

text \<open>
  The tools a resumed conversation gets back are, once each and in the order they were first
  loaded, those a successful \<open>load_tool\<close> result of its history names; later turns only add to them.
\<close>

theorem DeriveLoadedMCPTools_spec:
  "distinct (DeriveLoadedMCPTools env turns)
   \<and> list_all (loaded_in env (concat (map (turn_blocks env) turns))) (DeriveLoadedMCPTools env turns)
   \<and> prefix (DeriveLoadedMCPTools env turns) (DeriveLoadedMCPTools env (turns @ later))"
proof -
  let ?bs = "concat (map (turn_blocks env) turns)"
  have "derive_ok env ?bs (fold (derive_block env) cs acc)" if "derive_ok env ?bs acc" "set cs \<subseteq> set ?bs" for cs acc
    using that by (induction cs arbitrary: acc) (auto simp: derive_ok_block)
  from this [of "([], [])" ?bs] have "derive_ok env ?bs (fold (derive_block env) ?bs ([], []))"
    by (simp add: derive_ok_def)
  moreover have "prefix (DeriveLoadedMCPTools env turns) (DeriveLoadedMCPTools env (turns @ later))"
    by (simp add: DeriveLoadedMCPTools_blocks prefix_derive_fold)
  ultimately show ?thesis by (simp add: DeriveLoadedMCPTools_blocks derive_ok_def)
qed

section \<open>Writing tool rounds\<close>

text \<open>What the calls of one write draw on: fresh ids, the clock, the driver, other writers.\<close>

record write_env =
  we_ids :: "nat \<Rightarrow> string"
  we_now :: "nat \<Rightarrow> int"
  we_io :: "nat \<Rightarrow> nat \<Rightarrow> io"
  we_others :: "nat \<Rightarrow> nat \<Rightarrow> db \<Rightarrow> db"

definition new_turn :: "string \<Rightarrow> string \<Rightarrow> string option \<Rightarrow> string \<Rightarrow> json \<Rightarrow> int \<Rightarrow> Turn" where
  "new_turn tid convID postID role content now = \<lparr>tn_ID = tid, tn_ConversationID = convID, tn_PostID = postID,
     tn_Role = role, tn_Content = Some content, tn_TokensIn = 0, tn_TokensOut = 0, tn_Sequence = 0, tn_CreatedAt = now\<rparr>"

text \<open>The \<open>k\<close>-th round uses the ids, times and failures \<open>2 * k\<close> and \<open>2 * k + 1\<close>.\<close>

definition writeToolRound ::
  "json_env \<Rightarrow> write_env \<Rightarrow> nat \<Rightarrow> string \<Rightarrow> ToolTurn \<Rightarrow> bool \<Rightarrow> db \<Rightarrow> go_error option \<times> db" where
  "writeToolRound env w k convID tt shared d =
     (case marshalBlocks env (toolUseBlocks (tt_AssistantMessage tt) (tt_AssistantReasoning tt)
             (tt_AssistantServerTools tt) (tt_AssistantSegments tt) (tt_AssistantToolCalls tt) shared) of
        Inl err \<Rightarrow> (Some (wrapf ''failed to marshal assistant tool blocks'' err), d)
      | Inr assistantContent \<Rightarrow>
          (let assistantTurn = (new_turn (we_ids w (2 * k)) convID None ''assistant'' assistantContent (we_now w (2 * k)))
                 \<lparr>tn_TokensIn := sint (tt_TokensIn tt), tn_TokensOut := sint (tt_TokensOut tt)\<rparr>
           in case CreateTurnAutoSequence (we_io w (2 * k)) (we_others w (2 * k)) assistantTurn d of
                (Inl err, d1) \<Rightarrow> (Some (wrapf ''failed to create assistant tool turn'' err), d1)
              | (Inr _, d1) \<Rightarrow>
                  (case marshalBlocks env (toolResultBlocks (we_now w (Suc (2 * k))) (tt_ToolResults tt) shared) of
                     Inl err \<Rightarrow> (Some (wrapf ''failed to marshal tool result blocks'' err), d1)
                   | Inr resultContent \<Rightarrow>
                       (let resultTurn = new_turn (we_ids w (Suc (2 * k))) convID None ''tool_result'' resultContent
                              (we_now w (Suc (2 * k)))
                        in case CreateTurnAutoSequence (we_io w (Suc (2 * k))) (we_others w (Suc (2 * k))) resultTurn d1 of
                             (Inl err, d2) \<Rightarrow> (Some (wrapf ''failed to create tool result turn'' err), d2)
                           | (Inr _, d2) \<Rightarrow> (None, d2)))))"

fun write_rounds ::
  "json_env \<Rightarrow> write_env \<Rightarrow> nat \<Rightarrow> string \<Rightarrow> ToolTurn list \<Rightarrow> bool \<Rightarrow> db \<Rightarrow> go_error option \<times> db" where
  "write_rounds env w k convID [] shared d = (None, d)"
| "write_rounds env w k convID (tt # tts) shared d =
     (case writeToolRound env w k convID tt shared d of
        (Some err, d1) \<Rightarrow> (Some err, d1)
      | (None, d1) \<Rightarrow> write_rounds env w (Suc k) convID tts shared d1)"

definition WriteToolTurns ::
  "json_env \<Rightarrow> write_env \<Rightarrow> string \<Rightarrow> ToolTurn list \<Rightarrow> bool \<Rightarrow> db \<Rightarrow> go_error option \<times> db" where
  "WriteToolTurns env w convID toolTurns shared d = write_rounds env w 0 convID toolTurns shared d"

text \<open>The rows the rounds become, from position \<open>s + 1\<close> on.\<close>

definition stored_turn :: "Turn \<Rightarrow> int \<Rightarrow> Turn" where
  "stored_turn t s = t\<lparr>tn_Sequence := s, tn_Content := map_option jsonb (tn_Content t)\<rparr>"

fun round_rows :: "json_env \<Rightarrow> write_env \<Rightarrow> nat \<Rightarrow> string \<Rightarrow> ToolTurn list \<Rightarrow> bool \<Rightarrow> int \<Rightarrow> Turn list result" where
  "round_rows env w k convID [] shared s = Inr []"
| "round_rows env w k convID (tt # tts) shared s =
     bindR (marshalBlocks env (toolUseBlocks (tt_AssistantMessage tt) (tt_AssistantReasoning tt)
             (tt_AssistantServerTools tt) (tt_AssistantSegments tt) (tt_AssistantToolCalls tt) shared)) (\<lambda>use.
     bindR (marshalBlocks env (toolResultBlocks (we_now w (Suc (2 * k))) (tt_ToolResults tt) shared)) (\<lambda>res.
     bindR (round_rows env w (Suc k) convID tts shared (s + 2)) (\<lambda>rows.
       Inr (stored_turn ((new_turn (we_ids w (2 * k)) convID None ''assistant'' use (we_now w (2 * k)))
              \<lparr>tn_TokensIn := sint (tt_TokensIn tt), tn_TokensOut := sint (tt_TokensOut tt)\<rparr>) (s + 1)
            # stored_turn (new_turn (we_ids w (Suc (2 * k))) convID None ''tool_result'' res (we_now w (Suc (2 * k)))) (s + 2)
            # rows))))"

lemma fold_max_snoc: "fold max (ss @ [x]) (s :: int) = max x (fold max ss s)"
  by simp

lemma max_sequence_snoc:
  assumes "db_turns d' = db_turns d @ [t]" "tn_ConversationID t = convID" "tn_Sequence t = max_sequence convID d + 1"
  shows "max_sequence convID d' = max_sequence convID d + 1"
proof -
  have "map tn_Sequence (turns_of convID d') = map tn_Sequence (turns_of convID d) @ [max_sequence convID d + 1]"
    using assms by (simp add: turns_of_def)
  then show ?thesis
    by (cases "map tn_Sequence (turns_of convID d)") (auto simp: max_sequence_def)
qed

definition quiet :: "write_env \<Rightarrow> bool" where
  "quiet w \<longleftrightarrow> we_io w = (\<lambda>_ _. IoOk) \<and> we_others w = (\<lambda>_ _. id)"

lemma write_rounds_rows:
  assumes "quiet w" and "inj (we_ids w)"
    and "\<forall>n \<ge> 2 * k. we_ids w n \<notin> tn_ID ` set (db_turns d)"
    and "write_rounds env w k convID tts shared d = (None, d')"
  shows "\<exists>rows. round_rows env w k convID tts shared (max_sequence convID d) = Inr rows \<and> db_turns d' = db_turns d @ rows"
  using assms(3,4)
proof (induction tts arbitrary: k d)
  case (Cons tt tts)
  let ?use = "marshalBlocks env (toolUseBlocks (tt_AssistantMessage tt) (tt_AssistantReasoning tt)
             (tt_AssistantServerTools tt) (tt_AssistantSegments tt) (tt_AssistantToolCalls tt) shared)"
  let ?res = "marshalBlocks env (toolResultBlocks (we_now w (Suc (2 * k))) (tt_ToolResults tt) shared)"
  obtain d2 where round: "writeToolRound env w k convID tt shared d = (None, d2)"
    "write_rounds env w (Suc k) convID tts shared d2 = (None, d')"
    using Cons.prems(2) by (auto split: prod.splits option.splits)
  from round(1) obtain use res where m: "?use = Inr use" "?res = Inr res"
    by (auto simp: writeToolRound_def Let_def split: sum.splits prod.splits)
  let ?t1 = "(new_turn (we_ids w (2 * k)) convID None ''assistant'' use (we_now w (2 * k)))
    \<lparr>tn_TokensIn := sint (tt_TokensIn tt), tn_TokensOut := sint (tt_TokensOut tt)\<rparr>"
  let ?t2 = "new_turn (we_ids w (Suc (2 * k))) convID None ''tool_result'' res (we_now w (Suc (2 * k)))"
  let ?s = "max_sequence convID d"
  have q: "we_io w n = (\<lambda>_. IoOk)" "we_others w n = (\<lambda>_. id)" for n using assms(1) by (simp_all add: quiet_def)
  have "tn_ID ?t1 \<notin> tn_ID ` set (db_turns d)" using Cons.prems(1) by (simp add: new_turn_def)
  from CreateTurnAutoSequence_quiet [OF _ this, of use]
  obtain d1 where d1: "CreateTurnAutoSequence (\<lambda>_. IoOk) (\<lambda>_. id) ?t1 d = (Inr (?s + 1), d1)"
    "db_turns d1 = db_turns d @ [stored_turn ?t1 (?s + 1)]"
    by (simp add: new_turn_def stored_turn_def)
  have s1: "max_sequence convID d1 = ?s + 1"
    by (rule max_sequence_snoc [OF d1(2)]) (simp_all add: stored_turn_def new_turn_def)
  have "tn_ID ?t2 \<notin> tn_ID ` set (db_turns d1)"
    using Cons.prems(1) injD [OF assms(2), of "Suc (2 * k)" "2 * k"] by (auto simp: d1(2) new_turn_def stored_turn_def)
  from CreateTurnAutoSequence_quiet [OF _ this, of res]
  obtain d2' where d2': "CreateTurnAutoSequence (\<lambda>_. IoOk) (\<lambda>_. id) ?t2 d1 = (Inr (?s + 2), d2')"
    "db_turns d2' = db_turns d1 @ [stored_turn ?t2 (?s + 2)]"
    by (simp add: new_turn_def stored_turn_def s1)
  have s2: "max_sequence convID d2' = ?s + 2"
    using max_sequence_snoc [OF d2'(2), of convID] by (simp add: s1 stored_turn_def new_turn_def)
  have d2: "d2 = d2'" using round(1) by (simp add: writeToolRound_def m q d1(1) d2'(1) Let_def)
  have "\<forall>n \<ge> 2 * Suc k. we_ids w n \<notin> tn_ID ` set (db_turns d2)"
    using Cons.prems(1) by (auto simp: d2 d2'(2) d1(2) new_turn_def stored_turn_def inj_eq [OF assms(2)])
  from Cons.IH [OF this round(2)]
  obtain rows where "round_rows env w (Suc k) convID tts shared (?s + 2) = Inr rows" "db_turns d' = db_turns d2 @ rows"
    by (auto simp: d2 s2)
  then show ?case using m by (simp add: d2 d2'(2) d1(2))
qed simp

text \<open>
  With no other writer, the rounds of a run are appended to the conversation in order, each as an
  assistant turn followed by its tool_result turn at consecutive positions, and no stored turn changes.
\<close>

theorem WriteToolTurns_appends:
  assumes "quiet w" "inj (we_ids w)" "\<forall>n. we_ids w n \<notin> tn_ID ` set (db_turns d)"
    and "WriteToolTurns env w convID tts shared d = (None, d')"
  shows "\<exists>rows. round_rows env w 0 convID tts shared (max_sequence convID d) = Inr rows \<and> db_turns d' = db_turns d @ rows"
  using write_rounds_rows [OF assms(1,2), of 0 d] assms(3,4) by (simp add: WriteToolTurns_def)

definition secret_turn :: "string \<Rightarrow> Turn" where
  "secret_turn s = (example_turn ''r'' ''assistant'' None 2)
     \<lparr>tn_Content := Some (JArr [JObj [(''type'', JStr ''tool_result''), (''content'', JStr s)]])\<rparr>"

definition redacting :: PostConversionOptions where
  "redacting = \<lparr>pc_RedactUnshared = True, pc_MMClient = None, pc_UserID = [], pc_EnableVision = False,
     pc_MaxFileSize = 0, pc_ToolStore = None\<rparr>"

lemma secret_turn_blocks:
  "unmarshal_turn example_json (secret_turn s) = Inr [block0\<lparr>cb_Type := BlockTypeToolResult, cb_Content := s\<rparr>]"
  by (simp add: unmarshal_turn_def secret_turn_def UnmarshalBlocks_def v_slice_def decode_ContentBlock_def
      decode_struct_def match_field_def fields_ContentBlock_def d_string_def BlockTypeToolResult_def)

lemma turnsToLLMPosts_private_witness:
  "turnsToLLMPosts example_json [secret_turn ''a''] redacting = turnsToLLMPosts example_json [secret_turn ''b''] redacting
   \<and> secret_turn ''a'' \<noteq> secret_turn ''b''"
proof
  show "turnsToLLMPosts example_json [secret_turn ''a''] redacting = turnsToLLMPosts example_json [secret_turn ''b''] redacting"
  proof (rule turnsToLLMPosts_private)
    have "same_public (block0\<lparr>cb_Type := BlockTypeToolResult, cb_Content := x\<rparr>)
        (block0\<lparr>cb_Type := BlockTypeToolResult, cb_Content := y\<rparr>)" for x y
      by (simp add: same_public_def private_use_def private_result_def block0_def shared_flag_def block_consts)
    then show "list_all2 (same_public_turn example_json) [secret_turn ''a''] [secret_turn ''b'']"
      by (simp add: same_public_turn_def secret_turn_blocks) (simp add: secret_turn_def)
  qed (simp add: redacting_def)
qed (simp add: secret_turn_def example_turn_def)

definition example_writes :: write_env where
  "example_writes = \<lparr>we_ids = (\<lambda>n. replicate n (CHR ''x'')), we_now = (\<lambda>_. 7), we_io = (\<lambda>_ _. IoOk),
     we_others = (\<lambda>_ _. id)\<rparr>"

definition example_round :: ToolTurn where
  "example_round = \<lparr>tt_AssistantMessage = ''hi'', tt_AssistantToolCalls = [blank_call\<lparr>tc_ID := ''1''\<rparr>],
     tt_AssistantReasoning = \<lparr>rd_Text = [], rd_Signature = []\<rparr>, tt_AssistantServerTools = [],
     tt_AssistantSegments = [], tt_ToolResults = [\<lparr>tr_ToolCallID = ''1'', tr_Name = [], tr_Result = ''ok'', tr_IsError = False\<rparr>],
     tt_TokensIn = 0, tt_TokensOut = 0\<rparr>"

lemma WriteToolTurns_appends_witness:
  "\<exists>rows. round_rows example_json example_writes 0 ''c'' [example_round] True (max_sequence ''c'' example_db) = Inr rows
     \<and> db_turns (snd (WriteToolTurns example_json example_writes ''c'' [example_round] True example_db))
       = db_turns example_db @ rows"
proof (rule WriteToolTurns_appends)
  have "fst (WriteToolTurns example_json example_writes ''c'' [example_round] True example_db) = None"
    by code_simp
  then show "WriteToolTurns example_json example_writes ''c'' [example_round] True example_db =
      (None, snd (WriteToolTurns example_json example_writes ''c'' [example_round] True example_db))"
    by (simp add: prod_eq_iff)
  have "replicate n (CHR ''x'') \<noteq> [c]" if "c \<noteq> CHR ''x''" for n c
    using that by (cases n) auto
  then show "\<forall>n. we_ids example_writes n \<notin> tn_ID ` set (db_turns example_db)"
    by (simp add: example_writes_def example_db_def example_turn_def)
qed (auto simp: quiet_def example_writes_def inj_def)

end
