(* ===== verification/Conversation_Service.thy ===== *)
theory Conversation_Service
  imports Conversation_Posts
begin

text \<open>
  The conversation service (\<open>src/conversation/service.go\<close>): creating and continuing a conversation,
  user turns, the placeholder turn of a reply and its final content, titles, regeneration, and which
  user turn started a run.

  A call of the service issues several statements. The \<open>write_env\<close> numbers them: \<open>we_ids\<close> and
  \<open>we_now\<close> are the fresh id and the clock of a statement, \<open>we_io\<close> its failures, \<open>we_others\<close> what
  other requests commit before it. \<open>files\<close> is the file metadata the client answers under the policy
  of a session (\<open>mmapi.WithFilePolicy\<close>), absent for a nil client.
\<close>

section \<open>User turns\<close>

definition SyntheticKindWake :: string where "SyntheticKindWake = ''wake''"
definition SyntheticKindWakeCanceled :: string where "SyntheticKindWakeCanceled = ''wake_canceled''"

type_synonym file_lookup = "string \<Rightarrow> (string \<Rightarrow> FileInfo option result) option"

definition appendUserTurnBlocks ::
  "json_env \<Rightarrow> write_env \<Rightarrow> nat \<Rightarrow> string \<Rightarrow> ContentBlock list \<Rightarrow> string option \<Rightarrow> db \<Rightarrow> string result \<times> db" where
  "appendUserTurnBlocks env w k convID blocks postID d =
     (case marshalBlocks env blocks of
        Inl err \<Rightarrow> (Inl (wrapf ''failed to marshal user message'' err), d)
      | Inr content \<Rightarrow>
          (case CreateTurnAutoSequence (we_io w k) (we_others w k)
                  (new_turn (we_ids w k) convID postID ''user'' content (we_now w k)) d of
             (Inl err, d') \<Rightarrow> (Inl (wrapf ''failed to create user turn'' err), d')
           | (Inr _, d') \<Rightarrow> (Inr (we_ids w k), d')))"

definition appendUserTurn ::
  "json_env \<Rightarrow> write_env \<Rightarrow> nat \<Rightarrow> file_lookup \<Rightarrow> string \<Rightarrow> string \<Rightarrow> string option \<Rightarrow> string list \<Rightarrow> string \<Rightarrow> db
     \<Rightarrow> string result \<times> db" where
  "appendUserTurn env w k files convID message postID fileIDs sessionID =
     appendUserTurnBlocks env w k convID (userBlocksWithAttachments message fileIDs (files sessionID)) postID"

definition AppendSyntheticUserTurn ::
  "json_env \<Rightarrow> write_env \<Rightarrow> nat \<Rightarrow> string \<Rightarrow> string \<Rightarrow> string \<Rightarrow> db \<Rightarrow> go_error option \<times> db" where
  "AppendSyntheticUserTurn env w k convID kind message d =
     (case appendUserTurnBlocks env w k convID
             (map (\<lambda>b. b\<lparr>cb_SyntheticKind := kind\<rparr>) (textBlocks message)) None d of
        (Inl err, d') \<Rightarrow> (Some err, d')
      | (Inr _, d') \<Rightarrow> (None, d'))"

section \<open>Conversations\<close>

record CreateConversationParams =
  cp_UserID :: string
  cp_SessionID :: string
  cp_BotID :: string
  cp_ChannelID :: "string option"
  cp_RootPostID :: "string option"
  cp_Operation :: string
  cp_SystemPrompt :: string
  cp_UserMessage :: string
  cp_UserPostID :: "string option"
  cp_FileIDs :: "string list"

definition Service_CreateConversation ::
  "json_env \<Rightarrow> write_env \<Rightarrow> nat \<Rightarrow> file_lookup \<Rightarrow> CreateConversationParams \<Rightarrow> db
     \<Rightarrow> (string \<times> string) result \<times> db" where
  "Service_CreateConversation env w k files p d =
     (let now = we_now w k; convID = we_ids w k;
          conv = \<lparr>cv_ID = convID, cv_UserID = cp_UserID p, cv_BotID = cp_BotID p, cv_ChannelID = cp_ChannelID p,
            cv_RootPostID = cp_RootPostID p, cv_Title = [], cv_SystemPrompt = cp_SystemPrompt p,
            cv_Operation = cp_Operation p, cv_CreatedAt = now, cv_UpdatedAt = now, cv_DeleteAt = 0\<rparr>
      in case CreateConversation (we_io w k 0) conv (we_others w k 0 d) of
           (Some err, d1) \<Rightarrow> (Inl (wrapf ''failed to create conversation'' err), d1)
         | (None, d1) \<Rightarrow>
             (case marshalBlocks env
                     (userBlocksWithAttachments (cp_UserMessage p) (cp_FileIDs p) (files (cp_SessionID p))) of
                Inl err \<Rightarrow> (Inl (wrapf ''failed to marshal user message'' err), d1)
              | Inr content \<Rightarrow>
                  (let turnID = we_ids w (Suc k);
                       turn = (new_turn turnID convID (cp_UserPostID p) ''user'' content now)\<lparr>tn_Sequence := 1\<rparr>
                   in case CreateTurn (we_io w (Suc k) 0) turn (we_others w (Suc k) 0 d1) of
                        (Some err, d2) \<Rightarrow> (Inl (wrapf ''failed to create user turn'' err), d2)
                      | (None, d2) \<Rightarrow> (Inr (convID, turnID), d2))))"

definition GetConversationByThread ::
  "io \<Rightarrow> string \<Rightarrow> string \<Rightarrow> string \<Rightarrow> db \<Rightarrow> Conversation option result" where
  "GetConversationByThread io rootPostID botID userID d =
     (case GetConversationByThreadBotUser io rootPostID botID userID d of
        Inl err \<Rightarrow> (if errors_Is err ErrConversationNotFound then Inr None else Inl err)
      | Inr conv \<Rightarrow> Inr (Some conv))"

record GetOrCreateParams =
  gp_UserID :: string
  gp_SessionID :: string
  gp_BotID :: string
  gp_ChannelID :: string
  gp_RootPostID :: string
  gp_Operation :: string
  gp_SystemPrompt :: string
  gp_UserMessage :: string
  gp_UserPostID :: "string option"
  gp_FileIDs :: "string list"

record GetOrCreateResult =
  gr_Conversation :: Conversation
  gr_IsNew :: bool
  gr_UserTurnID :: string

definition create_params :: "GetOrCreateParams \<Rightarrow> CreateConversationParams" where
  "create_params p = \<lparr>cp_UserID = gp_UserID p, cp_SessionID = gp_SessionID p, cp_BotID = gp_BotID p,
     cp_ChannelID = Some (gp_ChannelID p), cp_RootPostID = Some (gp_RootPostID p), cp_Operation = gp_Operation p,
     cp_SystemPrompt = gp_SystemPrompt p, cp_UserMessage = gp_UserMessage p, cp_UserPostID = gp_UserPostID p,
     cp_FileIDs = gp_FileIDs p\<rparr>"

text \<open>Continuing a conversation that was found: statement \<open>k\<close> appends the user turn.\<close>

definition continue_conversation ::
  "json_env \<Rightarrow> write_env \<Rightarrow> nat \<Rightarrow> file_lookup \<Rightarrow> GetOrCreateParams \<Rightarrow> Conversation \<Rightarrow> db
     \<Rightarrow> GetOrCreateResult result \<times> db" where
  "continue_conversation env w k files p existing d =
     (case appendUserTurn env w k files (cv_ID existing) (gp_UserMessage p) (gp_UserPostID p) (gp_FileIDs p)
             (gp_SessionID p) d of
        (Inl err, d') \<Rightarrow> (Inl err, d')
      | (Inr turnID, d') \<Rightarrow>
          (Inr \<lparr>gr_Conversation = existing, gr_IsNew = False, gr_UserTurnID = turnID\<rparr>, d'))"

text \<open>
  Statement 0 looks the conversation up, 1 appends to it or, with 2, creates it; after a conflict 3
  looks it up again and 4 appends, otherwise 3 reads the new row.
\<close>

definition GetOrCreateConversation ::
  "json_env \<Rightarrow> write_env \<Rightarrow> file_lookup \<Rightarrow> GetOrCreateParams \<Rightarrow> db \<Rightarrow> GetOrCreateResult result \<times> db" where
  "GetOrCreateConversation env w files p d =
     (let d0 = we_others w 0 0 d
      in case GetConversationByThread (we_io w 0 0) (gp_RootPostID p) (gp_BotID p) (gp_UserID p) d0 of
           Inl err \<Rightarrow> (Inl (wrapf ''failed to look up conversation'' err), d0)
         | Inr (Some existing) \<Rightarrow> continue_conversation env w 1 files p existing d0
         | Inr None \<Rightarrow>
             (case Service_CreateConversation env w 1 files (create_params p) d0 of
                (Inl err, d1) \<Rightarrow>
                  if errors_Is err ErrConversationConflict then
                    (let d2 = we_others w 3 0 d1
                     in case GetConversationByThread (we_io w 3 0) (gp_RootPostID p) (gp_BotID p) (gp_UserID p) d2 of
                          Inl err \<Rightarrow> (Inl (wrapf ''failed to look up conversation after conflict'' err), d2)
                        | Inr None \<Rightarrow> (Inl (ErrorNew ''conversation vanished after conflict''), d2)
                        | Inr (Some raceConv) \<Rightarrow> continue_conversation env w 4 files p raceConv d2)
                  else (Inl err, d1)
              | (Inr (convID, turnID), d1) \<Rightarrow>
                  (let d2 = we_others w 3 0 d1
                   in case GetConversation (we_io w 3 0) convID d2 of
                        Inl err \<Rightarrow> (Inl (wrapf ''failed to get newly created conversation'' err), d2)
                      | Inr conv \<Rightarrow>
                          (Inr \<lparr>gr_Conversation = conv, gr_IsNew = True, gr_UserTurnID = turnID\<rparr>, d2))))"

section \<open>Replies\<close>

definition CreatePlaceholderAssistantTurn ::
  "write_env \<Rightarrow> nat \<Rightarrow> string \<Rightarrow> string option \<Rightarrow> db \<Rightarrow> string result \<times> db" where
  "CreatePlaceholderAssistantTurn w k convID postID d =
     (case CreateTurnAutoSequence (we_io w k) (we_others w k)
             (new_turn (we_ids w k) convID postID ''assistant'' (JArr []) (we_now w k)) d of
        (Inl err, d') \<Rightarrow> (Inl (wrapf ''failed to create placeholder turn'' err), d')
      | (Inr _, d') \<Rightarrow> (Inr (we_ids w k), d'))"

definition FinalizeAssistantTurn ::
  "json_env \<Rightarrow> write_env \<Rightarrow> nat \<Rightarrow> string \<Rightarrow> ContentBlock list \<Rightarrow> int \<Rightarrow> int \<Rightarrow> db \<Rightarrow> go_error option \<times> db" where
  "FinalizeAssistantTurn env w k turnID content tokensIn tokensOut d =
     (case marshalBlocks env content of
        Inl err \<Rightarrow> (Some (wrapf ''failed to marshal content'' err), d)
      | Inr contentJSON \<Rightarrow>
          (case UpdateTurnContent (we_io w k 0) turnID (Some contentJSON) (we_others w k 0 d) of
             (Some err, d1) \<Rightarrow> (Some (wrapf ''failed to update turn content'' err), d1)
           | (None, d1) \<Rightarrow>
               (case UpdateTurnTokens (we_io w (Suc k) 0) turnID tokensIn tokensOut (we_others w (Suc k) 0 d1) of
                  (Some err, d2) \<Rightarrow> (Some (wrapf ''failed to update turn tokens'' err), d2)
                | (None, d2) \<Rightarrow> (None, d2))))"

section \<open>Titles\<close>

text \<open>What the owner of a conversation is told of a new title.\<close>

record title_event =
  te_conversation_id :: string
  te_title :: string
  te_UserId :: string

definition PublishConversationTitleUpdated :: "Conversation \<Rightarrow> string \<Rightarrow> title_event" where
  "PublishConversationTitleUpdated conv title =
     \<lparr>te_conversation_id = cv_ID conv, te_title = title, te_UserId = cv_UserID conv\<rparr>"

definition UpdateConversationTitle ::
  "write_env \<Rightarrow> string \<Rightarrow> string \<Rightarrow> db \<Rightarrow> go_error option \<times> title_event list \<times> db" where
  "UpdateConversationTitle w cid title d =
     (let d0 = we_others w 0 0 d
      in case GetConversation (we_io w 0 0) cid d0 of
           Inl err \<Rightarrow> (Some (wrapf ''failed to get conversation'' err), [], d0)
         | Inr conv \<Rightarrow>
             (case RenameConversation (we_io w 1 0) cid title (we_others w 1 0 d0) of
                (Inl err, d1) \<Rightarrow> (Some (wrapf ''failed to set conversation title'' err), [], d1)
              | (Inr renamed, d1) \<Rightarrow>
                  (None, if renamed then [PublishConversationTitleUpdated conv title] else [], d1)))"

definition title_cut :: "char \<Rightarrow> bool" where
  "title_cut c \<longleftrightarrow> c = CHR 0x0A \<or> c = CHR '' '' \<or> c = CHR 0x22 \<or> c = CHR 0x27"

definition title_request :: "string \<Rightarrow> Context option \<Rightarrow> CompletionRequest" where
  "title_request userMessage context = \<lparr>req_Posts = [mkPost PostRoleUser
       (''Write a short title for the following request. Include only the title and nothing else, no quotations. Request:''
        @ [CHR 0x0A] @ userMessage)],
     req_Context = context, req_Operation = ''title_generation'', req_OperationSubType = ''nostream'',
     req_RestrictFallbacks = False, req_AllowedFallbackServiceIDs = []\<rparr>"

text \<open>\<open>complete\<close> is the model's answer to the title request, sent with tools and reasoning disabled.\<close>

definition GenerateTitle ::
  "write_env \<Rightarrow> string \<Rightarrow> (CompletionRequest \<Rightarrow> string result) \<Rightarrow> string \<Rightarrow> Context option \<Rightarrow> db
     \<Rightarrow> go_error option \<times> title_event list \<times> db" where
  "GenerateTitle w cid complete userMessage context d =
     (let d0 = we_others w 0 0 d
      in case GetConversation (we_io w 0 0) cid d0 of
           Inl err \<Rightarrow> (Some (wrapf ''failed to get conversation'' err), [], d0)
         | Inr conv \<Rightarrow>
             if cv_Title conv \<noteq> [] then (None, [], d0)
             else (case complete (title_request userMessage context) of
               Inl err \<Rightarrow> (Some (wrapf ''failed to generate title'' err), [], d0)
             | Inr answer \<Rightarrow>
                 (let title = rev (dropWhile title_cut (rev (dropWhile title_cut answer)))
                  in if title = [] then (None, [], d0)
                     else case SetConversationTitleIfUnset (we_io w 1 0) cid title (we_others w 1 0 d0) of
                       (Inl err, d1) \<Rightarrow> (Some (wrapf ''failed to save title'' err), [], d1)
                     | (Inr updated, d1) \<Rightarrow>
                         (None, if updated then [PublishConversationTitleUpdated conv title] else [], d1))))"

section \<open>Requests\<close>

text \<open>The bot lookup is a parameter, absent when nil: a bot's vision setting and file size limit.\<close>

definition attachmentConfigForBot :: "(string \<Rightarrow> (bool \<times> int) option) option \<Rightarrow> string \<Rightarrow> bool \<times> int" where
  "attachmentConfigForBot bots botID =
     (case bots of
        None \<Rightarrow> (False, DefaultMaxFileSize)
      | Some lookup \<Rightarrow> (case lookup botID of None \<Rightarrow> (False, DefaultMaxFileSize) | Some r \<Rightarrow> r))"

record service_client =
  sv_client :: "mm_client option"
  sv_withPolicy :: "mm_client option \<Rightarrow> string \<Rightarrow> mm_client option"
  sv_bots :: "(string \<Rightarrow> (bool \<times> int) option) option"

definition BuildCompletionRequest ::
  "json_env \<Rightarrow> service_client \<Rightarrow> io \<Rightarrow> Conversation \<Rightarrow> Context option \<Rightarrow> BuildOptions option \<Rightarrow> db
     \<Rightarrow> CompletionRequest result" where
  "BuildCompletionRequest env sv io conv context opts d =
     (case GetTurnsForConversation io (cv_ID conv) d of
        Inl err \<Rightarrow> Inl (wrapf ''failed to get turns'' err)
      | Inr turns \<Rightarrow>
          (let (enableVision, maxFileSize) = attachmentConfigForBot (sv_bots sv) (cv_BotID conv)
           in map_sum id (\<lambda>(posts, context', operation).
                \<lparr>req_Posts = posts, req_Context = context', req_Operation = operation, req_OperationSubType = [],
                 req_RestrictFallbacks = False, req_AllowedFallbackServiceIDs = []\<rparr>)
                (AssembleRequest env (sv_withPolicy sv) conv turns context (sv_client sv) enableVision maxFileSize opts)))"

definition SubTypeRegenerate :: string where "SubTypeRegenerate = ''regenerate''"

definition BuildRegenerateRequest ::
  "json_env \<Rightarrow> service_client \<Rightarrow> write_env \<Rightarrow> Conversation \<Rightarrow> Context option \<Rightarrow> string \<Rightarrow> BuildOptions \<Rightarrow> db
     \<Rightarrow> CompletionRequest result \<times> db" where
  "BuildRegenerateRequest env sv w conv context postID opts d =
     (let d0 = we_others w 0 0 d
      in case BuildCompletionRequest env sv (we_io w 0 0) conv context
                (Some (opts\<lparr>bo_ExcludeAfterPostID := postID\<rparr>)) d0 of
           Inl err \<Rightarrow> (Inl (wrapf ''failed to build completion request for regen'' err), d0)
         | Inr req \<Rightarrow>
             (case DeleteResponseTurns (we_io w 1 0) (cv_ID conv) postID (we_others w 1 0 d0) of
                (Some err, d1) \<Rightarrow> (Inl (wrapf ''failed to scrub prior response turns on regen'' err), d1)
              | (None, d1) \<Rightarrow> (Inr (req\<lparr>req_OperationSubType := SubTypeRegenerate\<rparr>), d1)))"

section \<open>The turn that started a run\<close>

definition isSyntheticUserTurn :: "json_env \<Rightarrow> Turn \<Rightarrow> bool" where
  "isSyntheticUserTurn env turn \<longleftrightarrow>
     tn_Role turn = ''user'' \<and> tn_PostID turn = None
     \<and> (case UnmarshalBlocks env (tn_Content turn) of
          Inl _ \<Rightarrow> False
        | Inr blocks \<Rightarrow> blocks \<noteq> [] \<and> list_all (\<lambda>b. cb_SyntheticKind b \<noteq> []) blocks)"

definition initiating_turn :: "json_env \<Rightarrow> string \<Rightarrow> Turn list \<Rightarrow> Turn option" where
  "initiating_turn env postID turns =
     (case find (is_anchor postID) turns of
        None \<Rightarrow> None
      | Some anchor \<Rightarrow>
          if tn_Sequence anchor < 0 then None
          else find (\<lambda>t. tn_Role t = ''user'' \<and> tn_Sequence t < tn_Sequence anchor \<and> \<not> isSyntheticUserTurn env t)
                 (rev turns))"

definition GetInitiatingUserTurn :: "json_env \<Rightarrow> io \<Rightarrow> string \<Rightarrow> string \<Rightarrow> db \<Rightarrow> Turn option result" where
  "GetInitiatingUserTurn env io convID postID d =
     map_sum id (initiating_turn env postID) (GetTurnsForConversation io convID d)"

fun previous_user_turn :: "string \<Rightarrow> Turn option \<Rightarrow> Turn list \<Rightarrow> Turn option" where
  "previous_user_turn currentID prev [] = None"
| "previous_user_turn currentID prev (t # ts) =
     (if tn_Role t \<noteq> ''user'' then previous_user_turn currentID prev ts
      else if tn_ID t = currentID then prev
      else previous_user_turn currentID (Some t) ts)"

definition GetPreviousUserTurn :: "io \<Rightarrow> string \<Rightarrow> string \<Rightarrow> db \<Rightarrow> Turn option result" where
  "GetPreviousUserTurn io convID currentUserTurnID d =
     map_sum id (previous_user_turn currentUserTurnID None) (GetTurnsForConversation io convID d)"

section \<open>Statements that only add rows\<close>

definition thread_key :: "Conversation \<Rightarrow> string \<times> string option \<times> string \<times> string \<times> int" where
  "thread_key c = (cv_ID c, cv_RootPostID c, cv_BotID c, cv_UserID c, cv_DeleteAt c)"

definition grows :: "db \<Rightarrow> db \<Rightarrow> bool" where
  "grows d d' \<longleftrightarrow> (db_ok d \<longrightarrow> db_ok d') \<and> set (db_turns d) \<subseteq> set (db_turns d')
     \<and> thread_key ` set (db_conversations d) \<subseteq> thread_key ` set (db_conversations d')"

lemma grows_refl [simp]: "grows d d"
  by (simp add: grows_def)

lemma grows_trans: "grows d e \<Longrightarrow> grows e f \<Longrightarrow> grows d f"
  unfolding grows_def by (meson order_trans)

definition cooperative :: "write_env \<Rightarrow> bool" where
  "cooperative w \<longleftrightarrow> (\<forall>k n d. grows d (we_others w k n d))"

lemma grows_others: "cooperative w \<Longrightarrow> grows d (we_others w k n d)"
  by (simp add: cooperative_def)

lemma thread_key_bump [simp]: "thread_key (bump_activity t c) = thread_key c"
  by (simp add: thread_key_def bump_activity_def)

lemma grows_run_sql:
  assumes "\<And>n d'. stmt d = Inr (n, d') \<Longrightarrow> grows d d'"
  shows "grows d (snd (run_sql io stmt d))"
  using assms by (auto simp: run_sql_def split: io.splits sum.splits)

lemma grows_insert_turn: "insert_turn turn d = Inr (n, d') \<Longrightarrow> grows d d'"
  using keeps_insert_turn [of turn]
  by (auto simp: grows_def keeps_def insert_turn_def image_image split: option.splits if_splits)

lemma grows_insert_conversation: "insert_conversation conv d = Inr (n, d') \<Longrightarrow> grows d d'"
  using keeps_insert_conversation [of conv]
  by (auto simp: grows_def keeps_def insert_conversation_def split: if_splits)

lemma grows_CreateTurn: "grows d (snd (CreateTurn io turn d))"
  by (simp add: CreateTurn_def grows_run_sql grows_insert_turn)

lemma grows_CreateConversation: "grows d (snd (CreateConversation io conv d))"
  by (simp add: snd_create_conversation grows_run_sql grows_insert_conversation)

lemma grows_auto_attempt:
  assumes "\<And>d. grows d (others d)"
  shows "grows d (snd (auto_attempt io others turn d))"
  unfolding snd_auto_attempt by (rule grows_trans [OF assms grows_run_sql [OF grows_insert_turn]])

lemma grows_auto_loop:
  assumes "\<And>n d. grows d (others n d)"
  shows "grows d (snd (auto_loop m io others turn e d))"
proof (induction m arbitrary: e d)
  case (Suc m)
  have step: "grows d (snd (auto_attempt (io m) (others m) turn d))" by (rule grows_auto_attempt [OF assms])
  then show ?case
    using grows_trans [OF step Suc.IH] by (auto split: prod.splits sum.splits)
qed simp

lemma grows_CreateTurnAutoSequence:
  "cooperative w \<Longrightarrow> grows d (snd (CreateTurnAutoSequence (we_io w k) (we_others w k) turn d))"
  unfolding CreateTurnAutoSequence_def by (rule grows_auto_loop) (rule grows_others)

text \<open>The row of a user turn.\<close>

definition user_turn_in :: "string \<Rightarrow> string \<Rightarrow> string option \<Rightarrow> db \<Rightarrow> bool" where
  "user_turn_in turnID convID postID d \<longleftrightarrow> list_ex (\<lambda>t. tn_ID t = turnID \<and> tn_ConversationID t = convID
     \<and> tn_PostID t = postID \<and> tn_Role t = ''user'') (db_turns d)"

lemma user_turn_grows: "grows d d' \<Longrightarrow> user_turn_in i c p d \<Longrightarrow> user_turn_in i c p d'"
  by (auto simp: grows_def user_turn_in_def list_ex_iff)

lemma appendUserTurn_spec:
  assumes "cooperative w" "appendUserTurn env w k files convID message postID fileIDs sessionID d = (r, d')"
  shows "grows d d' \<and> pred_sum (\<lambda>_. True) (\<lambda>turnID. user_turn_in turnID convID postID d') r"
proof (cases "marshalBlocks env (userBlocksWithAttachments message fileIDs (files sessionID))")
  case (Inr content)
  let ?t = "new_turn (we_ids w k) convID postID ''user'' content (we_now w k)"
  let ?c = "CreateTurnAutoSequence (we_io w k) (we_others w k) ?t d"
  have "snd ?c = d'" "pred_sum (\<lambda>_. True) (\<lambda>i. i = we_ids w k \<and> \<not> isl (fst ?c)) r"
    using assms(2) Inr by (auto simp: appendUserTurn_def appendUserTurnBlocks_def split: prod.splits sum.splits)
  moreover have "user_turn_in (we_ids w k) convID postID (snd ?c)" if ok: "\<not> isl (fst ?c)"
  proof -
    obtain x e where x: "?c = (x, e)" by (cases ?c)
    then obtain s where "x = Inr s" using ok by (cases x) auto
    with x have c: "?c = (Inr s, e)" by simp
    then have "appended ?t s e" by (simp add: CreateTurnAutoSequence_def auto_loop_Inr)
    then obtain t where "filter (\<lambda>t. turn_key t = (convID, s)) (db_turns e) = [t]"
      "tn_ID t = we_ids w k" "tn_ConversationID t = convID" "tn_PostID t = postID" "tn_Role t = ''user''"
      by (auto simp: appended_def new_turn_def)
    then have "t \<in> set (filter (\<lambda>t. turn_key t = (convID, s)) (db_turns e))" by simp
    then have "t \<in> set (db_turns e)" by simp
    with \<open>tn_ID t = _\<close> \<open>tn_ConversationID t = _\<close> \<open>tn_PostID t = _\<close> \<open>tn_Role t = _\<close>
    show ?thesis by (auto simp: user_turn_in_def list_ex_iff c)
  qed
  ultimately show ?thesis
    using grows_CreateTurnAutoSequence [OF assms(1), of d k ?t] by (cases r) auto
qed (use assms(2) in \<open>auto simp: appendUserTurn_def appendUserTurnBlocks_def\<close>)

lemma Service_CreateConversation_spec:
  assumes "cooperative w" "Service_CreateConversation env w k files p d = (r, d')"
  shows "grows d d' \<and> pred_sum (\<lambda>_. True) (\<lambda>(convID, turnID). user_turn_in turnID convID (cp_UserPostID p) d'
      \<and> (convID, cp_RootPostID p, cp_BotID p, cp_UserID p, 0) \<in> thread_key ` set (db_conversations d')) r"
proof -
  let ?conv = "\<lparr>cv_ID = we_ids w k, cv_UserID = cp_UserID p, cv_BotID = cp_BotID p, cv_ChannelID = cp_ChannelID p,
            cv_RootPostID = cp_RootPostID p, cv_Title = [], cv_SystemPrompt = cp_SystemPrompt p,
            cv_Operation = cp_Operation p, cv_CreatedAt = we_now w k, cv_UpdatedAt = we_now w k, cv_DeleteAt = 0\<rparr>"
  let ?d0 = "we_others w k 0 d"
  obtain o1 d1 where c1: "CreateConversation (we_io w k 0) ?conv ?d0 = (o1, d1)" by fastforce
  have g1: "grows d d1"
    using grows_trans [OF grows_others [OF assms(1), of d k 0] grows_CreateConversation [of ?d0 "we_io w k 0" ?conv]]
    unfolding c1 by simp
  show ?thesis
  proof (cases o1)
    case (Some e)
    then show ?thesis using assms(2) g1 by (auto simp: Service_CreateConversation_def c1)
  next
    case None
    have "insert_conversation ?conv ?d0 = Inr (1, d1)"
      using c1 None by (auto simp: CreateConversation_def execBuilder_def execBuilderRows_def run_sql_def
          insert_conversation_def split: io.splits if_splits)
    then have "?conv \<in> set (db_conversations d1)" by (auto simp: insert_conversation_def split: if_splits)
    then have key: "(we_ids w k, cp_RootPostID p, cp_BotID p, cp_UserID p, 0) \<in> thread_key ` set (db_conversations d1)"
      by (rule rev_image_eqI) (simp add: thread_key_def)
    show ?thesis
    proof (cases "marshalBlocks env (userBlocksWithAttachments (cp_UserMessage p) (cp_FileIDs p) (files (cp_SessionID p)))")
      case (Inl e)
      then show ?thesis using assms(2) g1 by (auto simp: Service_CreateConversation_def c1 None)
    next
      case (Inr content)
      let ?turn = "(new_turn (we_ids w (Suc k)) (we_ids w k) (cp_UserPostID p) ''user'' content (we_now w k))\<lparr>tn_Sequence := 1\<rparr>"
      let ?d2 = "we_others w (Suc k) 0 d1"
      obtain o2 d2 where c2: "CreateTurn (we_io w (Suc k) 0) ?turn ?d2 = (o2, d2)" by fastforce
      have g2: "grows d1 d2"
        using grows_trans [OF grows_others [OF assms(1), of d1 "Suc k" 0] grows_CreateTurn [of ?d2 "we_io w (Suc k) 0" ?turn]]
        unfolding c2 by simp
      have "user_turn_in (we_ids w (Suc k)) (we_ids w k) (cp_UserPostID p) d2" if "o2 = None"
      proof -
        have "insert_turn ?turn ?d2 = Inr (1, d2)"
          using c2 that by (auto simp: CreateTurn_def execBuilder_def execBuilderRows_def run_sql_def
              insert_turn_def split: io.splits if_splits option.splits)
        then show ?thesis by (auto simp: insert_turn_def user_turn_in_def new_turn_def split: option.splits if_splits)
      qed
      moreover have "r = (case o2 of Some e \<Rightarrow> Inl (wrapf ''failed to create user turn'' e)
          | None \<Rightarrow> Inr (we_ids w k, we_ids w (Suc k)))" "d' = d2"
        using assms(2) by (auto simp: Service_CreateConversation_def c1 c2 None Inr split: option.splits)
      moreover have "thread_key ` set (db_conversations d1) \<subseteq> thread_key ` set (db_conversations d2)"
        using g2 by (simp add: grows_def)
      ultimately show ?thesis using key grows_trans [OF g1 g2] by (cases o2) auto
    qed
  qed
qed

text \<open>The live conversations of a user with an agent in a thread.\<close>

definition thread_conversation :: "string \<Rightarrow> string \<Rightarrow> string \<Rightarrow> Conversation \<Rightarrow> bool" where
  "thread_conversation root agent user c \<longleftrightarrow>
     cv_RootPostID c = Some root \<and> cv_BotID c = agent \<and> cv_UserID c = user \<and> cv_DeleteAt c = 0"

lemma find_pred_set: "find P xs = Some x \<Longrightarrow> P x \<and> x \<in> set xs"
  by (auto simp: find_Some_iff)

lemma GetConversationByThread_Some:
  "GetConversationByThread io root agent user d = Inr (Some c) \<Longrightarrow>
   thread_conversation root agent user c \<and> c \<in> set (db_conversations d)"
  by (auto simp: GetConversationByThread_def GetConversationByThreadBotUser_def get_conversation_def read_sql_def
      thread_conversation_def bindR_def dest!: find_pred_set split: sum.splits option.splits io.splits if_splits)

lemma GetConversation_Inr:
  "GetConversation io cid d = Inr c \<Longrightarrow> cv_ID c = cid \<and> cv_DeleteAt c = 0 \<and> c \<in> set (db_conversations d)"
  by (auto simp: GetConversation_def get_conversation_def read_sql_def bindR_def dest!: find_pred_set
      split: sum.splits option.splits io.splits)

text \<open>A conversation found earlier is still the only live one of its thread once rows were added.\<close>

lemma thread_unique:
  assumes "db_ok d" "thread_key c \<in> thread_key ` set (db_conversations d)" "thread_conversation root agent user c"
    and "e \<in> set (db_conversations d)" "thread_conversation root agent user e"
  shows "cv_ID e = cv_ID c"
proof -
  obtain c' where c': "c' \<in> set (db_conversations d)" "thread_key c' = thread_key c" using assms(2) by auto
  have th: "thread_conversation root agent user c'" using c'(2) assms(3) by (auto simp: thread_key_def thread_conversation_def)
  have "sorted_wrt (\<lambda>c e. \<not> same_thread c e) (db_conversations d)"
    using assms(1) by (simp add: db_ok_def conversations_ok_def distinct_threads_def)
  moreover have "same_thread c' e" "same_thread e c'"
    using th assms(5) by (auto simp: same_thread_def thread_conversation_def)
  ultimately have "c' = e"
    using c'(1) assms(4) unfolding sorted_wrt_iff_nth_less in_set_conv_nth by (metis linorder_neqE_nat)
  then show ?thesis using c'(2) by (simp add: thread_key_def)
qed

definition continued :: "GetOrCreateParams \<Rightarrow> GetOrCreateResult \<Rightarrow> db \<Rightarrow> bool" where
  "continued p r d \<longleftrightarrow>
     thread_conversation (gp_RootPostID p) (gp_BotID p) (gp_UserID p) (gr_Conversation r)
     \<and> user_turn_in (gr_UserTurnID r) (cv_ID (gr_Conversation r)) (gp_UserPostID p) d
     \<and> list_all (\<lambda>e. if thread_conversation (gp_RootPostID p) (gp_BotID p) (gp_UserID p) e
                     then cv_ID e = cv_ID (gr_Conversation r) else True) (db_conversations d)"

lemma continuedI:
  assumes "db_ok d" "thread_key (gr_Conversation r) \<in> thread_key ` set (db_conversations d)"
    and "thread_conversation (gp_RootPostID p) (gp_BotID p) (gp_UserID p) (gr_Conversation r)"
    and "user_turn_in (gr_UserTurnID r) (cv_ID (gr_Conversation r)) (gp_UserPostID p) d"
  shows "continued p r d"
  using assms thread_unique [OF assms(1-3)] by (auto simp: continued_def list_all_iff)

lemma continue_conversation_spec:
  assumes "cooperative w" "db_ok d" "c \<in> set (db_conversations d)"
    and "thread_conversation (gp_RootPostID p) (gp_BotID p) (gp_UserID p) c"
    and "continue_conversation env w k files p c d = (r, d')"
  shows "grows d d' \<and> pred_sum (\<lambda>_. True) (\<lambda>x. continued p x d') r"
proof -
  obtain a e where a: "appendUserTurn env w k files (cv_ID c) (gp_UserMessage p) (gp_UserPostID p) (gp_FileIDs p)
      (gp_SessionID p) d = (a, e)" by fastforce
  have e: "e = d'" using assms(5) by (auto simp: continue_conversation_def a split: sum.splits)
  note app = appendUserTurn_spec [OF assms(1) a]
  have "thread_key c \<in> thread_key ` set (db_conversations d')" "db_ok d'"
    using app assms(2,3) by (auto simp: grows_def e)
  then show ?thesis
    using app assms(4,5) by (cases a) (auto simp: continue_conversation_def a e intro!: continuedI)
qed

lemma GetOrCreate_continued:
  assumes co: "cooperative w" and ok: "db_ok d" and run: "GetOrCreateConversation env w files p d = (r, d')"
  shows "grows d d' \<and> pred_sum (\<lambda>_. True) (\<lambda>x. continued p x d') r"
proof -
  let ?d0 = "we_others w 0 0 d"
  let ?look = "GetConversationByThread (we_io w 0 0) (gp_RootPostID p) (gp_BotID p) (gp_UserID p) ?d0"
  have g0: "grows d ?d0" by (rule grows_others [OF co])
  have ok0: "db_ok ?d0" using g0 ok by (simp add: grows_def)
  show ?thesis
  proof (cases ?look)
    case (Inl e)
    then show ?thesis using run g0 by (auto simp: GetOrCreateConversation_def)
  next
    case (Inr found)
    show ?thesis
    proof (cases found)
      case (Some c)
      note f = GetConversationByThread_Some [OF Inr [unfolded Some]]
      have "continue_conversation env w 1 files p c ?d0 = (r, d')"
        using run Inr Some by (simp add: GetOrCreateConversation_def)
      with continue_conversation_spec [OF co ok0 _ _ this] f grows_trans [OF g0] show ?thesis by blast
    next
      case None
      obtain res d1 where created: "Service_CreateConversation env w 1 files (create_params p) ?d0 = (res, d1)" by fastforce
      note cr = Service_CreateConversation_spec [OF co created]
      let ?d2 = "we_others w 3 0 d1"
      have g2: "grows d1 ?d2" by (rule grows_others [OF co])
      have gd2: "grows d ?d2" using grows_trans [OF grows_trans [OF g0] g2] cr by blast
      have gd1: "grows d d1" using grows_trans [OF g0] cr by blast
      have ok2: "db_ok ?d2" using gd2 ok by (simp add: grows_def)
      show ?thesis
      proof (cases res)
        case (Inl e)
        let ?again = "GetConversationByThread (we_io w 3 0) (gp_RootPostID p) (gp_BotID p) (gp_UserID p) ?d2"
        show ?thesis
        proof (cases "errors_Is e ErrConversationConflict")
          case False
          then show ?thesis using run Inr None created Inl gd1 by (auto simp: GetOrCreateConversation_def)
        next
          case conflict: True
          show ?thesis
          proof (cases "\<exists>c. ?again = Inr (Some c)")
            case True
            then obtain c where c: "?again = Inr (Some c)" by blast
            note f = GetConversationByThread_Some [OF c]
            have "continue_conversation env w 4 files p c ?d2 = (r, d')"
              using run Inr None created Inl conflict c by (simp add: GetOrCreateConversation_def Let_def)
            with continue_conversation_spec [OF co ok2 _ _ this] f grows_trans [OF gd2] show ?thesis by blast
          next
            case False
            then show ?thesis using run Inr None created Inl conflict gd2
              by (auto simp: GetOrCreateConversation_def Let_def split: sum.splits option.splits)
          qed
        qed
      next
        case (Inr ids)
        obtain convID turnID where ids: "ids = (convID, turnID)" by (cases ids)
        have d': "d' = ?d2"
          using run \<open>?look = Inr found\<close> None created Inr ids by (auto simp: GetOrCreateConversation_def Let_def split: sum.splits)
        have key: "(convID, Some (gp_RootPostID p), gp_BotID p, gp_UserID p, 0) \<in> thread_key ` set (db_conversations ?d2)"
          and turn: "user_turn_in turnID convID (gp_UserPostID p) ?d2"
          using cr g2 user_turn_grows [OF g2] by (auto simp: Inr ids create_params_def grows_def)
        show ?thesis
        proof (cases "GetConversation (we_io w 3 0) convID ?d2")
          case (Inl e)
          then show ?thesis using run \<open>?look = Inr found\<close> None created Inr ids gd2
            by (auto simp: GetOrCreateConversation_def Let_def)
        next
          case (Inr c)
          note g = GetConversation_Inr [OF Inr]
          have r: "r = Inr \<lparr>gr_Conversation = c, gr_IsNew = True, gr_UserTurnID = turnID\<rparr>"
            using run \<open>?look = Inr found\<close> None created \<open>res = Inr ids\<close> ids Inr by (auto simp: GetOrCreateConversation_def Let_def)
          obtain c' where c': "c' \<in> set (db_conversations ?d2)"
            "thread_key c' = (convID, Some (gp_RootPostID p), gp_BotID p, gp_UserID p, 0)" using key by auto
          have "inj_on cv_ID (set (db_conversations ?d2))"
            using ok2 by (simp add: db_ok_def conversations_ok_def distinct_map)
          moreover have "cv_ID c' = cv_ID c" using c'(2) g by (simp add: thread_key_def)
          ultimately have "c' = c" using c'(1) g by (auto dest: inj_onD)
          then have th: "thread_conversation (gp_RootPostID p) (gp_BotID p) (gp_UserID p) c"
            using c'(2) by (simp add: thread_key_def thread_conversation_def)
          have "continued p \<lparr>gr_Conversation = c, gr_IsNew = True, gr_UserTurnID = turnID\<rparr> ?d2"
            by (rule continuedI [OF ok2]) (use g th turn in auto)
          then show ?thesis using gd2 by (simp add: r d')
        qed
      qed
    qed
  qed
qed

text \<open>
  C23: whatever conversations and turns other requests add meanwhile, a request that continues a
  thread gets the only live conversation of that thread, agent and user, and its user turn is stored
  there.
\<close>

theorem GetOrCreate_one_conversation:
  assumes "cooperative w" "db_ok d" "GetOrCreateConversation env w files p d = (Inr r, d')"
  shows "db_ok d' \<and> continued p r d'"
  using GetOrCreate_continued [OF assms] assms(2) by (simp add: grows_def)

definition example_params :: GetOrCreateParams where
  "example_params = \<lparr>gp_UserID = ''u'', gp_SessionID = [], gp_BotID = ''b'', gp_ChannelID = ''ch'', gp_RootPostID = ''root'',
     gp_Operation = ''conversation'', gp_SystemPrompt = [], gp_UserMessage = ''hi'', gp_UserPostID = Some ''root'',
     gp_FileIDs = []\<rparr>"

abbreviation empty_db :: db where
  "empty_db \<equiv> \<lparr>db_turns = [], db_conversations = []\<rparr>"

lemma GetOrCreate_one_conversation_witness:
  "case GetOrCreateConversation example_json example_writes (\<lambda>_. None) example_params empty_db of
     (Inr r, d') \<Rightarrow> gr_IsNew r \<and> db_ok d' \<and> continued example_params r d' | (Inl _, _) \<Rightarrow> False"
proof -
  let ?run = "GetOrCreateConversation example_json example_writes (\<lambda>_. None) example_params empty_db"
  have "case fst ?run of Inr r \<Rightarrow> gr_IsNew r | Inl _ \<Rightarrow> False" by code_simp
  then obtain r where r: "fst ?run = Inr r" "gr_IsNew r" by (cases "fst ?run") auto
  have eq: "?run = (Inr r, snd ?run)" using r(1) by (simp add: prod_eq_iff)
  have "cooperative example_writes" by (simp add: cooperative_def example_writes_def)
  moreover have "db_ok empty_db" by (simp add: db_ok_def turns_ok_def conversations_ok_def distinct_threads_def)
  ultimately have "db_ok (snd ?run) \<and> continued example_params r (snd ?run)"
    using eq by (rule GetOrCreate_one_conversation)
  then show ?thesis using r(2) by (subst eq) simp
qed

text \<open>
  The other half of the race: a request that finds the conversation before its creator has stored the
  first user turn takes position 1, and the creator, which asks for that position explicitly, fails
  after its conversation was created.
\<close>

definition racing_writes :: write_env where
  "racing_writes = example_writes\<lparr>we_others := \<lambda>k _ d. if k = 2
     then snd (CreateTurnAutoSequence (\<lambda>_. IoOk) (\<lambda>_. id) (new_turn ''other'' ''x'' (Some ''p2'') ''user'' (JArr []) 7) d)
     else d\<rparr>"

lemma first_user_turn_lost:
  "case GetOrCreateConversation example_json racing_writes (\<lambda>_. None) example_params empty_db of
     (Inl e, d') \<Rightarrow> errors_Is e unique_violation \<and> map tn_ID (db_turns d') = [''other'']
        \<and> map cv_ID (db_conversations d') = [''x'']
   | (Inr _, _) \<Rightarrow> False"
  by code_simp

section \<open>Regenerating a response\<close>

lemma sorted_last: "sorted xs \<Longrightarrow> x \<in> set xs \<Longrightarrow> x \<le> last xs"
  by (induction xs) auto

lemma last_index_max: "last_index P xs = Some i \<Longrightarrow> k < length xs \<Longrightarrow> P (xs ! k) \<Longrightarrow> k \<le> i"
  using sorted_last [of "filter (\<lambda>i. P (xs ! i)) [0..<length xs]" k]
  by (auto simp: last_index_def sorted_wrt_filter split: list.splits)

lemma find_index_SomeI:
  "k < length xs \<Longrightarrow> P (xs ! k) \<Longrightarrow> (\<forall>m < k. \<not> P (xs ! m)) \<Longrightarrow> find_index P xs = Some k"
proof (induction xs arbitrary: k)
  case (Cons x xs)
  show ?case
  proof (cases k)
    case (Suc m)
    have "\<not> P x" using Cons.prems(3) Suc by force
    moreover have "find_index P xs = Some m"
      by (rule Cons.IH) (use Cons.prems Suc in force)+
    ultimately show ?thesis using Suc by simp
  qed (use Cons.prems in simp)
qed simp

lemma take_filter_le:
  fixes f :: "'a \<Rightarrow> int"
  assumes "sorted_wrt (\<lambda>x y. f x < f y) xs" "j < length xs"
  shows "take (Suc j) xs = filter (\<lambda>t. f t \<le> f (xs ! j)) xs"
proof -
  have le: "f t \<le> f (xs ! j)" if "t \<in> set (take (Suc j) xs)" for t
  proof -
    obtain m where m: "m < Suc j" "t = xs ! m" using \<open>t \<in> _\<close> assms(2) by (auto simp: in_set_conv_nth)
    have "f (xs ! m) < f (xs ! j)" if "m < j" using sorted_wrt_nth_less [OF assms(1) that assms(2)] .
    then show ?thesis using m by (cases "m = j") auto
  qed
  have gt: "f (xs ! j) < f t" if t: "t \<in> set (drop (Suc j) xs)" for t
  proof -
    obtain m where "m < length (drop (Suc j) xs)" "drop (Suc j) xs ! m = t" using t by (auto simp: in_set_conv_nth)
    then have "Suc j + m < length xs" "xs ! (Suc j + m) = t" using assms(2) by auto
    then show ?thesis using sorted_wrt_nth_less [OF assms(1), of j "Suc j + m"] by simp
  qed
  have "filter (\<lambda>t. f t \<le> f (xs ! j)) (take (Suc j) xs) = take (Suc j) xs" using le by (simp add: filter_id_conv)
  moreover have "filter (\<lambda>t. f t \<le> f (xs ! j)) (drop (Suc j) xs) = []"
    using gt by (auto simp: filter_empty_conv not_le)
  ultimately show ?thesis by (metis append_Nil2 append_take_drop_id filter_append)
qed

lemma sorted_turns:
  assumes "db_ok d"
  shows "sorted_wrt (\<lambda>x y. tn_Sequence x < tn_Sequence y) (sort_key tn_Sequence (turns_of convID d))"
proof -
  let ?ts = "sort_key tn_Sequence (turns_of convID d)"
  have "distinct (map turn_key (db_turns d))" using assms by (simp add: db_ok_def turns_ok_def)
  then have "distinct (map tn_Sequence (turns_of convID d))"
    by (auto simp: turns_of_def distinct_map inj_on_def)
  then have "distinct (map tn_Sequence ?ts)" by (simp add: distinct_map)
  moreover have "sorted (map tn_Sequence ?ts)" by simp
  ultimately have "sorted_wrt (<) (map tn_Sequence ?ts)" by (simp add: strict_sorted_iff)
  then show ?thesis by (simp add: sorted_wrt_map)
qed

lemma in_set_list:
  assumes "x \<in> set xs"
  obtains v vs where "xs = v # vs"
  using assms by (cases xs) auto

text \<open>The sequence of the last user turn before a position, read off the sorted turns.\<close>

lemma user_sequence_nth:
  assumes "db_ok d" "ts = sort_key tn_Sequence (turns_of convID d)"
    and "i < length ts" "last_index (\<lambda>t. tn_Role t = ''user'') (take i ts) = Some j"
  shows "user_sequence_before convID (tn_Sequence (ts ! i)) d = tn_Sequence (ts ! j)"
proof (rule antisym)
  have sorted: "sorted_wrt (\<lambda>x y. tn_Sequence x < tn_Sequence y) ts" using sorted_turns [OF assms(1)] assms(2) by simp
  have mem: "set ts = set (turns_of convID d)" by (simp add: assms(2))
  have j: "j < i" "tn_Role (ts ! j) = ''user''" using last_index_SomeD [OF assms(4)] by auto
  have less: "tn_Sequence (ts ! j) < tn_Sequence (ts ! i)" using sorted_wrt_nth_less [OF sorted j(1) assms(3)] .
  have tj: "ts ! j \<in> set (turns_of convID d)" using j(1) assms(3) mem by (metis less_trans nth_mem)
  show "tn_Sequence (ts ! j) \<le> user_sequence_before convID (tn_Sequence (ts ! i)) d"
    using user_sequence_upper [OF tj j(2) less] .
  let ?xs = "filter (\<lambda>t. tn_Role t = ''user'' \<and> tn_Sequence t < tn_Sequence (ts ! i)) (turns_of convID d)"
  have "ts ! j \<in> set ?xs" using tj j(2) less by simp
  then obtain v vs where "?xs = v # vs" by (rule in_set_list)
  then obtain s ss where ss: "map tn_Sequence ?xs = s # ss" by simp
  have "user_sequence_before convID (tn_Sequence (ts ! i)) d \<in> set (map tn_Sequence ?xs)"
    using fold_max_in [of ss s] unfolding user_sequence_before_def ss by simp
  then obtain u where u: "u \<in> set ?xs" "user_sequence_before convID (tn_Sequence (ts ! i)) d = tn_Sequence u" by auto
  then have "u \<in> set ts" "tn_Role u = ''user''" "tn_Sequence u < tn_Sequence (ts ! i)" using mem by auto
  then obtain m where m: "m < length ts" "ts ! m = u" by (auto simp: in_set_conv_nth)
  have "m < i"
  proof (rule ccontr)
    assume "\<not> m < i"
    then have "m = i \<or> i < m" by auto
    then show False using sorted_wrt_nth_less [OF sorted _ m(1), of i] m(2) \<open>tn_Sequence u < _\<close> by auto
  qed
  then have "m \<le> j" using last_index_max [OF assms(4), of m] m \<open>tn_Role u = _\<close> by simp
  then have "tn_Sequence u \<le> tn_Sequence (ts ! j)"
    using sorted_wrt_nth_less [OF sorted, of m j] j(1) assms(3) m(2) by (cases "m = j") auto
  then show "user_sequence_before convID (tn_Sequence (ts ! i)) d \<le> tn_Sequence (ts ! j)" using u(2) by simp
qed

lemma unique_index:
  assumes "length (filter P xs) = 1" "i < length xs" "P (xs ! i)" "m < length xs" "P (xs ! m)"
  shows "m = i"
proof (rule ccontr)
  assume "m \<noteq> i"
  then have "card {i, m} = 2" by simp
  moreover have "{i, m} \<subseteq> {k. k < length xs \<and> P (xs ! k)}" using assms by auto
  ultimately have "2 \<le> length (filter P xs)"
    using card_mono [of "{k. k < length xs \<and> P (xs ! k)}" "{i, m}"] by (simp add: length_filter_conv_card)
  then show False using assms(1) by simp
qed



section \<open>Titles are not overwritten\<close>

lemma SetConversationTitleIfUnset_keeps:
  assumes "c \<in> set (db_conversations d)" "cv_Title c \<noteq> []"
  shows "c \<in> set (db_conversations (snd (SetConversationTitleIfUnset io cid title d)))"
  using assms by (force simp: SetConversationTitleIfUnset_def run_sql_def update_conversations_def split: io.splits)

lemma GenerateTitle_keeps_titles:
  assumes "we_others w 0 0 = id" "we_others w 1 0 = id" "c \<in> set (db_conversations d)" "cv_Title c \<noteq> []"
  shows "c \<in> set (db_conversations (snd (snd (GenerateTitle w cid complete userMessage context d))))"
  using SetConversationTitleIfUnset_keeps [OF assms(3,4), of "we_io w 1 0" cid] assms(1-3)
  by (auto simp: GenerateTitle_def Let_def split: sum.splits prod.splits) (metis snd_conv)+

section \<open>The turn that started a run\<close>

lemma initiating_turn_sound:
  assumes "initiating_turn env postID turns = Some t"
  shows "t \<in> set turns \<and> tn_Role t = ''user'' \<and> \<not> isSyntheticUserTurn env t
    \<and> list_ex (\<lambda>a. is_anchor postID a \<and> tn_Sequence t < tn_Sequence a) turns"
  using assms by (auto simp: initiating_turn_def list_ex_iff dest!: find_pred_set split: option.splits if_splits)

end
