(* ===== verification/Turn_Policy.thy ===== *)
theory Turn_Policy
  imports Conversation_Service Access Mcp_Policy Runner_Properties
begin

text \<open>
  Whether a turn may run and how (\<open>src/conversations/turn_policy.go\<close>,
  \<open>src/conversations/bot_channel_tool_filter.go\<close>), and which handler a new post reaches
  (\<open>src/conversations/handle_messages.go\<close>).

  A \<open>conversations_env\<close> is what the \<open>Conversations\<close> service was built with: the access checker, the
  license level (absent for a nil checker), the two switches of the configuration (absent for a nil
  provider), the tool policy checker and the Mattermost client. \<open>cn_StatusCode\<close> reads the HTTP status
  of the application error an error chain holds. \<open>cn_io\<close> are the failures of the database reads. A
  prop of a post is the JSON value stored under its name; \<open>GetProp\<close> of a missing name and of null is
  nil. A conversation in hand came from the conversation service, so that service is not nil then.
\<close>

section \<open>Posts and users\<close>

record MMPost =
  mp_Id :: string
  mp_ChannelId :: string
  mp_UserId :: string
  mp_RootId :: string
  mp_RemoteId :: "string option"
  mp_Type :: string
  mp_Message :: string
  mp_Props :: "json gomap"
  mp_FileIds :: "string list"

record Account = User +
  u_IsBot :: bool

record Bot =
  bot_UserId :: string
  bot_Config :: BotConfig
  bot_NativeWebSearch :: bool

definition GetProp :: "MMPost \<Rightarrow> string \<Rightarrow> json option" where
  "GetProp post key = (case map_of (mp_Props post) key of Some JNull \<Rightarrow> None | r \<Rightarrow> r)"

text \<open>\<open>s, _ := post.GetProp(key).(string)\<close>\<close>

definition string_prop :: "MMPost \<Rightarrow> string \<Rightarrow> string" where
  "string_prop post key = (case GetProp post key of Some (JStr s) \<Rightarrow> s | _ \<Rightarrow> [])"

definition ActivateAIProp :: string where "ActivateAIProp = ''activate_ai''"
definition FromWebhookProp :: string where "FromWebhookProp = ''from_webhook''"
definition FromBotProp :: string where "FromBotProp = ''from_bot''"
definition FromPluginProp :: string where "FromPluginProp = ''from_plugin''"
definition FromOAuthAppProp :: string where "FromOAuthAppProp = ''from_oauth_app''"
definition WranglerProp :: string where "WranglerProp = ''wrangler''"
definition ThreadIDProp :: string where "ThreadIDProp = ''referenced_thread''"
definition AnalysisTypeProp :: string where "AnalysisTypeProp = ''prompt_type''"
definition AnalyzedChannelIDProp :: string where "AnalyzedChannelIDProp = ''analyzed_channel_id''"

definition isAutomatedInvoker :: "MMPost option \<Rightarrow> Account option \<Rightarrow> bool" where
  "isAutomatedInvoker post postingUser \<longleftrightarrow>
     (if (case postingUser of None \<Rightarrow> False | Some u \<Rightarrow> u_IsBot u) then True
      else case post of None \<Rightarrow> False
      | Some p \<Rightarrow> list_ex (\<lambda>prop. GetProp p prop \<noteq> None)
          [FromWebhookProp, FromPluginProp, FromBotProp, FromOAuthAppProp])"

definition isBotActivateAI :: "MMPost option \<Rightarrow> Account option \<Rightarrow> bool" where
  "isBotActivateAI post postingUser \<longleftrightarrow>
     (case post of None \<Rightarrow> False
      | Some p \<Rightarrow>
          if GetProp p ActivateAIProp = None then False
          else if (case postingUser of None \<Rightarrow> False | Some u \<Rightarrow> u_IsBot u) then True
          else GetProp p FromBotProp \<noteq> None)"

definition ChannelTypeDirect :: string where "ChannelTypeDirect = ''D''"

definition IsDMWith :: "string \<Rightarrow> Channel \<Rightarrow> bool" where
  "IsDMWith userID channel \<longleftrightarrow> ch_Type channel = ChannelTypeDirect \<and> userID \<noteq> [] \<and> Contains (ch_Name channel) userID"

record conversations_env =
  cn_access :: access_env
  cn_Level :: "Level option"
  cn_config :: "(bool \<times> bool) option"
  cn_GetToolPolicy :: "string \<Rightarrow> string \<Rightarrow> string \<times> bool"
  cn_GetPost :: "string \<Rightarrow> MMPost result"
  cn_GetUser :: "string \<Rightarrow> Account result"
  cn_GetChannel :: "string \<Rightarrow> Channel result"
  cn_CanReadChannel :: "string \<Rightarrow> string \<Rightarrow> bool"
  cn_StatusCode :: "go_error \<Rightarrow> int option"
  cn_hasService :: bool
  cn_json :: json_env
  cn_io :: "nat \<Rightarrow> io"

text \<open>The checker the plugin installs (\<open>mcp.NewConfigToolPolicyChecker\<close>).\<close>

definition NewConfigToolPolicyChecker ::
  "(string \<Rightarrow> string option) \<Rightarrow> MCPConfig \<Rightarrow> Level option \<Rightarrow> string \<Rightarrow> string \<Rightarrow> string \<times> bool" where
  "NewConfigToolPolicyChecker hostOf cfg level serverBaseURL toolName =
     LookupEffectiveToolPolicy hostOf cfg serverBaseURL toolName (Allows level CapToolApprovalPolicies)"

definition ErrNotFound :: go_error where
  "ErrNotFound = Sentinel ''pluginapi.ErrNotFound'' ''not found''"

definition IsNotFound :: "conversations_env \<Rightarrow> go_error \<Rightarrow> bool" where
  "IsNotFound env err \<longleftrightarrow> errors_Is err ErrNotFound \<or> cn_StatusCode env err = Some 404"

definition ErrAnalysisSourceUnavailable :: go_error where
  "ErrAnalysisSourceUnavailable = Sentinel ''conversations.ErrAnalysisSourceUnavailable''
     ''the analyzed content is no longer available to the requester''"

definition ErrToolCallingDisabled :: go_error where
  "ErrToolCallingDisabled = Sentinel ''conversations.ErrToolCallingDisabled''
     ''tool calling is disabled for this conversation''"

definition ErrRemoteMCPNotLicensed :: go_error where
  "ErrRemoteMCPNotLicensed = Sentinel ''conversations.ErrRemoteMCPNotLicensed''
     ''tools from remote MCP servers are available at Enterprise and above''"

definition channelMentionToolCallingEnabled :: "conversations_env \<Rightarrow> bool" where
  "channelMentionToolCallingEnabled env \<longleftrightarrow> (case cn_config env of None \<Rightarrow> False | Some (tools, _) \<Rightarrow> tools)"

section \<open>Requests and policies\<close>

record turnRequest =
  rq_bot :: "Bot option"
  rq_user :: "Account option"
  rq_channel :: "Channel option"
  rq_conv :: "Conversation option"
  rq_trigger :: "MMPost option"
  rq_post :: "MMPost option"

record turnPolicy =
  tp_bot :: Bot
  tp_user :: Account
  tp_channel :: Channel
  tp_conv :: "Conversation option"
  tp_trigger :: "MMPost option"
  tp_post :: "MMPost option"
  tp_isDM :: bool
  tp_toolsEnabled :: bool
  tp_interactive :: bool
  tp_autoEverywhereOnly :: bool

section \<open>Analyzed content\<close>

definition OperationConversation :: string where "OperationConversation = ''conversation''"
definition OperationThreadAnalysis :: string where "OperationThreadAnalysis = ''thread_analysis''"
definition OperationChannelSummary :: string where "OperationChannelSummary = ''channel_summary''"
definition OperationChannelInterval :: string where "OperationChannelInterval = ''channel_interval''"

definition isAnalysisOperation :: "string \<Rightarrow> bool" where
  "isAnalysisOperation operation \<longleftrightarrow>
     operation = OperationThreadAnalysis \<or> operation = OperationChannelSummary \<or> operation = OperationChannelInterval"

definition isAnalysisPost :: "MMPost option \<Rightarrow> bool" where
  "isAnalysisPost post \<longleftrightarrow>
     (case post of None \<Rightarrow> False
      | Some p \<Rightarrow> string_prop p ThreadIDProp \<noteq> [] \<or> GetProp p AnalysisTypeProp \<noteq> None
          \<or> GetProp p AnalyzedChannelIDProp \<noteq> None)"

definition turnThreadRootID :: "turnRequest \<Rightarrow> string" where
  "turnThreadRootID req =
     (case rq_trigger req of
        Some trigger \<Rightarrow> mp_RootId trigger
      | None \<Rightarrow>
          (case Option.bind (rq_conv req) cv_RootPostID of
             Some root \<Rightarrow> root
           | None \<Rightarrow> (case rq_post req of Some post \<Rightarrow> mp_RootId post | None \<Rightarrow> [])))"

definition getSourcePost :: "conversations_env \<Rightarrow> string \<Rightarrow> MMPost result" where
  "getSourcePost env postID =
     (case cn_GetPost env postID of
        Inl err \<Rightarrow>
          (if IsNotFound env err
           then Inl (ErrorWrap (errText ErrAnalysisSourceUnavailable @ '': '' @ errText err)
                       [ErrAnalysisSourceUnavailable, err])
           else Inl err)
      | Inr post \<Rightarrow> Inr post)"

definition checkSourceChannel :: "conversations_env \<Rightarrow> string \<Rightarrow> string \<Rightarrow> go_error option" where
  "checkSourceChannel env userID channelID =
     (if \<not> cn_CanReadChannel env userID channelID then Some ErrAnalysisSourceUnavailable else None)"

definition turnAnalysisPost :: "conversations_env \<Rightarrow> turnRequest \<Rightarrow> Channel \<Rightarrow> MMPost option result" where
  "turnAnalysisPost env req channel =
     (if (case rq_conv req of None \<Rightarrow> False | Some conv \<Rightarrow> isAnalysisOperation (cv_Operation conv)) then
        (case Option.bind (rq_conv req) cv_RootPostID of
           None \<Rightarrow> Inl (wrapf ''analysis conversation has no analysis post'' ErrAnalysisSourceUnavailable)
         | Some root \<Rightarrow>
             if root = [] then Inl (wrapf ''analysis conversation has no analysis post'' ErrAnalysisSourceUnavailable)
             else if map_option mp_Id (rq_post req) = Some root then Inr (rq_post req)
             else (case getSourcePost env root of
                     Inl err \<Rightarrow> Inl (wrapf ''failed to get analysis post'' err)
                   | Inr post \<Rightarrow> Inr (Some post)))
      else if rq_conv req = None \<and> isAnalysisPost (rq_post req) then Inr (rq_post req)
      else
        (let rootID = turnThreadRootID req in
         if rootID = [] \<or> ch_Type channel \<noteq> ChannelTypeDirect then Inr None
         else case getSourcePost env rootID of
                Inl err \<Rightarrow> Inl (wrapf ''failed to get thread root'' err)
              | Inr root \<Rightarrow> Inr (if \<not> isAnalysisPost (Some root) then None else Some root)))"

definition checkAnalysisSource :: "conversations_env \<Rightarrow> turnRequest \<Rightarrow> Account \<Rightarrow> Channel \<Rightarrow> go_error option" where
  "checkAnalysisSource env req user channel =
     (case turnAnalysisPost env req channel of
        Inl err \<Rightarrow> Some err
      | Inr None \<Rightarrow> None
      | Inr (Some analysisPost) \<Rightarrow>
          (let threadID = string_prop analysisPost ThreadIDProp;
               channelID = string_prop analysisPost AnalyzedChannelIDProp
           in if threadID \<noteq> [] then
                (case getSourcePost env threadID of
                   Inl err \<Rightarrow> Some (wrapf ''failed to get analyzed thread'' err)
                 | Inr threadPost \<Rightarrow> checkSourceChannel env (u_Id user) (mp_ChannelId threadPost))
              else if channelID \<noteq> [] then checkSourceChannel env (u_Id user) channelID
              else Some (wrapf ''analysis post records no analyzed thread or channel'' ErrAnalysisSourceUnavailable)))"

section \<open>Resolving a turn\<close>

definition turn_gate :: "conversations_env \<Rightarrow> bool \<Rightarrow> Bot \<Rightarrow> Account \<Rightarrow> Channel \<Rightarrow> go_error option" where
  "turn_gate env isDM agent user channel =
     (if isDM then CheckUsageRestrictionsForUserConfig (cn_access env) (bot_Config agent) (u_Id user)
      else case CheckUsageRestrictions (cn_access env) (u_Id user) (bot_Config agent) channel of
             Some err \<Rightarrow> Some err
           | None \<Rightarrow> map_option (\<lambda>e. denial_error (DeniedCapability e)) (Check (cn_Level env) CapMultiplayerChannels))"

text \<open>The conversation a thread reply continues, looked up for a new turn in a DM thread.\<close>

definition thread_conv :: "conversations_env \<Rightarrow> db \<Rightarrow> bool \<Rightarrow> Bot \<Rightarrow> Account \<Rightarrow> turnRequest \<Rightarrow> Conversation option result" where
  "thread_conv env d isDM agent user req =
     (case rq_trigger req of
        Some trigger \<Rightarrow>
          (if rq_conv req = None \<and> isDM \<and> mp_RootId trigger \<noteq> [] then
             (if \<not> cn_hasService env then Inl (ErrorNew ''conversation service not configured'')
              else case GetConversationByThread (cn_io env 0) (mp_RootId trigger) (bot_UserId agent) (u_Id user) d of
                     Inl err \<Rightarrow> Inl (wrapf ''failed to look up thread conversation'' err)
                   | Inr conv \<Rightarrow> Inr conv)
           else Inr (rq_conv req))
      | None \<Rightarrow> Inr (rq_conv req))"

definition runInitiator ::
  "conversations_env \<Rightarrow> db \<Rightarrow> Conversation option \<Rightarrow> MMPost option \<Rightarrow> (MMPost \<times> Account) option result" where
  "runInitiator env d conv post =
     (case (conv, post) of
        (Some conv, Some post) \<Rightarrow>
          (case GetInitiatingUserTurn (cn_json env) (cn_io env 1) (cv_ID conv) (mp_Id post) d of
             Inl err \<Rightarrow> Inl (wrapf ''failed to look up the run's initiating turn'' err)
           | Inr turn \<Rightarrow>
               (case Option.bind turn tn_PostID of
                  None \<Rightarrow> Inr None
                | Some postID \<Rightarrow>
                    (case cn_GetPost env postID of
                       Inl err \<Rightarrow>
                         (if IsNotFound env err then Inr None
                          else Inl (wrapf ''failed to get the run's initiating post'' err))
                     | Inr initiator \<Rightarrow>
                         (case cn_GetUser env (mp_UserId initiator) of
                            Inl err \<Rightarrow> Inl (wrapf ''failed to get the run's initiating user'' err)
                          | Inr initiatingUser \<Rightarrow> Inr (Some (initiator, initiatingUser))))))
      | _ \<Rightarrow> Inr None)"

text \<open>\<open>setChannelRunTools\<close>: tools enabled, limited to unattended ones, requester present.\<close>

definition setChannelRunTools :: "conversations_env \<Rightarrow> (MMPost \<times> Account) option \<Rightarrow> bool \<times> bool \<times> bool" where
  "setChannelRunTools env initiator =
     (let configEnabled = channelMentionToolCallingEnabled env in
      case initiator of
        None \<Rightarrow> (configEnabled, configEnabled, False)
      | Some (post, user) \<Rightarrow>
          if isBotActivateAI (Some post) (Some user) then (configEnabled, configEnabled, False)
          else if isAutomatedInvoker (Some post) (Some user) then (False, False, False)
          else (configEnabled, False, True))"

definition run_tools :: "conversations_env \<Rightarrow> bool \<Rightarrow> (MMPost \<times> Account) option \<Rightarrow> bool \<times> bool \<times> bool" where
  "run_tools env isDM initiator =
     (if isDM then (True, False,
        case initiator of None \<Rightarrow> False | Some (post, user) \<Rightarrow> \<not> isAutomatedInvoker (Some post) (Some user))
      else setChannelRunTools env initiator)"

text \<open>The initiator is the trigger and the requester for a new turn, else the recorded one.\<close>

definition turn_initiator ::
  "conversations_env \<Rightarrow> db \<Rightarrow> turnRequest \<Rightarrow> Account \<Rightarrow> (MMPost \<times> Account) option result" where
  "turn_initiator env d req user =
     (case rq_trigger req of
        Some trigger \<Rightarrow> Inr (Some (trigger, user))
      | None \<Rightarrow> runInitiator env d (rq_conv req) (rq_post req))"

definition resolveTurnPolicy :: "conversations_env \<Rightarrow> db \<Rightarrow> turnRequest \<Rightarrow> turnPolicy result" where
  "resolveTurnPolicy env d req =
     (case (rq_bot req, rq_user req, rq_channel req) of
        (Some agent, Some user, Some channel) \<Rightarrow>
          (let isDM = IsDMWith (bot_UserId agent) channel
           in case turn_gate env isDM agent user channel of
                Some err \<Rightarrow> Inl err
              | None \<Rightarrow>
                  bindR (thread_conv env d isDM agent user req) (\<lambda>conv.
                    let req' = req\<lparr>rq_conv := conv\<rparr>
                    in case checkAnalysisSource env req' user channel of
                         Some err \<Rightarrow> Inl err
                       | None \<Rightarrow>
                           bindR (turn_initiator env d req' user) (\<lambda>initiator.
                             let (toolsEnabled, autoEverywhereOnly, interactive) = run_tools env isDM initiator
                             in Inr \<lparr>tp_bot = agent, tp_user = user, tp_channel = channel, tp_conv = conv,
                                  tp_trigger = rq_trigger req, tp_post = rq_post req, tp_isDM = isDM,
                                  tp_toolsEnabled = toolsEnabled, tp_interactive = interactive,
                                  tp_autoEverywhereOnly = autoEverywhereOnly\<rparr>)))
      | _ \<Rightarrow> Inl (ErrorNew ''turn is missing its agent, requester, or channel''))"

section \<open>Tools of a turn\<close>

definition isAutoExecuteBuiltIn :: "Tool \<Rightarrow> bool" where
  "isAutoExecuteBuiltIn tool \<longleftrightarrow> tool_AutoExecute tool \<and> tool_ServerOrigin tool = []"

definition isMCPMetaToolCall :: "ToolCall \<Rightarrow> Context option \<Rightarrow> bool" where
  "isMCPMetaToolCall tc llmCtx \<longleftrightarrow>
     (if \<not> IsMCPMetaTool (tc_Name tc) \<or> tc_ServerOrigin tc \<noteq> [] then False
      else case Option.bind llmCtx ctx_Tools of
             None \<Rightarrow> True
           | Some store \<Rightarrow> GetServerOrigin (Some store) (tc_Name tc) = [])"

definition remoteMCPDecisionAllowed :: "conversations_env \<Rightarrow> string \<Rightarrow> go_error option" where
  "remoteMCPDecisionAllowed env serverOrigin =
     (if IsRemoteServerOrigin serverOrigin \<and> \<not> Allows (cn_Level env) CapRemoteMCP
      then Some ErrRemoteMCPNotLicensed else None)"

definition autoExecute :: "conversations_env \<Rightarrow> turnPolicy \<Rightarrow> Context option \<Rightarrow> ToolCall \<Rightarrow> bool" where
  "autoExecute env p llmCtx tc \<longleftrightarrow>
     (if \<not> tp_toolsEnabled p then False
      else if isMCPMetaToolCall tc llmCtx then True
      else case LookupTool (Option.bind llmCtx ctx_Tools) (tc_Name tc) (tc_ServerOrigin tc) of
             None \<Rightarrow> False
           | Some l \<Rightarrow>
               if remoteMCPDecisionAllowed env (tl_ServerOrigin l) \<noteq> None then False
               else if isAutoExecuteBuiltIn (tl_Tool l) then True
               else (let (policy, enabled) = cn_GetToolPolicy env (tl_ServerOrigin l) (tl_BareName l)
                     in if \<not> enabled then False
                        else if tp_isDM p then IsToolPolicyAutoRunInDM policy
                        else IsToolPolicyAutoRunEverywhere policy))"

definition botChannelAutoEverywhereKeepTool :: "(string \<Rightarrow> string \<Rightarrow> string \<times> bool) \<Rightarrow> Tool \<Rightarrow> bool" where
  "botChannelAutoEverywhereKeepTool checker tool \<longleftrightarrow>
     (if IsMCPMetaTool (tool_Name tool) \<or> isAutoExecuteBuiltIn tool then True
      else if tool_ServerOrigin tool = [] then False
      else (let (policy, enabled) = checker (tool_ServerOrigin tool) (BareMCPToolName (tool_Name tool))
            in IsToolPolicyAutoRunEverywhere policy \<and> enabled))"

definition applyBotChannelAutoEverywhereToolFilter :: "conversations_env \<Rightarrow> Context \<Rightarrow> Context" where
  "applyBotChannelAutoEverywhereToolFilter env c =
     c\<lparr>ctx_Tools := map_option (KeepToolsIf (botChannelAutoEverywhereKeepTool (cn_GetToolPolicy env))) (ctx_Tools c)\<rparr>"

text \<open>
  The end of \<open>buildContext\<close>: what happens to the tools of the context the builder returned, and the
  skill settings it adds skills under.
\<close>

definition limit_tools :: "conversations_env \<Rightarrow> turnPolicy \<Rightarrow> Context \<Rightarrow> Context" where
  "limit_tools env p c =
     (if \<not> tp_toolsEnabled p \<and> \<not> tp_isDM p \<and> channelMentionToolCallingEnabled env
      then c\<lparr>ctx_Tools := map_option (KeepToolsIf (\<lambda>_. False)) (ctx_Tools c)\<rparr>
      else if \<not> tp_toolsEnabled p then DisableTools (GetToolsInfo (ctx_Tools c)) c
      else if tp_autoEverywhereOnly p then applyBotChannelAutoEverywhereToolFilter env c
      else c)"

definition turn_skills :: "turnPolicy \<Rightarrow> SkillsConfig" where
  "turn_skills p = (let cfg = bc_Skills (bot_Config (tp_bot p)) in
     if \<not> tp_interactive p then cfg\<lparr>sk_AllowPersonal := False, sk_EnabledSharedIDs := []\<rparr> else cfg)"

definition offers_skills :: "turnPolicy \<Rightarrow> bool" where
  "offers_skills p \<longleftrightarrow> (case tp_conv p of None \<Rightarrow> True | Some c \<Rightarrow> cv_Operation c = OperationConversation)"

text \<open>Two more of the runner's options, by number.\<close>

definition WithNativeWebSearchAllowed :: lm_option where "WithNativeWebSearchAllowed = OtherOption 1"
definition WithSkipNativeWebSearch :: lm_option where "WithSkipNativeWebSearch = OtherOption 2"

definition toolsDisabledLLMOptions :: "conversations_env \<Rightarrow> Bot \<Rightarrow> bool \<Rightarrow> lm_option list" where
  "toolsDisabledLLMOptions env agent toolsDisabled =
     (if \<not> toolsDisabled then []
      else WithToolsDisabled #
        (if (case cn_config env of None \<Rightarrow> False | Some (_, nativeSearch) \<Rightarrow> nativeSearch)
            \<and> bot_NativeWebSearch agent \<and> Allows (cn_Level env) CapProviderWebSearch
         then [WithNativeWebSearchAllowed] else []))"

definition withProviderWebSearchLicense :: "conversations_env \<Rightarrow> lm_option list \<Rightarrow> lm_option list" where
  "withProviderWebSearchLicense env opts =
     (if Allows (cn_Level env) CapProviderWebSearch then opts else WithSkipNativeWebSearch # opts)"

definition sharedForTurns :: "conversations_env \<Rightarrow> turnPolicy \<Rightarrow> ToolTurn list \<Rightarrow> Context option \<Rightarrow> bool" where
  "sharedForTurns env p turns llmCtx \<longleftrightarrow>
     (if tp_isDM p then True
      else list_all (autoExecute env p llmCtx) (concat (map tt_AssistantToolCalls turns))
        \<and> concat (map tt_AssistantToolCalls turns) \<noteq> [])"

text \<open>
  \<open>runToolLoop\<close>: the runner with the turn's policy as its approval callback. The rounds it delivers,
  at most once, are persisted with the context of that moment, which the steps after it leave alone.
\<close>

definition policy_runner :: "conversations_env \<Rightarrow> turnPolicy \<Rightarrow> 'w runner_env \<Rightarrow> 'w runner_env" where
  "policy_runner env p runner =
     runner\<lparr>env_shouldExecute := (\<lambda>llmCtx _ tc. autoExecute env p llmCtx tc), env_hasCallback := True\<rparr>"

definition persist_rounds ::
  "conversations_env \<Rightarrow> turnPolicy \<Rightarrow> write_env \<Rightarrow> string \<Rightarrow> 'w run_state \<Rightarrow> db \<Rightarrow> db" where
  "persist_rounds env p w convID st d =
     fold (\<lambda>turns d. snd (WriteToolTurns (cn_json env) w convID turns (sharedForTurns env p turns (rs_context st)) d))
       (rs_delivered st) d"

definition runToolLoop ::
  "conversations_env \<Rightarrow> 'w runner_env \<Rightarrow> write_env \<Rightarrow> turnPolicy \<Rightarrow> string \<Rightarrow> CompletionRequest \<Rightarrow> 'w \<Rightarrow> db
     \<Rightarrow> (exit \<times> 'w run_state) result \<times> db" where
  "runToolLoop env runner w p convID req world d =
     (case Run (policy_runner env p runner) (WithMaxRounds (EffectiveMaxToolTurns (bot_Config (tp_bot p)))) req
             (withProviderWebSearchLicense env (toolsDisabledLLMOptions env (tp_bot p) (\<not> tp_toolsEnabled p))) world of
        Inl err \<Rightarrow> (Inl err, d)
      | Inr (x, st) \<Rightarrow> (Inr (x, st), persist_rounds env p w convID st d))"

section \<open>Which handler a post reaches\<close>

record bots_env =
  be_bots :: "Bot list"
  be_mentioned :: "string \<Rightarrow> Bot \<Rightarrow> bool"

definition IsAnyBot :: "bots_env \<Rightarrow> string \<Rightarrow> bool" where
  "IsAnyBot be userID \<longleftrightarrow> find (\<lambda>b. bot_UserId b = userID) (be_bots be) \<noteq> None"

definition GetBotForDMChannel :: "bots_env \<Rightarrow> Channel \<Rightarrow> Bot option" where
  "GetBotForDMChannel be channel = find (\<lambda>b. IsDMWith (bot_UserId b) channel) (be_bots be)"

definition GetBotMentioned :: "bots_env \<Rightarrow> string \<Rightarrow> Bot option" where
  "GetBotMentioned be msg = find (be_mentioned be msg) (be_bots be)"

definition ErrNoResponse :: go_error where
  "ErrNoResponse = Sentinel ''conversations.ErrNoResponse'' ''no response''"

datatype route = Refused go_error | Mention Bot Account Channel | DirectMessage Bot Account Channel
  | Unaddressed Account Channel

definition handleMessages :: "conversations_env \<Rightarrow> bots_env \<Rightarrow> MMPost \<Rightarrow> route" where
  "handleMessages env be post =
     (if IsAnyBot be (mp_UserId post) then Refused (wrapf ''not responding to ourselves'' ErrNoResponse)
      else if mp_RemoteId post \<noteq> None \<and> mp_RemoteId post \<noteq> Some []
        then Refused (wrapf ''not responding to remote posts'' ErrNoResponse)
      else if HasPrefix (mp_Type post) ''system_''
        then Refused (wrapf ''not responding to system messages'' ErrNoResponse)
      else if GetProp post WranglerProp \<noteq> None
        then Refused (wrapf ''not responding to wrangler posts'' ErrNoResponse)
      else if GetProp post FromPluginProp \<noteq> None \<and> GetProp post ActivateAIProp = None
        then Refused (wrapf ''not responding to plugin posts'' ErrNoResponse)
      else if GetProp post FromWebhookProp \<noteq> None
        then Refused (wrapf ''not responding to webhook posts'' ErrNoResponse)
      else case cn_GetChannel env (mp_ChannelId post) of
        Inl err \<Rightarrow> Refused (wrapf ''unable to get channel'' err)
      | Inr channel \<Rightarrow>
          (case cn_GetUser env (mp_UserId post) of
             Inl err \<Rightarrow> Refused err
           | Inr postingUser \<Rightarrow>
               if (u_IsBot postingUser \<or> GetProp post FromBotProp \<noteq> None) \<and> GetProp post ActivateAIProp = None
               then Refused (wrapf ''not responding to other bots'' ErrNoResponse)
               else (let dmBot = GetBotForDMChannel be channel;
                         direct = (case dmBot of Some b \<Rightarrow> DirectMessage b postingUser channel
                                   | None \<Rightarrow> Unaddressed postingUser channel)
                     in case GetBotMentioned be (mp_Message post) of
                          Some agent \<Rightarrow>
                            (if dmBot = None \<or> map_option bot_UserId dmBot \<noteq> Some (bot_UserId agent)
                             then Mention agent postingUser channel else direct)
                        | None \<Rightarrow> direct)))"

section \<open>Gates\<close>

lemma resolved:
  assumes "resolveTurnPolicy env d req = Inr p"
  obtains initiator where
    "turn_gate env (tp_isDM p) (tp_bot p) (tp_user p) (tp_channel p) = None"
    "tp_isDM p = IsDMWith (bot_UserId (tp_bot p)) (tp_channel p)"
    "checkAnalysisSource env (req\<lparr>rq_conv := tp_conv p\<rparr>) (tp_user p) (tp_channel p) = None"
    "turn_initiator env d (req\<lparr>rq_conv := tp_conv p\<rparr>) (tp_user p) = Inr initiator"
    "run_tools env (tp_isDM p) initiator = (tp_toolsEnabled p, tp_autoEverywhereOnly p, tp_interactive p)"
proof -
  obtain agent user channel where a: "rq_bot req = Some agent" "rq_user req = Some user" "rq_channel req = Some channel"
    using assms by (auto simp: resolveTurnPolicy_def split: option.splits)
  let ?dm = "IsDMWith (bot_UserId agent) channel"
  have gate: "turn_gate env ?dm agent user channel = None"
    using assms by (auto simp: resolveTurnPolicy_def a Let_def split: option.splits)
  then obtain conv where conv: "thread_conv env d ?dm agent user req = Inr conv"
    using assms by (auto simp: resolveTurnPolicy_def a Let_def bindR_eq_Inr)
  have src: "checkAnalysisSource env (req\<lparr>rq_conv := conv\<rparr>) user channel = None"
    using assms by (auto simp: resolveTurnPolicy_def a Let_def bindR_eq_Inr gate conv split: option.splits)
  then obtain init where init: "turn_initiator env d (req\<lparr>rq_conv := conv\<rparr>) user = Inr init"
    using assms by (auto simp: resolveTurnPolicy_def a Let_def bindR_eq_Inr gate conv)
  obtain t e i where tools: "run_tools env ?dm init = (t, e, i)" by (cases "run_tools env ?dm init")
  have "p = \<lparr>tp_bot = agent, tp_user = user, tp_channel = channel, tp_conv = conv, tp_trigger = rq_trigger req,
      tp_post = rq_post req, tp_isDM = ?dm, tp_toolsEnabled = t, tp_interactive = i, tp_autoEverywhereOnly = e\<rparr>"
    using assms by (simp add: resolveTurnPolicy_def a Let_def gate conv src init tools)
  then show thesis using that gate src init tools by simp
qed

text \<open>The requester can read what an analysis analyzed.\<close>

definition source_readable :: "conversations_env \<Rightarrow> string \<Rightarrow> MMPost \<Rightarrow> bool" where
  "source_readable env userID analysisPost \<longleftrightarrow>
     (if string_prop analysisPost ThreadIDProp \<noteq> [] then
        (case cn_GetPost env (string_prop analysisPost ThreadIDProp) of
           Inl _ \<Rightarrow> False | Inr threadPost \<Rightarrow> cn_CanReadChannel env userID (mp_ChannelId threadPost))
      else string_prop analysisPost AnalyzedChannelIDProp \<noteq> []
        \<and> cn_CanReadChannel env userID (string_prop analysisPost AnalyzedChannelIDProp))"

lemma checkAnalysisSource_None:
  "checkAnalysisSource env req user channel = None \<longleftrightarrow>
   (case turnAnalysisPost env req channel of
      Inl _ \<Rightarrow> False | Inr None \<Rightarrow> True | Inr (Some a) \<Rightarrow> source_readable env (u_Id user) a)"
  by (auto simp: checkAnalysisSource_def source_readable_def checkSourceChannel_def getSourcePost_def Let_def
      split: sum.splits option.splits)

lemma turn_gate_None:
  "turn_gate env isDM agent user channel = None \<longleftrightarrow>
   CheckUsageRestrictionsForUserConfig (cn_access env) (bot_Config agent) (u_Id user) = None
   \<and> (isDM \<or> CheckUsageRestrictionsForChannel (bot_Config agent) channel = None
        \<and> Allows (cn_Level env) CapMultiplayerChannels)"
  by (auto simp: turn_gate_def CheckUsageRestrictions_def Check_def Allows_def split: option.splits)

text \<open>
  C12: a turn resolves only when the requester may use the agent and its service, outside the DM also
  the channel and the license allow it, and the requester can still read what an analysis it continues
  analyzed.
\<close>

theorem resolved_turn_passed_gates:
  assumes "resolveTurnPolicy env d req = Inr p"
  shows "CheckUsageRestrictionsForUserConfig (cn_access env) (bot_Config (tp_bot p)) (u_Id (tp_user p)) = None
    \<and> (if tp_isDM p then IsDMWith (bot_UserId (tp_bot p)) (tp_channel p)
       else CheckUsageRestrictionsForChannel (bot_Config (tp_bot p)) (tp_channel p) = None
         \<and> Allows (cn_Level env) CapMultiplayerChannels)
    \<and> (case turnAnalysisPost env (req\<lparr>rq_conv := tp_conv p\<rparr>) (tp_channel p) of
         Inl _ \<Rightarrow> False | Inr None \<Rightarrow> True | Inr (Some a) \<Rightarrow> source_readable env (u_Id (tp_user p)) a)"
  using assms by (rule resolved) (auto simp: turn_gate_None checkAnalysisSource_None)

text \<open>
  In a channel tools are on only when the configuration allows them, and then either the requester,
  who is no automation, is present to approve calls or the catalog is limited to tools that run
  unattended.
\<close>

theorem channel_tools_attended_or_limited:
  assumes "resolveTurnPolicy env d req = Inr p" "\<not> tp_isDM p" "tp_toolsEnabled p"
  shows "channelMentionToolCallingEnabled env \<and> tp_interactive p = (\<not> tp_autoEverywhereOnly p)
    \<and> (if tp_interactive p then
         (case turn_initiator env d (req\<lparr>rq_conv := tp_conv p\<rparr>) (tp_user p) of
            Inr (Some (post, user)) \<Rightarrow> \<not> isAutomatedInvoker (Some post) (Some user)
          | _ \<Rightarrow> False)
       else True)"
  using assms(1)
proof (rule resolved)
  fix initiator
  assume "turn_initiator env d (req\<lparr>rq_conv := tp_conv p\<rparr>) (tp_user p) = Inr initiator"
    and "run_tools env (tp_isDM p) initiator = (tp_toolsEnabled p, tp_autoEverywhereOnly p, tp_interactive p)"
  then show ?thesis using assms(2,3)
    by (auto simp: run_tools_def setChannelRunTools_def Let_def split: option.splits prod.splits if_splits)
qed

section \<open>What runs unapproved\<close>

definition allowed_call :: "conversations_env \<Rightarrow> turnPolicy \<Rightarrow> Context option \<Rightarrow> ToolCall \<Rightarrow> bool" where
  "allowed_call env p llmCtx tc \<longleftrightarrow>
     tp_toolsEnabled p
     \<and> (isMCPMetaToolCall tc llmCtx
        \<or> (case LookupTool (Option.bind llmCtx ctx_Tools) (tc_Name tc) (tc_ServerOrigin tc) of
             None \<Rightarrow> False
           | Some l \<Rightarrow>
               (IsRemoteServerOrigin (tl_ServerOrigin l) \<longrightarrow> Allows (cn_Level env) CapRemoteMCP)
               \<and> (isAutoExecuteBuiltIn (tl_Tool l)
                  \<or> snd (cn_GetToolPolicy env (tl_ServerOrigin l) (tl_BareName l))
                    \<and> ToolPolicyReach (fst (cn_GetToolPolicy env (tl_ServerOrigin l) (tl_BareName l)))
                      \<ge> (if tp_isDM p then 1 else 2))))"

lemma ToolPolicyReach_iff:
  "IsToolPolicyAutoRunInDM policy \<longleftrightarrow> 1 \<le> ToolPolicyReach policy"
  "IsToolPolicyAutoRunEverywhere policy \<longleftrightarrow> 2 \<le> ToolPolicyReach policy"
  by (auto simp: IsToolPolicyAutoRunInDM_def IsToolPolicyAutoRunEverywhere_def ToolPolicyReach_def policy_defs)

lemma autoExecute_iff: "autoExecute env p llmCtx tc \<longleftrightarrow> allowed_call env p llmCtx tc"
  by (auto simp: autoExecute_def allowed_call_def remoteMCPDecisionAllowed_def ToolPolicyReach_iff Let_def
      split: option.splits prod.splits)

lemma rs_executed_policy_run:
  "case Run (policy_runner env p runner) (WithMaxRounds n) req opts world of
     Inl _ \<Rightarrow> True
   | Inr (x, st) \<Rightarrow> list_all (\<lambda>(tc, c, _). allowed_call env p c tc \<and> tc_UserInteraction tc = []) (rs_executed st)"
  by (cases rule: Run_ok_cases [where env = "policy_runner env p runner" and n = n and request = req and opts = opts and w = world])
    (auto simp: run_ok_def executed_ok_def list_all_iff policy_runner_def autoExecute_iff)

text \<open>
  C11: whatever the model and the tools do, every call a turn executes without asking is one its policy
  allows there: tools are on, and the call is a meta-tool, an auto-execute built-in, or a tool an
  enabled server's policy auto-runs in this kind of channel, remote servers only under license. A
  failed start leaves the database alone.
\<close>

theorem tool_loop_runs_allowed_calls:
  "case runToolLoop env runner w p convID req world d of
     (Inl _, d') \<Rightarrow> d' = d
   | (Inr (x, st), _) \<Rightarrow>
       list_all (\<lambda>(tc, c, _). allowed_call env p c tc \<and> tc_UserInteraction tc = []) (rs_executed st)"
  using rs_executed_policy_run [of env p runner "EffectiveMaxToolTurns (bot_Config (tp_bot p))" req
      "withProviderWebSearchLicense env (toolsDisabledLLMOptions env (tp_bot p) (\<not> tp_toolsEnabled p))" world]
  by (auto simp: runToolLoop_def split: sum.splits prod.splits)

section \<open>Filter and decision agree\<close>

lemma LookupTool_toolLookup:
  "LookupTool s name orig = Some l \<Longrightarrow> l = toolLookup (tl_Tool l)"
  by (cases s) (auto dest: LookupTool_stored)

text \<open>
  In a channel, the filter that limits the catalog of an unattended run keeps exactly the tools
  whose calls the decision lets run unasked, up to the license for remote servers, which only the
  decision checks. Meta-tools, and built-ins that need approval, are outside the statement.
\<close>

theorem filter_agrees_with_decision:
  assumes "tp_toolsEnabled p" "\<not> tp_isDM p"
    and "LookupTool (ctx_Tools c) (tc_Name tc) (tc_ServerOrigin tc) = Some l"
    and "\<not> IsMCPMetaTool (tc_Name tc)" "\<not> IsMCPMetaTool (tl_RuntimeName l)"
    and "tl_ServerOrigin l \<noteq> [] \<or> tool_AutoExecute (tl_Tool l)"
  shows "autoExecute env p (Some c) tc \<longleftrightarrow>
    botChannelAutoEverywhereKeepTool (cn_GetToolPolicy env) (tl_Tool l)
    \<and> remoteMCPDecisionAllowed env (tl_ServerOrigin l) = None"
proof -
  have l: "tl_RuntimeName l = tool_Name (tl_Tool l)" "tl_BareName l = BareMCPToolName (tool_Name (tl_Tool l))"
    "tl_ServerOrigin l = tool_ServerOrigin (tl_Tool l)"
    using arg_cong [OF LookupTool_toolLookup [OF assms(3)], of tl_RuntimeName]
      arg_cong [OF LookupTool_toolLookup [OF assms(3)], of tl_BareName]
      arg_cong [OF LookupTool_toolLookup [OF assms(3)], of tl_ServerOrigin] by (simp_all add: toolLookup_def)
  have "\<not> isMCPMetaToolCall tc (Some c)" using assms(4) by (simp add: isMCPMetaToolCall_def)
  then show ?thesis
    using assms l by (auto simp: autoExecute_def botChannelAutoEverywhereKeepTool_def remoteMCPDecisionAllowed_def
        isAutoExecuteBuiltIn_def IsRemoteServerOrigin_def Let_def split: prod.splits)
qed

section \<open>Which posts are answered\<close>

definition solicited :: "bots_env \<Rightarrow> MMPost \<Rightarrow> Account \<Rightarrow> bool" where
  "solicited be post user \<longleftrightarrow>
     \<not> IsAnyBot be (mp_UserId post) \<and> (mp_RemoteId post = None \<or> mp_RemoteId post = Some [])
     \<and> \<not> HasPrefix (mp_Type post) ''system_'' \<and> GetProp post WranglerProp = None \<and> GetProp post FromWebhookProp = None
     \<and> (u_IsBot user \<or> GetProp post FromBotProp \<noteq> None \<or> GetProp post FromPluginProp \<noteq> None
        \<longrightarrow> GetProp post ActivateAIProp \<noteq> None)"

text \<open>
  No agent answers an agent, a remote, system, wrangler or webhook post, nor a post of a bot or
  plugin that did not opt in; a post that mentions an agent goes to that agent, except that in an
  agent's own DM a post mentioning it, or none, is a DM turn.
\<close>

theorem answered_posts_are_solicited:
  "case handleMessages env be post of
     Refused _ \<Rightarrow> True
   | Mention agent user channel \<Rightarrow> solicited be post user \<and> be_mentioned be (mp_Message post) agent
       \<and> agent \<in> set (be_bots be)
       \<and> pred_option (\<lambda>b. bot_UserId b \<noteq> bot_UserId agent) (GetBotForDMChannel be channel)
   | DirectMessage agent user channel \<Rightarrow> solicited be post user \<and> IsDMWith (bot_UserId agent) channel
       \<and> agent \<in> set (be_bots be)
       \<and> pred_option (\<lambda>b. bot_UserId b = bot_UserId agent) (GetBotMentioned be (mp_Message post))
   | Unaddressed user channel \<Rightarrow> solicited be post user \<and> GetBotMentioned be (mp_Message post) = None
       \<and> GetBotForDMChannel be channel = None"
proof -
  have dm: "GetBotForDMChannel be channel = Some b \<Longrightarrow> IsDMWith (bot_UserId b) channel \<and> b \<in> set (be_bots be)" for channel b
    by (auto simp: GetBotForDMChannel_def dest: find_pred_set)
  have men: "GetBotMentioned be msg = Some b \<Longrightarrow> be_mentioned be msg b \<and> b \<in> set (be_bots be)" for msg b
    by (auto simp: GetBotMentioned_def dest: find_pred_set)
  show ?thesis
    by (auto simp: handleMessages_def solicited_def Let_def dest!: dm men split: sum.splits option.splits if_splits)
qed

section \<open>A concrete turn\<close>

definition ex_conversations :: conversations_env where
  "ex_conversations = \<lparr>cn_access = ex_access [], cn_Level = Some LevelEnterpriseAdvanced, cn_config = Some (True, False),
     cn_GetToolPolicy = (\<lambda>_ _. (MCPToolPolicyAutoRunEverywhere, True)), cn_GetPost = (\<lambda>_. Inl ErrNotFound),
     cn_GetUser = (\<lambda>_. Inl ErrNotFound), cn_GetChannel = (\<lambda>_. Inl ErrNotFound), cn_CanReadChannel = (\<lambda>_ _. True),
     cn_StatusCode = (\<lambda>_. None), cn_hasService = True, cn_json = example_json, cn_io = (\<lambda>_. IoOk)\<rparr>"

definition ex_post :: MMPost where
  "ex_post = \<lparr>mp_Id = ''p1'', mp_ChannelId = ''ch'', mp_UserId = ''u1'', mp_RootId = [], mp_RemoteId = None, mp_Type = [],
     mp_Message = ''hi'', mp_Props = [], mp_FileIds = []\<rparr>"

definition ex_turn :: turnRequest where
  "ex_turn = \<lparr>rq_bot = Some \<lparr>bot_UserId = ''b1'', bot_Config = ex_agent, bot_NativeWebSearch = False\<rparr>,
     rq_user = Some \<lparr>u_Id = ''u1'', u_Username = [], u_FirstName = [], u_LastName = [], u_IsBot = False\<rparr>,
     rq_channel = Some \<lparr>ch_Id = ''ch'', ch_Type = ''O'', ch_Name = [], ch_DisplayName = []\<rparr>,
     rq_conv = None, rq_trigger = Some ex_post, rq_post = None\<rparr>"

lemma ex_turn_resolves:
  obtains p where "resolveTurnPolicy ex_conversations empty_db ex_turn = Inr p" "\<not> tp_isDM p" "tp_toolsEnabled p" "tp_interactive p"
proof -
  have "case resolveTurnPolicy ex_conversations empty_db ex_turn of
      Inr p \<Rightarrow> \<not> tp_isDM p \<and> tp_toolsEnabled p \<and> tp_interactive p | Inl _ \<Rightarrow> False"
    by code_simp
  then show thesis using that by (cases "resolveTurnPolicy ex_conversations empty_db ex_turn") auto
qed

lemma resolved_turn_passed_gates_witness:
  "\<exists>p. resolveTurnPolicy ex_conversations empty_db ex_turn = Inr p \<and> \<not> tp_isDM p
     \<and> CheckUsageRestrictionsForChannel (bot_Config (tp_bot p)) (tp_channel p) = None
     \<and> Allows (cn_Level ex_conversations) CapMultiplayerChannels"
  using resolved_turn_passed_gates by (metis ex_turn_resolves)

lemma channel_tools_attended_or_limited_witness:
  "\<exists>p. resolveTurnPolicy ex_conversations empty_db ex_turn = Inr p \<and> \<not> tp_autoEverywhereOnly p \<and> tp_toolsEnabled p
     \<and> channelMentionToolCallingEnabled ex_conversations"
  using channel_tools_attended_or_limited by (metis ex_turn_resolves)

definition ex_policy :: turnPolicy where
  "ex_policy = \<lparr>tp_bot = \<lparr>bot_UserId = ''b1'', bot_Config = ex_agent, bot_NativeWebSearch = False\<rparr>,
     tp_user = \<lparr>u_Id = ''u1'', u_Username = [], u_FirstName = [], u_LastName = [], u_IsBot = True\<rparr>,
     tp_channel = \<lparr>ch_Id = ''ch'', ch_Type = ''O'', ch_Name = [], ch_DisplayName = []\<rparr>,
     tp_conv = None, tp_trigger = Some ex_post, tp_post = None, tp_isDM = False, tp_toolsEnabled = True,
     tp_interactive = False, tp_autoEverywhereOnly = True\<rparr>"

lemma filter_agrees_with_decision_witness:
  "autoExecute ex_conversations ex_policy (Some (ex_context\<lparr>ctx_Tools := Some (AddTools [example_tool ''a__x'' ''https://a''] NewToolStore)\<rparr>))
     (ex_call ''a__x'')"
proof -
  let ?t = "example_tool ''a__x'' ''https://a''" and ?c = "ex_context\<lparr>ctx_Tools := Some (AddTools [example_tool ''a__x'' ''https://a''] NewToolStore)\<rparr>"
  have "LookupTool (ctx_Tools ?c) (tc_Name (ex_call ''a__x'')) (tc_ServerOrigin (ex_call ''a__x'')) = Some (toolLookup ?t)"
    by code_simp
  moreover have "\<not> IsMCPMetaTool ''a__x''" by code_simp
  moreover have "botChannelAutoEverywhereKeepTool (cn_GetToolPolicy ex_conversations) ?t
      \<and> remoteMCPDecisionAllowed ex_conversations ''https://a'' = None" by code_simp
  ultimately show ?thesis
    using filter_agrees_with_decision [of ex_policy ?c "ex_call ''a__x''" "toolLookup ?t" ex_conversations]
    by (simp add: ex_policy_def ex_call_def toolLookup_def example_tool_def)
qed

end
