(* ===== verification/Tool_Approval.thy ===== *)
theory Tool_Approval
  imports Turn_Policy User_Interaction
begin

text \<open>
  Decisions of the requester on the tool calls of a response and on sharing their results
  (\<open>src/conversations/tool_approval.go\<close>).

  The database statements of a handler are numbered; before statement \<open>k\<close> the other requests commit
  \<open>we_others k\<close>. For \<open>HandleToolCall\<close>: 0 reads the conversation, 1 its turns, 2 what the policy reads,
  3 claims, 4 records the outcome, 5 appends the results, 6 reads the follow-up's turns; for
  \<open>HandleToolResult\<close> the updates start at 3, and an undo of the \<open>k\<close>-th is attempt 1 of its statement.
  Tools run between 3 and 4.

  \<open>ap_builder\<close> is the context builder with the skill tools it adds, \<open>ap_threadRequest\<close> the request of
  a channel thread, absent when the thread cannot be fetched, \<open>ap_acquire\<close> the failure to take the
  post's streaming context, if any. Tracing, audit records and the decoration of the stream are left out.
\<close>

record 'w approval_env =
  ap_env :: conversations_env
  ap_bots :: bots_env
  ap_writes :: write_env
  ap_loopWrites :: write_env
  ap_runner :: "'w runner_env"
  ap_interaction :: interaction_env
  ap_builder :: "turnPolicy \<Rightarrow> Context result"
  ap_acquire :: "go_error option"
  ap_service :: service_client
  ap_threadRequest :: "Conversation \<Rightarrow> string \<Rightarrow> Context \<Rightarrow> BuildOptions \<Rightarrow> db \<Rightarrow> CompletionRequest result option"
  ap_sessionID :: string

definition ErrStaleToolClick :: go_error where
  "ErrStaleToolClick = Sentinel ''conversations.ErrStaleToolClick'' ''stale or duplicate tool-approval click''"

definition ErrPostMissingConversationID :: go_error where
  "ErrPostMissingConversationID = Sentinel ''conversations.ErrPostMissingConversationID'' ''post missing conversation_id''"

definition ErrNotRequester :: go_error where
  "ErrNotRequester = Sentinel ''conversations.ErrNotRequester''
     ''only the original requester can act on this conversation''"

definition ErrInvalidToolAnswer :: go_error where
  "ErrInvalidToolAnswer = Sentinel ''conversations.ErrInvalidToolAnswer''
     ''invalid answer for user interaction tool call''"

definition toolCallRejectedByUserResult :: string where
  "toolCallRejectedByUserResult = ''Tool call rejected by user''"

definition toolCallPolicyDeniedResult :: string where
  "toolCallPolicyDeniedResult = ''Tool call was not executed because it is no longer permitted by policy or license''"

definition toolRejectionGuidance :: string where
  "toolRejectionGuidance = ''The user rejected one or more of your tool calls; their results read '' @ [CHR 0x22]
     @ toolCallRejectedByUserResult @ [CHR 0x22] @ ''. Do not repeat a rejected call with the same arguments. ''
     @ ''Ask the user for clarification or take a different approach.''"

definition ToolExecutionApproved :: string where "ToolExecutionApproved = ''approved''"

definition ConversationIDProp :: string where "ConversationIDProp = ''conversation_id''"

definition SubTypeToolCall :: string where "SubTypeToolCall = ''tool_call''"

definition OperationConversationToolFollowup :: string where
  "OperationConversationToolFollowup = ''conversation_tool_followup''"

definition GetBotByID :: "bots_env \<Rightarrow> string \<Rightarrow> Bot option" where
  "GetBotByID be botID = find (\<lambda>b. bot_UserId b = botID) (be_bots be)"

text \<open>A call still to be decided, and the ones a decision is about.\<close>

definition pending_use :: "ContentBlock \<Rightarrow> bool" where
  "pending_use b \<longleftrightarrow> cb_Type b = BlockTypeToolUse \<and> cb_Status b = StatusPending"

definition open_use :: "ContentBlock \<Rightarrow> bool" where
  "open_use b \<longleftrightarrow> cb_Type b = BlockTypeToolUse \<and> (cb_Status b = StatusPending \<or> cb_Status b = StatusAccepted)"

definition isUserRejectedToolUse :: "ContentBlock \<Rightarrow> bool" where
  "isUserRejectedToolUse b \<longleftrightarrow> cb_Type b = BlockTypeToolUse \<and> cb_Status b = StatusRejected
     \<and> cb_UserInteraction b = [] \<and> \<not> cb_WouldAutoExecute b"

section \<open>Before a decision\<close>

record toolDecision =
  td_convID :: string
  td_conv :: Conversation
  td_turns :: "Turn list"
  td_policy :: turnPolicy

definition beginToolDecision ::
  "'w approval_env \<Rightarrow> string \<Rightarrow> MMPost \<Rightarrow> Channel \<Rightarrow> db \<Rightarrow> toolDecision result \<times> db" where
  "beginToolDecision a userID post channel d =
     (let w = ap_writes a; env = ap_env a
      in case GetBotByID (ap_bots a) (mp_UserId post) of
           None \<Rightarrow> (Inl (ErrorNew ''unable to get bot''), d)
         | Some agent \<Rightarrow>
             (let convID = string_prop post ConversationIDProp
              in if convID = [] then (Inl ErrPostMissingConversationID, d)
                 else (let d0 = we_others w 0 0 d
                   in case GetConversation (we_io w 0 0) convID d0 of
                        Inl err \<Rightarrow> (Inl (wrapf ''failed to get conversation'' err), d0)
                      | Inr conv \<Rightarrow>
                          (if cv_UserID conv \<noteq> userID then (Inl ErrNotRequester, d0)
                           else (let d1 = we_others w 1 0 d0
                             in case GetTurnsForConversation (we_io w 1 0) convID d1 of
                                  Inl err \<Rightarrow> (Inl (wrapf ''failed to get turns'' err), d1)
                                | Inr turns \<Rightarrow>
                                    (case cn_GetUser env userID of
                                       Inl err \<Rightarrow> (Inl (wrapf ''unable to get user'' err), d1)
                                     | Inr user \<Rightarrow>
                                         (let d2 = we_others w 2 0 d1
                                          in case resolveTurnPolicy env d2 \<lparr>rq_bot = Some agent, rq_user = Some user,
                                                    rq_channel = Some channel, rq_conv = Some conv, rq_trigger = None,
                                                    rq_post = Some post\<rparr> of
                                               Inl err \<Rightarrow> (Inl err, d2)
                                             | Inr policy \<Rightarrow>
                                                 (if \<not> tp_toolsEnabled policy then (Inl ErrToolCallingDisabled, d2)
                                                  else (Inr \<lparr>td_convID = convID, td_conv = conv, td_turns = turns,
                                                    td_policy = policy\<rparr>, d2)))))))))"

text \<open>The first assistant turn of the post; its calls must still be pending.\<close>

definition findPendingToolTurn :: "json_env \<Rightarrow> Turn list \<Rightarrow> string \<Rightarrow> (Turn \<times> ContentBlock list) result" where
  "findPendingToolTurn env turns clickedPostID =
     (case find (is_anchor clickedPostID) turns of
        None \<Rightarrow> Inl (wrapf ''no pending tool calls found for clicked post'' ErrStaleToolClick)
      | Some turn \<Rightarrow>
          (case UnmarshalBlocks env (tn_Content turn) of
             Inl err \<Rightarrow> Inl (wrapf (''failed to unmarshal turn '' @ tn_ID turn @ '' content'') err)
           | Inr blocks \<Rightarrow>
               (if list_ex pending_use blocks then Inr (turn, blocks)
                else Inl (wrapf ''clicked post has no pending tool calls'' ErrStaleToolClick))))"

fun remote_license_error :: "conversations_env \<Rightarrow> string list \<Rightarrow> ContentBlock list \<Rightarrow> go_error option" where
  "remote_license_error env acceptedToolIDs [] = None"
| "remote_license_error env acceptedToolIDs (b # bs) =
     (if cb_Type b \<noteq> BlockTypeToolUse \<or> cb_ID b \<notin> set acceptedToolIDs then remote_license_error env acceptedToolIDs bs
      else if cb_Status b \<noteq> StatusPending \<and> cb_Status b \<noteq> StatusAccepted
      then remote_license_error env acceptedToolIDs bs
      else case remoteMCPDecisionAllowed env (cb_ServerOrigin b) of
             Some err \<Rightarrow> Some err
           | None \<Rightarrow> remote_license_error env acceptedToolIDs bs)"

definition buildContext :: "'w approval_env \<Rightarrow> turnPolicy \<Rightarrow> Context result" where
  "buildContext a p = map_sum id (limit_tools (ap_env a) p) (ap_builder a p)"

text \<open>The context of a decision: the post's attachments count, and the tools history loaded are back.\<close>

definition response_context :: "MMPost \<Rightarrow> Context \<Rightarrow> Context" where
  "response_context post c =
     SetResponseAttachmentBudget (MaxPostAttachments - int (length (mp_FileIds post))) (c\<lparr>ctx_ResponsePostID := mp_Id post\<rparr>)"

definition decision_context :: "'w approval_env \<Rightarrow> turnPolicy \<Rightarrow> MMPost \<Rightarrow> Turn list \<Rightarrow> Context result" where
  "decision_context a p post turns =
     map_sum id (\<lambda>c0. let c = response_context post c0
        in c\<lparr>ctx_Tools := snd (RestoreLoadedMCPToolsFromTurns (cn_json (ap_env a)) (ctx_Tools c) turns)\<rparr>)
       (buildContext a p)"

definition interaction_answer :: "UserInteractionAnswer gomap \<Rightarrow> string \<Rightarrow> UserInteractionAnswer" where
  "interaction_answer toolAnswers blockID =
     (case map_of toolAnswers blockID of None \<Rightarrow> \<lparr>ua_Selected = None, ua_Custom = []\<rparr> | Some ans \<Rightarrow> ans)"

definition interaction_result ::
  "interaction_env \<Rightarrow> UserInteractionAnswer gomap \<Rightarrow> Context \<Rightarrow> bool \<Rightarrow> ContentBlock \<Rightarrow> string result" where
  "interaction_result ie toolAnswers c interactive b =
     (if cb_UserInteraction b = UserInteractionConnect \<and> interactive then ResolveConnectionRequest ie (cb_Input b) (Some c)
      else if cb_UserInteraction b = UserInteractionConnect then ConnectionRequestUnusableResult ie (cb_Input b)
      else ResolveUserInteractionAnswer ie (cb_UserInteraction b) (cb_Input b) (interaction_answer toolAnswers (cb_ID b)))"

fun resolveInteractionAnswers ::
  "interaction_env \<Rightarrow> ContentBlock list \<Rightarrow> string list \<Rightarrow> UserInteractionAnswer gomap \<Rightarrow> Context \<Rightarrow> bool
     \<Rightarrow> string gomap result" where
  "resolveInteractionAnswers ie [] acceptedToolIDs toolAnswers c interactive = Inr []"
| "resolveInteractionAnswers ie (b # bs) acceptedToolIDs toolAnswers c interactive =
     (if \<not> open_use b \<or> cb_UserInteraction b = [] \<or> cb_ID b \<notin> set acceptedToolIDs
      then resolveInteractionAnswers ie bs acceptedToolIDs toolAnswers c interactive
      else case interaction_result ie toolAnswers c interactive b of
             Inl err \<Rightarrow> Inl (ErrorWrap (errText ErrInvalidToolAnswer @ '': '' @ errText err) [ErrInvalidToolAnswer])
           | Inr res \<Rightarrow>
               map_sum id (\<lambda>results. results @ [(cb_ID b, res)])
                 (resolveInteractionAnswers ie bs acceptedToolIDs toolAnswers c interactive))"

definition skippedInteractionResult :: "interaction_env \<Rightarrow> ContentBlock \<Rightarrow> string" where
  "skippedInteractionResult ie b =
     (if cb_UserInteraction b = UserInteractionConnect then ConnectionRequestDeclinedResult ie (cb_Input b)
      else ''User skipped the question'')"

section \<open>The claim\<close>

definition claim_block :: "ContentBlock \<Rightarrow> ContentBlock" where
  "claim_block b = (if pending_use b then b\<lparr>cb_Status := StatusAccepted\<rparr> else b)"

definition claimToolDecision :: "json_env \<Rightarrow> io \<Rightarrow> Turn \<Rightarrow> ContentBlock list \<Rightarrow> db \<Rightarrow> json result \<times> db" where
  "claimToolDecision env io turn blocks d =
     (case marshalBlocks env (map claim_block blocks) of
        Inl err \<Rightarrow> (Inl (wrapf ''failed to marshal claimed blocks'' err), d)
      | Inr content \<Rightarrow>
          (case CompareAndSwapTurnContent io (tn_ID turn) (tn_Content turn) (Some content) d of
             (Inl err, d') \<Rightarrow> (Inl (wrapf ''failed to claim tool decision'' err), d')
           | (Inr swapped, d') \<Rightarrow>
               (if \<not> swapped
                then (Inl (wrapf (''tool calls on turn '' @ tn_ID turn @ '' were already decided'') ErrStaleToolClick), d')
                else (Inr content, d'))))"

section \<open>Running approved calls\<close>

text \<open>Looks the approved tool up again and runs it; the flag says whether its resolver was called.\<close>

definition stale_metadata :: "ContentBlock \<Rightarrow> go_error" where
  "stale_metadata b = ErrorNew (''tool '' @ cb_Name b @ '' no longer matches the approved tool metadata'')"

definition missing_tool_error :: "(string \<Rightarrow> string) \<Rightarrow> ToolStore \<Rightarrow> ContentBlock \<Rightarrow> go_error" where
  "missing_tool_error quote store b =
     (let gone = (if IsUnloadedMCPTool (Some store) (cb_Name b)
                  then ErrorNew (UnloadedMCPToolUserHint quote (cb_Name b))
                  else ErrorNew (''tool '' @ cb_Name b @ '' is no longer available''))
      in case LookupTool (Some store) (cb_Name b) [] of
           None \<Rightarrow> gone
         | Some existing \<Rightarrow>
             (if cb_ServerOrigin b \<noteq> [] \<and> tl_ServerOrigin existing \<noteq> cb_ServerOrigin b then stale_metadata b
              else if cb_MCPBareName b \<noteq> [] \<and> tl_BareName existing \<noteq> cb_MCPBareName b then stale_metadata b
              else gone))"

definition resolveApprovedToolUseBlock ::
  "'w runner_env \<Rightarrow> Context \<Rightarrow> ContentBlock \<Rightarrow> string \<Rightarrow> 'w \<Rightarrow> (string \<times> go_error option) \<times> bool \<times> Context \<times> 'w" where
  "resolveApprovedToolUseBlock runner c b execution world =
     (case ctx_Tools c of
        None \<Rightarrow> (([], Some (ErrorNew (''tool '' @ cb_Name b @ '' is no longer available''))), False, c, world)
      | Some store \<Rightarrow>
          (case LookupTool (Some store) (cb_Name b) (cb_ServerOrigin b) of
             None \<Rightarrow> (([], Some (missing_tool_error (env_quote runner) store b)), False, c, world)
           | Some l \<Rightarrow>
               (if cb_MCPBareName b \<noteq> [] \<and> tl_BareName l \<noteq> cb_MCPBareName b
                then (([], Some (stale_metadata b)), False, c, world)
                else (let (r, c', world') = ResolveToolCall runner (tl_RuntimeName l)
                            \<lparr>ci_ID = cb_ID b, ci_Execution = execution\<rparr> (cb_Input b) c world
                      in (r, True, c', world')))))"

text \<open>
  What a handler has done so far: the context and world the tools changed, the results, the calls run
  without a click, the names audited, and a log of the calls run with the context they were decided in.
\<close>

record 'w decided =
  de_context :: Context
  de_world :: 'w
  de_results :: "ToolResult list"
  de_autoExecuted :: "string list"
  de_userRejected :: bool
  de_accepted :: "string list"
  de_rejected :: "string list"
  de_ran :: "(ContentBlock \<times> string \<times> Context) list"

definition tool_result :: "ContentBlock \<Rightarrow> string \<Rightarrow> bool \<Rightarrow> ToolResult" where
  "tool_result b res isError = \<lparr>tr_ToolCallID = cb_ID b, tr_Name = cb_Name b, tr_Result = res, tr_IsError = isError\<rparr>"

text \<open>Runs a call and records its result; the status it leaves depends on how it was let through.\<close>

definition run_block ::
  "'w approval_env \<Rightarrow> string \<Rightarrow> string \<Rightarrow> ContentBlock \<Rightarrow> 'w decided \<Rightarrow> ContentBlock \<times> 'w decided" where
  "run_block a execution status b st =
     (let ((res, err), ran, c1, w1) = resolveApprovedToolUseBlock (ap_runner a) (de_context st) b execution (de_world st);
          st1 = st\<lparr>de_world := w1,
            de_ran := de_ran st @ (if ran then [(b, execution, de_context st)] else [])\<rparr>
      in case err of
           Some e \<Rightarrow>
             (let (text, c2) = MCPToolErrorResult (ap_interaction a) (Some c1) e
              in (b\<lparr>cb_Status := StatusError\<rparr>,
                  st1\<lparr>de_context := the c2, de_results := de_results st @ [tool_result b text True]\<rparr>))
         | None \<Rightarrow> (b\<lparr>cb_Status := status\<rparr>,
             st1\<lparr>de_context := c1, de_results := de_results st @ [tool_result b res False]\<rparr>))"

text \<open>One iteration of the loop over the claimed blocks.\<close>

definition decide_block ::
  "'w approval_env \<Rightarrow> turnPolicy \<Rightarrow> string list \<Rightarrow> string gomap \<Rightarrow> ContentBlock \<Rightarrow> 'w decided
     \<Rightarrow> ContentBlock \<times> 'w decided" where
  "decide_block a p acceptedToolIDs interactionResults b st =
     (if \<not> open_use b then (b, st)
      else if cb_ID b \<in> set acceptedToolIDs \<and> cb_UserInteraction b \<noteq> [] then
        (b\<lparr>cb_Status := StatusSuccess, cb_Shared := Some True\<rparr>,
         st\<lparr>de_accepted := de_accepted st @ [cb_Name b],
            de_results := de_results st @ [tool_result b
              (case map_of interactionResults (cb_ID b) of None \<Rightarrow> [] | Some r \<Rightarrow> r) False]\<rparr>)
      else if cb_ID b \<in> set acceptedToolIDs then
        run_block a ToolExecutionApproved StatusSuccess b (st\<lparr>de_accepted := de_accepted st @ [cb_Name b]\<rparr>)
      else if cb_UserInteraction b \<noteq> [] then
        (b\<lparr>cb_Status := StatusRejected, cb_Shared := Some True\<rparr>,
         st\<lparr>de_rejected := de_rejected st @ [cb_Name b],
            de_results := de_results st @ [tool_result b (skippedInteractionResult (ap_interaction a) b) True]\<rparr>)
      else if cb_WouldAutoExecute b
          \<and> autoExecute (ap_env a) p (Some (de_context st)) (blank_call\<lparr>tc_Name := cb_Name b, tc_ServerOrigin := cb_ServerOrigin b\<rparr>)
        then (let (b', st') = run_block a ToolExecutionAuto StatusAutoApproved b
                    (st\<lparr>de_accepted := de_accepted st @ [cb_Name b]\<rparr>)
              in (b'\<lparr>cb_Shared := Some True\<rparr>, st'\<lparr>de_autoExecuted := cb_ID b # de_autoExecuted st'\<rparr>))
      else if cb_WouldAutoExecute b then
        (b\<lparr>cb_Status := StatusRejected\<rparr>,
         st\<lparr>de_rejected := de_rejected st @ [cb_Name b],
            de_results := de_results st @ [tool_result b toolCallPolicyDeniedResult True]\<rparr>)
      else
        (b\<lparr>cb_Status := StatusRejected\<rparr>,
         st\<lparr>de_rejected := de_rejected st @ [cb_Name b], de_userRejected := True,
            de_results := de_results st @ [tool_result b toolCallRejectedByUserResult True]\<rparr>))"

fun decide_blocks ::
  "'w approval_env \<Rightarrow> turnPolicy \<Rightarrow> string list \<Rightarrow> string gomap \<Rightarrow> ContentBlock list \<Rightarrow> 'w decided
     \<Rightarrow> ContentBlock list \<times> 'w decided" where
  "decide_blocks a p acceptedToolIDs interactionResults [] st = ([], st)"
| "decide_blocks a p acceptedToolIDs interactionResults (b # bs) st =
     (let (b', st1) = decide_block a p acceptedToolIDs interactionResults b st;
          (bs', st2) = decide_blocks a p acceptedToolIDs interactionResults bs st1
      in (b' # bs', st2))"

definition begin_decided :: "Context \<Rightarrow> 'w \<Rightarrow> 'w decided" where
  "begin_decided c world = \<lparr>de_context = c, de_world = world, de_results = [], de_autoExecuted = [],
     de_userRejected = False, de_accepted = [], de_rejected = [], de_ran = []\<rparr>"

text \<open>Later blocks of the same id overwrite the maps by id, so the last block of an id decides.\<close>

definition last_use :: "ContentBlock list \<Rightarrow> string \<Rightarrow> ContentBlock option" where
  "last_use blocks callID = find (\<lambda>b. cb_Type b = BlockTypeToolUse \<and> cb_ID b = callID) (rev blocks)"

definition terminal_result :: "bool \<Rightarrow> ContentBlock list \<Rightarrow> string list \<Rightarrow> ToolResult \<Rightarrow> bool" where
  "terminal_result isDM blocks autoExecuted tr \<longleftrightarrow>
     isDM \<or> (case last_use blocks (tr_ToolCallID tr) of
               None \<Rightarrow> False | Some b \<Rightarrow> cb_UserInteraction b \<noteq> [] \<or> cb_Status b = StatusRejected)
     \<or> tr_ToolCallID tr \<in> set autoExecuted"

definition decision_result_block :: "bool \<Rightarrow> int \<Rightarrow> ContentBlock list \<Rightarrow> string list \<Rightarrow> ToolResult \<Rightarrow> ContentBlock" where
  "decision_result_block isDM now blocks autoExecuted tr =
     (let terminal = terminal_result isDM blocks autoExecuted tr
      in block0\<lparr>cb_Type := BlockTypeToolResult, cb_ToolUseID := tr_ToolCallID tr, cb_Content := tr_Result tr,
           cb_Status := (if tr_IsError tr then StatusError else StatusSuccess), cb_Shared := Some terminal,
           cb_DecidedAt := (if terminal then Some now else None)\<rparr>)"

section \<open>The follow-up\<close>

record followUpOptions =
  fo_Unattended :: bool
  fo_UserRejected :: bool
  fo_Held :: bool

definition buildToolFollowUpRequest ::
  "'w approval_env \<Rightarrow> io \<Rightarrow> Conversation \<Rightarrow> Context \<Rightarrow> bool \<Rightarrow> BuildOptions \<Rightarrow> db \<Rightarrow> CompletionRequest result" where
  "buildToolFollowUpRequest a io conv c isDM buildOpts d =
     (let turnsOnly = BuildCompletionRequest (cn_json (ap_env a)) (ap_service a) io conv (Some c) (Some buildOpts) d
      in case cv_RootPostID conv of
           None \<Rightarrow> turnsOnly
         | Some root \<Rightarrow>
             (if isDM then turnsOnly
              else case ap_threadRequest a conv root c buildOpts d of None \<Rightarrow> turnsOnly | Some r \<Rightarrow> r))"

definition follow_up_request :: "followUpOptions \<Rightarrow> CompletionRequest \<Rightarrow> CompletionRequest" where
  "follow_up_request opts req =
     req\<lparr>req_Posts := req_Posts req @ (if fo_UserRejected opts then [mkPost PostRoleUser toolRejectionGuidance] else []),
         req_Operation := OperationConversationToolFollowup, req_OperationSubType := SubTypeToolCall\<rparr>"

definition streamToolFollowUp ::
  "'w approval_env \<Rightarrow> nat \<Rightarrow> turnPolicy \<Rightarrow> MMPost \<Rightarrow> Conversation \<Rightarrow> followUpOptions \<Rightarrow> 'w \<Rightarrow> db
     \<Rightarrow> (exit \<times> 'w run_state) result \<times> db" where
  "streamToolFollowUp a k policy0 post conv opts world d =
     (case (if fo_Held opts then None else ap_acquire a) of
        Some err \<Rightarrow> (Inl err, d)
      | None \<Rightarrow>
          (let policy = (if fo_Unattended opts then policy0\<lparr>tp_interactive := False\<rparr> else policy0);
               w = ap_writes a; d0 = we_others w k 0 d
           in case buildContext a policy of
                Inl err \<Rightarrow> (Inl err, d)
              | Inr c0 \<Rightarrow>
                  (let c = response_context post c0;
                       buildOpts = \<lparr>bo_ExcludeAfterPostID = [], bo_SessionID = ap_sessionID a,
                         bo_AllowUnsharedToolContent = False, bo_SkipThreadPostsAfterLatestUserTurn = fo_Unattended opts,
                         bo_ResponsePostID = mp_Id post\<rparr>
                   in case buildToolFollowUpRequest a (we_io w k 0) conv c (tp_isDM policy) buildOpts d0 of
                        Inl err \<Rightarrow> (Inl (wrapf ''failed to build completion request for tool follow-up'' err), d0)
                      | Inr req \<Rightarrow>
                          (case runToolLoop (ap_env a) (ap_runner a) (ap_loopWrites a) policy (cv_ID conv)
                                  (follow_up_request opts req) world d0 of
                             (Inl err, d1) \<Rightarrow> (Inl (wrapf ''tool runner failed on tool follow-up'' err), d1)
                           | (Inr run, d1) \<Rightarrow> (Inr run, d1)))))"

section \<open>Deciding on calls\<close>

text \<open>Everything before the claim: what the click is about, or why it is refused.\<close>

record claimable_click =
  cc_decision :: toolDecision
  cc_turn :: Turn
  cc_blocks :: "ContentBlock list"
  cc_context :: Context
  cc_answers :: "string gomap"

definition prepareToolCall ::
  "'w approval_env \<Rightarrow> string \<Rightarrow> MMPost \<Rightarrow> Channel \<Rightarrow> string list \<Rightarrow> UserInteractionAnswer gomap \<Rightarrow> db
     \<Rightarrow> claimable_click result \<times> db" where
  "prepareToolCall a userID post channel acceptedToolIDs toolAnswers d =
     (case beginToolDecision a userID post channel d of
        (Inl err, d') \<Rightarrow> (Inl err, d')
      | (Inr td, d') \<Rightarrow>
          (case findPendingToolTurn (cn_json (ap_env a)) (td_turns td) (mp_Id post) of
             Inl err \<Rightarrow> (Inl err, d')
           | Inr (pendingTurn, pendingBlocks) \<Rightarrow>
               (case remote_license_error (ap_env a) acceptedToolIDs pendingBlocks of
                  Some err \<Rightarrow> (Inl err, d')
                | None \<Rightarrow>
                    (case decision_context a (td_policy td) post (td_turns td) of
                       Inl err \<Rightarrow> (Inl err, d')
                     | Inr c \<Rightarrow>
                         (case resolveInteractionAnswers (ap_interaction a) pendingBlocks acceptedToolIDs toolAnswers c
                                 (tp_interactive (td_policy td)) of
                            Inl err \<Rightarrow> (Inl err, d')
                          | Inr interactionResults \<Rightarrow>
                              (case ap_acquire a of
                                 Some err \<Rightarrow> (Inl err, d')
                               | None \<Rightarrow> (Inr \<lparr>cc_decision = td, cc_turn = pendingTurn, cc_blocks = pendingBlocks,
                                   cc_context = c, cc_answers = interactionResults\<rparr>, d')))))))"

text \<open>After the calls ran: the outcome and the results are stored; then the follow-up, unless sharing is undecided.\<close>

definition record_outcome ::
  "'w approval_env \<Rightarrow> claimable_click \<Rightarrow> json \<Rightarrow> ContentBlock list \<Rightarrow> 'w decided \<Rightarrow> db
     \<Rightarrow> bool result \<times> db" where
  "record_outcome a cc claimedContent blocks st d =
     (let w = ap_writes a; env = cn_json (ap_env a); policy = td_policy (cc_decision cc); turnID = tn_ID (cc_turn cc)
      in case marshalBlocks env blocks of
           Inl err \<Rightarrow> (Inl (wrapf ''failed to marshal updated blocks'' err), d)
         | Inr updatedContent \<Rightarrow>
             (case CompareAndSwapTurnContent (we_io w 4 0) turnID (Some claimedContent) (Some updatedContent) (we_others w 4 0 d) of
                (Inl err, d1) \<Rightarrow> (Inl (wrapf ''failed to update turn with resolved statuses'' err), d1)
              | (Inr swapped, d1) \<Rightarrow>
                  (if \<not> swapped then (Inl (ErrorNew (''turn '' @ turnID @ '' changed while its tool calls ran'')), d1)
                   else (let resultBlocks = map (decision_result_block (tp_isDM policy) (we_now w 0) blocks (de_autoExecuted st))
                                              (de_results st);
                             needsShareDecision = list_ex (\<lambda>rb. cb_Shared rb = Some False) resultBlocks
                         in case marshalBlocks env resultBlocks of
                              Inl err \<Rightarrow> (Inl (wrapf ''failed to marshal tool result blocks'' err), d1)
                            | Inr resultContent \<Rightarrow>
                                (case CreateTurnAutoSequence (we_io w 5) (we_others w 5)
                                        (new_turn (we_ids w 0) (td_convID (cc_decision cc)) None ''tool_result'' resultContent (we_now w 1)) d1 of
                                   (Inl err, d2) \<Rightarrow> (Inl (wrapf ''failed to create tool result turn'' err), d2)
                                 | (Inr _, d2) \<Rightarrow>
                                     (Inr (de_results st \<noteq> [] \<and> \<not> (\<not> tp_isDM policy \<and> needsShareDecision)), d2))))))"

text \<open>What a handler returns, with the calls it ran and the follow-up it started.\<close>

record 'w handled =
  hd_error :: "go_error option"
  hd_ran :: "(ContentBlock \<times> string \<times> Context) list"
  hd_followUp :: "(exit \<times> 'w run_state) option"

definition refused :: "go_error \<Rightarrow> (ContentBlock \<times> string \<times> Context) list \<Rightarrow> 'w handled" where
  "refused err calls = \<lparr>hd_error = Some err, hd_ran = calls, hd_followUp = None\<rparr>"

definition HandleToolCall ::
  "'w approval_env \<Rightarrow> string \<Rightarrow> MMPost \<Rightarrow> Channel \<Rightarrow> string list \<Rightarrow> UserInteractionAnswer gomap \<Rightarrow> 'w \<Rightarrow> db
     \<Rightarrow> 'w handled \<times> db" where
  "HandleToolCall a userID post channel acceptedToolIDs toolAnswers world d =
     (let w = ap_writes a; env = cn_json (ap_env a)
      in case prepareToolCall a userID post channel acceptedToolIDs toolAnswers d of
           (Inl err, d1) \<Rightarrow> (refused err [], d1)
         | (Inr cc, d1) \<Rightarrow>
             (case claimToolDecision env (we_io w 3 0) (cc_turn cc) (cc_blocks cc) (we_others w 3 0 d1) of
                (Inl err, d2) \<Rightarrow> (refused err [], d2)
              | (Inr claimedContent, d2) \<Rightarrow>
                  (let policy = td_policy (cc_decision cc);
                       (blocks, st) = decide_blocks a policy acceptedToolIDs (cc_answers cc) (cc_blocks cc)
                                        (begin_decided (cc_context cc) world)
                   in case record_outcome a cc claimedContent blocks st d2 of
                        (Inl err, d3) \<Rightarrow> (refused err (de_ran st), d3)
                      | (Inr follow, d3) \<Rightarrow>
                          (if \<not> follow then (\<lparr>hd_error = None, hd_ran = de_ran st, hd_followUp = None\<rparr>, d3)
                           else (case streamToolFollowUp a 6 policy post (td_conv (cc_decision cc))
                                        \<lparr>fo_Unattended = False, fo_UserRejected = de_userRejected st, fo_Held = True\<rparr>
                                        (de_world st) d3 of
                                   (Inl err, d4) \<Rightarrow> (refused err (de_ran st), d4)
                                 | (Inr run, d4) \<Rightarrow> (\<lparr>hd_error = None, hd_ran = de_ran st, hd_followUp = Some run\<rparr>, d4))))))"

section \<open>Deciding on results\<close>

text \<open>A conditional rewrite of a turn from the content that was read.\<close>

record turnUpdate =
  up_turn :: Turn
  up_content :: json

definition clicked_uses :: "json_env \<Rightarrow> string \<Rightarrow> Turn list \<Rightarrow> ContentBlock list" where
  "clicked_uses env postID turns =
     filter (\<lambda>b. cb_Type b = BlockTypeToolUse \<and> cb_ID b \<noteq> [])
       (concat (map (turn_blocks env) (filter (is_anchor postID) turns)))"

definition clicked_results :: "json_env \<Rightarrow> string list \<Rightarrow> Turn list \<Rightarrow> ContentBlock list" where
  "clicked_results env clickedIDs turns =
     filter (\<lambda>b. cb_Type b = BlockTypeToolResult \<and> cb_ToolUseID b \<in> set clickedIDs) (concat (map (turn_blocks env) turns))"

definition share_license_error :: "conversations_env \<Rightarrow> string list \<Rightarrow> ContentBlock list \<Rightarrow> go_error option" where
  "share_license_error env acceptedToolIDs uses =
     fold (\<lambda>b err. if cb_ID b \<in> set acceptedToolIDs \<and> err = None then remoteMCPDecisionAllowed env (cb_ServerOrigin b) else err)
       uses None"

text \<open>The block after the decision, whether it was assigned to, and whether it records the decision.\<close>

definition share_block :: "string list \<Rightarrow> string list \<Rightarrow> int \<Rightarrow> ContentBlock \<Rightarrow> ContentBlock \<times> bool \<times> bool" where
  "share_block acceptedToolIDs clickedIDs now b =
     (if cb_Type b = BlockTypeToolUse then
        (if cb_ID b \<in> set acceptedToolIDs \<and> cb_ID b \<in> set clickedIDs then (b\<lparr>cb_Shared := Some True\<rparr>, True, False)
         else (b, False, False))
      else if cb_Type b = BlockTypeToolResult then
        (let share = (cb_ToolUseID b \<in> set acceptedToolIDs \<and> cb_ToolUseID b \<in> set clickedIDs);
             b1 = (if share then b\<lparr>cb_Shared := Some True\<rparr> else b);
             decide = (cb_ToolUseID b \<in> set clickedIDs \<and> cb_DecidedAt b1 = None)
         in (if decide then b1\<lparr>cb_DecidedAt := Some now\<rparr> else b1, share \<or> decide, decide))
      else (b, False, False))"

definition share_turn ::
  "json_env \<Rightarrow> string list \<Rightarrow> string list \<Rightarrow> int \<Rightarrow> Turn \<Rightarrow> (bool \<times> turnUpdate) option result" where
  "share_turn env acceptedToolIDs clickedIDs now t =
     (let rs = map (share_block acceptedToolIDs clickedIDs now) (turn_blocks env t)
      in if \<not> list_ex (\<lambda>(_, modified, _). modified) rs then Inr None
         else (case marshalBlocks env (map fst rs) of
                 Inl err \<Rightarrow> Inl (wrapf ''failed to marshal updated blocks'' err)
               | Inr content \<Rightarrow>
                   Inr (Some (list_ex (\<lambda>(_, _, records). records) rs, \<lparr>up_turn = t, up_content = content\<rparr>))))"

text \<open>Updates that record the decision come first.\<close>

definition share_updates ::
  "json_env \<Rightarrow> string list \<Rightarrow> string list \<Rightarrow> int \<Rightarrow> Turn list \<Rightarrow> turnUpdate list result" where
  "share_updates env acceptedToolIDs clickedIDs now turns =
     map_sum id (\<lambda>us. let ups = List.map_filter id us
          in map snd (filter fst ups) @ map snd (filter (\<lambda>u. \<not> fst u) ups))
       (mapR (share_turn env acceptedToolIDs clickedIDs now) turns)"

text \<open>\<open>undoTurnUpdates\<close> on the applied updates, newest first, each with its statement.\<close>

fun undoTurnUpdates :: "write_env \<Rightarrow> (nat \<times> turnUpdate) list \<Rightarrow> db \<Rightarrow> db" where
  "undoTurnUpdates w [] d = d"
| "undoTurnUpdates w ((k, u) # us) d =
     undoTurnUpdates w us (snd (CompareAndSwapTurnContent (we_io w k 1) (tn_ID (up_turn u)) (Some (up_content u))
        (tn_Content (up_turn u)) (we_others w k 1 d)))"

fun apply_updates ::
  "write_env \<Rightarrow> string \<Rightarrow> nat \<Rightarrow> (nat \<times> turnUpdate) list \<Rightarrow> turnUpdate list \<Rightarrow> db \<Rightarrow> go_error option \<times> db" where
  "apply_updates w postID k applied [] d = (None, d)"
| "apply_updates w postID k applied (u # us) d =
     (case CompareAndSwapTurnContent (we_io w k 0) (tn_ID (up_turn u)) (tn_Content (up_turn u)) (Some (up_content u))
             (we_others w k 0 d) of
        (Inr True, d') \<Rightarrow> apply_updates w postID (Suc k) ((k, u) # applied) us d'
      | (Inr False, d') \<Rightarrow>
          (if applied = []
           then (Some (wrapf (''share decision for post '' @ postID @ '' was already recorded'') ErrStaleToolClick), d')
           else (Some (ErrorNew (''turn '' @ tn_ID (up_turn u) @ '' changed while recording the share decision'')),
                 undoTurnUpdates w applied d'))
      | (Inl err, d') \<Rightarrow>
          (Some (wrapf ''failed to update turn shared flags'' err), undoTurnUpdates w applied d'))"

text \<open>The decision, given the calls of the clicked post and their results.\<close>

definition share_decision ::
  "'w approval_env \<Rightarrow> MMPost \<Rightarrow> string list \<Rightarrow> toolDecision \<Rightarrow> ContentBlock list \<Rightarrow> ContentBlock list \<Rightarrow> 'w \<Rightarrow> db
     \<Rightarrow> 'w handled \<times> db" where
  "share_decision a post acceptedToolIDs td uses results world d1 =
     (let env = cn_json (ap_env a); w = ap_writes a; turns = td_turns td; policy = td_policy td;
          hasExecuted = list_ex (\<lambda>b. executed_status (cb_Status b)) uses
      in if results \<noteq> [] \<and> list_all (\<lambda>b. cb_DecidedAt b \<noteq> None) results
         then (\<lparr>hd_error = None, hd_ran = [], hd_followUp = None\<rparr>, d1)
         else case share_license_error (ap_env a) acceptedToolIDs uses of
                Some err \<Rightarrow> (refused err [], d1)
              | None \<Rightarrow>
                  (case share_updates env acceptedToolIDs (map cb_ID uses) (we_now w 0) turns of
                     Inl err \<Rightarrow> (refused err [], d1)
                   | Inr updates \<Rightarrow>
                       (case (if \<not> tp_isDM policy \<and> hasExecuted then ap_acquire a else None) of
                          Some err \<Rightarrow> (refused err [], d1)
                        | None \<Rightarrow>
                            (case apply_updates w (mp_Id post) 3 [] updates d1 of
                               (Some err, d2) \<Rightarrow> (refused err [], d2)
                             | (None, d2) \<Rightarrow>
                                 (if tp_isDM policy \<or> \<not> hasExecuted
                                  then (\<lparr>hd_error = None, hd_ran = [], hd_followUp = None\<rparr>, d2)
                                  else case streamToolFollowUp a (3 + length updates) policy post (td_conv td)
                                              \<lparr>fo_Unattended = False,
                                               fo_UserRejected = list_ex isUserRejectedToolUse uses, fo_Held = True\<rparr>
                                              world d2 of
                                         (Inl err, d3) \<Rightarrow> (refused err [], d3)
                                       | (Inr run, d3) \<Rightarrow>
                                           (\<lparr>hd_error = None, hd_ran = [], hd_followUp = Some run\<rparr>, d3))))))"

definition share_click ::
  "'w approval_env \<Rightarrow> MMPost \<Rightarrow> string list \<Rightarrow> toolDecision \<Rightarrow> ContentBlock list \<Rightarrow> 'w \<Rightarrow> db \<Rightarrow> 'w handled \<times> db" where
  "share_click a post acceptedToolIDs td uses world d1 =
     share_decision a post acceptedToolIDs td uses
       (clicked_results (cn_json (ap_env a)) (map cb_ID uses) (td_turns td)) world d1"

definition HandleToolResult ::
  "'w approval_env \<Rightarrow> string \<Rightarrow> MMPost \<Rightarrow> Channel \<Rightarrow> string list \<Rightarrow> 'w \<Rightarrow> db \<Rightarrow> 'w handled \<times> db" where
  "HandleToolResult a userID post channel acceptedToolIDs world d =
     (case beginToolDecision a userID post channel d of
        (Inl err, d1) \<Rightarrow> (refused err [], d1)
      | (Inr td, d1) \<Rightarrow>
          share_click a post acceptedToolIDs td (clicked_uses (cn_json (ap_env a)) (mp_Id post) (td_turns td)) world d1)"

end
