(* ===== verification/Approval_Sharing.thy ===== *)
theory Approval_Sharing
  imports Approval_Properties
begin

text \<open>
  What a decision leaves behind: every open call decided and answered, results private until they are
  shared, and a share decision that discloses what it accepts and nothing else.
\<close>

section \<open>Every open call is decided\<close>

text \<open>The block a decision leaves for a call: only its status and its shared flag may change.\<close>

definition decided_block :: "string list \<Rightarrow> ContentBlock \<Rightarrow> ContentBlock \<Rightarrow> bool" where
  "decided_block acc b b' \<longleftrightarrow>
     b' = b\<lparr>cb_Status := cb_Status b', cb_Shared := cb_Shared b'\<rparr> \<and> \<not> open_use b'
     \<and> (if \<not> open_use b then b' = b
        else if cb_ID b \<notin> set acc \<and> cb_UserInteraction b = [] \<and> \<not> cb_WouldAutoExecute b
        then b' = b\<lparr>cb_Status := StatusRejected\<rparr>
        else if cb_ID b \<in> set acc \<and> cb_UserInteraction b = []
        then cb_Shared b' = cb_Shared b \<and> executed_status (cb_Status b')
        else True)"

definition decided_result :: "ContentBlock \<Rightarrow> ToolResult \<Rightarrow> bool" where
  "decided_result b tr \<longleftrightarrow> tr_ToolCallID tr = cb_ID b \<and> tr_Name tr = cb_Name b
     \<and> tr_IsError tr = (cb_Status b = StatusError \<or> cb_Status b = StatusRejected)"

lemma decide_block_decides:
  assumes "decide_block a p acc ans b st = (b', st')"
  shows "decided_block acc b b'"
    "if open_use b then \<exists>tr. de_results st' = de_results st @ [tr] \<and> decided_result b' tr
     else de_results st' = de_results st"
proof -
  have "decided_block acc b b' \<and> (if open_use b then \<exists>tr. de_results st' = de_results st @ [tr] \<and> decided_result b' tr
     else de_results st' = de_results st)"
  proof (cases rule: decide_block_cases [of b a p acc ans st])
    case approved
    note r = run_block_cases [OF approved(4) [symmetric, THEN trans, OF assms]]
    show ?thesis
      using approved(1-3) r(2) r(6)
      by (subst (1 2) r(1)) (auto simp: decided_block_def decided_result_def tool_result_def open_use_def executed_status_def block_consts)
  next
    case (auto_run b1 st1)
    note r = run_block_cases [OF auto_run(6)]
    have b1: "b1 = b\<lparr>cb_Status := cb_Status b1\<rparr>" by (rule r(1))
    have b': "b' = b1\<lparr>cb_Shared := Some True\<rparr>" "de_results st' = de_results st1"
      using assms auto_run(7) by auto
    have eq: "b' = b\<lparr>cb_Status := cb_Status b1, cb_Shared := Some True\<rparr>"
      unfolding b'(1) by (subst b1) simp
    show ?thesis
      using auto_run(1-4) r(2) r(6) eq b'(2)
      by (auto simp: decided_block_def decided_result_def tool_result_def open_use_def executed_status_def block_consts)
  qed (use assms in \<open>auto simp: decided_block_def decided_result_def tool_result_def open_use_def executed_status_def block_consts\<close>)
  then show "decided_block acc b b'"
    "if open_use b then \<exists>tr. de_results st' = de_results st @ [tr] \<and> decided_result b' tr
     else de_results st' = de_results st" by blast+
qed

lemma decide_blocks_decides:
  "decide_blocks a p acc ans bs st = (bs', st') \<Longrightarrow>
   list_all2 (decided_block acc) bs bs'
   \<and> (\<exists>trs. de_results st' = de_results st @ trs
        \<and> list_all2 decided_result (map snd (filter (\<lambda>(b, _). open_use b) (zip bs bs'))) trs)"
proof (induction bs arbitrary: st bs')
  case (Cons b bs)
  obtain b1 st1 where one: "decide_block a p acc ans b st = (b1, st1)" by fastforce
  obtain bs1 where rest: "decide_blocks a p acc ans bs st1 = (bs1, st')" "bs' = b1 # bs1"
    using Cons.prems one by (auto split: prod.splits)
  obtain trs where trs: "list_all2 (decided_block acc) bs bs1" "de_results st' = de_results st1 @ trs"
    "list_all2 decided_result (map snd (filter (\<lambda>(b, _). open_use b) (zip bs bs1))) trs"
    using Cons.IH [OF rest(1)] by blast
  show ?case
  proof (cases "open_use b")
    case True
    then obtain tr where "de_results st1 = de_results st @ [tr]" "decided_result b1 tr"
      using decide_block_decides(2) [OF one] by auto
    then show ?thesis
      using trs decide_block_decides(1) [OF one] True rest(2)
      by (intro conjI exI [of _ "tr # trs"]) simp_all
  next
    case False
    then show ?thesis
      using trs decide_block_decides [OF one] rest(2) by (intro conjI exI [of _ trs]) simp_all
  qed
qed simp

text \<open>
  C20: a decision closes every open call of the turn and answers each exactly once, in order, with an
  error result exactly when the call is left rejected or failed. An approved call stays as private as
  it was until its result is shared; a call neither accepted nor marked to run unasked is rejected.
\<close>

theorem every_open_call_decided:
  "case decide_blocks a p acc ans bs (begin_decided c world) of (bs', st) \<Rightarrow>
     list_all2 (decided_block acc) bs bs'
     \<and> list_all2 decided_result (map snd (filter (\<lambda>(b, _). open_use b) (zip bs bs'))) (de_results st)"
proof -
  obtain bs' st where d: "decide_blocks a p acc ans bs (begin_decided c world) = (bs', st)" by fastforce
  show ?thesis unfolding d prod.case using decide_blocks_decides [OF d] by (simp add: begin_decided_def)
qed

section \<open>What a share decision discloses\<close>

lemma share_block_only_shares:
  assumes "share_block acc ids now b = (b', modified, records)"
  shows "b' = b\<lparr>cb_Shared := cb_Shared b', cb_DecidedAt := cb_DecidedAt b'\<rparr>" "modified \<or> b' = b" "records \<longrightarrow> modified"
    "cb_Shared b' = cb_Shared b \<or> cb_Shared b' = Some True
       \<and> (if cb_Type b = BlockTypeToolUse then cb_ID b \<in> set acc \<inter> set ids
          else cb_Type b = BlockTypeToolResult \<and> cb_ToolUseID b \<in> set acc \<inter> set ids)"
    "cb_DecidedAt b' = cb_DecidedAt b \<or> cb_DecidedAt b = None \<and> cb_DecidedAt b' = Some now
       \<and> cb_Type b = BlockTypeToolResult \<and> cb_ToolUseID b \<in> set ids"
  using assms by (auto simp: share_block_def Let_def split: if_splits)

text \<open>
  A block after a share decision and storage, as against the block read before: it differs in nothing
  but the shared flag, which an accepted call of the clicked post and its result get, and the time of
  the decision.
\<close>

definition shared_block :: "json_env \<Rightarrow> string list \<Rightarrow> string list \<Rightarrow> ContentBlock \<Rightarrow> ContentBlock \<Rightarrow> bool" where
  "shared_block env acc ids b b' \<longleftrightarrow>
     b' = (stored_block env b)\<lparr>cb_Shared := cb_Shared b', cb_DecidedAt := cb_DecidedAt b'\<rparr>
     \<and> (cb_Shared b' = cb_Shared b \<or> cb_Shared b' = Some True
          \<and> (if cb_Type b = BlockTypeToolUse then cb_ID b \<in> set acc \<inter> set ids
             else cb_Type b = BlockTypeToolResult \<and> cb_ToolUseID b \<in> set acc \<inter> set ids))
     \<and> (cb_DecidedAt b = None \<or> cb_DecidedAt b' = cb_DecidedAt b)"

lemma share_block_shared:
  "shared_block env acc ids b (stored_block env (fst (share_block acc ids now b)))"
proof -
  obtain b' m r where s: "share_block acc ids now b = (b', m, r)" by (cases "share_block acc ids now b") auto
  note only = share_block_only_shares [OF s]
  have "stored_block env b' = (stored_block env b)\<lparr>cb_Shared := cb_Shared b', cb_DecidedAt := cb_DecidedAt b'\<rparr>"
    by (subst only(1)) (simp add: stored_block_def)
  moreover have "cb_Shared (stored_block env b') = cb_Shared b'" "cb_DecidedAt (stored_block env b') = cb_DecidedAt b'"
    by (simp_all add: stored_block_def)
  ultimately show ?thesis using only(4,5) by (auto simp: shared_block_def s)
qed

lemma share_block_ints:
  assumes "int64 now" "ints_ok b"
  shows "ints_ok (fst (share_block acc ids now b))"
  using assms by (auto simp: share_block_def ints_ok_def Let_def)

lemma turn_blocks_ints: "list_all ints_ok (turn_blocks env t)"
  using decoded_ints by (auto simp: turn_blocks_def split: sum.split)

lemma share_turn_Some:
  assumes "share_turn env acc ids now t = Inr (Some (r, u))"
  shows "up_turn u = t" "marshalBlocks env (map (fst \<circ> share_block acc ids now) (turn_blocks env t)) = Inr (up_content u)"
    "turn_blocks env t \<noteq> []"
  using assms by (auto simp: share_turn_def Let_def split: if_splits sum.splits)

lemma map_sum_Inr:
  assumes "map_sum f g x = Inr y"
  obtains z where "x = Inr z" "y = g z"
  using assms by (cases x) auto

lemma share_updates_turn:
  assumes "share_updates env acc ids now turns = Inr us" "u \<in> set us"
  obtains r t where "t \<in> set turns" "share_turn env acc ids now t = Inr (Some (r, u))"
proof -
  obtain ms where ms: "mapR (share_turn env acc ids now) turns = Inr ms" "\<exists>r. Some (r, u) \<in> set ms"
    using assms by (fastforce simp: share_updates_def map_filter_def Let_def elim!: map_sum_Inr)
  have "list_all2 (\<lambda>t m. share_turn env acc ids now t = Inr m) turns ms" using ms(1) by (rule mapR_Inr)
  then show thesis using ms(2) that by (fastforce simp: list_all2_conv_all_nth in_set_conv_nth)
qed

text \<open>
  C10: what a share decision writes discloses nothing but what it accepts: read back, every block of a
  rewritten turn is the one read before except that accepted calls of the clicked post and their
  results are shared and decisions gain their time.
\<close>

theorem share_discloses_only_accepted:
  assumes "share_updates env acc ids now turns = Inr us" "int64 now"
  shows "list_all (\<lambda>u. up_turn u \<in> set turns
    \<and> (case UnmarshalBlocks env (Some (jsonb (up_content u))) of Inl _ \<Rightarrow> False
       | Inr bs' \<Rightarrow> list_all2 (shared_block env acc ids) (turn_blocks env (up_turn u)) bs')) us"
  unfolding list_all_iff
proof
  fix u
  assume "u \<in> set us"
  then obtain r t where t: "t \<in> set turns" "share_turn env acc ids now t = Inr (Some (r, u))"
    using share_updates_turn [OF assms(1)] by blast
  note u = share_turn_Some [OF t(2)]
  have "list_all ints_ok (map (fst \<circ> share_block acc ids now) (turn_blocks env t))"
    using turn_blocks_ints share_block_ints [OF assms(2)] by (auto simp: list_all_iff)
  from UnmarshalBlocks_stored [OF u(2) this] show "up_turn u \<in> set turns
    \<and> (case UnmarshalBlocks env (Some (jsonb (up_content u))) of Inl _ \<Rightarrow> False
       | Inr bs' \<Rightarrow> list_all2 (shared_block env acc ids) (turn_blocks env (up_turn u)) bs')"
    using t(1) u(1) by (simp add: list_all2_map2 share_block_shared list_all2_same)
qed

section \<open>Share clicks between decisions\<close>

lemma share_turn_claimable:
  assumes "share_turn env acc ids now t = Inr (Some (r, u))" "int64 now"
  obtains e where "tn_Content t = Some e" "claimable env (jsonb (up_content u)) = list_ex pending_use (turn_blocks env t)"
    "UnmarshalBlocks env (Some e) = Inr (turn_blocks env t)"
proof -
  note u = share_turn_Some [OF assms(1)]
  have "list_all ints_ok (map (fst \<circ> share_block acc ids now) (turn_blocks env t))"
    using turn_blocks_ints share_block_ints [OF assms(2)] by (auto simp: list_all_iff)
  then have "claimable env (jsonb (up_content u)) = list_ex pending_use (map (fst \<circ> share_block acc ids now) (turn_blocks env t))"
    using claimable_marshalled [OF u(2)] by simp
  moreover have "pending_use (fst (share_block acc ids now b)) = pending_use b" for b
    by (auto simp: share_block_def pending_use_def Let_def)
  ultimately have "claimable env (jsonb (up_content u)) = list_ex pending_use (turn_blocks env t)"
    by (simp add: list_ex_iff)
  moreover have "tn_Content t \<noteq> None" using u(3) by (cases "tn_Content t") (simp_all add: turn_blocks_def UnmarshalBlocks_def)
  moreover have "UnmarshalBlocks env (tn_Content t) = Inr (turn_blocks env t)"
    using u(3) by (cases "UnmarshalBlocks env (tn_Content t)") (simp_all add: turn_blocks_def)
  ultimately show thesis using that by (metis option.exhaust)
qed

text \<open>A share update neither opens a call nor closes one, so writing and undoing it keep claims.\<close>

definition even_update :: "json_env \<Rightarrow> turnUpdate \<Rightarrow> bool" where
  "even_update env u \<longleftrightarrow> (case tn_Content (up_turn u) of None \<Rightarrow> False
     | Some e \<Rightarrow> claimable env (jsonb (up_content u)) = claimable env (jsonb e))"

lemma even_updates:
  assumes "share_updates env acc ids now turns = Inr us" "int64 now" "list_all canonical turns"
  shows "list_all (even_update env) us"
  unfolding list_all_iff
proof
  fix u
  assume "u \<in> set us"
  then obtain r t where t: "t \<in> set turns" "share_turn env acc ids now t = Inr (Some (r, u))"
    using share_updates_turn [OF assms(1)] by blast
  obtain e where e: "tn_Content t = Some e" "claimable env (jsonb (up_content u)) = list_ex pending_use (turn_blocks env t)"
    "UnmarshalBlocks env (Some e) = Inr (turn_blocks env t)"
    using share_turn_claimable [OF t(2) assms(2)] .
  have "jsonb e = e" using assms(3) t(1) e(1) by (auto simp: list_all_iff canonical_def)
  then show "even_update env u"
    using e share_turn_Some(1) [OF t(2)] by (simp add: even_update_def claimable_def)
qed

lemma undo_extends:
  "traced env w \<Longrightarrow> list_all (even_update env) (map snd us) \<Longrightarrow> extends_trace env d (undoTurnUpdates w us d)"
proof (induction w us d rule: undoTurnUpdates.induct)
  case (2 w k u us d)
  obtain e where e: "tn_Content (up_turn u) = Some e" "claimable env (jsonb (up_content u)) = claimable env (jsonb e)"
    using 2(3) by (auto simp: even_update_def split: option.splits)
  let ?d1 = "snd (CompareAndSwapTurnContent (we_io w k 1) (tn_ID (up_turn u)) (Some (up_content u)) (Some e) (we_others w k 1 d))"
  have "extends_trace env d ?d1"
    using e by (intro extends_trans [OF traced_others [OF 2(2)] quiet_extends [OF cas_quiet]]) auto
  then show ?case using 2 e(1) extends_trans by simp
qed simp

lemma apply_updates_extends:
  assumes "traced env w"
  shows "list_all (even_update env) us \<Longrightarrow> list_all (even_update env) (map snd applied) \<Longrightarrow>
    extends_trace env d (snd (apply_updates w postID k applied us d))"
proof (induction us arbitrary: k applied d)
  case (Cons u us)
  obtain e where e: "tn_Content (up_turn u) = Some e" "claimable env (jsonb (up_content u)) = claimable env (jsonb e)"
    using Cons.prems(1) by (auto simp: even_update_def split: option.splits)
  obtain r d1 where c: "CompareAndSwapTurnContent (we_io w k 0) (tn_ID (up_turn u)) (tn_Content (up_turn u)) (Some (up_content u))
      (we_others w k 0 d) = (r, d1)" by fastforce
  have "extends_trace env d (snd (CompareAndSwapTurnContent (we_io w k 0) (tn_ID (up_turn u)) (Some e) (Some (up_content u))
      (we_others w k 0 d)))"
    using e by (intro extends_trans [OF traced_others [OF assms] quiet_extends [OF cas_quiet]]) auto
  then have d1: "extends_trace env d d1" using c e(1) by simp
  have undo: "extends_trace env d (undoTurnUpdates w applied d1)"
    by (rule extends_trans [OF d1 undo_extends [OF assms Cons.prems(2)]])
  have rest: "extends_trace env d (snd (apply_updates w postID (Suc k) ((k, u) # applied) us d1))"
    by (rule extends_trans [OF d1 Cons.IH]) (use Cons.prems in simp_all)
  consider err where "r = Inl err" | "r = Inr True" | "r = Inr False" by (cases r) auto
  then show ?case
    by cases (use c undo d1 rest in simp_all)
qed simp

lemma share_decision_extends:
  assumes "traced (cn_json (ap_env a)) (ap_writes a)" "traced (cn_json (ap_env a)) (ap_loopWrites a)"
    and "int64 (we_now (ap_writes a) 0)" "list_all canonical (td_turns td)"
  shows "extends_trace (cn_json (ap_env a)) d (snd (share_decision a post acc td uses results world d))
    \<and> hd_ran (fst (share_decision a post acc td uses results world d)) = []"
proof (cases "share_updates (cn_json (ap_env a)) acc (map cb_ID uses) (we_now (ap_writes a) 0) (td_turns td)")
  case (Inl err)
  then show ?thesis by (auto simp: share_decision_def Let_def split: option.split)
next
  case (Inr us)
  let ?env = "cn_json (ap_env a)"
  obtain err d1 where ap: "apply_updates (ap_writes a) (mp_Id post) 3 [] us d = (err, d1)" by fastforce
  have d1: "extends_trace ?env d d1"
    using apply_updates_extends [OF assms(1) even_updates [OF Inr assms(3,4)], of "[]" d "mp_Id post" 3] ap by simp
  let ?f = "streamToolFollowUp a (3 + length us) (td_policy td) post (td_conv td)
    \<lparr>fo_Unattended = False, fo_UserRejected = list_ex isUserRejectedToolUse uses, fo_Held = True\<rparr> world d1"
  obtain r d2 where f: "?f = (r, d2)" by fastforce
  have "extends_trace ?env d1 d2" using streamToolFollowUp_extends [OF assms(1,2)] f by (metis snd_conv)
  then have d2: "extends_trace ?env d d2" by (rule extends_trans [OF d1])
  obtain h d' where h: "share_decision a post acc td uses results world d = (h, d')" by fastforce
  have "(d' = d \<or> d' = d1 \<or> d' = d2) \<and> hd_ran h = []"
    using h unfolding share_decision_def Let_def Inr sum.case ap prod.case
    by (simp only: f prod.case split: if_splits option.splits sum.splits) auto
  then show ?thesis
    using d1 d2 h by auto
qed


section \<open>Concrete clicks\<close>


text \<open>
  \<open>HandleToolResult\<close> does not ask whether results exist. A share click that arrives while the approved
  call runs marks the claimed call shared: the turn no longer has the claimed content, so the outcome
  of the call that ran cannot be stored and its result is lost; the call stays accepted, and every
  further click on the post is stale.
\<close>

lemma changed_turn_loses_outcome:
  assumes "marshalBlocks (cn_json (ap_env a)) bs = Inr v" "we_io (ap_writes a) 4 0 = IoOk" "we_others (ap_writes a) 4 0 d = d1"
    and "list_all (\<lambda>t. tn_ID t = tn_ID (cc_turn cc) \<longrightarrow> tn_Content t \<noteq> Some (jsonb claimed)) (db_turns d1)"
  shows "record_outcome a cc claimed bs st d = (Inl (ErrorNew (''turn '' @ tn_ID (cc_turn cc) @ '' changed while its tool calls ran'')), d1)"
proof -
  have "filter (\<lambda>t. tn_ID t = tn_ID (cc_turn cc) \<and> tn_Content t = Some (jsonb claimed)) (db_turns d1) = []"
    "map (\<lambda>t. if tn_ID t = tn_ID (cc_turn cc) \<and> tn_Content t = Some (jsonb claimed) then f t else t) (db_turns d1) = db_turns d1" for f
    using assms(4) by (auto simp: filter_empty_conv list_all_iff intro!: map_idI)
  then show ?thesis
    using assms(1-3) by (simp add: record_outcome_def Let_def CompareAndSwapTurnContent_def cas_statement_def run_sql_def update_turns_def)
qed

definition ex_claimed :: Turn where
  "ex_claimed = (new_turn ''t'' ''c1'' (Some ''p1'') ''assistant''
     (case marshalBlocks example_json [claim_block ex_tool_use] of Inl _ \<Rightarrow> JNull | Inr v \<Rightarrow> jsonb v) 5)\<lparr>tn_Sequence := 2\<rparr>"

lemma early_share_rewrites_claim:
  "case share_updates example_json [''t1''] [''t1''] 7 [ex_claimed] of Inl _ \<Rightarrow> False
   | Inr us \<Rightarrow> map (tn_ID \<circ> up_turn) us = [''t''] \<and> list_all (\<lambda>u. Some (jsonb (up_content u)) \<noteq> tn_Content ex_claimed) us
       \<and> findPendingToolTurn example_json [ex_claimed\<lparr>tn_Content := Some (jsonb (up_content (hd us)))\<rparr>] ''p1''
         = Inl (wrapf ''clicked post has no pending tool calls'' ErrStaleToolClick)"
  by code_simp

definition ex_answered :: Turn where
  "ex_answered = (new_turn ''r'' ''c1'' None ''tool_result'' (case marshalBlocks example_json [block0\<lparr>cb_Type := BlockTypeToolResult,
     cb_ToolUseID := ''t1'', cb_Content := ''secret'', cb_Shared := Some False\<rparr>] of Inl _ \<Rightarrow> JNull | Inr v \<Rightarrow> jsonb v) 5)\<lparr>tn_Sequence := 3\<rparr>"

lemma share_discloses_only_accepted_witness:
  "case share_updates example_json [''t1''] [''t1''] 7 [ex_claimed, ex_answered] of Inl _ \<Rightarrow> False
   | Inr us \<Rightarrow> length us = 2 \<and> list_all (\<lambda>u. up_turn u \<in> set [ex_claimed, ex_answered]
    \<and> (case UnmarshalBlocks example_json (Some (jsonb (up_content u))) of Inl _ \<Rightarrow> False
       | Inr bs' \<Rightarrow> list_all2 (shared_block example_json [''t1''] [''t1'']) (turn_blocks example_json (up_turn u)) bs')) us"
proof -
  have "case share_updates example_json [''t1''] [''t1''] 7 [ex_claimed, ex_answered] of Inl _ \<Rightarrow> False | Inr us \<Rightarrow> length us = 2"
    by code_simp
  then obtain us where us: "share_updates example_json [''t1''] [''t1''] 7 [ex_claimed, ex_answered] = Inr us" "length us = 2"
    by (auto split: sum.splits)
  show ?thesis
    unfolding us(1) sum.case using us(2) share_discloses_only_accepted [OF us(1)] by (simp add: int64_def)
qed

end
