(* ===== verification/Kv_Store.thy ===== *)
theory Kv_Store
  imports Turn_Store
begin

text \<open>
  The plugin's key-value store as the code uses it through \<open>src/mmapi/client.go\<close>: a map from keys to
  bytes. A write is atomic and may fail before or after it took effect. An expiry is not a clock here:
  an expired entry is one that another writer removed.

  The store is a \<open>cas_register\<close> like the turns table, so what a claim by conditional write guarantees
  holds for it too.
\<close>

type_synonym kv = "string \<Rightarrow> string option"

definition ErrKVNotFound :: go_error where
  "ErrKVNotFound = Sentinel ''mmapi.ErrKVNotFound'' ''kv key not found''"

definition IsKVNotFound :: "go_error \<Rightarrow> bool" where
  "IsKVNotFound err = errors_Is err ErrKVNotFound"

definition run_kv :: "io \<Rightarrow> (kv \<Rightarrow> bool \<times> kv) \<Rightarrow> kv \<Rightarrow> bool result \<times> kv" where
  "run_kv io write s =
     (case io of
        IoOk \<Rightarrow> (let (applied, s') = write s in (Inr applied, s'))
      | IoFails e applied \<Rightarrow> (Inl e, if applied then snd (write s) else s))"

text \<open>Raw bytes; empty bytes are a missing key.\<close>

definition KVGet :: "io \<Rightarrow> string \<Rightarrow> kv \<Rightarrow> string result" where
  "KVGet io key s =
     (case io of
        IoFails e _ \<Rightarrow> Inl e
      | IoOk \<Rightarrow> (case s key of None \<Rightarrow> Inl ErrKVNotFound | Some raw \<Rightarrow> if raw = [] then Inl ErrKVNotFound else Inr raw))"

definition KVSet :: "io \<Rightarrow> string \<Rightarrow> string \<Rightarrow> kv \<Rightarrow> go_error option \<times> kv" where
  "KVSet io key value s =
     (case run_kv io (\<lambda>s. (True, s(key \<mapsto> value))) s of (Inl e, s') \<Rightarrow> (Some e, s') | (Inr _, s') \<Rightarrow> (None, s'))"

definition KVDelete :: "io \<Rightarrow> string \<Rightarrow> kv \<Rightarrow> go_error option \<times> kv" where
  "KVDelete io key s =
     (case run_kv io (\<lambda>s. (True, s(key := None))) s of (Inl e, s') \<Rightarrow> (Some e, s') | (Inr _, s') \<Rightarrow> (None, s'))"

text \<open>
  An absent old value asks for an absent key, an absent new value deletes. With an expiry the entry
  written may vanish later.
\<close>

definition kv_cas :: "string \<Rightarrow> string option \<Rightarrow> string option \<Rightarrow> kv \<Rightarrow> bool \<times> kv" where
  "kv_cas key old new s = (if s key = old then (True, s(key := new)) else (False, s))"

definition KVCompareAndSet :: "io \<Rightarrow> string \<Rightarrow> string option \<Rightarrow> string option \<Rightarrow> kv \<Rightarrow> bool result \<times> kv" where
  "KVCompareAndSet io key oldValue newValue = run_kv io (kv_cas key oldValue newValue)"

definition KVCompareAndSetWithExpiry ::
  "io \<Rightarrow> string \<Rightarrow> string option \<Rightarrow> string option \<Rightarrow> int \<Rightarrow> kv \<Rightarrow> bool result \<times> kv" where
  "KVCompareAndSetWithExpiry io key oldValue newValue ttl = KVCompareAndSet io key oldValue newValue"

lemma KVCompareAndSet_cases:
  assumes "KVCompareAndSet io key old new s = (r, s')"
  obtains (won) "r = Inr True" "s key = old" "s' = s(key := new)"
  | (lost) "r = Inr False" "s key \<noteq> old" "s' = s"
  | (failed) err where "r = Inl err" "s' = s"
  | (late) err where "r = Inl err" "s key = old" "s' = s(key := new)"
proof -
  have "(r, s') = KVCompareAndSet io key old new s" using assms by simp
  then have "r = Inr True \<and> s key = old \<and> s' = s(key := new) \<or> r = Inr False \<and> s key \<noteq> old \<and> s' = s
      \<or> (\<exists>err. r = Inl err) \<and> (s' = s \<or> s key = old \<and> s' = s(key := new))"
    unfolding KVCompareAndSet_def run_kv_def kv_cas_def by (cases io; cases "s key = old") (simp_all split: if_splits)
  then show thesis using won lost failed late by blast
qed

interpretation kv_cell: cas_register "\<lambda>s k. s k" "\<lambda>io k e v. KVCompareAndSet io k (Some e) (Some v)" id "\<lambda>_. True"
proof
  fix s s' :: kv and i k e v
  assume "KVCompareAndSet i k (Some e) (Some v) s = (Inr True, s')"
  then show "s k = Some (id e) \<and> s' k = Some (id v)" by (cases rule: KVCompareAndSet_cases) auto
next
  fix s s' :: kv and i k e v r
  assume "KVCompareAndSet i k (Some e) (Some v) s = (r, s')"
  then show "s' = s \<or> (s k = Some (id e) \<and> s' k = Some (id v))" by (cases rule: KVCompareAndSet_cases) auto
next
  fix s :: kv and i and k k' e v :: string
  assume "k' \<noteq> k"
  then show "snd (KVCompareAndSet i k (Some e) (Some v) s) k' = s k'"
    by (cases "KVCompareAndSet i k (Some e) (Some v) s" rule: prod.exhaust) (auto elim: KVCompareAndSet_cases)
qed

end
