(* ===== verification/Wakeup.thy ===== *)
theory Wakeup
  imports Approval_Properties Kv_Store
begin

text \<open>
  Waits: a turn may ask to be resumed later (\<open>src/mmtools/wait_for_async_work.go\<close>,
  \<open>src/conversations/wakeup.go\<close>). The pending wait of a thread and agent is a marker in the key-value
  store; scheduling claims it, and the scheduled trigger, a newer message, the requester's controls and
  a regeneration race to consume it.

  The state is the store and the log of calls to the cluster's job scheduler, whose answers are a
  parameter (\<open>wk_schedule\<close>). Before statement \<open>k\<close> of an operation other requests commit \<open>wk_others k\<close>.
  Times are nanoseconds. Websocket events, logs and spans are left out, and so is the resume mutex,
  which only delays a wake.
\<close>

section \<open>Markers and jobs\<close>

record wakeMarker =
  wm_ConversationID :: string
  wm_ScheduledAt :: int
  wm_ResponsePostID :: string
  wm_RequesterUserID :: string
  wm_ResumeAt :: int
  wm_DurationMinutes :: int

record WakeJob =
  wj_PostID :: string
  wj_UserID :: string
  wj_marker :: wakeMarker
  wj_cancelOnResume :: bool

definition e_int_omit :: "string \<Rightarrow> int \<Rightarrow> (string \<times> json) list" where
  "e_int_omit k i = (if i = 0 then [] else e_int k i)"

definition members_wakeMarker :: "wakeMarker \<Rightarrow> (string \<times> json) list" where
  "members_wakeMarker m = e_string ''conversation_id'' (wm_ConversationID m) @ e_int ''scheduled_at'' (wm_ScheduledAt m)
     @ e_string_omit ''response_post_id'' (wm_ResponsePostID m) @ e_string_omit ''requester_user_id'' (wm_RequesterUserID m)
     @ e_int_omit ''resume_at'' (wm_ResumeAt m) @ e_int_omit ''duration_minutes'' (wm_DurationMinutes m)"

definition encode_wakeMarker :: "wakeMarker \<Rightarrow> json" where
  "encode_wakeMarker m = JObj (members_wakeMarker m)"

text \<open>The fields of the embedded marker are promoted; \<open>cancelOnResume\<close> is not exported.\<close>

definition encode_WakeJob :: "WakeJob \<Rightarrow> json" where
  "encode_WakeJob j = JObj (e_string ''post_id'' (wj_PostID j) @ e_string ''user_id'' (wj_UserID j)
     @ members_wakeMarker (wj_marker j))"

definition fields_wakeMarker :: "wakeMarker fields" where
  "fields_wakeMarker =
     [(''conversation_id'', d_string (\<lambda>s. wm_ConversationID_update (\<lambda>_. s))),
      (''scheduled_at'', d_int (\<lambda>i. wm_ScheduledAt_update (\<lambda>_. i))),
      (''response_post_id'', d_string (\<lambda>s. wm_ResponsePostID_update (\<lambda>_. s))),
      (''requester_user_id'', d_string (\<lambda>s. wm_RequesterUserID_update (\<lambda>_. s))),
      (''resume_at'', d_int (\<lambda>i. wm_ResumeAt_update (\<lambda>_. i))),
      (''duration_minutes'', d_int (\<lambda>i. wm_DurationMinutes_update (\<lambda>_. i)))]"

definition fields_WakeJob :: "WakeJob fields" where
  "fields_WakeJob =
     [(''post_id'', d_string (\<lambda>s. wj_PostID_update (\<lambda>_. s))), (''user_id'', d_string (\<lambda>s. wj_UserID_update (\<lambda>_. s)))]
     @ map (map_prod id (\<lambda>d v. map_sum id wj_marker_update (d v))) fields_wakeMarker"

definition marker0 :: wakeMarker where
  "marker0 = \<lparr>wm_ConversationID = [], wm_ScheduledAt = 0, wm_ResponsePostID = [], wm_RequesterUserID = [],
     wm_ResumeAt = 0, wm_DurationMinutes = 0\<rparr>"

definition wakeJobFromProps :: "json \<Rightarrow> WakeJob result" where
  "wakeJobFromProps props =
     (case decode_struct fields_WakeJob \<lparr>wj_PostID = [], wj_UserID = [], wj_marker = marker0, wj_cancelOnResume = False\<rparr> props of
        Inl err \<Rightarrow> Inl (wrapf ''failed to unmarshal wake job props'' err)
      | Inr job \<Rightarrow>
          (if wj_PostID job = [] \<or> wm_ConversationID (wj_marker job) = [] \<or> wj_UserID job = []
              \<or> wm_ScheduledAt (wj_marker job) = 0
           then Inl (ErrorNew ''wake job props missing post_id, conversation_id, user_id, or scheduled_at'')
           else Inr job))"

definition WakeJobKeyPrefix :: string where "WakeJobKeyPrefix = ''wait_wake_''"
definition wakeMarkerKeyPrefix :: string where "wakeMarkerKeyPrefix = ''wait_thread_''"
definition maxConsecutiveWakes :: nat where "maxConsecutiveWakes = 20"

definition threadRootID :: "MMPost \<Rightarrow> string" where
  "threadRootID post = (if mp_RootId post \<noteq> [] then mp_RootId post else mp_Id post)"

definition threadWakeMarkerKey :: "string \<Rightarrow> string \<Rightarrow> string" where
  "threadWakeMarkerKey rootPostID botID = wakeMarkerKeyPrefix @ rootPostID @ ''_'' @ botID"

definition responsePostMarkerKey :: "MMPost \<Rightarrow> string" where
  "responsePostMarkerKey post = threadWakeMarkerKey (threadRootID post) (mp_UserId post)"

definition Minute :: int where "Minute = 60 * 1000000000"
definition resumeLockMaxWait :: int where "resumeLockMaxWait = 60 * Minute"
definition wakeMarkerTTL :: int where "wakeMarkerTTL = 2 * 60 * Minute"

definition UnixMilli :: "int \<Rightarrow> int" where "UnixMilli t = t div 1000000"

section \<open>State\<close>

datatype scheduler_call = ScheduleOnce string int WakeJob | Cancel string

record 'w wake_env =
  wk_approval :: "'w approval_env"
  wk_io :: "nat \<Rightarrow> io"
  wk_others :: "nat \<Rightarrow> kv \<Rightarrow> kv"
  wk_hasScheduler :: bool
  wk_schedule :: "string \<Rightarrow> int \<Rightarrow> WakeJob \<Rightarrow> go_error option"
  wk_now :: int
  wk_deleted :: "Account \<Rightarrow> bool"
  wk_createPost :: "MMPost \<Rightarrow> string result"

record wakes =
  ws_kv :: kv
  ws_calls :: "scheduler_call list"

definition ie :: "'w wake_env \<Rightarrow> interaction_env" where
  "ie e = ap_interaction (wk_approval e)"

definition marker_text :: "'w wake_env \<Rightarrow> wakeMarker \<Rightarrow> string" where
  "marker_text e m = ie_marshal (ie e) (encode_wakeMarker m)"

definition others :: "'w wake_env \<Rightarrow> nat \<Rightarrow> wakes \<Rightarrow> wakes" where
  "others e k s = s\<lparr>ws_kv := wk_others e k (ws_kv s)\<rparr>"

definition with_kv :: "wakes \<Rightarrow> 'b \<times> kv \<Rightarrow> 'b \<times> wakes" where
  "with_kv s p = (fst p, s\<lparr>ws_kv := snd p\<rparr>)"

definition scheduler :: "scheduler_call \<Rightarrow> wakes \<Rightarrow> wakes" where
  "scheduler call s = s\<lparr>ws_calls := ws_calls s @ [call]\<rparr>"

section \<open>Scheduling\<close>

definition ErrWaitAlreadyScheduled :: go_error where
  "ErrWaitAlreadyScheduled = Sentinel ''mmtools.ErrWaitAlreadyScheduled'' ''a wait is already pending in this thread''"

text \<open>Deletes the marker if it still holds the expected value.\<close>

definition consumeWakeMarker :: "'w wake_env \<Rightarrow> nat \<Rightarrow> string \<Rightarrow> wakeMarker \<Rightarrow> wakes \<Rightarrow> bool result \<times> wakes" where
  "consumeWakeMarker e k key expected s =
     (let s' = others e k s in with_kv s' (KVCompareAndSet (wk_io e k) key (Some (marker_text e expected)) None (ws_kv s')))"

definition wake_job :: "'w wake_env \<Rightarrow> string \<Rightarrow> string \<Rightarrow> string \<Rightarrow> int \<Rightarrow> WakeJob" where
  "wake_job e convID postID userID wait =
     \<lparr>wj_PostID = postID, wj_UserID = userID,
      wj_marker = \<lparr>wm_ConversationID = convID, wm_ScheduledAt = UnixMilli (wk_now e), wm_ResponsePostID = postID,
        wm_RequesterUserID = userID, wm_ResumeAt = UnixMilli (wk_now e + wait),
        wm_DurationMinutes = (if 0 \<le> wait then wait div Minute else - ((- wait) div Minute))\<rparr>,
      wj_cancelOnResume = False\<rparr>"

definition ScheduleWake :: "'w wake_env \<Rightarrow> string \<Rightarrow> string \<Rightarrow> int \<Rightarrow> wakes \<Rightarrow> go_error option \<times> wakes" where
  "ScheduleWake e postID userID wait s =
     (case cn_GetPost (ap_env (wk_approval e)) postID of
        Inl err \<Rightarrow> (Some (wrapf ''failed to get response post'' err), s)
      | Inr post \<Rightarrow>
          (let convID = string_prop post ConversationIDProp; key = responsePostMarkerKey post;
               job = wake_job e convID postID userID wait; s0 = others e 0 s
           in if convID = [] then (Some (ErrorNew (''response post '' @ postID @ '' has no conversation'')), s)
              else (case with_kv s0 (KVCompareAndSetWithExpiry (wk_io e 0) key None (Some (marker_text e (wj_marker job)))
                            wakeMarkerTTL (ws_kv s0)) of
                      (Inl err, s1) \<Rightarrow> (Some (wrapf ''failed to record pending wake'' err), s1)
                    | (Inr claimed, s1) \<Rightarrow>
                        (if \<not> claimed then (Some ErrWaitAlreadyScheduled, s1)
                         else (let jobKey = WakeJobKeyPrefix @ convID; runAt = wk_now e + wait;
                                   s2 = scheduler (ScheduleOnce jobKey runAt job) s1
                               in case wk_schedule e jobKey runAt job of
                                    None \<Rightarrow> (None, s2)
                                  | Some err \<Rightarrow> (Some (wrapf ''failed to schedule wake'' err),
                                      snd (consumeWakeMarker e 1 key (wj_marker job) s2)))))))"

definition minWaitMinutes :: int where "minWaitMinutes = 1"
definition maxWaitMinutes :: int where "maxWaitMinutes = 30"

definition waitAlreadyScheduledMessage :: string where
  "waitAlreadyScheduledMessage = ''A wait is already pending in this thread, so no new wait was added. Wrap up your ''
     @ ''current response now.''"

record WaitForAsyncWorkArgs =
  wa_Minutes :: int
  wa_Reason :: string

text \<open>The tool; the requester is the one of the turn that runs it.\<close>

definition resolveWaitForAsyncWork ::
  "'w wake_env \<Rightarrow> string \<Rightarrow> string \<Rightarrow> WaitForAsyncWorkArgs result \<Rightarrow> wakes \<Rightarrow> (string \<times> go_error option) \<times> wakes" where
  "resolveWaitForAsyncWork e responsePostID requesterID getArgs s =
     (case getArgs of
        Inl err \<Rightarrow> ((''invalid parameters to function'', Some (wrapf ''failed to get arguments for wait_for_async_work'' err)), s)
      | Inr args \<Rightarrow>
          (let reason = TrimSpace (wa_Reason args); minutes = min (max (wa_Minutes args) minWaitMinutes) maxWaitMinutes
           in if reason = [] then ((''reason is required'', Some (ErrorNew ''wait_for_async_work requires a reason'')), s)
              else (case ScheduleWake e responsePostID requesterID (minutes * Minute) s of
                      (Some err, s') \<Rightarrow>
                        (if errors_Is err ErrWaitAlreadyScheduled then ((waitAlreadyScheduledMessage, None), s')
                         else ((''failed to schedule wait'', Some (wrapf ''wait_for_async_work schedule failed'' err)), s'))
                    | (None, s') \<Rightarrow>
                        ((''Waiting ~'' @ Itoa_int minutes @ '' minutes. You will be re-invoked to check on: '' @ reason
                            @ ''. Wrap up your current response now; do not keep polling.'', None), s'))))"

section \<open>Ending a wait early\<close>

definition cancelWakeMarker :: "'w wake_env \<Rightarrow> nat \<Rightarrow> string \<Rightarrow> wakeMarker \<Rightarrow> wakes \<Rightarrow> bool \<times> wakes" where
  "cancelWakeMarker e k key marker s =
     (case consumeWakeMarker e k key marker s of
        (Inr True, s') \<Rightarrow> (True, scheduler (Cancel (WakeJobKeyPrefix @ wm_ConversationID marker)) s')
      | (_, s') \<Rightarrow> (False, s'))"

definition get_marker :: "'w wake_env \<Rightarrow> nat \<Rightarrow> string \<Rightarrow> wakes \<Rightarrow> wakeMarker result" where
  "get_marker e k key s =
     (case KVGet (wk_io e k) key (ws_kv s) of
        Inl err \<Rightarrow> Inl err
      | Inr raw \<Rightarrow> map_sum (wrapf (''failed to unmarshal value for key '' @ key)) id (json_Unmarshal (ie e) fields_wakeMarker marker0 raw))"

definition cancelThreadWake :: "'w wake_env \<Rightarrow> nat \<Rightarrow> string \<Rightarrow> wakes \<Rightarrow> bool \<times> wakes" where
  "cancelThreadWake e k key s =
     (if \<not> wk_hasScheduler e then (False, s)
      else let s0 = others e k s
        in case get_marker e k key s0 of
             Inl err \<Rightarrow> (False, s0)
           | Inr marker \<Rightarrow> cancelWakeMarker e (Suc k) key marker s0)"

definition ErrNoPendingWait :: go_error where
  "ErrNoPendingWait = Sentinel ''conversations.ErrNoPendingWait'' ''no pending wait for this post''"

definition ErrNotWaitOwner :: go_error where
  "ErrNotWaitOwner = Sentinel ''conversations.ErrNotWaitOwner'' ''only the wait requester can control it''"

definition pendingWaitForPost :: "'w wake_env \<Rightarrow> nat \<Rightarrow> MMPost \<Rightarrow> wakes \<Rightarrow> wakeMarker result" where
  "pendingWaitForPost e k post s =
     (if \<not> wk_hasScheduler e then Inl ErrNoPendingWait
      else case get_marker e k (responsePostMarkerKey post) s of
             Inl err \<Rightarrow> if IsKVNotFound err then Inl ErrNoPendingWait else Inl (wrapf ''failed to read pending wake'' err)
           | Inr marker \<Rightarrow>
               (if wm_ConversationID marker = [] \<or> wm_ResponsePostID marker \<noteq> [] \<and> wm_ResponsePostID marker \<noteq> mp_Id post
                then Inl ErrNoPendingWait else Inr marker))"

definition HandleWaitCancel :: "'w wake_env \<Rightarrow> string \<Rightarrow> MMPost \<Rightarrow> wakes \<Rightarrow> go_error option \<times> wakes" where
  "HandleWaitCancel e userID post s =
     (let s0 = others e 0 s
      in case pendingWaitForPost e 0 post s0 of
           Inl err \<Rightarrow> (Some err, s0)
         | Inr marker \<Rightarrow>
             (if wm_RequesterUserID marker \<noteq> userID then (Some ErrNotWaitOwner, s0)
              else (case cancelWakeMarker e 1 (responsePostMarkerKey post) marker s0 of
                      (True, s1) \<Rightarrow> (None, s1) | (False, s1) \<Rightarrow> (Some ErrNoPendingWait, s1))))"

text \<open>The job a check-now resumes with, which \<open>runWake\<close> then runs as it runs a fired one.\<close>

definition HandleWaitCheckNow :: "'w wake_env \<Rightarrow> string \<Rightarrow> MMPost \<Rightarrow> wakes \<Rightarrow> WakeJob result" where
  "HandleWaitCheckNow e userID post s =
     (case pendingWaitForPost e 0 post s of
        Inl err \<Rightarrow> Inl err
      | Inr marker \<Rightarrow>
          (if wm_RequesterUserID marker \<noteq> userID then Inl ErrNotWaitOwner
           else Inr \<lparr>wj_PostID = (if wm_ResponsePostID marker = [] then mp_Id post else wm_ResponsePostID marker),
             wj_UserID = wm_RequesterUserID marker, wj_marker = marker, wj_cancelOnResume = True\<rparr>))"

record WaitInfo =
  wi_ResponsePostID :: string
  wi_RequesterUserID :: string
  wi_ScheduledAt :: int
  wi_ResumeAt :: int
  wi_DurationMinutes :: int

definition ActiveWaitForConversation ::
  "'w wake_env \<Rightarrow> string \<Rightarrow> string \<Rightarrow> string \<Rightarrow> wakes \<Rightarrow> WaitInfo option result" where
  "ActiveWaitForConversation e conversationID rootPostID botID s =
     (if \<not> wk_hasScheduler e \<or> rootPostID = [] \<or> botID = [] then Inr None
      else case get_marker e 0 (threadWakeMarkerKey rootPostID botID) s of
             Inl err \<Rightarrow> if IsKVNotFound err then Inr None else Inl (wrapf ''failed to read pending wake'' err)
           | Inr marker \<Rightarrow>
               (if wm_ConversationID marker \<noteq> conversationID \<or> wm_ResponsePostID marker = [] then Inr None
                else Inr (Some \<lparr>wi_ResponsePostID = wm_ResponsePostID marker, wi_RequesterUserID = wm_RequesterUserID marker,
                  wi_ScheduledAt = wm_ScheduledAt marker, wi_ResumeAt = wm_ResumeAt marker,
                  wi_DurationMinutes = wm_DurationMinutes marker\<rparr>)))"

section \<open>Steering\<close>

definition WakeCanceledUserMessage :: string where
  "WakeCanceledUserMessage = ''A pending wait_for_async_work in this thread was canceled because a new message arrived ''
     @ ''before it elapsed. Earlier replies in this thread (and your earlier wait call, if you made one) describe what ''
     @ ''was being waited on. Address the new message. If waiting on that async work is still relevant, you may call ''
     @ ''wait_for_async_work again.''"

text \<open>A new message steers away the thread's pending wake and notes it for the model.\<close>

definition getOrCreateConversation ::
  "'w wake_env \<Rightarrow> file_lookup \<Rightarrow> GetOrCreateParams \<Rightarrow> wakes \<Rightarrow> db \<Rightarrow> GetOrCreateResult result \<times> wakes \<times> db" where
  "getOrCreateConversation e files params s d =
     (let env = cn_json (ap_env (wk_approval e)); w = ap_writes (wk_approval e)
      in case GetOrCreateConversation env w files params d of
           (Inl err, d1) \<Rightarrow> (Inl err, s, d1)
         | (Inr result, d1) \<Rightarrow>
             (case cancelThreadWake e 0 (threadWakeMarkerKey (gp_RootPostID params) (gp_BotID params)) s of
                (False, s1) \<Rightarrow> (Inr result, s1, d1)
              | (True, s1) \<Rightarrow> (Inr result, s1,
                  snd (AppendSyntheticUserTurn env w 5 (cv_ID (gr_Conversation result)) SyntheticKindWakeCanceled
                    WakeCanceledUserMessage d1))))"

section \<open>Resuming\<close>

definition WakeUserMessage :: string where
  "WakeUserMessage = ''The wait you requested with wait_for_async_work has elapsed; your earlier call to that tool ''
     @ ''notes what you were waiting on. Check the status of the async work now using the appropriate tools. Report ''
     @ ''results to the user if complete, or call wait_for_async_work again if still running. If you have already ''
     @ ''waited many times without progress, report the situation to the user instead of waiting again.''"

definition is_wake_turn :: "json_env \<Rightarrow> Turn \<Rightarrow> bool" where
  "is_wake_turn env t =
     (case UnmarshalBlocks env (tn_Content t) of
        Inl _ \<Rightarrow> False | Inr bs \<Rightarrow> length bs = 1 \<and> cb_SyntheticKind (hd bs) = SyntheticKindWake)"

fun count_wakes :: "json_env \<Rightarrow> Turn list \<Rightarrow> nat" where
  "count_wakes env [] = 0"
| "count_wakes env (t # ts) =
     (if tn_Role t \<noteq> ''user'' then count_wakes env ts
      else if tn_PostID t \<noteq> None then 0
      else (if is_wake_turn env t then 1 else 0) + count_wakes env ts)"

definition countConsecutiveWakes :: "json_env \<Rightarrow> Turn list \<Rightarrow> nat" where
  "countConsecutiveWakes env turns = count_wakes env (rev turns)"

definition UnsafeLinksPostProp :: string where "UnsafeLinksPostProp = ''unsafe_links''"
definition RespondingToProp :: string where "RespondingToProp = ''responding_to''"

definition ModifyPostForBot :: "string \<Rightarrow> MMPost \<Rightarrow> string \<Rightarrow> MMPost" where
  "ModifyPostForBot botid post respondingToPostID =
     (let p = post\<lparr>mp_UserId := botid, mp_Type := ''custom_llmbot'',
                mp_Props := AList.update UnsafeLinksPostProp (JStr ''true'') (mp_Props post)\<rparr>
      in if respondingToPostID \<noteq> []
         then p\<lparr>mp_Props := AList.update RespondingToProp (JStr respondingToPostID) (mp_Props p)\<rparr> else p)"

definition createResponsePlaceholder :: "'w wake_env \<Rightarrow> string \<Rightarrow> MMPost \<Rightarrow> string \<Rightarrow> MMPost result" where
  "createResponsePlaceholder e botID post respondingToPostID =
     (let p = ModifyPostForBot botID post respondingToPostID
      in map_sum id (\<lambda>i. p\<lparr>mp_Id := i\<rparr>) (wk_createPost e p))"

definition wake_post :: "MMPost \<Rightarrow> string \<Rightarrow> MMPost" where
  "wake_post post convID = \<lparr>mp_Id = [], mp_ChannelId = mp_ChannelId post, mp_UserId = [], mp_RootId = threadRootID post,
     mp_RemoteId = None, mp_Type = [], mp_Message = [], mp_Props = [(ConversationIDProp, JStr convID)], mp_FileIds = []\<rparr>"

datatype 'w wake_outcome = Dropped string | WakeFailed go_error | Resumed "exit \<times> 'w run_state"

definition dropIfMissing :: "conversations_env \<Rightarrow> string \<Rightarrow> go_error \<Rightarrow> 'w wake_outcome" where
  "dropIfMissing env entity err =
     (if errors_Is err ErrConversationNotFound \<or> cn_StatusCode env err = Some 404 then Dropped (entity @ '' missing'')
      else WakeFailed (wrapf (''failed to get '' @ entity) err))"

text \<open>
  What a resume re-checks once it has consumed the marker. Its license errors are those that wrap
  \<open>ErrNotLicensed\<close>. The statements on the database are 0 and 1, the turn policy reads at 2.
\<close>

record wake_run =
  wr_conv :: Conversation
  wr_policy :: turnPolicy
  wr_bot :: Bot

definition check_wake_user ::
  "'w wake_env \<Rightarrow> WakeJob \<Rightarrow> MMPost \<Rightarrow> (string \<times> go_error) option + Account \<times> Channel" where
  "check_wake_user e job post =
     (let env = ap_env (wk_approval e)
      in case cn_GetUser env (wj_UserID job) of
           Inl err \<Rightarrow> Inl (Some (''user'', err))
         | Inr user \<Rightarrow>
             (case cn_GetChannel env (mp_ChannelId post) of
                Inl err \<Rightarrow> Inl (Some (''channel'', err))
              | Inr channel \<Rightarrow>
                  (if wk_deleted e user \<or> \<not> cn_CanReadChannel env (u_Id user) (ch_Id channel) then Inl None
                   else Inr (user, channel))))"

definition prepare_wake :: "'w wake_env \<Rightarrow> WakeJob \<Rightarrow> MMPost \<Rightarrow> db \<Rightarrow> ('w wake_outcome + wake_run) \<times> db" where
  "prepare_wake e job post d =
     (let a = wk_approval e; env = ap_env a; w = ap_writes a; d0 = we_others w 0 0 d
      in case GetConversation (we_io w 0 0) (wm_ConversationID (wj_marker job)) d0 of
           Inl err \<Rightarrow> (Inl (dropIfMissing env ''conversation'' err), d0)
         | Inr conv \<Rightarrow>
             (let d1 = we_others w 1 0 d0
              in case GetTurnsForConversation (we_io w 1 0) (cv_ID conv) d1 of
                   Inl err \<Rightarrow> (Inl (WakeFailed (wrapf ''failed to get turns'' err)), d1)
                 | Inr turns \<Rightarrow>
                     (case GetBotByID (ap_bots a) (mp_UserId post) of
                        None \<Rightarrow> (Inl (Dropped ''bot missing''), d1)
                      | Some agent \<Rightarrow>
                          (case check_wake_user e job post of
                             Inl (Some (entity, err)) \<Rightarrow> (Inl (dropIfMissing env entity err), d1)
                           | Inl None \<Rightarrow> (Inl (Dropped ''user no longer authorized''), d1)
                           | Inr (user, channel) \<Rightarrow>
                               (let d2 = we_others w 2 0 d1
                                in case resolveTurnPolicy env d2 \<lparr>rq_bot = Some agent, rq_user = Some user,
                                          rq_channel = Some channel, rq_conv = Some conv, rq_trigger = None,
                                          rq_post = Some post\<rparr> of
                                     Inl err \<Rightarrow>
                                       (if errors_Is err ErrUsageRestriction \<or> errors_Is err ErrAnalysisSourceUnavailable
                                           \<or> errors_Is err ErrNotLicensed
                                        then (Inl (Dropped ''turn not allowed''), d2)
                                        else (Inl (WakeFailed (wrapf ''failed to resolve turn policy'' err)), d2))
                                   | Inr policy \<Rightarrow>
                                       (if maxConsecutiveWakes \<le> countConsecutiveWakes (cn_json env) turns
                                        then (Inl (Dropped ''chain limit reached''), d2)
                                        else (Inr \<lparr>wr_conv = conv, wr_policy = policy, wr_bot = agent\<rparr>, d2)))))))"

definition run_wake :: "'w wake_env \<Rightarrow> MMPost \<Rightarrow> wake_run \<Rightarrow> 'w \<Rightarrow> db \<Rightarrow> 'w wake_outcome \<times> db" where
  "run_wake e post r world d =
     (let a = wk_approval e; conv = wr_conv r
      in case createResponsePlaceholder e (bot_UserId (wr_bot r)) (wake_post post (cv_ID conv)) (mp_Id post) of
           Inl err \<Rightarrow> (WakeFailed (wrapf ''failed to create wake response post'' err), d)
         | Inr wakePost \<Rightarrow>
             (case AppendSyntheticUserTurn (cn_json (ap_env a)) (ap_writes a) 3 (cv_ID conv) SyntheticKindWake WakeUserMessage d of
                (Some err, d1) \<Rightarrow> (WakeFailed err, d1)
              | (None, d1) \<Rightarrow>
                  (case streamToolFollowUp a 4 (wr_policy r) wakePost conv
                          \<lparr>fo_Unattended = True, fo_UserRejected = False, fo_Held = False\<rparr> world d1 of
                     (Inl err, d2) \<Rightarrow> (WakeFailed err, d2)
                   | (Inr run, d2) \<Rightarrow> (Resumed run, d2))))"

definition resume_consumed ::
  "'w wake_env \<Rightarrow> WakeJob \<Rightarrow> MMPost \<Rightarrow> 'w \<Rightarrow> wakes \<Rightarrow> db \<Rightarrow> 'w wake_outcome \<times> wakes \<times> db" where
  "resume_consumed e job post world s d =
     (let s' = (if wj_cancelOnResume job \<and> wk_hasScheduler e
                then scheduler (Cancel (WakeJobKeyPrefix @ wm_ConversationID (wj_marker job))) s else s)
      in case prepare_wake e job post d of
           (Inl outcome, d1) \<Rightarrow> (outcome, s', d1)
         | (Inr r, d1) \<Rightarrow> (let (outcome, d2) = run_wake e post r world d1 in (outcome, s', d2)))"

definition ResumeConversation ::
  "'w wake_env \<Rightarrow> WakeJob \<Rightarrow> 'w \<Rightarrow> wakes \<Rightarrow> db \<Rightarrow> 'w wake_outcome \<times> wakes \<times> db" where
  "ResumeConversation e job world s d =
     (case cn_GetPost (ap_env (wk_approval e)) (wj_PostID job) of
        Inl err \<Rightarrow> (dropIfMissing (ap_env (wk_approval e)) ''post'' err, s, d)
      | Inr post \<Rightarrow>
          (case consumeWakeMarker e 0 (responsePostMarkerKey post) (wj_marker job) s of
             (Inl err, s1) \<Rightarrow> (WakeFailed (wrapf ''failed to consume pending wake'' err), s1, d)
           | (Inr False, s1) \<Rightarrow> (Dropped ''steered or superseded'', s1, d)
           | (Inr True, s1) \<Rightarrow> resume_consumed e job post world s1 d))"

definition HandleWakeJob ::
  "'w wake_env \<Rightarrow> string \<Rightarrow> json \<Rightarrow> 'w \<Rightarrow> wakes \<Rightarrow> db \<Rightarrow> 'w wake_outcome \<times> wakes \<times> db" where
  "HandleWakeJob e key props world s d =
     (if \<not> HasPrefix key WakeJobKeyPrefix then (Dropped ''not a wake job'', s, d)
      else case wakeJobFromProps props of
             Inl err \<Rightarrow> (Dropped ''invalid wake job props'', s, d)
           | Inr job \<Rightarrow> ResumeConversation e job world s d)"

section \<open>A job survives the scheduler\<close>

definition stored_marker :: "wakeMarker \<Rightarrow> wakeMarker" where
  "stored_marker m = m\<lparr>wm_ConversationID := json_text (wm_ConversationID m),
     wm_ResponsePostID := json_text (wm_ResponsePostID m), wm_RequesterUserID := json_text (wm_RequesterUserID m)\<rparr>"

definition marker_ints :: "wakeMarker \<Rightarrow> bool" where
  "marker_ints m \<longleftrightarrow> int64 (wm_ScheduledAt m) \<and> int64 (wm_ResumeAt m) \<and> int64 (wm_DurationMinutes m)"

lemma encode_stored_marker: "encode_wakeMarker (stored_marker m) = encode_wakeMarker m"
  by (simp add: encode_wakeMarker_def members_wakeMarker_def stored_marker_def e_string_def e_string_omit_def)

lemma decode_marker:
  assumes "marker_ints m"
  shows "decode_struct fields_wakeMarker marker0 (encode_wakeMarker m) = Inr (stored_marker m)"
  using assms
  by (cases m) (simp add: decode_struct_def encode_wakeMarker_def members_wakeMarker_def fields_wakeMarker_def match_field_def
      marker0_def e_string_omit_def e_string_def e_int_def e_int_omit_def d_string_def d_int_def marker_ints_def stored_marker_def)

lemma decode_job:
  assumes "marker_ints (wj_marker j)"
  shows "decode_struct fields_WakeJob \<lparr>wj_PostID = [], wj_UserID = [], wj_marker = marker0, wj_cancelOnResume = False\<rparr> (encode_WakeJob j)
    = Inr (j\<lparr>wj_PostID := json_text (wj_PostID j), wj_UserID := json_text (wj_UserID j), wj_marker := stored_marker (wj_marker j),
        wj_cancelOnResume := False\<rparr>)"
proof -
  obtain p u m c where j: "j = \<lparr>wj_PostID = p, wj_UserID = u, wj_marker = m, wj_cancelOnResume = c\<rparr>" by (cases j)
  obtain a b x y z w where m: "m = \<lparr>wm_ConversationID = a, wm_ScheduledAt = b, wm_ResponsePostID = x, wm_RequesterUserID = y,
      wm_ResumeAt = z, wm_DurationMinutes = w\<rparr>" by (cases m)
  show ?thesis
    using assms unfolding j m
    by (simp add: decode_struct_def encode_WakeJob_def members_wakeMarker_def fields_WakeJob_def fields_wakeMarker_def match_field_def
        marker0_def e_string_omit_def e_string_def e_int_def e_int_omit_def d_string_def d_int_def marker_ints_def stored_marker_def)
qed

text \<open>
  The job a wait schedules survives the scheduler's storage, also a restart: read back it names the
  same post and user, and its marker is the text under which the wait was recorded, so the wake it
  fires is the one that is pending.
\<close>

theorem wake_job_survives:
  assumes "marker_ints (wj_marker j)" "wj_PostID j \<noteq> []" "wj_UserID j \<noteq> []" "wm_ConversationID (wj_marker j) \<noteq> []"
    and "wm_ScheduledAt (wj_marker j) \<noteq> 0"
  shows "case wakeJobFromProps (encode_WakeJob j) of
      Inl _ \<Rightarrow> False
    | Inr j' \<Rightarrow> wj_PostID j' = json_text (wj_PostID j) \<and> wj_UserID j' = json_text (wj_UserID j)
        \<and> marker_text e (wj_marker j') = marker_text e (wj_marker j) \<and> \<not> wj_cancelOnResume j'"
  using assms by (simp add: wakeJobFromProps_def decode_job marker_text_def encode_stored_marker)
    (simp add: stored_marker_def)


section \<open>Interleaved wakes\<close>

datatype wake_event = Claimed string string | Consumed string string

definition marker_key :: "string \<Rightarrow> bool" where
  "marker_key key \<longleftrightarrow> HasPrefix key wakeMarkerKeyPrefix"

text \<open>
  The store under waits: markers are claimed when absent and consumed when present, and may expire;
  other entries change freely. The log holds the claims and consumptions so far, newest first.
\<close>

inductive wake_trace :: "kv \<Rightarrow> wake_event list \<Rightarrow> bool" where
  start: "\<forall>key. marker_key key \<longrightarrow> s key = None \<Longrightarrow> wake_trace s []"
| claim: "wake_trace s log \<Longrightarrow> marker_key key \<Longrightarrow> s key = None \<Longrightarrow> wake_trace (s(key \<mapsto> text)) (Claimed key text # log)"
| consume: "wake_trace s log \<Longrightarrow> marker_key key \<Longrightarrow> s key = Some text \<Longrightarrow>
    wake_trace (s(key := None)) (Consumed key text # log)"
| expire: "wake_trace s log \<Longrightarrow> wake_trace (s(key := None)) log"
| unrelated: "wake_trace s log \<Longrightarrow> \<not> marker_key key \<Longrightarrow> wake_trace (s(key := v)) log"

definition resolved_once :: "wake_event list \<Rightarrow> bool" where
  "resolved_once log \<longleftrightarrow> (\<forall>key text. count_list log (Consumed key text) \<le> count_list log (Claimed key text))"

lemma wake_trace_counts:
  "wake_trace s log \<Longrightarrow> marker_key key \<Longrightarrow>
   count_list log (Consumed key text) + (if s key = Some text then 1 else 0) \<le> count_list log (Claimed key text)"
proof (induction rule: wake_trace.induct)
  case (claim s log k t)
  then show ?case by (cases "k = key") auto
next
  case (consume s log k t)
  then show ?case by (cases "k = key") (auto split: if_splits)
next
  case (expire s log k)
  then show ?case by (cases "k = key") (auto split: if_splits)
qed auto

lemma wake_trace_keys: "wake_trace s log \<Longrightarrow> \<not> marker_key key \<Longrightarrow> Consumed key text \<notin> set log"
  by (induction rule: wake_trace.induct) auto

lemma wake_trace_once:
  assumes "wake_trace s log"
  shows "resolved_once log"
  unfolding resolved_once_def
proof (intro allI)
  fix key t
  show "count_list log (Consumed key t) \<le> count_list log (Claimed key t)"
    using wake_trace_counts [OF assms, of key t] wake_trace_keys [OF assms, of key t]
    by (cases "marker_key key") auto
qed

definition wakes_traced :: "'w wake_env \<Rightarrow> bool" where
  "wakes_traced e \<longleftrightarrow> (\<forall>k s log. wake_trace s log \<longrightarrow> (\<exists>new. wake_trace (wk_others e k s) (new @ log)))"

lemma marker_key_thread [simp]: "marker_key (threadWakeMarkerKey root botID)" "marker_key (responsePostMarkerKey post)"
  by (simp_all add: marker_key_def threadWakeMarkerKey_def responsePostMarkerKey_def prefix_def)

lemma others_traced:
  assumes "wakes_traced e" "wake_trace (ws_kv s) log"
  obtains new where "wake_trace (ws_kv (others e k s)) (new @ log)"
proof -
  have "\<exists>new. wake_trace (wk_others e k (ws_kv s)) (new @ log)" using assms unfolding wakes_traced_def by blast
  then show thesis using that by (auto simp: others_def)
qed

text \<open>What an attempt to consume a marker adds to the log: the others' events, and its own if it took effect.\<close>

lemma consume_traced:
  assumes "wakes_traced e" "wake_trace (ws_kv s) log" "marker_key key" "consumeWakeMarker e k key m s = (r, s')"
  obtains own new where "wake_trace (ws_kv s') (own @ new @ log)" "own = [] \<or> own = [Consumed key (marker_text e m)]"
    "r = Inr True \<Longrightarrow> own = [Consumed key (marker_text e m)]" "r = Inr False \<Longrightarrow> own = []" "ws_calls s' = ws_calls s"
proof -
  obtain new where new: "wake_trace (ws_kv (others e k s)) (new @ log)" using others_traced [OF assms(1,2)] .
  obtain r0 kv where c: "KVCompareAndSet (wk_io e k) key (Some (marker_text e m)) None (ws_kv (others e k s)) = (r0, kv)" by fastforce
  have s': "r0 = r" "ws_kv s' = kv" "ws_calls s' = ws_calls s"
    using assms(4) c by (auto simp: consumeWakeMarker_def with_kv_def Let_def others_def)
  have taken: "wake_trace ((ws_kv (others e k s))(key := None)) (Consumed key (marker_text e m) # new @ log)"
    if "ws_kv (others e k s) key = Some (marker_text e m)"
    by (rule wake_trace.consume [OF new assms(3) that])
  from c show thesis
  proof (cases rule: KVCompareAndSet_cases)
    case won
    then show thesis using that [of "[Consumed key (marker_text e m)]" new] taken s' by simp
  next
    case lost
    then show thesis using that [of "[]" new] new s' by simp
  next
    case (failed err)
    then show thesis using that [of "[]" new] new s' by simp
  next
    case (late err)
    then show thesis using that [of "[Consumed key (marker_text e m)]" new] taken s' by simp
  qed
qed

definition woken :: "'w wake_outcome \<Rightarrow> bool" where
  "woken outcome \<longleftrightarrow> (case outcome of Resumed _ \<Rightarrow> True | _ \<Rightarrow> False)"

lemma resume_consumed_kv: "ws_kv (fst (snd (resume_consumed e job post world s d))) = ws_kv s"
  by (auto simp: resume_consumed_def Let_def scheduler_def split: prod.splits sum.splits)


text \<open>
  Only the requester of a wait ends it: a cancel succeeds exactly by consuming the wait recorded for
  that post, which names the user as its requester; anyone else, and a cancel that comes too late, is
  refused and consumes nothing.
\<close>

theorem only_requester_cancels:
  assumes "wake_trace (ws_kv s) log" "wakes_traced e"
  shows "case HandleWaitCancel e userID post s of (err, s') \<Rightarrow>
    \<exists>own new. wake_trace (ws_kv s') (own @ new @ log)
      \<and> (if err = None
         then \<exists>marker. own = [Consumed (responsePostMarkerKey post) (marker_text e marker)]
                \<and> wm_RequesterUserID marker = userID \<and> wm_ResponsePostID marker \<in> {[], mp_Id post}
                \<and> ws_calls s' = ws_calls s @ [Cancel (WakeJobKeyPrefix @ wm_ConversationID marker)]
         else ws_calls s' = ws_calls s \<and> (err = Some ErrNotWaitOwner \<longrightarrow> own = []))"
proof -
  obtain new where new: "wake_trace (ws_kv (others e 0 s)) (new @ log)" using others_traced [OF assms(2,1)] .
  have calls: "ws_calls (others e 0 s) = ws_calls s" by (simp add: others_def)
  show ?thesis
  proof (cases "pendingWaitForPost e 0 post (others e 0 s)")
    case (Inl err)
    then have eq: "HandleWaitCancel e userID post s = (Some err, others e 0 s)" by (simp add: HandleWaitCancel_def Let_def)
    show ?thesis
      unfolding eq prod.case by (intro exI [of _ "[]"] exI [of _ new]) (use new calls in simp)
  next
    case (Inr marker)
    have m: "wm_ResponsePostID marker \<in> {[], mp_Id post}"
      using Inr by (auto simp: pendingWaitForPost_def split: if_splits sum.splits)
    show ?thesis
    proof (cases "wm_RequesterUserID marker = userID")
      case False
      then show ?thesis using new Inr calls by (auto simp: HandleWaitCancel_def Let_def)
    next
      case True
      obtain r s1 where c: "consumeWakeMarker e 1 (responsePostMarkerKey post) marker (others e 0 s) = (r, s1)" by fastforce
      obtain own new1 where tr: "wake_trace (ws_kv s1) (own @ new1 @ new @ log)"
        "r = Inr True \<Longrightarrow> own = [Consumed (responsePostMarkerKey post) (marker_text e marker)]"
        "ws_calls s1 = ws_calls (others e 0 s)"
        using consume_traced [OF assms(2) new _ c] by (metis marker_key_thread(2))
      have tr': "wake_trace (ws_kv s1) (own @ (new1 @ new) @ log)" using tr(1) by simp
      show ?thesis
      proof (cases "r = Inr True")
        case won: True
        then have eq: "HandleWaitCancel e userID post s = (None, scheduler (Cancel (WakeJobKeyPrefix @ wm_ConversationID marker)) s1)"
          using Inr True c by (simp add: HandleWaitCancel_def Let_def cancelWakeMarker_def)
        have "own = [Consumed (responsePostMarkerKey post) (marker_text e marker)]" by (rule tr(2) [OF won])
        then show ?thesis
          unfolding eq prod.case
          by (intro exI [of _ own] exI [of _ "new1 @ new"]) (use tr' tr(3) True m calls in \<open>auto simp: scheduler_def\<close>)
      next
        case False
        then have eq: "HandleWaitCancel e userID post s = (Some ErrNoPendingWait, s1)"
          using Inr True c by (cases r) (auto simp: HandleWaitCancel_def Let_def cancelWakeMarker_def)
        show ?thesis
          unfolding eq prod.case
          by (intro exI [of _ own] exI [of _ "new1 @ new"])
            (use tr' tr(3) calls in \<open>simp add: ErrNoPendingWait_def ErrNotWaitOwner_def\<close>)
      qed
    qed
  qed
qed

section \<open>Limits of a wait\<close>

text \<open>A call that schedules a wait of one to thirty minutes that its marker outlives with the queueing time.\<close>

definition bounded_wait :: "int \<Rightarrow> scheduler_call \<Rightarrow> bool" where
  "bounded_wait now call \<longleftrightarrow>
     (case call of
        Cancel _ \<Rightarrow> False
      | ScheduleOnce key runAt job \<Rightarrow>
          now + Minute \<le> runAt \<and> runAt \<le> now + 30 * Minute \<and> runAt + resumeLockMaxWait < now + wakeMarkerTTL
          \<and> 1 \<le> wm_DurationMinutes (wj_marker job) \<and> wm_DurationMinutes (wj_marker job) \<le> 30
          \<and> wm_ResumeAt (wj_marker job) = UnixMilli runAt
          \<and> wm_ResumeAt (wj_marker job) - wm_ScheduledAt (wj_marker job) = 60000 * wm_DurationMinutes (wj_marker job)
          \<and> key = WakeJobKeyPrefix @ wm_ConversationID (wj_marker job))"

lemma ScheduleWake_calls:
  "ScheduleWake e postID userID wait s = (err, s') \<Longrightarrow>
   ws_calls s' = ws_calls s
   \<or> (\<exists>convID. ws_calls s' = ws_calls s @ [ScheduleOnce (WakeJobKeyPrefix @ convID) (wk_now e + wait) (wake_job e convID postID userID wait)])"
  by (auto simp: ScheduleWake_def consumeWakeMarker_def with_kv_def others_def scheduler_def Let_def
      split: sum.splits prod.splits if_splits option.splits)

lemma UnixMilli_minutes: "UnixMilli (now + n * Minute) = UnixMilli now + 60000 * n"
proof -
  have "now + n * Minute = now + (60000 * n) * 1000000" unfolding Minute_def by simp
  moreover have "(now + (60000 * n) * 1000000) div 1000000 = 60000 * n + now div 1000000"
    by (rule div_mult_self1) simp
  ultimately show ?thesis by (simp only: UnixMilli_def add.commute)
qed

text \<open>
  Whatever number of minutes the model asks for, the tool schedules at most one wake, one to thirty
  minutes ahead; the marker tells the same times and outlives the wait and the queue behind a running
  resume.
\<close>

theorem wait_tool_bounded:
  "case resolveWaitForAsyncWork e postID userID getArgs s of (_, s') \<Rightarrow>
     \<exists>calls. ws_calls s' = ws_calls s @ calls \<and> length calls \<le> 1 \<and> list_all (bounded_wait (wk_now e)) calls"
proof -
  have wait: "bounded_wait (wk_now e) (ScheduleOnce (WakeJobKeyPrefix @ convID) (wk_now e + minutes * Minute)
      (wake_job e convID postID userID (minutes * Minute)))" if "1 \<le> minutes" "minutes \<le> 30" for minutes convID
  proof -
    have "minutes * Minute div Minute = minutes" "Minute \<le> minutes * Minute" "minutes * Minute \<le> 30 * Minute"
      using that by (simp_all add: Minute_def)
    moreover have "0 \<le> minutes * Minute" using that by (simp add: Minute_def)
    moreover have "minutes * Minute + resumeLockMaxWait < wakeMarkerTTL"
      using that by (simp add: Minute_def resumeLockMaxWait_def wakeMarkerTTL_def)
    ultimately show ?thesis
      using that by (simp add: bounded_wait_def wake_job_def UnixMilli_minutes)
  qed
  show ?thesis
  proof (cases getArgs)
    case (Inl err)
    then show ?thesis by (simp add: resolveWaitForAsyncWork_def)
  next
    case (Inr args)
    let ?m = "min (max (wa_Minutes args) minWaitMinutes) maxWaitMinutes"
    have m: "1 \<le> ?m" "?m \<le> 30" by (auto simp: minWaitMinutes_def maxWaitMinutes_def)
    obtain err s1 where sw: "ScheduleWake e postID userID (?m * Minute) s = (err, s1)" by fastforce
    obtain calls where calls: "ws_calls s1 = ws_calls s @ calls" "length calls \<le> 1" "list_all (bounded_wait (wk_now e)) calls"
      using ScheduleWake_calls [OF sw]
    proof (elim disjE exE)
      fix convID
      assume "ws_calls s1 = ws_calls s @ [ScheduleOnce (WakeJobKeyPrefix @ convID) (wk_now e + ?m * Minute)
        (wake_job e convID postID userID (?m * Minute))]"
      from this show thesis by (rule that) (use wait [OF m] in simp_all)
    qed (rule that [of "[]"], simp_all)
    show ?thesis
    proof (cases "TrimSpace (wa_Reason args) = []")
      case True
      then show ?thesis using Inr by (simp add: resolveWaitForAsyncWork_def Let_def)
    next
      case False
      have "snd (resolveWaitForAsyncWork e postID userID getArgs s) = s1"
        using Inr sw False by (auto simp: resolveWaitForAsyncWork_def Let_def split: option.split)
      then show ?thesis using calls by (cases "resolveWaitForAsyncWork e postID userID getArgs s") auto
    qed
  qed
qed

section \<open>What a resume may do\<close>

lemma streamToolFollowUp_executes_allowed:
  assumes "streamToolFollowUp a k p post conv opts world d = (Inr (x, st), d')"
  shows "list_all (\<lambda>(tc, c, _). allowed_call (ap_env a) (if fo_Unattended opts then p\<lparr>tp_interactive := False\<rparr> else p) c tc
      \<and> tc_UserInteraction tc = []) (rs_executed st)"
proof -
  obtain q cid req d0 where q: "q = (if fo_Unattended opts then p\<lparr>tp_interactive := False\<rparr> else p)"
    and run: "runToolLoop (ap_env a) (ap_runner a) (ap_loopWrites a) q cid req world d0 = (Inr (x, st), d')"
    using assms by (fastforce simp: streamToolFollowUp_def Let_def split: option.splits sum.splits prod.splits if_splits)
  show ?thesis
    using run rs_executed_policy_run [of "ap_env a" q "ap_runner a" "EffectiveMaxToolTurns (bot_Config (tp_bot q))" req
      "withProviderWebSearchLicense (ap_env a) (toolsDisabledLLMOptions (ap_env a) (tp_bot q) (\<not> tp_toolsEnabled q))" world]
    unfolding q [symmetric] by (auto simp: runToolLoop_def split: sum.splits prod.splits)
qed

lemma prepare_not_resumed: "fst (prepare_wake e job post d) \<noteq> Inl (Resumed run)"
  by (auto simp: prepare_wake_def dropIfMissing_def Let_def split: sum.splits option.splits prod.splits if_splits)

lemma prepare_wake_Inr:
  assumes "prepare_wake e job post d = (Inr r, d')"
  obtains user channel d1 d2 conv where
    "cn_GetUser (ap_env (wk_approval e)) (wj_UserID job) = Inr user" "\<not> wk_deleted e user"
    "cn_GetChannel (ap_env (wk_approval e)) (mp_ChannelId post) = Inr channel"
    "cn_CanReadChannel (ap_env (wk_approval e)) (u_Id user) (ch_Id channel)"
    "cv_ID conv = wm_ConversationID (wj_marker job)" "wr_conv r = conv"
    "resolveTurnPolicy (ap_env (wk_approval e)) d2 \<lparr>rq_bot = Some (wr_bot r), rq_user = Some user, rq_channel = Some channel,
       rq_conv = Some conv, rq_trigger = None, rq_post = Some post\<rparr> = Inr (wr_policy r)"
    "countConsecutiveWakes (cn_json (ap_env (wk_approval e))) (sort_key tn_Sequence (turns_of (cv_ID conv) d1)) < maxConsecutiveWakes"
proof -
  let ?a = "wk_approval e"
  let ?d0 = "we_others (ap_writes ?a) 0 0 d"
  let ?d1 = "we_others (ap_writes ?a) 1 0 ?d0"
  obtain conv where conv: "GetConversation (we_io (ap_writes ?a) 0 0) (wm_ConversationID (wj_marker job)) ?d0 = Inr conv"
    using assms by (auto simp: prepare_wake_def Let_def split: sum.splits)
  obtain turns where turns: "GetTurnsForConversation (we_io (ap_writes ?a) 1 0) (cv_ID conv) ?d1 = Inr turns"
    using assms conv by (auto simp: prepare_wake_def Let_def split: sum.splits)
  obtain agent where agent: "GetBotByID (ap_bots ?a) (mp_UserId post) = Some agent"
    using assms conv turns by (auto simp: prepare_wake_def Let_def split: option.splits)
  obtain user channel where uc: "check_wake_user e job post = Inr (user, channel)"
    using assms conv turns agent by (auto simp: prepare_wake_def Let_def split: option.splits sum.splits)
  obtain p where p: "resolveTurnPolicy (ap_env ?a) (we_others (ap_writes ?a) 2 0 ?d1) \<lparr>rq_bot = Some agent, rq_user = Some user,
      rq_channel = Some channel, rq_conv = Some conv, rq_trigger = None, rq_post = Some post\<rparr> = Inr p"
    using assms conv turns agent uc by (auto simp: prepare_wake_def Let_def split: sum.splits if_splits)
  have r: "r = \<lparr>wr_conv = conv, wr_policy = p, wr_bot = agent\<rparr>"
    "countConsecutiveWakes (cn_json (ap_env ?a)) turns < maxConsecutiveWakes"
    using assms conv turns agent uc p by (auto simp: prepare_wake_def Let_def split: if_splits)
  have "turns = sort_key tn_Sequence (turns_of (cv_ID conv) ?d1)"
    using turns by (auto simp: GetTurnsForConversation_def read_sql_def split: io.splits)
  moreover have "cv_ID conv = wm_ConversationID (wj_marker job)" using GetConversation_Inr [OF conv] by simp
  moreover note uc [unfolded check_wake_user_def Let_def]
  ultimately show thesis
    using r p by (intro that [of user channel conv _ ?d1]) (auto split: sum.splits if_splits)
qed

text \<open>
  C18: a resume runs only for a requester who still exists, can still read the channel and passes every
  gate of a turn of theirs, and only when fewer than twenty wakes followed their last message; and
  though nobody attends it, it executes only calls the turn's policy lets run unasked.
\<close>

theorem resumed_wake_authorized:
  "case ResumeConversation e job world s d of
     (Resumed (x, st), _, _) \<Rightarrow>
       (\<exists>post user channel conv agent p d1 d2. cn_GetPost (ap_env (wk_approval e)) (wj_PostID job) = Inr post
          \<and> cn_GetUser (ap_env (wk_approval e)) (wj_UserID job) = Inr user \<and> \<not> wk_deleted e user
          \<and> cn_GetChannel (ap_env (wk_approval e)) (mp_ChannelId post) = Inr channel
          \<and> cn_CanReadChannel (ap_env (wk_approval e)) (u_Id user) (ch_Id channel)
          \<and> cv_ID conv = wm_ConversationID (wj_marker job)
          \<and> resolveTurnPolicy (ap_env (wk_approval e)) d2 \<lparr>rq_bot = Some agent, rq_user = Some user,
              rq_channel = Some channel, rq_conv = Some conv, rq_trigger = None, rq_post = Some post\<rparr> = Inr p
          \<and> countConsecutiveWakes (cn_json (ap_env (wk_approval e))) (sort_key tn_Sequence (turns_of (cv_ID conv) d1)) < 20
          \<and> list_all (\<lambda>(tc, c, _). allowed_call (ap_env (wk_approval e)) (p\<lparr>tp_interactive := False\<rparr>) c tc
              \<and> tc_UserInteraction tc = []) (rs_executed st))
   | _ \<Rightarrow> True"
proof -
  let ?a = "wk_approval e"
  have started: "\<exists>post r d1 d2 wakePost. cn_GetPost (ap_env ?a) (wj_PostID job) = Inr post \<and> prepare_wake e job post d = (Inr r, d1)
      \<and> streamToolFollowUp ?a 4 (wr_policy r) wakePost (wr_conv r)
          \<lparr>fo_Unattended = True, fo_UserRejected = False, fo_Held = False\<rparr> world d2 = (Inr (x, st), d')"
    if eq: "ResumeConversation e job world s d = (Resumed (x, st), s', d')" for x st s' d'
  proof -
    obtain post where post: "cn_GetPost (ap_env ?a) (wj_PostID job) = Inr post"
      using eq by (cases "cn_GetPost (ap_env ?a) (wj_PostID job)")
        (auto simp: ResumeConversation_def dropIfMissing_def split: if_splits)
    obtain s1 where res: "resume_consumed e job post world s1 d = (Resumed (x, st), s', d')"
      using eq post by (auto simp: ResumeConversation_def split: prod.splits sum.splits bool.splits)
    show ?thesis
    proof (cases "prepare_wake e job post d")
      case (Pair o1 d1)
      then obtain r where r: "o1 = Inr r" "run_wake e post r world d1 = (Resumed (x, st), d')"
        using res prepare_not_resumed [of e job post d] by (auto simp: resume_consumed_def Let_def split: sum.splits prod.splits)
      then show ?thesis
        using post Pair by (auto simp: run_wake_def Let_def split: sum.splits prod.splits option.splits)
    qed
  qed
  show ?thesis
  proof -
    obtain outcome s' d' where eq: "ResumeConversation e job world s d = (outcome, s', d')" by (metis prod.exhaust)
    show ?thesis
    proof (cases outcome)
      case (Resumed run)
      obtain x st where run: "run = (x, st)" by fastforce
      obtain post r d1 d2 wakePost where w: "cn_GetPost (ap_env ?a) (wj_PostID job) = Inr post" "prepare_wake e job post d = (Inr r, d1)"
        "streamToolFollowUp ?a 4 (wr_policy r) wakePost (wr_conv r) \<lparr>fo_Unattended = True, fo_UserRejected = False, fo_Held = False\<rparr>
          world d2 = (Inr (x, st), d')"
        using started [of x st s' d'] eq Resumed run by blast
      note ex = streamToolFollowUp_executes_allowed [OF w(3)]
      obtain user channel d3 d4 conv where p: "cn_GetUser (ap_env ?a) (wj_UserID job) = Inr user" "\<not> wk_deleted e user"
        "cn_GetChannel (ap_env ?a) (mp_ChannelId post) = Inr channel" "cn_CanReadChannel (ap_env ?a) (u_Id user) (ch_Id channel)"
        "cv_ID conv = wm_ConversationID (wj_marker job)" "wr_conv r = conv"
        "resolveTurnPolicy (ap_env ?a) d4 \<lparr>rq_bot = Some (wr_bot r), rq_user = Some user, rq_channel = Some channel,
          rq_conv = Some conv, rq_trigger = None, rq_post = Some post\<rparr> = Inr (wr_policy r)"
        "countConsecutiveWakes (cn_json (ap_env ?a)) (sort_key tn_Sequence (turns_of (cv_ID conv) d3)) < maxConsecutiveWakes"
        using prepare_wake_Inr [OF w(2)] .
      show ?thesis
        unfolding eq Resumed run prod.case wake_outcome.case
        by (intro exI [of _ post] exI [of _ user] exI [of _ channel] exI [of _ conv] exI [of _ "wr_bot r"]
            exI [of _ "wr_policy r"] exI [of _ d3] exI [of _ d4] conjI)
          (use p w(1) ex in \<open>simp_all add: maxConsecutiveWakes_def\<close>)
    qed (simp_all add: eq)
  qed
qed

section \<open>Examples\<close>

definition ex_wakes :: "nat wake_env" where
  "ex_wakes = \<lparr>wk_approval = ex_approval example_writes, wk_io = (\<lambda>_. IoOk), wk_others = (\<lambda>_ s. s), wk_hasScheduler = True,
     wk_schedule = (\<lambda>_ _ _. None), wk_now = 1000000000, wk_deleted = (\<lambda>_. False), wk_createPost = (\<lambda>_. Inr ''p2'')\<rparr>"

definition ex_wake_job :: WakeJob where
  "ex_wake_job = wake_job ex_wakes ''c1'' ''p1'' ''u1'' Minute"

definition no_waits :: wakes where
  "no_waits = \<lparr>ws_kv = Map.empty, ws_calls = []\<rparr>"

lemma no_waits_traced: "wake_trace (ws_kv no_waits) []"
  by (rule wake_trace.start) (simp add: no_waits_def)

lemma ex_wakes_traced: "wakes_traced ex_wakes"
  unfolding wakes_traced_def ex_wakes_def by (auto intro: exI [of _ "[]"])

lemma wake_job_survives_witness:
  "case wakeJobFromProps (encode_WakeJob ex_wake_job) of
      Inl _ \<Rightarrow> False
    | Inr j' \<Rightarrow> wj_PostID j' = json_text ''p1'' \<and> wj_UserID j' = json_text ''u1''
        \<and> marker_text ex_wakes (wj_marker j') = marker_text ex_wakes (wj_marker ex_wake_job) \<and> \<not> wj_cancelOnResume j'"
proof -
  have "wj_PostID ex_wake_job = ''p1''" "wj_UserID ex_wake_job = ''u1''" "wm_ConversationID (wj_marker ex_wake_job) = ''c1''"
    "wm_ScheduledAt (wj_marker ex_wake_job) = 1000" "marker_ints (wj_marker ex_wake_job)"
    by (simp_all add: ex_wake_job_def wake_job_def ex_wakes_def UnixMilli_def Minute_def marker_ints_def int64_def)
  then show ?thesis using wake_job_survives [of ex_wake_job ex_wakes] by (simp split: sum.splits)
qed


lemma only_requester_cancels_witness:
  "case HandleWaitCancel ex_wakes ''u1'' ex_response no_waits of (err, s') \<Rightarrow>
    \<exists>own new. wake_trace (ws_kv s') (own @ new @ [])
      \<and> (if err = None
         then \<exists>marker. own = [Consumed (responsePostMarkerKey ex_response) (marker_text ex_wakes marker)]
                \<and> wm_RequesterUserID marker = ''u1'' \<and> wm_ResponsePostID marker \<in> {[], mp_Id ex_response}
                \<and> ws_calls s' = ws_calls no_waits @ [Cancel (WakeJobKeyPrefix @ wm_ConversationID marker)]
         else ws_calls s' = ws_calls no_waits \<and> (err = Some ErrNotWaitOwner \<longrightarrow> own = []))"
  by (rule only_requester_cancels [OF no_waits_traced ex_wakes_traced])

text \<open>
  The marker is consumed before the trigger is cancelled, and the trigger is named by the conversation
  only. A wait the same conversation schedules in between, once the old trigger has fired and waits for
  the mutex, is recorded and loses its trigger: nothing wakes it, and until the marker expires every
  further wait of the thread is refused.
\<close>

lemma newer_wait_loses_trigger:
  assumes "cn_GetPost (ap_env (wk_approval e)) postID = Inr post" "string_prop post ConversationIDProp = wm_ConversationID marker"
    and "wm_ConversationID marker \<noteq> []" "wk_io e 0 = IoOk" "wk_schedule e = (\<lambda>_ _ _. None)" "wk_others e 0 = id"
    and "consumeWakeMarker e k (responsePostMarkerKey post) marker s = (Inr True, s1)"
  shows "case ScheduleWake e postID userID wait s1 of (err, s2) \<Rightarrow>
    err = None \<and> (let s3 = scheduler (Cancel (WakeJobKeyPrefix @ wm_ConversationID marker)) s2;
       job = wake_job e (wm_ConversationID marker) postID userID wait
     in ws_calls s3 = ws_calls s @ [ScheduleOnce (WakeJobKeyPrefix @ wm_ConversationID marker) (wk_now e + wait) job,
           Cancel (WakeJobKeyPrefix @ wm_ConversationID marker)]
        \<and> ws_kv s3 (responsePostMarkerKey post) = Some (marker_text e (wj_marker job)))"
proof -
  have kv: "KVCompareAndSet (wk_io e k) (responsePostMarkerKey post) (Some (marker_text e marker)) None (wk_others e k (ws_kv s))
      = (Inr True, ws_kv s1)"
    "ws_calls s1 = ws_calls s"
    using assms(7) by (auto simp: consumeWakeMarker_def with_kv_def Let_def others_def prod_eq_iff)
  have free: "ws_kv s1 (responsePostMarkerKey post) = None"
    by (rule KVCompareAndSet_cases [OF kv(1)]) auto
  show ?thesis
    using assms(1-6) free kv(2)
    by (simp add: ScheduleWake_def Let_def with_kv_def others_def scheduler_def KVCompareAndSetWithExpiry_def
        KVCompareAndSet_def run_kv_def kv_cas_def wake_job_def)
qed

end
