(* ===== verification/Oauth_Cleanup.thy ===== *)
theory Oauth_Cleanup
  imports Kv_Store Mcp_Config
begin

text \<open>
  Which stored OAuth state a change of the remote MCP servers leaves behind, and its removal
  (\<open>src/mcp/oauth_cleanup.go\<close>), with the keys that state is stored under (\<open>src/mcp/oauth_store.go\<close>) and
  the origins servers are compared by (\<open>src/mcp/http_client.go\<close>).

  \<open>ur_parse\<close> is what \<open>url.Parse\<close> reads off a URL: scheme, host name and port; \<open>ur_lower\<close> is
  \<open>strings.ToLower\<close> and \<open>ur_validId\<close> is \<open>model.IsValidId\<close>.
\<close>

record url_env =
  ur_parse :: "string \<Rightarrow> (string \<times> string \<times> string) option"
  ur_lower :: "string \<Rightarrow> string"
  ur_validId :: "string \<Rightarrow> bool"

section \<open>Origins\<close>

definition canonicalOrigin :: "(string \<times> string \<times> string) option \<Rightarrow> string" where
  "canonicalOrigin u =
     (case u of
        None \<Rightarrow> []
      | Some (scheme, host, port) \<Rightarrow>
          (if scheme = [] then []
           else if port \<noteq> [] then scheme @ ''://'' @ host @ '':'' @ port
           else if scheme = ''https'' then scheme @ ''://'' @ host @ '':443''
           else if scheme = ''http'' then scheme @ ''://'' @ host @ '':80''
           else []))"

definition canonicalOriginFromString :: "url_env \<Rightarrow> string \<Rightarrow> string" where
  "canonicalOriginFromString env raw = canonicalOrigin (ur_parse env raw)"

definition originChanged :: "url_env \<Rightarrow> string \<Rightarrow> string \<Rightarrow> bool" where
  "originChanged env before after \<longleftrightarrow>
     (let a = ur_lower env (canonicalOriginFromString env before); b = ur_lower env (canonicalOriginFromString env after)
      in if a = [] \<or> b = [] then before \<noteq> after else a \<noteq> b)"

definition sameServerOrigin :: "url_env \<Rightarrow> string \<Rightarrow> string \<Rightarrow> bool" where
  "sameServerOrigin env a b \<longleftrightarrow> \<not> originChanged env a b"

lemma originChanged_refl [simp]: "\<not> originChanged env a a"
  by (simp add: originChanged_def Let_def)

lemma originChanged_sym: "originChanged env a b = originChanged env b a"
  by (auto simp: originChanged_def Let_def)

section \<open>State to clear\<close>

record OAuthStateClear =
  oc_ServerID :: string
  oc_Name :: string

definition add_clear :: "string \<Rightarrow> string \<Rightarrow> OAuthStateClear list \<Rightarrow> OAuthStateClear list" where
  "add_clear serverID name clears =
     (if name = [] \<or> name \<in> set (map oc_Name clears) then clears
      else clears @ [\<lparr>oc_ServerID = serverID, oc_Name = name\<rparr>])"

text \<open>A map filled in a loop keeps the last index of a key (\<open>last_index\<close>).\<close>

definition continuing :: "MCPServerConfig list \<Rightarrow> MCPServerConfig \<Rightarrow> nat option" where
  "continuing new old =
     (if ms_ID old = [] then last_index (\<lambda>s. ms_Name s = ms_Name old) new
      else last_index (\<lambda>s. ms_ID s = ms_ID old) new)"

fun clear_previous ::
  "url_env \<Rightarrow> MCPServerConfig list \<Rightarrow> MCPServerConfig list \<Rightarrow> OAuthStateClear list \<Rightarrow> OAuthStateClear list" where
  "clear_previous env new [] clears = clears"
| "clear_previous env new (old # prev) clears =
     clear_previous env new prev
       (case continuing new old of
          None \<Rightarrow> add_clear (ms_ID old) (ms_Name old) clears
        | Some i \<Rightarrow>
            (let updated = new ! i
             in if ms_Name updated \<noteq> ms_Name old
                then add_clear (ms_ID updated) (ms_Name updated) (add_clear (ms_ID updated) (ms_Name old) clears)
                else if originChanged env (ms_BaseURL old) (ms_BaseURL updated)
                then add_clear (ms_ID updated) (ms_Name old) clears
                else clears))"

fun clear_new :: "nat set \<Rightarrow> nat \<Rightarrow> MCPServerConfig list \<Rightarrow> OAuthStateClear list \<Rightarrow> OAuthStateClear list" where
  "clear_new continued i [] clears = clears"
| "clear_new continued i (s # ss) clears =
     clear_new continued (Suc i) ss (if i \<in> continued then clears else add_clear (ms_ID s) (ms_Name s) clears)"

definition OAuthStateToClear ::
  "url_env \<Rightarrow> MCPServerConfig list \<Rightarrow> MCPServerConfig list \<Rightarrow> OAuthStateClear list" where
  "OAuthStateToClear env prev new =
     clear_new (set (List.map_filter (continuing new) prev)) 0 new (clear_previous env new prev [])"

section \<open>Keys\<close>

definition userIDLength :: nat where "userIDLength = 26"

definition buildTokenKey :: "string \<Rightarrow> string \<Rightarrow> string" where
  "buildTokenKey userID serverID = ''mcp_oauth_token_v1'' @ ''_'' @ userID @ ''_'' @ serverID"

definition buildAuthNeededKey :: "string \<Rightarrow> string \<Rightarrow> string" where
  "buildAuthNeededKey userID serverID = ''mcp_oauth_needed_v1'' @ ''_'' @ userID @ ''_'' @ serverID"

definition serverNamedOAuthKeyPrefixes :: "string list" where
  "serverNamedOAuthKeyPrefixes = [''mcp_oauth_token_v1_'', ''mcp_oauth_needed_v1_'']"

fun server_name_after :: "url_env \<Rightarrow> string list \<Rightarrow> string \<Rightarrow> string option" where
  "server_name_after env [] key = None"
| "server_name_after env (p # ps) key =
     (if \<not> HasPrefix key p then server_name_after env ps key
      else let rest = drop (length p) key
        in if length rest < userIDLength + 1 \<or> rest ! userIDLength \<noteq> CHR ''_'' \<or> \<not> ur_validId env (take userIDLength rest)
           then None else Some (drop (userIDLength + 1) rest))"

definition serverNameFromOAuthKey :: "url_env \<Rightarrow> string \<Rightarrow> string option" where
  "serverNameFromOAuthKey env key = server_name_after env serverNamedOAuthKeyPrefixes key"

section \<open>Clearing\<close>

definition listKeysPageSize :: nat where "listKeysPageSize = 1000"

definition named_state :: "url_env \<Rightarrow> string list \<Rightarrow> string \<Rightarrow> bool" where
  "named_state env names key \<longleftrightarrow>
     (case serverNameFromOAuthKey env key of None \<Rightarrow> False | Some name \<Rightarrow> name \<in> set names)"

text \<open>
  The pages of a listing of \<open>keys\<close>; \<open>fails p\<close> is the error of the context or of the listing at page \<open>p\<close>.
  The deletions are tried one by one; \<open>cancelled i\<close> ends them before the \<open>i\<close>-th.
\<close>

function wanted_keys ::
  "url_env \<Rightarrow> (nat \<Rightarrow> go_error option) \<Rightarrow> string list \<Rightarrow> nat \<Rightarrow> string list \<Rightarrow> string list result" where
  "wanted_keys env fails names p keys =
     (case fails p of
        Some err \<Rightarrow> Inl err
      | None \<Rightarrow>
          (let pageKeys = take listKeysPageSize keys;
               wanted = filter (named_state env names) pageKeys
           in if length pageKeys < listKeysPageSize then Inr wanted
              else map_sum id ((@) wanted) (wanted_keys env fails names (Suc p) (drop listKeysPageSize keys))))"
  by pat_completeness auto
termination
  by (relation "measure (\<lambda>(_, _, _, _, keys). length keys)") (auto simp: listKeysPageSize_def)

declare wanted_keys.simps [simp del]

fun delete_keys ::
  "(nat \<Rightarrow> go_error option) \<Rightarrow> (nat \<Rightarrow> io) \<Rightarrow> nat \<Rightarrow> string list \<Rightarrow> nat \<times> go_error list \<Rightarrow> kv \<Rightarrow> (nat \<times> go_error list) \<times> kv" where
  "delete_keys cancelled io i [] acc s = (acc, s)"
| "delete_keys cancelled io i (key # keys) (deleted, errs) s =
     (case cancelled i of
        Some err \<Rightarrow> ((deleted, errs @ [err]), s)
      | None \<Rightarrow>
          (case KVDelete (io i) key s of
             (Some err, s') \<Rightarrow>
               delete_keys cancelled io (Suc i) keys (deleted, errs @ [wrapf ''failed to delete stored OAuth state'' err]) s'
           | (None, s') \<Rightarrow> delete_keys cancelled io (Suc i) keys (Suc deleted, errs) s'))"

definition ClearServerOAuthState ::
  "url_env \<Rightarrow> (nat \<Rightarrow> go_error option) \<Rightarrow> (nat \<Rightarrow> go_error option) \<Rightarrow> (nat \<Rightarrow> io) \<Rightarrow> string list \<Rightarrow> string list \<Rightarrow> kv
     \<Rightarrow> (nat \<times> go_error list) \<times> kv" where
  "ClearServerOAuthState env fails cancelled io keys names s =
     (if names = [] then ((0, []), s)
      else case wanted_keys env fails names 0 keys of
             Inl err \<Rightarrow> ((0, [wrapf ''failed to list KV keys'' err]), s)
           | Inr wanted \<Rightarrow> delete_keys cancelled io 0 wanted (0, []) s)"

section \<open>What is cleared\<close>

lemma add_clear_names [simp]:
  "set (map oc_Name (add_clear i name clears)) = (if name = [] then {} else {name}) \<union> set (map oc_Name clears)"
  by (auto simp: add_clear_def)

lemma distinct_add_clear: "distinct (map oc_Name clears) \<Longrightarrow> distinct (map oc_Name (add_clear i name clears))"
  by (auto simp: add_clear_def)

text \<open>A server's grants are kept by the previous server that went by the same name, identity and origin.\<close>

definition keeps_grants :: "url_env \<Rightarrow> MCPServerConfig \<Rightarrow> MCPServerConfig \<Rightarrow> bool" where
  "keeps_grants env old new \<longleftrightarrow>
     ms_Name old = ms_Name new \<and> (ms_ID old = [] \<or> ms_ID old = ms_ID new) \<and> \<not> originChanged env (ms_BaseURL old) (ms_BaseURL new)"

lemma continuing_Some:
  assumes "continuing new old = Some i"
  shows "i < length new" "if ms_ID old = [] then ms_Name (new ! i) = ms_Name old else ms_ID (new ! i) = ms_ID old"
  using assms last_index_SomeD by (auto simp: continuing_def split: if_splits)

definition cleared_by :: "url_env \<Rightarrow> MCPServerConfig list \<Rightarrow> MCPServerConfig \<Rightarrow> string set" where
  "cleared_by env new old =
     (case continuing new old of
        None \<Rightarrow> {ms_Name old}
      | Some i \<Rightarrow> (if ms_Name (new ! i) \<noteq> ms_Name old then {ms_Name old, ms_Name (new ! i)}
          else if originChanged env (ms_BaseURL old) (ms_BaseURL (new ! i)) then {ms_Name old} else {}))"

lemma clear_previous_names:
  "set (map oc_Name (clear_previous env new prev clears)) =
   set (map oc_Name clears) \<union> ((\<Union>old \<in> set prev. cleared_by env new old) - {[]})"
  by (induction env new prev clears rule: clear_previous.induct)
    (auto simp: cleared_by_def Let_def simp del: set_map split: option.splits if_splits)

lemma clear_new_names:
  "set (map oc_Name (clear_new continued i ss clears)) =
   set (map oc_Name clears) \<union> ({ms_Name (ss ! k) | k. k < length ss \<and> i + k \<notin> continued} - {[]})"
proof (induction continued i ss clears rule: clear_new.induct)
  case (2 continued i s ss clears)
  have "{ms_Name ((s # ss) ! k) | k. k < length (s # ss) \<and> i + k \<notin> continued}
      = (if i \<in> continued then {} else {ms_Name s}) \<union> {ms_Name (ss ! k) | k. k < length ss \<and> Suc i + k \<notin> continued}"
  proof (rule set_eqI)
    fix x
    have "x \<in> {ms_Name ((s # ss) ! k) | k. k < length (s # ss) \<and> i + k \<notin> continued}
        \<longleftrightarrow> (\<exists>k < Suc (length ss). x = ms_Name ((s # ss) ! k) \<and> i + k \<notin> continued)" by auto
    also have "\<dots> \<longleftrightarrow> x = ms_Name s \<and> i \<notin> continued \<or> (\<exists>k < length ss. x = ms_Name (ss ! k) \<and> Suc i + k \<notin> continued)"
      by (simp add: Ex_less_Suc2)
    finally show "x \<in> {ms_Name ((s # ss) ! k) | k. k < length (s # ss) \<and> i + k \<notin> continued} \<longleftrightarrow>
        x \<in> (if i \<in> continued then {} else {ms_Name s}) \<union> {ms_Name (ss ! k) | k. k < length ss \<and> Suc i + k \<notin> continued}"
      by auto
  qed
  then show ?case using 2 by (auto simp del: set_map)
qed simp

lemma clears_names:
  "set (map oc_Name (OAuthStateToClear env prev new)) =
   (\<Union>old \<in> set prev. cleared_by env new old)
     \<union> {ms_Name (new ! k) | k. k < length new \<and> (\<forall>old \<in> set prev. continuing new old \<noteq> Some k)} - {[]}"
proof -
  have "k \<notin> set (List.map_filter (continuing new) prev) \<longleftrightarrow> (\<forall>old \<in> set prev. continuing new old \<noteq> Some k)" for k
    by (force simp: map_filter_def image_iff)
  then show ?thesis
    by (simp add: OAuthStateToClear_def clear_previous_names clear_new_names del: set_map) blast
qed


text \<open>
  Nobody is signed out needlessly: when ids and names are unique before and after, a server that
  kept its id, its name and its origin keeps its users' grants.
\<close>

theorem unchanged_server_keeps_grants:
  assumes "old \<in> set prev" "s \<in> set new" "keeps_grants env old s" "ms_ID old \<noteq> []"
    and "distinct (map ms_Name prev)" "distinct (map ms_Name new)" "distinct (map ms_ID prev)" "distinct (map ms_ID new)"
    and "list_all (\<lambda>p. ms_ID p \<noteq> []) prev" "list_all (\<lambda>p. ms_ID p \<noteq> []) new"
  shows "ms_Name s \<notin> set (map oc_Name (OAuthStateToClear env prev new))"
proof
  have kg: "ms_Name old = ms_Name s" "ms_ID old = ms_ID s" "\<not> originChanged env (ms_BaseURL old) (ms_BaseURL s)"
    using assms(3,4) by (auto simp: keeps_grants_def)
  have uid: "p = q" if "p \<in> set new" "q \<in> set new" "ms_ID p = ms_ID q" for p q
    using assms(8) that by (auto simp: distinct_map inj_on_def)
  have unm: "p = q" if "p \<in> set new" "q \<in> set new" "ms_Name p = ms_Name q" for p q
    using assms(6) that by (auto simp: distinct_map inj_on_def)
  have unp: "p = q" if "p \<in> set prev" "q \<in> set prev" "ms_Name p = ms_Name q" for p q
    using assms(5) that by (auto simp: distinct_map inj_on_def)
  have uip: "p = q" if "p \<in> set prev" "q \<in> set prev" "ms_ID p = ms_ID q" for p q
    using assms(7) that by (auto simp: distinct_map inj_on_def)
  obtain i where i: "continuing new old = Some i"
    using assms(2,4) kg(2) last_index_None [of "\<lambda>s. ms_ID s = ms_ID old" new] by (cases "continuing new old") (auto simp: continuing_def)
  have ni: "new ! i = s"
    using continuing_Some [OF i] assms(2,4) kg(2) uid [of "new ! i" s] by (auto simp: split: if_splits)
  assume "ms_Name s \<in> set (map oc_Name (OAuthStateToClear env prev new))"
  then consider (prev) p where "p \<in> set prev" "ms_Name s \<in> cleared_by env new p"
    | (new) k where "k < length new" "ms_Name s = ms_Name (new ! k)" "continuing new old \<noteq> Some k"
    unfolding clears_names using assms(1) by blast
  then show False
  proof cases
    case (prev p)
    have pid: "ms_ID p \<noteq> []" using assms(9) prev(1) by (auto simp: list_all_iff)
    show False
    proof (cases "p = old")
      case True
      then show False using prev(2) i ni kg by (auto simp: cleared_by_def split: if_splits)
    next
      case False
      then have "ms_Name p \<noteq> ms_Name s" using unp [OF prev(1) assms(1)] kg(1) by auto
      then obtain j where j: "continuing new p = Some j" "ms_Name (new ! j) = ms_Name s"
        using prev(2) by (auto simp: cleared_by_def split: option.splits if_splits)
      have "new ! j = s" using unm [of "new ! j" s] continuing_Some(1) [OF j(1)] assms(2) j(2) by auto
      then have "ms_ID p = ms_ID old" using continuing_Some(2) [OF j(1)] pid kg(2) by simp
      then show False using uip [OF prev(1) assms(1)] False by auto
    qed
  next
    case (new k)
    have "new ! k = s" using unm [of "new ! k" s] new(1,2) assms(2) by auto
    then have "k = i" using ni new(1) continuing_Some(1) [OF i] assms(6)
      by (metis distinct_map nth_eq_iff_index_eq)
    then show False using new(3) i by simp
  qed
qed

section \<open>Which keys\<close>

text \<open>The keys a user's grant and sign-in state are stored under name the server, whatever it is called.\<close>

theorem oauth_keys_name_their_server:
  assumes "length userID = userIDLength" "ur_validId env userID"
  shows "serverNameFromOAuthKey env (buildTokenKey userID name) = Some name
    \<and> serverNameFromOAuthKey env (buildAuthNeededKey userID name) = Some name"
  using assms
  by (simp add: serverNameFromOAuthKey_def serverNamedOAuthKeyPrefixes_def buildTokenKey_def buildAuthNeededKey_def Let_def
      nth_append)

lemma wanted_keys_spec:
  "(\<And>q. fails q = None) \<Longrightarrow> wanted_keys env fails names p keys
     = Inr (filter (named_state env names) keys)"
proof (induction env fails names p keys rule: wanted_keys.induct)
  case (1 env fails names p keys)
  show ?case
  proof (cases "length (take listKeysPageSize keys) < listKeysPageSize")
    case True
    then have "take listKeysPageSize keys = keys" by simp
    then show ?thesis using True 1(2) by (subst wanted_keys.simps) (simp add: Let_def)
  next
    case False
    have "wanted_keys env fails names (Suc p) (drop listKeysPageSize keys) = Inr (filter (named_state env names) (drop listKeysPageSize keys))"
      by (rule 1(1) [OF 1(2) refl refl False 1(2)])
    moreover have "filter (named_state env names) (take listKeysPageSize keys) @ filter (named_state env names) (drop listKeysPageSize keys) = filter (named_state env names) keys"
      unfolding filter_append [symmetric] by simp
    ultimately show ?thesis using False 1(2) by (subst wanted_keys.simps) (simp add: Let_def)
  qed
qed

lemma delete_keys_frame:
  "key \<notin> set keys \<Longrightarrow> snd (delete_keys cancelled io i keys acc s) key = s key"
proof (induction cancelled io i keys acc s rule: delete_keys.induct)
  case (2 cancelled io i k keys deleted errs s)
  have "snd (KVDelete (io i) k s) key = s key"
    using 2(3) by (auto simp: KVDelete_def run_kv_def Let_def split: io.split)
  then show ?case using 2 by (cases "KVDelete (io i) k s") (auto split: option.splits)
qed simp

lemma delete_keys_all:
  "(\<And>q. cancelled q = None) \<Longrightarrow> (\<And>q. io q = IoOk) \<Longrightarrow>
   delete_keys cancelled io i keys (n, errs) s = ((n + length keys, errs), \<lambda>key. if key \<in> set keys then None else s key)"
  by (induction keys arbitrary: i n s) (auto simp: KVDelete_def run_kv_def fun_eq_iff)

lemma delete_keys_weakens: "snd (delete_keys cancelled io i keys acc s) key \<in> {s key, None}"
proof (induction cancelled io i keys acc s rule: delete_keys.induct)
  case (2 cancelled io i k keys deleted errs s)
  obtain r s' where d: "KVDelete (io i) k s = (r, s')" by fastforce
  then have "s' key \<in> {s key, None}" by (auto simp: KVDelete_def run_kv_def Let_def split: io.splits if_splits)
  then show ?case using 2 d by (cases "cancelled i"; cases r) auto
qed simp

lemma wanted_keys_named:
  "wanted_keys env fails names p keys = Inr ws \<Longrightarrow> list_all (named_state env names) ws"
proof (induction env fails names p keys arbitrary: ws rule: wanted_keys.induct)
  case (1 env fails names p keys)
  show ?case
  proof (cases "fails p")
    case (Some err)
    then show ?thesis using 1(2) by (subst (asm) wanted_keys.simps) simp
  next
    case None
    show ?thesis
    proof (cases "length (take listKeysPageSize keys) < listKeysPageSize")
      case True
      then show ?thesis
        using 1(2) None by (subst (asm) wanted_keys.simps) (auto simp: Let_def list_all_iff split: if_splits)
    next
      case False
      then obtain rest where rest: "wanted_keys env fails names (Suc p) (drop listKeysPageSize keys) = Inr rest"
        "ws = filter (named_state env names)
          (take listKeysPageSize keys) @ rest"
        using 1(2) None by (subst (asm) wanted_keys.simps)
          (cases "wanted_keys env fails names (Suc p) (drop listKeysPageSize keys)", auto simp: Let_def)
      have "list_all (named_state env names) rest" by (rule 1(1) [OF None refl refl False rest(1)])
      then show ?thesis unfolding rest(2) by (auto simp: list_all_iff)
    qed
  qed
qed

text \<open>
  Clearing removes, for every user, the stored state of the named servers and nothing else, whatever
  fails; when nothing fails all of it is gone.
\<close>

theorem clear_removes_named_state:
  assumes "{key. s key \<noteq> None} \<subseteq> set keys"
  shows "case ClearServerOAuthState env fails cancelled io keys names s of ((n, errs), s') \<Rightarrow>
    (\<forall>key. s' key = s key \<or> (named_state env names key \<and> s' key = None))
    \<and> (if fails = (\<lambda>_. None) \<and> cancelled = (\<lambda>_. None) \<and> io = (\<lambda>_. IoOk)
       then errs = [] \<and> s' = (\<lambda>key. if named_state env names key then None else s key) else True)"
proof (cases "names = []")
  case True
  then show ?thesis by (auto simp: ClearServerOAuthState_def named_state_def fun_eq_iff split: option.split)
next
  case names: False
  show ?thesis
  proof (cases "wanted_keys env fails names 0 keys")
    case (Inl err)
    have "fails \<noteq> (\<lambda>_. None)" using wanted_keys_spec [of fails env names 0 keys] Inl by auto
    then show ?thesis using names Inl by (simp add: ClearServerOAuthState_def)
  next
    case (Inr ws)
    obtain n errs s' where d: "delete_keys cancelled io 0 ws (0, []) s = ((n, errs), s')" by (metis prod.exhaust)
    have "s' key = s key \<or> named_state env names key \<and> s' key = None" for key
      using delete_keys_frame [of key ws cancelled io 0 "(0, [])" s] delete_keys_weakens [of cancelled io 0 ws "(0, [])" s key]
        wanted_keys_named [OF Inr] d by (cases "key \<in> set ws") (auto simp: list_all_iff)
    moreover have "errs = [] \<and> s' = (\<lambda>key. if named_state env names key then None else s key)"
      if "fails = (\<lambda>_. None)" "cancelled = (\<lambda>_. None)" "io = (\<lambda>_. IoOk)"
    proof -
      have "ws = filter (named_state env names) keys"
        using wanted_keys_spec [of fails env names 0 keys] Inr that(1) by simp
      moreover have "errs = []" "s' = (\<lambda>key. if key \<in> set ws then None else s key)"
        using delete_keys_all [of cancelled io 0 ws 0 "[]" s] that(2,3) d by simp_all
      ultimately show ?thesis using assms by (auto simp: fun_eq_iff)
    qed
    ultimately show ?thesis using names Inr d by (simp add: ClearServerOAuthState_def)
  qed
qed

section \<open>Examples\<close>

definition ex_urls :: url_env where
  "ex_urls = \<lparr>ur_parse = (\<lambda>s. if HasPrefix s ''https://'' then Some (''https'', drop 8 s, []) else None),
     ur_lower = (\<lambda>s. s), ur_validId = (\<lambda>_. True)\<rparr>"

definition listed_server :: "string \<Rightarrow> string \<Rightarrow> string \<Rightarrow> MCPServerConfig" where
  "listed_server serverID name url = \<lparr>ms_ID = serverID, ms_Name = name, ms_Enabled = True, ms_BaseURL = url, ms_Headers = [],
     ms_Description = [], ms_DMOnly = False, ms_ServiceAccountHeaders = [], ms_ClientID = [], ms_ClientSecret = [],
     ms_ToolConfigs = []\<rparr>"

definition ex_before :: "MCPServerConfig list" where
  "ex_before = [listed_server ''1'' ''a'' ''https://a'', listed_server ''2'' ''b'' ''https://b'']"

definition ex_after :: "MCPServerConfig list" where
  "ex_after = [listed_server ''1'' ''b'' ''https://a'', listed_server ''2'' ''c'' ''https://b'', listed_server ''3'' ''d'' ''https://d'']"

text \<open>A name handed on to another server is cleared with the names around it.\<close>

lemma renamed_servers_cleared:
  "set (map oc_Name (OAuthStateToClear ex_urls ex_before ex_after)) = {''a'', ''b'', ''c'', ''d''}"
  by code_simp

lemma unchanged_server_keeps_grants_witness:
  "''a'' \<notin> set (map oc_Name (OAuthStateToClear ex_urls ex_before
     [listed_server ''1'' ''a'' ''https://a'', listed_server ''2'' ''b'' ''https://c'']))"
  using unchanged_server_keeps_grants [of "listed_server ''1'' ''a'' ''https://a''" ex_before "listed_server ''1'' ''a'' ''https://a''"
      "[listed_server ''1'' ''a'' ''https://a'', listed_server ''2'' ''b'' ''https://c'']" ex_urls]
  by (simp add: ex_before_def listed_server_def keeps_grants_def)

lemma oauth_keys_name_their_server_witness:
  "serverNameFromOAuthKey ex_urls (buildTokenKey (replicate 26 (CHR ''u'')) ''a_b'') = Some ''a_b''
   \<and> serverNameFromOAuthKey ex_urls (buildAuthNeededKey (replicate 26 (CHR ''u'')) ''a_b'') = Some ''a_b''"
  by (rule oauth_keys_name_their_server) (simp_all add: userIDLength_def ex_urls_def)

definition ex_stored :: kv where
  "ex_stored key = (if key = buildTokenKey (replicate 26 (CHR ''u'')) ''a'' then Some ''v'' else None)"

lemma clear_removes_named_state_witness:
  "snd (ClearServerOAuthState ex_urls (\<lambda>_. None) (\<lambda>_. None) (\<lambda>_. IoOk)
       [buildTokenKey (replicate 26 (CHR ''u'')) ''a''] [''a''] ex_stored)
     = (\<lambda>key. if named_state ex_urls [''a''] key then None else ex_stored key)"
proof -
  have "{key. ex_stored key \<noteq> None} \<subseteq> set [buildTokenKey (replicate 26 (CHR ''u'')) ''a'']"
    by (auto simp: ex_stored_def split: if_splits)
  from clear_removes_named_state [OF this, where env = ex_urls and fails = "\<lambda>_. None" and cancelled = "\<lambda>_. None"
      and io = "\<lambda>_. IoOk" and names = "[''a'']"]
  show ?thesis by (simp split: prod.splits)
qed

end
