(* ===== verification/Mcp_Oauth.thy ===== *)
theory Mcp_Oauth
  imports Oauth_Cleanup "HOL-Library.Word"
begin

text \<open>
  A user's OAuth grant for an MCP server: how it is stored, bound to the server and to the authorization
  server that issued it, and refreshed (\<open>src/mcp/oauth_store.go\<close>, \<open>src/mcp/oauth_refresh.go\<close>,
  \<open>src/mcp/oauth_handler.go\<close>).

  The state is the key-value store and the log of HTTP requests sent. Before store access \<open>k\<close> of an
  operation other nodes and requests commit \<open>oe_others k\<close>; \<open>oe_send k\<close> is the answer of the HTTP
  client. The token type of \<open>golang.org/x/oauth2\<close> is third-party code: its JSON codec and its validity
  at moment \<open>k\<close> are parameters. Log lines, spans and creation times, which nothing reads, are left out.
\<close>

section \<open>Grants\<close>

record Token =
  tk_AccessToken :: string
  tk_TokenType :: string
  tk_RefreshToken :: string
  tk_Expiry :: int

record storedTokenEnvelope =
  te_Version :: int
  te_Token :: "Token option"
  te_Issuer :: string
  te_TokenEndpoint :: string
  te_AuthServerURL :: string
  te_ClientID :: string
  te_AuthMethod :: string
  te_Resource :: string
  te_RevocationEndpoint :: string
  te_ServerOrigin :: string
  te_ServerConfigID :: string

record ClientCredentials =
  cc_ClientID :: string
  cc_ClientSecret :: string
  cc_ServerURL :: string
  cc_TokenEndpointAuthMethod :: string
  cc_SecretExpiresAt :: int

record StaticOAuthCredentials =
  sc_ClientID :: string
  sc_ClientSecret :: string

record http_request =
  hr_URL :: string
  hr_form :: "(string \<times> string) list"
  hr_basic :: "(string \<times> string) option"

datatype http_answer = NoAnswer go_error | Answer int "go_error + string"

record oauth_env =
  oe_urls :: url_env
  oe_json :: json_env
  oe_io :: "nat \<Rightarrow> io"
  oe_others :: "nat \<Rightarrow> kv \<Rightarrow> kv"
  oe_token_json :: "Token \<Rightarrow> json"
  oe_json_token :: "json \<Rightarrow> Token result"
  oe_valid :: "nat \<Rightarrow> Token \<Rightarrow> bool"
  oe_now :: "nat \<Rightarrow> int"
  oe_send :: "nat \<Rightarrow> http_request \<Rightarrow> http_answer"
  oe_random :: "nat \<Rightarrow> string result"
  oe_done :: "nat \<Rightarrow> go_error option"
  oe_past :: "nat \<Rightarrow> bool"
  oe_escape :: "string \<Rightarrow> string"
  oe_sha256 :: "string \<Rightarrow> string"
  oe_parseFloat :: "string \<Rightarrow> int option"

record oauth =
  os_kv :: kv
  os_sent :: "http_request list"

definition kv_step :: "oauth_env \<Rightarrow> nat \<Rightarrow> (io \<Rightarrow> kv \<Rightarrow> 'a \<times> kv) \<Rightarrow> oauth \<Rightarrow> 'a \<times> oauth" where
  "kv_step e k access s =
     (let (r, kv') = access (oe_io e k) (oe_others e k (os_kv s)) in (r, s\<lparr>os_kv := kv'\<rparr>))"

definition kv_read :: "oauth_env \<Rightarrow> nat \<Rightarrow> string \<Rightarrow> oauth \<Rightarrow> string result \<times> oauth" where
  "kv_read e k key = kv_step e k (\<lambda>io kv. (KVGet io key kv, kv))"

section \<open>Errors\<close>

datatype oauth_error =
    mcpUnauthorized string string "oauth_error option"
  | oauthTokenError int string string
  | Plain go_error
  | Wrapped string oauth_error

definition Errorf :: "string \<Rightarrow> oauth_error" where
  "Errorf msg = Plain (ErrorNew msg)"

definition reauthorize :: "string \<Rightarrow> oauth_error" where
  "reauthorize msg = mcpUnauthorized [] [] (Some (Errorf msg))"

fun as_token_error :: "oauth_error \<Rightarrow> string option" where
  "as_token_error (mcpUnauthorized m sc None) = None"
| "as_token_error (mcpUnauthorized m sc (Some err)) = as_token_error err"
| "as_token_error (oauthTokenError status code descr) = Some code"
| "as_token_error (Plain err) = None"
| "as_token_error (Wrapped msg err) = as_token_error err"

definition isInvalidGrantError :: "oauth_error \<Rightarrow> bool" where
  "isInvalidGrantError err \<longleftrightarrow> as_token_error err = Some ''invalid_grant''"

section \<open>Stored grants\<close>

definition tokenEnvelopeVersion :: int where "tokenEnvelopeVersion = 1"

definition envelope0 :: storedTokenEnvelope where
  "envelope0 = \<lparr>te_Version = 0, te_Token = None, te_Issuer = [], te_TokenEndpoint = [], te_AuthServerURL = [], te_ClientID = [],
     te_AuthMethod = [], te_Resource = [], te_RevocationEndpoint = [], te_ServerOrigin = [], te_ServerConfigID = []\<rparr>"

definition encode_envelope :: "oauth_env \<Rightarrow> storedTokenEnvelope \<Rightarrow> json" where
  "encode_envelope e env = JObj (e_int ''version'' (te_Version env)
     @ [(''token'', case te_Token env of None \<Rightarrow> JNull | Some t \<Rightarrow> oe_token_json e t)]
     @ e_string_omit ''issuer'' (te_Issuer env) @ e_string_omit ''tokenEndpoint'' (te_TokenEndpoint env)
     @ e_string_omit ''authServerURL'' (te_AuthServerURL env) @ e_string_omit ''clientID'' (te_ClientID env)
     @ e_string_omit ''authMethod'' (te_AuthMethod env) @ e_string_omit ''resource'' (te_Resource env)
     @ e_string_omit ''revocationEndpoint'' (te_RevocationEndpoint env)
     @ e_string_omit ''serverOrigin'' (te_ServerOrigin env) @ e_string_omit ''serverConfigID'' (te_ServerConfigID env))"

definition fields_envelope :: "oauth_env \<Rightarrow> storedTokenEnvelope fields" where
  "fields_envelope e =
     [(''version'', d_int (\<lambda>i. te_Version_update (\<lambda>_. i))),
      (''token'', d_pointer (\<lambda>t. te_Token_update (\<lambda>_. t)) (oe_json_token e)),
      (''issuer'', d_string (\<lambda>s. te_Issuer_update (\<lambda>_. s))),
      (''tokenEndpoint'', d_string (\<lambda>s. te_TokenEndpoint_update (\<lambda>_. s))),
      (''authServerURL'', d_string (\<lambda>s. te_AuthServerURL_update (\<lambda>_. s))),
      (''clientID'', d_string (\<lambda>s. te_ClientID_update (\<lambda>_. s))),
      (''authMethod'', d_string (\<lambda>s. te_AuthMethod_update (\<lambda>_. s))),
      (''resource'', d_string (\<lambda>s. te_Resource_update (\<lambda>_. s))),
      (''revocationEndpoint'', d_string (\<lambda>s. te_RevocationEndpoint_update (\<lambda>_. s))),
      (''serverOrigin'', d_string (\<lambda>s. te_ServerOrigin_update (\<lambda>_. s))),
      (''serverConfigID'', d_string (\<lambda>s. te_ServerConfigID_update (\<lambda>_. s)))]"

definition envelope_text :: "oauth_env \<Rightarrow> storedTokenEnvelope \<Rightarrow> string" where
  "envelope_text e env = js_print (oe_json e) (encode_envelope e env)"

definition Unmarshal :: "oauth_env \<Rightarrow> (json \<Rightarrow> 'a result) \<Rightarrow> string \<Rightarrow> 'a result" where
  "Unmarshal e decode raw = (case js_parse (oe_json e) raw of None \<Rightarrow> Inl json_syntax_error | Some v \<Rightarrow> decode v)"

definition usable_token :: "Token option \<Rightarrow> bool" where
  "usable_token t = (case t of None \<Rightarrow> False | Some tok \<Rightarrow> tk_AccessToken tok \<noteq> [])"

text \<open>The second component is the bytes read; a grant stored before the envelope existed has version 0.\<close>

definition legacy_grant :: "oauth_env \<Rightarrow> string \<Rightarrow> storedTokenEnvelope option" where
  "legacy_grant e raw =
     (case Unmarshal e (oe_json_token e) raw of
        Inl _ \<Rightarrow> None
      | Inr t \<Rightarrow> if tk_AccessToken t = [] then None else Some (envelope0\<lparr>te_Token := Some t\<rparr>))"

definition read_envelope :: "oauth_env \<Rightarrow> string \<Rightarrow> (storedTokenEnvelope option \<times> string) result" where
  "read_envelope e raw =
     (case Unmarshal e (decode_struct (fields_envelope e) envelope0) raw of
        Inr env \<Rightarrow>
          (if te_Version env > 0
           then if te_Version env \<noteq> tokenEnvelopeVersion
             then Inl (ErrorNew (''unsupported token envelope version '' @ Itoa (nat (te_Version env)) @ '' (expected 1)''))
             else Inr (if usable_token (te_Token env) then Some env else None, raw)
           else Inr (legacy_grant e raw, raw))
      | Inl _ \<Rightarrow> Inr (legacy_grant e raw, raw))"

definition loadTokenEnvelope ::
  "oauth_env \<Rightarrow> nat \<Rightarrow> string \<Rightarrow> string \<Rightarrow> oauth \<Rightarrow> (storedTokenEnvelope option \<times> string) result \<times> oauth" where
  "loadTokenEnvelope e k userID serverID s =
     (case kv_read e k (buildTokenKey userID serverID) s of
        (Inl err, s') \<Rightarrow>
          (if IsKVNotFound err then Inr (None, []) else Inl (wrapf ''failed to retrieve token from KV store'' err), s')
      | (Inr raw, s') \<Rightarrow> (read_envelope e raw, s'))"

definition storeTokenEnvelope ::
  "oauth_env \<Rightarrow> nat \<Rightarrow> string \<Rightarrow> string \<Rightarrow> storedTokenEnvelope \<Rightarrow> oauth \<Rightarrow> go_error option \<times> oauth" where
  "storeTokenEnvelope e k userID serverID env s =
     (case kv_step e k (\<lambda>io. KVSet io (buildTokenKey userID serverID) (envelope_text e env)) s of
        (Some err, s') \<Rightarrow> (Some (wrapf ''failed to store token in KV store'' err), s')
      | (None, s') \<Rightarrow> (None, s'))"

definition casTokenEnvelope ::
  "oauth_env \<Rightarrow> nat \<Rightarrow> string \<Rightarrow> string \<Rightarrow> string \<Rightarrow> storedTokenEnvelope \<Rightarrow> oauth \<Rightarrow> bool result \<times> oauth" where
  "casTokenEnvelope e k userID serverID oldRaw updated =
     kv_step e k (\<lambda>io. KVCompareAndSet io (buildTokenKey userID serverID) (Some oldRaw) (Some (envelope_text e updated)))"

definition casDeleteTokenEnvelope :: "oauth_env \<Rightarrow> nat \<Rightarrow> string \<Rightarrow> string \<Rightarrow> string \<Rightarrow> oauth \<Rightarrow> bool result \<times> oauth" where
  "casDeleteTokenEnvelope e k userID serverID oldRaw =
     kv_step e k (\<lambda>io. KVCompareAndSet io (buildTokenKey userID serverID) (Some oldRaw) None)"

section \<open>Binding a grant to its server\<close>

definition grantBindAttempts :: nat where "grantBindAttempts = 3"

definition bound_origin :: "oauth_env \<Rightarrow> MCPServerConfig \<Rightarrow> storedTokenEnvelope \<Rightarrow> string" where
  "bound_origin e server env =
     (let fromResource = canonicalOriginFromString (oe_urls e) (te_Resource env)
      in if te_ServerOrigin env \<noteq> [] then te_ServerOrigin env
         else if fromResource \<noteq> [] then fromResource
         else canonicalOriginFromString (oe_urls e) (ms_BaseURL server))"

definition bind_grant :: "oauth_env \<Rightarrow> MCPServerConfig \<Rightarrow> storedTokenEnvelope \<Rightarrow> storedTokenEnvelope option" where
  "bind_grant e server env =
     (let origin = bound_origin e server env
      in if te_Version env = 0 \<or> origin = [] \<or> originChanged (oe_urls e) origin (ms_BaseURL server) then None
         else if te_ServerConfigID env = []
         then Some (env\<lparr>te_ServerOrigin := origin, te_ServerConfigID := ms_ID server\<rparr>)
         else if ms_ID server \<noteq> [] \<and> te_ServerConfigID env \<noteq> ms_ID server then None
         else Some (env\<lparr>te_ServerOrigin := origin\<rparr>))"

fun bind_loop ::
  "oauth_env \<Rightarrow> nat \<Rightarrow> nat \<Rightarrow> string \<Rightarrow> MCPServerConfig \<Rightarrow> oauth \<Rightarrow> (storedTokenEnvelope \<times> string) option result \<times> oauth" where
  "bind_loop e 0 k userID server s = (Inr None, s)"
| "bind_loop e (Suc n) k userID server s =
     (case loadTokenEnvelope e k userID (ms_Name server) s of
        (Inl err, s1) \<Rightarrow> (Inl err, s1)
      | (Inr (None, _), s1) \<Rightarrow> (Inr None, s1)
      | (Inr (Some env, raw), s1) \<Rightarrow>
          (case bind_grant e server env of
             None \<Rightarrow> (Inr None, s1)
           | Some bound \<Rightarrow>
               (if bound = env then (Inr (Some (env, raw)), s1)
                else case casTokenEnvelope e (k + 1) userID (ms_Name server) raw bound s1 of
                       (Inl err, s2) \<Rightarrow> (Inl (wrapf ''failed to bind stored grant to its server'' err), s2)
                     | (Inr _, s2) \<Rightarrow> bind_loop e n (k + 2) userID server s2)))"

definition loadGrantForServer ::
  "oauth_env \<Rightarrow> nat \<Rightarrow> string \<Rightarrow> MCPServerConfig \<Rightarrow> oauth \<Rightarrow> (storedTokenEnvelope \<times> string) option result \<times> oauth" where
  "loadGrantForServer e k userID server = bind_loop e grantBindAttempts k userID server"

definition HasStoredToken :: "oauth_env \<Rightarrow> nat \<Rightarrow> string \<Rightarrow> MCPServerConfig \<Rightarrow> oauth \<Rightarrow> bool result \<times> oauth" where
  "HasStoredToken e k userID serverConfig s =
     (case loadGrantForServer e k userID serverConfig s of
        (Inl err, s') \<Rightarrow> (Inl err, s')
      | (Inr None, s') \<Rightarrow> (Inr False, s')
      | (Inr (Some (env, raw)), s') \<Rightarrow> (Inr (te_Token env \<noteq> None), s'))"

section \<open>Client credentials\<close>

definition buildClientCredentialsKey :: "oauth_env \<Rightarrow> string \<Rightarrow> string" where
  "buildClientCredentialsKey e serverURL = ''mcp_oauth_client_v2'' @ ''_'' @ oe_sha256 e serverURL"

definition isPublicClient :: "ClientCredentials \<Rightarrow> bool" where
  "isPublicClient c \<longleftrightarrow> cc_TokenEndpointAuthMethod c = ''none''"

definition encode_credentials :: "ClientCredentials \<Rightarrow> json" where
  "encode_credentials c = JObj (e_string ''clientID'' (cc_ClientID c) @ e_string ''clientSecret'' (cc_ClientSecret c)
     @ e_string ''serverURL'' (cc_ServerURL c) @ e_string_omit ''tokenEndpointAuthMethod'' (cc_TokenEndpointAuthMethod c)
     @ (if cc_SecretExpiresAt c = 0 then [] else e_int ''secretExpiresAt'' (cc_SecretExpiresAt c)))"

definition fields_credentials :: "ClientCredentials fields" where
  "fields_credentials =
     [(''clientID'', d_string (\<lambda>s. cc_ClientID_update (\<lambda>_. s))),
      (''clientSecret'', d_string (\<lambda>s. cc_ClientSecret_update (\<lambda>_. s))),
      (''serverURL'', d_string (\<lambda>s. cc_ServerURL_update (\<lambda>_. s))),
      (''tokenEndpointAuthMethod'', d_string (\<lambda>s. cc_TokenEndpointAuthMethod_update (\<lambda>_. s))),
      (''secretExpiresAt'', d_int (\<lambda>i. cc_SecretExpiresAt_update (\<lambda>_. i)))]"

definition credentials0 :: ClientCredentials where
  "credentials0 = \<lparr>cc_ClientID = [], cc_ClientSecret = [], cc_ServerURL = [], cc_TokenEndpointAuthMethod = [],
     cc_SecretExpiresAt = 0\<rparr>"

definition Second :: int where "Second = 1000000000"

definition check_credentials :: "int \<Rightarrow> string \<Rightarrow> ClientCredentials \<Rightarrow> ClientCredentials option result" where
  "check_credentials unix serverURL c =
     (if cc_ClientID c = [] \<or> cc_ClientSecret c = [] \<and> \<not> isPublicClient c then Inr None
      else if cc_SecretExpiresAt c > 0 \<and> unix \<ge> cc_SecretExpiresAt c then Inr None
      else if cc_ServerURL c \<noteq> serverURL
      then Inl (ErrorNew ''server URL mismatch in stored credentials (possible hash collision)'')
      else Inr (Some c))"

definition loadClientCredentials :: "oauth_env \<Rightarrow> nat \<Rightarrow> string \<Rightarrow> oauth \<Rightarrow> ClientCredentials option result \<times> oauth" where
  "loadClientCredentials e k serverURL s =
     (case kv_read e k (buildClientCredentialsKey e serverURL) s of
        (Inl err, s') \<Rightarrow>
          (if IsKVNotFound err then Inr None else Inl (wrapf ''failed to retrieve client credentials from KV store'' err), s')
      | (Inr raw, s') \<Rightarrow>
          (case Unmarshal e (decode_struct fields_credentials credentials0) raw of
             Inl err \<Rightarrow> (Inl (wrapf ''failed to retrieve client credentials from KV store'' err), s')
           | Inr c \<Rightarrow> (check_credentials (oe_now e k div Second) serverURL c, s')))"

definition storeClientCredentials :: "oauth_env \<Rightarrow> nat \<Rightarrow> ClientCredentials \<Rightarrow> oauth \<Rightarrow> go_error option \<times> oauth" where
  "storeClientCredentials e k c s =
     (case kv_step e k (\<lambda>io. KVSet io (buildClientCredentialsKey e (cc_ServerURL c))
             (js_print (oe_json e) (encode_credentials c))) s of
        (Some err, s') \<Rightarrow> (Some (wrapf ''failed to store client credentials'' err), s')
      | (None, s') \<Rightarrow> (None, s'))"

section \<open>Redeeming a refresh token\<close>

definition authMethodNone :: string where "authMethodNone = ''none''"
definition authMethodBasic :: string where "authMethodBasic = ''client_secret_basic''"
definition authMethodPost :: string where "authMethodPost = ''client_secret_post''"

definition refreshAuthMethods :: "string \<Rightarrow> string \<Rightarrow> string list" where
  "refreshAuthMethods pinned secret =
     (if pinned \<in> {authMethodNone, authMethodBasic, authMethodPost} then [pinned]
      else if secret = [] then [authMethodNone]
      else [authMethodBasic, authMethodPost])"

definition client_params :: "ClientCredentials \<Rightarrow> string \<Rightarrow> (string \<times> string) list" where
  "client_params c method =
     (if method = authMethodNone then [(''client_id'', cc_ClientID c)]
      else if method = authMethodPost then [(''client_id'', cc_ClientID c), (''client_secret'', cc_ClientSecret c)]
      else [])"

definition client_basic :: "oauth_env \<Rightarrow> ClientCredentials \<Rightarrow> string \<Rightarrow> (string \<times> string) option" where
  "client_basic e c method =
     (if method = authMethodBasic then Some (oe_escape e (cc_ClientID c), oe_escape e (cc_ClientSecret c)) else None)"

definition refresh_token :: "storedTokenEnvelope \<Rightarrow> string" where
  "refresh_token env = (case te_Token env of None \<Rightarrow> [] | Some t \<Rightarrow> tk_RefreshToken t)"

definition refresh_request :: "oauth_env \<Rightarrow> storedTokenEnvelope \<Rightarrow> ClientCredentials \<Rightarrow> string \<Rightarrow> http_request" where
  "refresh_request e env c method =
     \<lparr>hr_URL = te_TokenEndpoint env,
      hr_form = [(''grant_type'', ''refresh_token''), (''refresh_token'', refresh_token env)]
        @ (if te_Resource env = [] then [] else [(''resource'', te_Resource env)]) @ client_params c method,
      hr_basic = client_basic e c method\<rparr>"

text \<open>A request goes out without following redirects: the answer is the token endpoint's own.\<close>

definition send_form :: "oauth_env \<Rightarrow> nat \<Rightarrow> http_request \<Rightarrow> oauth \<Rightarrow> http_answer \<times> oauth" where
  "send_form e k req s = (oe_send e k req, s\<lparr>os_sent := os_sent s @ [req]\<rparr>)"

definition flexibleNumber :: "oauth_env \<Rightarrow> json \<Rightarrow> (int \<Rightarrow> int) result" where
  "flexibleNumber e v =
     (let parse = \<lambda>text. (case oe_parseFloat e text of None \<Rightarrow> Inl (ErrorNew (''invalid number '' @ text)) | Some i \<Rightarrow> Inr (\<lambda>_. i))
      in case v of
           JNull \<Rightarrow> Inr id
         | JStr s \<Rightarrow> (if s = [] then Inr id else parse s)
         | _ \<Rightarrow> parse (js_print (oe_json e) v))"

record token_body =
  tb_access :: string
  tb_type :: string
  tb_refresh :: string
  tb_expires :: int
  tb_scope :: string

definition fields_token_body :: "oauth_env \<Rightarrow> token_body fields" where
  "fields_token_body e =
     [(''access_token'', d_string (\<lambda>s. tb_access_update (\<lambda>_. s))),
      (''token_type'', d_string (\<lambda>s. tb_type_update (\<lambda>_. s))),
      (''refresh_token'', d_string (\<lambda>s. tb_refresh_update (\<lambda>_. s))),
      (''expires_in'', \<lambda>v. map_sum id tb_expires_update (flexibleNumber e v)),
      (''scope'', d_string (\<lambda>s. tb_scope_update (\<lambda>_. s)))]"

text \<open>The errors of this decoding are ignored: a field of another type is skipped.\<close>

definition lenient :: "'r decoder \<Rightarrow> 'r decoder" where
  "lenient d v = (case d v of Inl _ \<Rightarrow> Inr id | Inr f \<Rightarrow> Inr f)"

definition fields_error_body :: "(string \<times> string) fields" where
  "fields_error_body =
     [(''error'', lenient (d_string (\<lambda>s p. (s, snd p)))),
      (''error_description'', lenient (d_string (\<lambda>s p. (fst p, s))))]"

text \<open>\<open>time.Duration\<close> is a 64-bit count of nanoseconds.\<close>

definition duration_seconds :: "int \<Rightarrow> int" where
  "duration_seconds n = sint (word_of_int (n * Second) :: 64 word)"

definition refreshed_token :: "int \<Rightarrow> storedTokenEnvelope \<Rightarrow> token_body \<Rightarrow> Token" where
  "refreshed_token now env b =
     \<lparr>tk_AccessToken = tb_access b, tk_TokenType = tb_type b,
      tk_RefreshToken = (if tb_refresh b = [] then refresh_token env else tb_refresh b),
      tk_Expiry = (if tb_expires b > 0 then now + duration_seconds (tb_expires b) else 0)\<rparr>"

definition maxTokenResponseBytes :: nat where "maxTokenResponseBytes = 2 ^ 20"

definition read_token_answer :: "oauth_env \<Rightarrow> int \<Rightarrow> storedTokenEnvelope \<Rightarrow> http_answer \<Rightarrow> oauth_error + Token" where
  "read_token_answer e now env answer =
     (case answer of
        NoAnswer err \<Rightarrow> Inl (Plain (wrapf ''token refresh request failed'' err))
      | Answer status (Inl err) \<Rightarrow> Inl (Plain (wrapf ''failed to read token refresh response'' err))
      | Answer status (Inr full) \<Rightarrow>
          (let body = take maxTokenResponseBytes full in
           if status \<noteq> 200
           then case Unmarshal e (decode_struct fields_error_body ([], [])) body of
                  Inr (code, descr) \<Rightarrow> Inl (oauthTokenError status code descr)
                | Inl _ \<Rightarrow> Inl (oauthTokenError status [] [])
           else case Unmarshal e (decode_struct (fields_token_body e)
                       \<lparr>tb_access = [], tb_type = [], tb_refresh = [], tb_expires = 0, tb_scope = []\<rparr>) body of
                  Inl err \<Rightarrow> Inl (Plain (wrapf ''failed to parse token refresh response'' err))
                | Inr b \<Rightarrow>
                    (if tb_access b = [] then Inl (Errorf ''token refresh response is missing access_token'')
                     else Inr (refreshed_token now env b))))"

definition doRefresh ::
  "oauth_env \<Rightarrow> nat \<Rightarrow> storedTokenEnvelope \<Rightarrow> ClientCredentials \<Rightarrow> string \<Rightarrow> oauth \<Rightarrow> (oauth_error + Token) \<times> oauth" where
  "doRefresh e k env c method s =
     (if ur_parse (oe_urls e) (te_TokenEndpoint env) = None then (Inl (Errorf ''failed to create refresh request''), s)
      else let (answer, s') = send_form e k (refresh_request e env c method) s
        in (read_token_answer e (oe_now e k) env answer, s'))"

fun refresh_methods ::
  "oauth_env \<Rightarrow> nat \<Rightarrow> storedTokenEnvelope \<Rightarrow> ClientCredentials \<Rightarrow> string list \<Rightarrow> oauth
     \<Rightarrow> (oauth_error + Token \<times> string) \<times> oauth" where
  "refresh_methods e k env c [] s = (Inl (Errorf ''no client authentication method available for refresh''), s)"
| "refresh_methods e k env c (m # ms) s =
     (case doRefresh e k env c m s of
        (Inr t, s') \<Rightarrow> (Inr (t, m), s')
      | (Inl err, s') \<Rightarrow>
          (if ms \<noteq> [] \<and> as_token_error err \<noteq> None \<and> \<not> isInvalidGrantError err
           then refresh_methods e (k + 1) env c ms s'
           else (Inl err, s')))"

definition refreshGrant ::
  "oauth_env \<Rightarrow> nat \<Rightarrow> storedTokenEnvelope \<Rightarrow> ClientCredentials \<Rightarrow> oauth \<Rightarrow> (oauth_error + Token \<times> string) \<times> oauth" where
  "refreshGrant e k env c s = refresh_methods e k env c (refreshAuthMethods (te_AuthMethod env) (cc_ClientSecret c)) s"

section \<open>The token source of a connection\<close>

record token_source =
  ts_envelope :: storedTokenEnvelope
  ts_raw :: string
  ts_static :: "StaticOAuthCredentials option"
  ts_userID :: string
  ts_serverName :: string
  ts_server :: MCPServerConfig

definition staticOAuthCreds :: "MCPServerConfig \<Rightarrow> StaticOAuthCredentials option" where
  "staticOAuthCreds s =
     (if ms_ClientID s = [] then None else Some \<lparr>sc_ClientID = ms_ClientID s, sc_ClientSecret = ms_ClientSecret s\<rparr>)"

definition TokenSource :: "oauth_env \<Rightarrow> nat \<Rightarrow> string \<Rightarrow> MCPServerConfig \<Rightarrow> oauth \<Rightarrow> token_source option result \<times> oauth" where
  "TokenSource e k userID server s =
     (case loadGrantForServer e k userID server s of
        (Inl err, s') \<Rightarrow> (Inl (wrapf ''failed to load token'' err), s')
      | (Inr None, s') \<Rightarrow> (Inr None, s')
      | (Inr (Some (env, raw)), s') \<Rightarrow>
          (Inr (Some \<lparr>ts_envelope = env, ts_raw = raw, ts_static = staticOAuthCreds server, ts_userID = userID,
             ts_serverName = ms_Name server, ts_server = server\<rparr>), s'))"

text \<open>Loading a grant accesses the store at most this often.\<close>

definition load_steps :: nat where "load_steps = 2 * grantBindAttempts"

definition token_valid :: "oauth_env \<Rightarrow> nat \<Rightarrow> storedTokenEnvelope \<Rightarrow> Token option" where
  "token_valid e k env = (case te_Token env of None \<Rightarrow> None | Some t \<Rightarrow> if oe_valid e k t then Some t else None)"

definition adoptLatestGrant ::
  "oauth_env \<Rightarrow> nat \<Rightarrow> token_source \<Rightarrow> oauth \<Rightarrow> Token option \<times> token_source \<times> oauth" where
  "adoptLatestGrant e k src s =
     (case loadGrantForServer e k (ts_userID src) (ts_server src) s of
        (Inr (Some (latest, raw)), s') \<Rightarrow>
          (if te_Token latest = None then (None, src, s')
           else (token_valid e (k + load_steps) latest, src\<lparr>ts_envelope := latest, ts_raw := raw\<rparr>, s'))
      | (_, s') \<Rightarrow> (None, src, s'))"

type_synonym token_outcome = "(oauth_error + Token) \<times> token_source \<times> oauth"

definition clearGrantOrAdopt :: "oauth_env \<Rightarrow> nat \<Rightarrow> string \<Rightarrow> token_source \<Rightarrow> oauth \<Rightarrow> token_outcome" where
  "clearGrantOrAdopt e k reauthMsg src s =
     (case casDeleteTokenEnvelope e k (ts_userID src) (ts_serverName src) (ts_raw src) s of
        (Inr True, s1) \<Rightarrow> (Inl (reauthorize reauthMsg), src, s1)
      | (_, s1) \<Rightarrow>
          (case adoptLatestGrant e (k + 1) src s1 of
             (Some t, src', s2) \<Rightarrow> (Inr t, src', s2)
           | (None, src', s2) \<Rightarrow> (Inl (reauthorize reauthMsg), src', s2)))"

definition registeredCredentials ::
  "oauth_env \<Rightarrow> nat \<Rightarrow> token_source \<Rightarrow> oauth \<Rightarrow> (oauth_error + ClientCredentials) \<times> oauth" where
  "registeredCredentials e k src s =
     (case loadClientCredentials e k (te_AuthServerURL (ts_envelope src)) s of
        (Inl err, s') \<Rightarrow> (Inl (Plain (wrapf ''failed to load client credentials for refresh'' err)), s')
      | (Inr None, s') \<Rightarrow> (Inl (reauthorize ''registered client for this grant is no longer available, re-authentication required''), s')
      | (Inr (Some c), s') \<Rightarrow>
          (if cc_ClientID c \<noteq> te_ClientID (ts_envelope src)
           then Inl (reauthorize ''registered client for this grant is no longer available, re-authentication required'')
           else Inr c, s'))"

definition refreshCredentials :: "oauth_env \<Rightarrow> nat \<Rightarrow> token_source \<Rightarrow> oauth \<Rightarrow> (oauth_error + ClientCredentials) \<times> oauth" where
  "refreshCredentials e k src s =
     (case ts_static src of
        Some sc \<Rightarrow>
          (if sc_ClientID sc = [] then registeredCredentials e k src s
           else if sc_ClientID sc \<noteq> te_ClientID (ts_envelope src)
           then (Inl (reauthorize ''configured client ID no longer matches the client this grant was issued to, re-authentication required''), s)
           else (Inr (credentials0\<lparr>cc_ClientID := sc_ClientID sc, cc_ClientSecret := sc_ClientSecret sc\<rparr>), s))
      | None \<Rightarrow> registeredCredentials e k src s)"

text \<open>The lease of a grant's refresh.\<close>

definition refreshLeaseTTL :: int where "refreshLeaseTTL = 35 * Second"

definition buildRefreshLeaseKey :: "string \<Rightarrow> string \<Rightarrow> string" where
  "buildRefreshLeaseKey userID serverID = ''mcp_oauth_refresh_lease_v1_'' @ userID @ ''_'' @ serverID"

definition lease_text :: "oauth_env \<Rightarrow> string \<Rightarrow> string" where
  "lease_text e leaseID = js_print (oe_json e) (JStr (json_text leaseID))"

definition acquireRefreshLease :: "oauth_env \<Rightarrow> nat \<Rightarrow> string \<Rightarrow> string \<Rightarrow> string \<Rightarrow> oauth \<Rightarrow> bool result \<times> oauth" where
  "acquireRefreshLease e k userID serverID leaseID =
     kv_step e k (\<lambda>io. KVCompareAndSetWithExpiry io (buildRefreshLeaseKey userID serverID) None (Some (lease_text e leaseID)) refreshLeaseTTL)"

definition releaseRefreshLease :: "oauth_env \<Rightarrow> nat \<Rightarrow> string \<Rightarrow> string \<Rightarrow> string \<Rightarrow> oauth \<Rightarrow> oauth" where
  "releaseRefreshLease e k userID serverID leaseID s =
     snd (kv_step e k (\<lambda>io. KVCompareAndSet io (buildRefreshLeaseKey userID serverID) (Some (lease_text e leaseID)) None) s)"

text \<open>
  Another node refreshes: poll for its grant. \<open>oe_past k\<close> says that the deadline has passed at moment \<open>k\<close>;
  the fuel bounds the polls.
\<close>

fun waitForConcurrentRefresh :: "oauth_env \<Rightarrow> nat \<Rightarrow> nat \<Rightarrow> token_source \<Rightarrow> oauth \<Rightarrow> token_outcome option" where
  "waitForConcurrentRefresh e 0 k src s = None"
| "waitForConcurrentRefresh e (Suc fuel) k src s =
     (case oe_done e k of
        Some err \<Rightarrow> Some (Inl (Plain err), src, s)
      | None \<Rightarrow>
          (case adoptLatestGrant e k src s of
             (Some t, src', s') \<Rightarrow> Some (Inr t, src', s')
           | (None, src', s') \<Rightarrow>
               (if oe_past e k then Some (Inl (Errorf ''another node is refreshing this OAuth token; retry''), src', s')
                else waitForConcurrentRefresh e fuel (k + load_steps + 1) src' s')))"

text \<open>A lost compare-and-set ends the attempts, an error is retried.\<close>

fun persist_loop ::
  "oauth_env \<Rightarrow> nat \<Rightarrow> nat \<Rightarrow> go_error \<Rightarrow> storedTokenEnvelope \<Rightarrow> token_source \<Rightarrow> oauth
     \<Rightarrow> go_error option \<times> token_source \<times> oauth" where
  "persist_loop e 0 k lastErr refreshed src s = (Some lastErr, src, s)"
| "persist_loop e (Suc n) k lastErr refreshed src s =
     (case casTokenEnvelope e k (ts_userID src) (ts_serverName src) (ts_raw src) refreshed s of
        (Inr True, s') \<Rightarrow> (None, src\<lparr>ts_envelope := refreshed, ts_raw := envelope_text e refreshed\<rparr>, s')
      | (Inr False, s') \<Rightarrow> (Some (ErrorNew ''stored grant changed unexpectedly during refresh persistence''), src, s')
      | (Inl err, s') \<Rightarrow>
          persist_loop e n (k + 1) (case oe_done e k of Some cause \<Rightarrow> cause | None \<Rightarrow> err) refreshed src s')"

definition persistAttempts :: nat where "persistAttempts = 4"

definition persistRefreshedGrant ::
  "oauth_env \<Rightarrow> nat \<Rightarrow> storedTokenEnvelope \<Rightarrow> token_source \<Rightarrow> oauth \<Rightarrow> go_error option \<times> token_source \<times> oauth" where
  "persistRefreshedGrant e k refreshed src s =
     (case persist_loop e persistAttempts k (ErrorNew []) refreshed src s of
        (Some err, src', s') \<Rightarrow> (Some (wrapf ''refreshed token could not be persisted safely'' err), src', s')
      | (None, src', s') \<Rightarrow> (None, src', s'))"

text \<open>The refresh itself, while the lease is held.\<close>

definition redeem :: "oauth_env \<Rightarrow> nat \<Rightarrow> token_source \<Rightarrow> ClientCredentials \<Rightarrow> oauth \<Rightarrow> token_outcome" where
  "redeem e k src c s =
     (case refreshGrant e k (ts_envelope src) c s of
        (Inl err, s1) \<Rightarrow>
          (if isInvalidGrantError err
           then (Inl (mcpUnauthorized [] []
                   (Some (Wrapped ''token refresh failed (credentials may have changed), re-authentication required'' err))), src,
                 snd (casDeleteTokenEnvelope e (k + 2) (ts_userID src) (ts_serverName src) (ts_raw src) s1))
           else (Inl err, src, s1))
      | (Inr (t, method), s1) \<Rightarrow>
          (let refreshed = (ts_envelope src)\<lparr>te_Token := Some t,
                 te_AuthMethod := (if method = [] then te_AuthMethod (ts_envelope src) else method)\<rparr>
           in case persistRefreshedGrant e (k + 2) refreshed src s1 of
                (Some err, src', s2) \<Rightarrow> (Inl (Plain err), src', s2)
              | (None, src', s2) \<Rightarrow> (Inr t, src', s2)))"

definition refresh_leased :: "oauth_env \<Rightarrow> nat \<Rightarrow> token_source \<Rightarrow> oauth \<Rightarrow> token_outcome" where
  "refresh_leased e k src s =
     (case adoptLatestGrant e k src s of
        (Some t, src1, s1) \<Rightarrow> (Inr t, src1, s1)
      | (None, src1, s1) \<Rightarrow>
          (if refresh_token (ts_envelope src1) = []
           then (Inl (reauthorize ''no refresh token available, re-authentication required''), src1, s1)
           else case refreshCredentials e (k + load_steps + 1) src1 s1 of
                  (Inl err, s2) \<Rightarrow> (Inl err, src1, s2)
                | (Inr c, s2) \<Rightarrow> redeem e (k + load_steps + 2) src1 c s2))"

definition refreshUnderLease :: "oauth_env \<Rightarrow> nat \<Rightarrow> nat \<Rightarrow> token_source \<Rightarrow> oauth \<Rightarrow> token_outcome option" where
  "refreshUnderLease e fuel k src s =
     (case oe_random e k of
        Inl err \<Rightarrow> Some (Inl (Plain (wrapf ''failed to generate refresh lease id'' err)), src, s)
      | Inr leaseID \<Rightarrow>
          (case acquireRefreshLease e k (ts_userID src) (ts_serverName src) leaseID s of
             (Inl err, s1) \<Rightarrow> Some (Inl (Plain (wrapf ''failed to acquire refresh lease'' err)), src, s1)
           | (Inr False, s1) \<Rightarrow> waitForConcurrentRefresh e fuel (k + 1) src s1
           | (Inr True, s1) \<Rightarrow>
               (case refresh_leased e (k + 1) src s1 of
                  (r, src', s2) \<Rightarrow>
                    Some (r, src', releaseRefreshLease e (k + 2 * load_steps + 8) (ts_userID src) (ts_serverName src) leaseID s2))))"

definition source_Token :: "oauth_env \<Rightarrow> nat \<Rightarrow> nat \<Rightarrow> token_source \<Rightarrow> oauth \<Rightarrow> token_outcome option" where
  "source_Token e fuel k src s =
     (case token_valid e k (ts_envelope src) of
        Some t \<Rightarrow> Some (Inr t, src, s)
      | None \<Rightarrow>
          (if te_Version (ts_envelope src) = 0 \<or> te_TokenEndpoint (ts_envelope src) = [] \<or> te_ClientID (ts_envelope src) = []
           then Some (clearGrantOrAdopt e k ''stored token predates authorization server binding and cannot be refreshed safely, re-authentication required'' src s)
           else if refresh_token (ts_envelope src) = []
           then Some (clearGrantOrAdopt e k ''access token expired and no refresh token was issued, re-authentication required'' src s)
           else refreshUnderLease e fuel k src s))"

section \<open>What a source holds\<close>

text \<open>A grant issued for this server, with an access token.\<close>

definition bound_grant :: "oauth_env \<Rightarrow> MCPServerConfig \<Rightarrow> storedTokenEnvelope \<Rightarrow> bool" where
  "bound_grant e server env \<longleftrightarrow>
     te_Version env = tokenEnvelopeVersion \<and> usable_token (te_Token env) \<and> te_ServerOrigin env \<noteq> []
     \<and> sameServerOrigin (oe_urls e) (te_ServerOrigin env) (ms_BaseURL server)
     \<and> (ms_ID server = [] \<or> te_ServerConfigID env = ms_ID server)"

definition same_source :: "token_source \<Rightarrow> token_source \<Rightarrow> bool" where
  "same_source src src' \<longleftrightarrow> src' = src\<lparr>ts_envelope := ts_envelope src', ts_raw := ts_raw src'\<rparr>"

lemma kv_step_sent [simp]: "os_sent (snd (kv_step e k access s)) = os_sent s"
  by (simp add: kv_step_def split: prod.split)

lemma kv_step_sentD: "kv_step e k access s = (r, s') \<Longrightarrow> os_sent s' = os_sent s"
  using kv_step_sent [of e k access s] by simp

lemma read_envelope_Some:
  assumes "read_envelope e raw = Inr (Some env, raw')"
  shows "raw' = raw" "usable_token (te_Token env)" "te_Version env = 0 \<or> te_Version env = tokenEnvelopeVersion"
  using assms
  by (auto simp: read_envelope_def legacy_grant_def usable_token_def envelope0_def split: sum.splits if_splits)

lemma bind_grant_bound:
  assumes "bind_grant e server env = Some env" "usable_token (te_Token env)" "te_Version env \<in> {0, tokenEnvelopeVersion}"
  shows "bound_grant e server env"
  using assms
  by (auto simp: bind_grant_def bound_grant_def bound_origin_def sameServerOrigin_def Let_def split: if_splits
      dest: arg_cong [where f = te_ServerOrigin] arg_cong [where f = te_ServerConfigID])

lemma loadTokenEnvelope_Some:
  assumes "loadTokenEnvelope e k userID serverID s = (Inr (Some env, raw), s')"
  shows "read_envelope e raw = Inr (Some env, raw)" "os_sent s' = os_sent s"
  using assms read_envelope_Some(1)
  by (auto simp: loadTokenEnvelope_def kv_read_def split: prod.splits sum.splits if_splits dest: kv_step_sentD)

lemma loadTokenEnvelope_sent: "os_sent (snd (loadTokenEnvelope e k userID serverID s)) = os_sent s"
  by (auto simp: loadTokenEnvelope_def kv_read_def split: prod.splits sum.splits dest: kv_step_sentD)

lemma bind_loop_sent: "os_sent (snd (bind_loop e n k userID server s)) = os_sent s"
proof (induction e n k userID server s rule: bind_loop.induct)
  case (2 e n k userID server s)
  obtain r s1 where l: "loadTokenEnvelope e k userID (ms_Name server) s = (r, s1)" by fastforce
  have s1: "os_sent s1 = os_sent s" using loadTokenEnvelope_sent [of e k userID "ms_Name server" s] l by simp
  show ?case
    using 2 l s1 by (auto split: sum.splits prod.splits option.splits simp: casTokenEnvelope_def dest: kv_step_sentD)
qed simp

lemma bind_loop_Some:
  "bind_loop e n k userID server s = (Inr (Some (env, raw)), s') \<Longrightarrow>
   bound_grant e server env \<and> read_envelope e raw = Inr (Some env, raw)"
proof (induction e n k userID server s rule: bind_loop.induct)
  case (2 e n k userID server s)
  obtain r s1 where l: "loadTokenEnvelope e k userID (ms_Name server) s = (r, s1)" by fastforce
  then obtain env1 raw1 bound where b: "r = Inr (Some env1, raw1)" "bind_grant e server env1 = Some bound"
    using 2(2) by (auto split: sum.splits prod.splits option.splits)
  note rd = loadTokenEnvelope_Some(1) [OF l [unfolded b(1)]]
  show ?case
  proof (cases "bound = env1")
    case True
    then show ?thesis using 2(2) l b rd bind_grant_bound [of e server env1] read_envelope_Some [OF rd] by auto
  next
    case False
    then show ?thesis using 2 l b by (auto split: sum.splits prod.splits)
  qed
qed simp

lemma adoptLatestGrant_cases:
  assumes "adoptLatestGrant e k src s = (r, src', s')"
  shows "os_sent s' = os_sent s" "same_source src src'"
    "bound_grant e (ts_server src) (ts_envelope src) \<Longrightarrow> bound_grant e (ts_server src) (ts_envelope src')"
    "r = Some t \<Longrightarrow> te_Token (ts_envelope src') = Some t \<and> bound_grant e (ts_server src) (ts_envelope src')"
proof -
  obtain l s1 where l: "loadGrantForServer e k (ts_userID src) (ts_server src) s = (l, s1)" by fastforce
  have "os_sent s1 = os_sent s"
    using bind_loop_sent [of e grantBindAttempts k "ts_userID src" "ts_server src" s] l by (simp add: loadGrantForServer_def)
  moreover have "bound_grant e (ts_server src) env" if "l = Inr (Some (env, raw))" for env raw
    using bind_loop_Some l that by (auto simp: loadGrantForServer_def)
  ultimately show "os_sent s' = os_sent s" "same_source src src'"
    "bound_grant e (ts_server src) (ts_envelope src) \<Longrightarrow> bound_grant e (ts_server src) (ts_envelope src')"
    "r = Some t \<Longrightarrow> te_Token (ts_envelope src') = Some t \<and> bound_grant e (ts_server src) (ts_envelope src')"
    using assms l
    by (auto simp: adoptLatestGrant_def same_source_def token_valid_def split: sum.splits option.splits prod.splits if_splits)
qed

section \<open>Where a refresh token goes\<close>

text \<open>A request that redeems this grant as it is pinned: its endpoint, client and resource.\<close>

definition pinned_request :: "oauth_env \<Rightarrow> storedTokenEnvelope \<Rightarrow> http_request \<Rightarrow> bool" where
  "pinned_request e env q \<longleftrightarrow>
     hr_URL q = te_TokenEndpoint env \<and> (''refresh_token'', refresh_token env) \<in> set (hr_form q)
     \<and> (te_Resource env = [] \<or> (''resource'', te_Resource env) \<in> set (hr_form q))
     \<and> (case hr_basic q of
          Some (user, _) \<Rightarrow> user = oe_escape e (te_ClientID env)
        | None \<Rightarrow> (''client_id'', te_ClientID env) \<in> set (hr_form q))"

lemma refreshAuthMethods_cases:
  "set (refreshAuthMethods pinned secret) \<subseteq> {authMethodNone, authMethodBasic, authMethodPost}"
  "length (refreshAuthMethods pinned secret) \<le> 2"
  by (auto simp: refreshAuthMethods_def)

lemma refresh_request_pinned:
  assumes "cc_ClientID c = te_ClientID env" "m \<in> set (refreshAuthMethods pinned secret)"
  shows "pinned_request e env (refresh_request e env c m)"
  using assms refreshAuthMethods_cases(1) [of pinned secret]
  by (auto simp: pinned_request_def refresh_request_def client_params_def client_basic_def authMethodNone_def
      authMethodBasic_def authMethodPost_def)

lemma doRefresh_outcome:
  assumes "doRefresh e k env c m s = (r, s')"
  shows "os_kv s' = os_kv s" "\<exists>reqs. os_sent s' = os_sent s @ reqs \<and> set reqs \<subseteq> {refresh_request e env c m} \<and> length reqs \<le> 1"
    "r = Inr t \<Longrightarrow> tk_AccessToken t \<noteq> []"
  using assms
  by (auto simp: doRefresh_def send_form_def Let_def read_token_answer_def refreshed_token_def
      split: if_splits http_answer.splits sum.splits)

lemma refresh_methods_outcome:
  assumes "refresh_methods e k env c ms s = (r, s')"
  shows "os_kv s' = os_kv s \<and> (\<exists>reqs. os_sent s' = os_sent s @ reqs \<and> set reqs \<subseteq> refresh_request e env c ` set ms
      \<and> length reqs \<le> length ms)
    \<and> (\<forall>t m. r = Inr (t, m) \<longrightarrow> tk_AccessToken t \<noteq> [] \<and> m \<in> set ms)"
  using assms
proof (induction e k env c ms s arbitrary: r s' rule: refresh_methods.induct)
  case (2 e k env c m ms s)
  obtain r1 s1 where d: "doRefresh e k env c m s = (r1, s1)" by fastforce
  obtain reqs where reqs: "os_sent s1 = os_sent s @ reqs" "set reqs \<subseteq> {refresh_request e env c m}" "length reqs \<le> 1"
    using doRefresh_outcome(2) [OF d] by blast
  show ?case
  proof (cases "(\<exists>err. r1 = Inl err \<and> ms \<noteq> [] \<and> as_token_error err \<noteq> None \<and> \<not> isInvalidGrantError err)")
    case True
    then obtain err where err: "r1 = Inl err" "ms \<noteq> []" "as_token_error err \<noteq> None" "\<not> isInvalidGrantError err" by blast
    then have rest: "refresh_methods e (k + 1) env c ms s1 = (r, s')" using 2(2) d by simp
    note IH = 2(1) [OF d [symmetric] err(1) conjI [OF err(2) conjI [OF err(3,4)]] rest]
    then obtain reqs' where "os_sent s' = os_sent s1 @ reqs'" "set reqs' \<subseteq> refresh_request e env c ` set ms"
      "length reqs' \<le> length ms" by blast
    then have "os_sent s' = os_sent s @ (reqs @ reqs') \<and> set (reqs @ reqs') \<subseteq> refresh_request e env c ` set (m # ms)
        \<and> length (reqs @ reqs') \<le> length (m # ms)"
      using reqs by auto
    then show ?thesis using IH doRefresh_outcome(1) [OF d] by auto
  next
    case False
    then have r: "r = map_sum id (\<lambda>t. (t, m)) r1" "s' = s1" using 2(2) d by (auto split: sum.splits if_splits)
    have "set reqs \<subseteq> refresh_request e env c ` set (m # ms) \<and> length reqs \<le> length (m # ms)" using reqs(2,3) by auto
    then show ?thesis using r doRefresh_outcome [OF d] reqs(1) by (cases r1) auto
  qed
qed simp

lemma refreshGrant_outcome:
  assumes "refreshGrant e k env c s = (r, s')" "cc_ClientID c = te_ClientID env"
  obtains reqs where "os_kv s' = os_kv s" "os_sent s' = os_sent s @ reqs" "list_all (pinned_request e env) reqs"
    "length reqs \<le> 2" "\<And>t m. r = Inr (t, m) \<Longrightarrow> tk_AccessToken t \<noteq> [] \<and> m \<noteq> []"
proof -
  let ?ms = "refreshAuthMethods (te_AuthMethod env) (cc_ClientSecret c)"
  have m: "m \<noteq> []" if "m \<in> set ?ms" for m
    using that refreshAuthMethods_cases(1) [of "te_AuthMethod env" "cc_ClientSecret c"]
    by (auto simp: authMethodNone_def authMethodBasic_def authMethodPost_def)
  obtain reqs where reqs: "os_kv s' = os_kv s" "os_sent s' = os_sent s @ reqs" "set reqs \<subseteq> refresh_request e env c ` set ?ms"
    "length reqs \<le> length ?ms" "\<forall>t m. r = Inr (t, m) \<longrightarrow> tk_AccessToken t \<noteq> [] \<and> m \<in> set ?ms"
    using refresh_methods_outcome [OF assms(1) [unfolded refreshGrant_def]] by blast
  have "list_all (pinned_request e env) reqs"
    using reqs(3) refresh_request_pinned [OF assms(2)] by (auto simp: list_all_iff)
  then show thesis using that reqs refreshAuthMethods_cases(2) [of "te_AuthMethod env" "cc_ClientSecret c"] m by fastforce
qed

section \<open>Persisting a refreshed grant\<close>

lemma persist_loop_outcome:
  assumes "persist_loop e n k lastErr refreshed src s = (r, src', s')"
  shows "os_sent s' = os_sent s"
    "r = None \<Longrightarrow> src' = src\<lparr>ts_envelope := refreshed, ts_raw := envelope_text e refreshed\<rparr>
       \<and> os_kv s' (buildTokenKey (ts_userID src) (ts_serverName src)) = Some (envelope_text e refreshed)"
    "r \<noteq> None \<Longrightarrow> src' = src"
proof -
  have "os_sent s' = os_sent s \<and> (if r = None then src' = src\<lparr>ts_envelope := refreshed, ts_raw := envelope_text e refreshed\<rparr>
      \<and> os_kv s' (buildTokenKey (ts_userID src) (ts_serverName src)) = Some (envelope_text e refreshed) else src' = src)"
    using assms
  proof (induction e n k lastErr refreshed src s rule: persist_loop.induct)
    case (2 e n k lastErr refreshed src s)
    obtain c s1 where c: "casTokenEnvelope e k (ts_userID src) (ts_serverName src) (ts_raw src) refreshed s = (c, s1)" by fastforce
    then have sent: "os_sent s1 = os_sent s" by (auto simp: casTokenEnvelope_def dest: kv_step_sentD)
    have won: "os_kv s1 (buildTokenKey (ts_userID src) (ts_serverName src)) = Some (envelope_text e refreshed)"
      if "c = Inr True"
      using c that by (auto simp: casTokenEnvelope_def kv_step_def split: prod.splits elim: KVCompareAndSet_cases)
    show ?case
    proof (cases c)
      case (Inl err)
      then show ?thesis using 2 c sent by auto
    next
      case (Inr b)
      then show ?thesis using 2(2) c sent won by (cases b) auto
    qed
  qed auto
  then show "os_sent s' = os_sent s"
    "r = None \<Longrightarrow> src' = src\<lparr>ts_envelope := refreshed, ts_raw := envelope_text e refreshed\<rparr>
       \<and> os_kv s' (buildTokenKey (ts_userID src) (ts_serverName src)) = Some (envelope_text e refreshed)"
    "r \<noteq> None \<Longrightarrow> src' = src"
    by (auto split: if_splits)
qed

lemma bound_refreshed:
  "bound_grant e server env \<Longrightarrow> tk_AccessToken t \<noteq> [] \<Longrightarrow> bound_grant e server (env\<lparr>te_Token := Some t, te_AuthMethod := m\<rparr>)"
  by (simp add: bound_grant_def usable_token_def)

text \<open>
  What an operation of the source leaves: the same source with a grant of its server, whose token is the
  one returned, and after it only requests that redeem \<open>env\<close>.
\<close>

definition kept :: "oauth_env \<Rightarrow> storedTokenEnvelope \<Rightarrow> token_source \<Rightarrow> oauth \<Rightarrow> token_outcome \<Rightarrow> bool" where
  "kept e env src s out \<longleftrightarrow>
     (case out of (r, src', s') \<Rightarrow>
        same_source src src' \<and> bound_grant e (ts_server src) (ts_envelope src')
        \<and> (\<forall>t. r = Inr t \<longrightarrow> te_Token (ts_envelope src') = Some t)
        \<and> (\<exists>reqs. os_sent s' = os_sent s @ reqs \<and> length reqs \<le> 2 \<and> list_all (pinned_request e env) reqs))"

lemma same_source_refl [simp]: "same_source src src"
  by (simp add: same_source_def)

lemma same_source_trans: "same_source a b \<Longrightarrow> same_source b c \<Longrightarrow> same_source a c"
  unfolding same_source_def by (metis (no_types, lifting) token_source.ext_inject token_source.surjective token_source.update_convs(1,2))

lemma same_source_fields:
  "same_source src src' \<Longrightarrow> ts_server src' = ts_server src \<and> ts_userID src' = ts_userID src \<and> ts_serverName src' = ts_serverName src
     \<and> ts_static src' = ts_static src"
  by (cases src; cases src') (simp add: same_source_def)

lemma kept_stop:
  assumes "bound_grant e (ts_server src) (ts_envelope src)" "os_sent s' = os_sent s"
  shows "kept e env src s (Inl err, src, s')"
  using assms by (simp add: kept_def)

lemma kept_after:
  assumes "kept e env src1 s1 out" "same_source src src1" "os_sent s1 = os_sent s"
  shows "kept e env src s out"
  using assms same_source_trans same_source_fields [OF assms(2)] by (auto simp: kept_def split: prod.splits)

lemma redeem_kept:
  assumes "bound_grant e (ts_server src) (ts_envelope src)" "cc_ClientID c = te_ClientID (ts_envelope src)"
  shows "kept e (ts_envelope src) src s (redeem e k src c s)"
proof -
  obtain r s1 where g: "refreshGrant e k (ts_envelope src) c s = (r, s1)" by fastforce
  obtain reqs where reqs: "os_sent s1 = os_sent s @ reqs" "list_all (pinned_request e (ts_envelope src)) reqs" "length reqs \<le> 2"
    "\<And>t m. r = Inr (t, m) \<Longrightarrow> tk_AccessToken t \<noteq> [] \<and> m \<noteq> []"
    using refreshGrant_outcome [OF g assms(2)] by metis
  show ?thesis
  proof (cases r)
    case (Inl err)
    then show ?thesis
      using g reqs assms(1) by (auto simp: redeem_def kept_def casDeleteTokenEnvelope_def)
  next
    case (Inr tm)
    obtain t m where tm: "tm = (t, m)" by fastforce
    let ?env = "(ts_envelope src)\<lparr>te_Token := Some t, te_AuthMethod := m\<rparr>"
    obtain p src' s2 where l: "persist_loop e persistAttempts (k + 2) (ErrorNew []) ?env src s1 = (p, src', s2)"
      by (metis prod.exhaust)
    have am: "tk_AccessToken t \<noteq> []" "m \<noteq> []" using reqs(4) Inr tm by auto
    have sent: "os_sent s2 = os_sent s @ reqs" using persist_loop_outcome(1) [OF l] reqs(1) by simp
    show ?thesis
    proof (cases p)
      case None
      have src': "src' = src\<lparr>ts_envelope := ?env, ts_raw := envelope_text e ?env\<rparr>"
        using persist_loop_outcome(2) [OF l None] by blast
      have "redeem e k src c s = (Inr t, src', s2)"
        using g Inr tm l None am(2) by (simp add: redeem_def persistRefreshedGrant_def)
      then show ?thesis
        using src' sent reqs(2,3) bound_refreshed [OF assms(1) am(1)] by (simp add: kept_def same_source_def)
    next
      case (Some err)
      then have "src' = src" using persist_loop_outcome(3) [OF l] by simp
      moreover have "fst (redeem e k src c s) = Inl (Plain (wrapf ''refreshed token could not be persisted safely'' err))"
        "snd (redeem e k src c s) = (src', s2)"
        using g Inr tm l Some am(2) by (simp_all add: redeem_def persistRefreshedGrant_def)
      ultimately show ?thesis
        using sent reqs(2,3) assms(1) by (simp add: kept_def case_prod_unfold)
    qed
  qed
qed

lemma adopt_kept:
  assumes "adoptLatestGrant e k src s = (a, src', s')" "bound_grant e (ts_server src) (ts_envelope src)"
  shows "kept e env src s (case a of None \<Rightarrow> Inl err | Some t \<Rightarrow> Inr t, src', s')"
  using adoptLatestGrant_cases [OF assms(1)] assms(2) by (auto simp: kept_def split: option.splits)

lemma clearGrantOrAdopt_kept:
  assumes "bound_grant e (ts_server src) (ts_envelope src)"
  shows "kept e env src s (clearGrantOrAdopt e k msg src s)"
proof -
  obtain r s1 where c: "casDeleteTokenEnvelope e k (ts_userID src) (ts_serverName src) (ts_raw src) s = (r, s1)" by fastforce
  then have s1: "os_sent s1 = os_sent s" by (auto simp: casDeleteTokenEnvelope_def dest: kv_step_sentD)
  show ?thesis
  proof (cases "r = Inr True")
    case True
    then show ?thesis using c s1 assms by (simp add: clearGrantOrAdopt_def kept_stop)
  next
    case False
    obtain a src' s2 where ad: "adoptLatestGrant e (k + 1) src s1 = (a, src', s2)" by (metis prod.exhaust)
    have "clearGrantOrAdopt e k msg src s = (case a of None \<Rightarrow> Inl (reauthorize msg) | Some t \<Rightarrow> Inr t, src', s2)"
      using c ad False by (auto simp: clearGrantOrAdopt_def split: sum.splits option.splits bool.splits)
    then show ?thesis using kept_after [OF adopt_kept [OF ad assms] same_source_refl s1] by simp
  qed
qed

lemma wait_kept:
  "bound_grant e (ts_server src) (ts_envelope src) \<Longrightarrow> waitForConcurrentRefresh e fuel k src s = Some out \<Longrightarrow>
   kept e env src s out"
proof (induction e fuel k src s rule: waitForConcurrentRefresh.induct)
  case (2 e fuel k src s)
  obtain a src' s' where ad: "adoptLatestGrant e k src s = (a, src', s')" by (metis prod.exhaust)
  note keep = adopt_kept [OF ad 2(2)]
  show ?case
  proof (cases "oe_done e k")
    case (Some err)
    then show ?thesis using 2(2,3) by (auto simp: kept_stop)
  next
    case ok: None
    show ?thesis
    proof (cases "a = None \<and> \<not> oe_past e k")
      case True
      then have rest: "waitForConcurrentRefresh e fuel (k + load_steps + 1) src' s' = Some out" using 2(3) ok ad by simp
      have b: "bound_grant e (ts_server src') (ts_envelope src')" "same_source src src'" "os_sent s' = os_sent s"
        using adoptLatestGrant_cases [OF ad] 2(2) same_source_fields [of src src'] by auto
      have "a = None" "\<not> oe_past e k" using True by simp_all
      from 2(1) [OF ok ad [symmetric] this(1) refl this(2) b(1) rest] show ?thesis
        using b(2,3) by (rule kept_after)
    next
      case False
      then have "out = (case a of None \<Rightarrow> Inl (Errorf ''another node is refreshing this OAuth token; retry'') | Some t \<Rightarrow> Inr t, src', s')"
        using 2(3) ok ad by (auto split: option.splits)
      then show ?thesis using keep by simp
    qed
  qed
qed simp

text \<open>The grant a source redeems once it holds the lease: the stored one, if it can be read and is its server's.\<close>

definition grant_under_lease :: "oauth_env \<Rightarrow> nat \<Rightarrow> token_source \<Rightarrow> oauth \<Rightarrow> storedTokenEnvelope" where
  "grant_under_lease e k src s =
     (case oe_random e k of
        Inl _ \<Rightarrow> ts_envelope src
      | Inr leaseID \<Rightarrow>
          ts_envelope (fst (snd (adoptLatestGrant e (k + 1) src
            (snd (acquireRefreshLease e k (ts_userID src) (ts_serverName src) leaseID s))))))"

lemma refreshCredentials_client:
  assumes "refreshCredentials e k src s = (r, s')"
  shows "os_sent s' = os_sent s" "r = Inr c \<Longrightarrow> cc_ClientID c = te_ClientID (ts_envelope src)"
  using assms
  by (auto simp: refreshCredentials_def registeredCredentials_def loadClientCredentials_def kv_read_def credentials0_def
      split: option.splits prod.splits sum.splits if_splits dest: kv_step_sentD)

lemma refresh_leased_kept:
  assumes "bound_grant e (ts_server src) (ts_envelope src)"
  shows "kept e (ts_envelope (fst (snd (adoptLatestGrant e k src s)))) src s (refresh_leased e k src s)"
proof -
  obtain a src1 s1 where ad: "adoptLatestGrant e k src s = (a, src1, s1)" by (metis prod.exhaust)
  note keep = adopt_kept [OF ad assms]
  have b: "bound_grant e (ts_server src1) (ts_envelope src1)" "same_source src src1" "os_sent s1 = os_sent s"
    using adoptLatestGrant_cases [OF ad] assms same_source_fields [of src src1] by auto
  show ?thesis
  proof (cases a)
    case (Some t)
    then show ?thesis using keep ad by (simp add: refresh_leased_def)
  next
    case None
    obtain c s2 where c: "refreshCredentials e (k + load_steps + 1) src1 s1 = (c, s2)" by fastforce
    have s2: "os_sent s2 = os_sent s1" by (rule refreshCredentials_client(1) [OF c])
    show ?thesis
    proof (cases "refresh_token (ts_envelope src1) = []")
      case True
      then show ?thesis using ad None kept_after [OF kept_stop [OF b(1) refl] b(2,3)] by (auto simp: refresh_leased_def)
    next
      case False
      show ?thesis
      proof (cases c)
        case (Inl err)
        then show ?thesis
          using ad None False c kept_after [OF kept_stop [OF b(1) s2] b(2,3)] by (auto simp: refresh_leased_def)
      next
        case (Inr creds)
        have "kept e (ts_envelope src1) src1 s2 (redeem e (k + load_steps + 2) src1 creds s2)"
          using redeem_kept [OF b(1)] refreshCredentials_client(2) [OF c Inr] by blast
        then have "kept e (ts_envelope src1) src s (redeem e (k + load_steps + 2) src1 creds s2)"
          using kept_after b(2,3) s2 by simp
        then show ?thesis using ad None False c Inr by (simp add: refresh_leased_def)
      qed
    qed
  qed
qed

lemma acquire_sent: "acquireRefreshLease e k u n leaseID s = (r, s') \<Longrightarrow> os_sent s' = os_sent s"
  by (auto simp: acquireRefreshLease_def dest: kv_step_sentD)

lemma acquire_won:
  "acquireRefreshLease e k u n leaseID s = (Inr True, s') \<Longrightarrow>
   oe_others e k (os_kv s) (buildRefreshLeaseKey u n) = None \<and> os_kv s' (buildRefreshLeaseKey u n) = Some (lease_text e leaseID)"
  by (auto simp: acquireRefreshLease_def kv_step_def KVCompareAndSetWithExpiry_def split: prod.splits
      elim: KVCompareAndSet_cases)

lemma release_sent [simp]: "os_sent (releaseRefreshLease e k u n leaseID s) = os_sent s"
  by (simp add: releaseRefreshLease_def)

lemma kept_release: "kept e env src s (r, src', s') \<Longrightarrow> kept e env src s (r, src', releaseRefreshLease e k u n leaseID s')"
  by (simp add: kept_def)

lemma refreshUnderLease_kept:
  assumes "bound_grant e (ts_server src) (ts_envelope src)" "refreshUnderLease e fuel k src s = Some out"
  shows "kept e (grant_under_lease e k src s) src s out"
proof (cases "oe_random e k")
  case (Inl err)
  then show ?thesis using assms by (auto simp: refreshUnderLease_def kept_stop)
next
  case (Inr leaseID)
  obtain c s1 where c: "acquireRefreshLease e k (ts_userID src) (ts_serverName src) leaseID s = (c, s1)" by fastforce
  note sent = acquire_sent [OF c]
  show ?thesis
  proof (cases "c = Inr True")
    case True
    obtain r src' s2 where l: "refresh_leased e (k + 1) src s1 = (r, src', s2)" by (metis prod.exhaust)
    have "grant_under_lease e k src s = ts_envelope (fst (snd (adoptLatestGrant e (k + 1) src s1)))"
      using Inr c by (simp add: grant_under_lease_def)
    then have "kept e (grant_under_lease e k src s) src s1 (r, src', s2)"
      using refresh_leased_kept [OF assms(1), of "k + 1" s1] l by simp
    then have "kept e (grant_under_lease e k src s) src s (r, src', s2)" using kept_after [OF _ same_source_refl sent] by blast
    then show ?thesis using assms(2) Inr c True l by (auto simp: refreshUnderLease_def intro: kept_release)
  next
    case False
    show ?thesis
    proof (cases c)
      case (Inl err)
      then show ?thesis using assms Inr c sent by (auto simp: refreshUnderLease_def intro: kept_stop)
    next
      case (Inr b)
      then have "waitForConcurrentRefresh e fuel (k + 1) src s1 = Some out"
        using assms(2) \<open>oe_random e k = Inr leaseID\<close> c False by (cases b) (auto simp: refreshUnderLease_def)
      then show ?thesis using kept_after [OF wait_kept [OF assms(1)] same_source_refl sent] by blast
    qed
  qed
qed

lemma source_Token_kept:
  assumes "bound_grant e (ts_server src) (ts_envelope src)" "source_Token e fuel k src s = Some out"
  shows "kept e (grant_under_lease e k src s) src s out"
proof (cases "token_valid e k (ts_envelope src)")
  case (Some t)
  then have "te_Token (ts_envelope src) = Some t" by (auto simp: token_valid_def split: option.splits if_splits)
  then show ?thesis using Some assms by (auto simp: source_Token_def kept_def)
next
  case None
  then show ?thesis
    using assms clearGrantOrAdopt_kept [OF assms(1)] refreshUnderLease_kept [OF assms(1)]
    by (auto simp: source_Token_def split: if_splits)
qed

text \<open>
  C15: whatever other nodes, the store and the authorization server do, a token source goes on holding a
  grant issued for its own server, and a token it hands out is that grant's.
\<close>

theorem source_holds_server_grant:
  assumes "bound_grant e (ts_server src) (ts_envelope src)" "source_Token e fuel k src s = Some (r, src', s')"
  shows "bound_grant e (ts_server src') (ts_envelope src') \<and> ts_server src' = ts_server src
    \<and> (case r of Inl _ \<Rightarrow> True | Inr t \<Rightarrow> te_Token (ts_envelope src') = Some t \<and> tk_AccessToken t \<noteq> [])"
proof -
  have "kept e (grant_under_lease e k src s) src s (r, src', s')" by (rule source_Token_kept [OF assms])
  then show ?thesis
    using same_source_fields [of src src'] by (auto simp: kept_def bound_grant_def usable_token_def split: sum.splits)
qed

lemma wait_sent: "waitForConcurrentRefresh e fuel k src s = Some (r, src', s') \<Longrightarrow> os_sent s' = os_sent s"
proof (induction e fuel k src s rule: waitForConcurrentRefresh.induct)
  case (2 e fuel k src s)
  obtain a src1 s1 where ad: "adoptLatestGrant e k src s = (a, src1, s1)" by (metis prod.exhaust)
  note sent = adoptLatestGrant_cases(1) [OF ad]
  show ?case
  proof (cases "oe_done e k = None \<and> a = None \<and> \<not> oe_past e k")
    case True
    then have rest: "waitForConcurrentRefresh e fuel (k + load_steps + 1) src1 s1 = Some (r, src', s')" using 2(2) ad by simp
    have c: "oe_done e k = None" "a = None" "\<not> oe_past e k" using True by simp_all
    from 2(1) [OF c(1) ad [symmetric] c(2) refl c(3) rest] sent show ?thesis by simp
  next
    case False
    then show ?thesis using 2(2) ad sent by (auto split: option.splits if_splits)
  qed
qed simp

lemma clear_sent: "clearGrantOrAdopt e k msg src s = (r, src', s') \<Longrightarrow> os_sent s' = os_sent s"
  by (auto simp: clearGrantOrAdopt_def casDeleteTokenEnvelope_def split: prod.splits sum.splits bool.splits option.splits
      dest!: kv_step_sentD adoptLatestGrant_cases(1))

text \<open>What a call that sent something went through.\<close>

lemma sent_under_lease:
  assumes "source_Token e fuel k src s = Some (r, src', s')" "os_sent s' \<noteq> os_sent s"
  obtains leaseID s1 s2 where "token_valid e k (ts_envelope src) = None" "oe_random e k = Inr leaseID"
    "acquireRefreshLease e k (ts_userID src) (ts_serverName src) leaseID s = (Inr True, s1)"
    "refresh_leased e (k + 1) src s1 = (r, src', s2)"
    "s' = releaseRefreshLease e (k + 2 * load_steps + 8) (ts_userID src) (ts_serverName src) leaseID s2"
proof -
  have nv: "token_valid e k (ts_envelope src) = None" and u: "refreshUnderLease e fuel k src s = Some (r, src', s')"
    using assms by (auto simp: source_Token_def dest!: clear_sent split: option.splits if_splits)
  obtain leaseID where id: "oe_random e k = Inr leaseID" using u assms(2) by (auto simp: refreshUnderLease_def split: sum.splits)
  obtain c s1 where c: "acquireRefreshLease e k (ts_userID src) (ts_serverName src) leaseID s = (c, s1)" by fastforce
  have "c = Inr True"
    using u assms(2) id c acquire_sent [OF c]
    by (auto simp: refreshUnderLease_def dest!: wait_sent split: sum.splits bool.splits)
  then show thesis using that [OF nv id] u id c
    by (auto simp: refreshUnderLease_def split: prod.splits)
qed

text \<open>
  C13: a refresh token goes nowhere but to the token endpoint its grant was issued with, as the client it
  was issued to and for the resource it is bound to; the grant is the one stored for this user and server
  when the lease was taken. Nothing is sent for a token that is still valid or while another node holds
  the lease.
\<close>

theorem refresh_requests_pinned:
  assumes "bound_grant e (ts_server src) (ts_envelope src)" "source_Token e fuel k src s = Some (r, src', s')"
  shows "\<exists>reqs. os_sent s' = os_sent s @ reqs \<and> length reqs \<le> 2
    \<and> list_all (pinned_request e (grant_under_lease e k src s)) reqs
    \<and> bound_grant e (ts_server src) (grant_under_lease e k src s)
    \<and> (reqs = [] \<or> token_valid e k (ts_envelope src) = None
         \<and> oe_others e k (os_kv s) (buildRefreshLeaseKey (ts_userID src) (ts_serverName src)) = None)"
proof -
  have keep: "kept e (grant_under_lease e k src s) src s (r, src', s')" by (rule source_Token_kept [OF assms])
  have "bound_grant e (ts_server src) (grant_under_lease e k src s)"
    using assms(1) adoptLatestGrant_cases(3) [of e "k + 1" src] by (auto simp: grant_under_lease_def split: sum.split)
      (metis prod.collapse)
  moreover have "token_valid e k (ts_envelope src) = None
      \<and> oe_others e k (os_kv s) (buildRefreshLeaseKey (ts_userID src) (ts_serverName src)) = None" if "os_sent s' \<noteq> os_sent s"
    using sent_under_lease [OF assms(2) that] acquire_won by metis
  ultimately show ?thesis using keep by (auto simp: kept_def)
qed

section \<open>A refreshed token is stored\<close>

lemma keys_distinct [simp]:
  "buildTokenKey u n \<noteq> buildRefreshLeaseKey u' n'" "buildRefreshLeaseKey u' n' \<noteq> buildTokenKey u n"
  by (simp_all add: buildTokenKey_def buildRefreshLeaseKey_def)

lemma kv_step_cas_other:
  assumes "key \<noteq> key'" "\<forall>kv. oe_others e k kv key' = kv key'"
  shows "os_kv (snd (kv_step e k (\<lambda>io. KVCompareAndSet io key old new) s)) key' = os_kv s key'"
  using assms
  by (auto simp: kv_step_def split: prod.split elim!: KVCompareAndSet_cases)

lemma redeem_stored:
  assumes "redeem e k src c s = (Inr t, src', s')" "cc_ClientID c = te_ClientID (ts_envelope src)"
  shows "os_kv s' (buildTokenKey (ts_userID src) (ts_serverName src)) = Some (envelope_text e (ts_envelope src'))
    \<and> ts_raw src' = envelope_text e (ts_envelope src')"
proof -
  obtain m s1 where g: "refreshGrant e k (ts_envelope src) c s = (Inr (t, m), s1)"
    using assms(1) by (auto simp: redeem_def Let_def split: prod.splits sum.splits option.splits if_splits)
  obtain reqs where "m \<noteq> []" using refreshGrant_outcome [OF g assms(2)] by metis
  then obtain p src1 s2 where l: "persist_loop e persistAttempts (k + 2) (ErrorNew [])
      ((ts_envelope src)\<lparr>te_Token := Some t, te_AuthMethod := m\<rparr>) src s1 = (p, src1, s2)" by (metis prod.exhaust)
  then have "p = None" "src1 = src'" "s2 = s'"
    using assms(1) g \<open>m \<noteq> []\<close> by (auto simp: redeem_def persistRefreshedGrant_def split: option.splits)
  then show ?thesis using persist_loop_outcome(2) [OF l] by auto
qed


section \<open>A source answers\<close>

lemma wait_more_fuel:
  "waitForConcurrentRefresh e fuel k src s = Some out \<Longrightarrow> fuel \<le> fuel' \<Longrightarrow> waitForConcurrentRefresh e fuel' k src s = Some out"
proof (induction e fuel k src s arbitrary: fuel' rule: waitForConcurrentRefresh.induct)
  case (2 e fuel k src s)
  obtain f where f: "fuel' = Suc f" "fuel \<le> f" using 2(3) by (cases fuel') auto
  obtain a src1 s1 where ad: "adoptLatestGrant e k src s = (a, src1, s1)" by (metis prod.exhaust)
  show ?case
  proof (cases "oe_done e k = None \<and> a = None \<and> \<not> oe_past e k")
    case True
    then have c: "oe_done e k = None" "a = None" "\<not> oe_past e k" by simp_all
    then have "waitForConcurrentRefresh e fuel (k + load_steps + 1) src1 s1 = Some out" using 2(2) ad by simp
    from 2(1) [OF c(1) ad [symmetric] c(2) refl c(3) this f(2)] show ?thesis using c ad f(1) by simp
  next
    case False
    then show ?thesis using 2(2) ad f(1) by (auto split: option.splits)
  qed
qed simp

lemma wait_ends:
  "oe_past e (k + j * (load_steps + 1)) \<Longrightarrow> waitForConcurrentRefresh e (Suc j) k src s \<noteq> None"
proof (induction j arbitrary: k src s)
  case 0
  then show ?case by (auto split: option.splits prod.splits)
next
  case (Suc j)
  have "waitForConcurrentRefresh e (Suc j) (k + load_steps + 1) src' s' \<noteq> None" for src' s'
    by (rule Suc.IH) (use Suc.prems in \<open>simp add: algebra_simps\<close>)
  then show ?case by (subst waitForConcurrentRefresh.simps(2)) (auto simp del: waitForConcurrentRefresh.simps split: option.splits prod.splits)
qed

text \<open>
  C25: asking a source for its token ends: once the deadline passes at some poll, more fuel than polls gives
  one and the same outcome, whether or not the node that refreshes ever finishes.
\<close>

theorem source_Token_returns:
  assumes "oe_past e (k + 1 + j * (load_steps + 1))"
  shows "\<exists>out. \<forall>fuel. source_Token e (Suc j + fuel) k src s = Some out"
proof -
  have wait: "\<exists>out. \<forall>fuel. waitForConcurrentRefresh e (Suc j + fuel) (k + 1) src s1 = Some out" for s1
    using wait_ends [OF assms] wait_more_fuel by (metis le_add1 not_None_eq)
  have lease: "\<exists>out. \<forall>fuel. refreshUnderLease e (Suc j + fuel) k src s = Some out"
  proof (cases "oe_random e k")
    case (Inl err)
    then show ?thesis by (simp add: refreshUnderLease_def)
  next
    case (Inr leaseID)
    obtain c s1 where c: "acquireRefreshLease e k (ts_userID src) (ts_serverName src) leaseID s = (c, s1)" by fastforce
    obtain r src' s2 where l: "refresh_leased e (k + 1) src s1 = (r, src', s2)" by (metis prod.exhaust)
    consider err where "c = Inl err" | "c = Inr False" | "c = Inr True" by (cases c) auto
    then show ?thesis
      by cases (use Inr c l wait [of s1] in \<open>simp_all add: refreshUnderLease_def del: waitForConcurrentRefresh.simps split_paired_Ex\<close>)
  qed
  show ?thesis
  proof (cases "token_valid e k (ts_envelope src)")
    case None
    consider "te_Version (ts_envelope src) = 0 \<or> te_TokenEndpoint (ts_envelope src) = [] \<or> te_ClientID (ts_envelope src) = []"
      | "\<not> (te_Version (ts_envelope src) = 0 \<or> te_TokenEndpoint (ts_envelope src) = [] \<or> te_ClientID (ts_envelope src) = [])"
        "refresh_token (ts_envelope src) = []"
      | "\<not> (te_Version (ts_envelope src) = 0 \<or> te_TokenEndpoint (ts_envelope src) = [] \<or> te_ClientID (ts_envelope src) = [])"
        "refresh_token (ts_envelope src) \<noteq> []" by blast
    then show ?thesis
      by cases (use lease None in \<open>simp_all add: source_Token_def del: split_paired_Ex de_Morgan_disj\<close>)
  qed (simp add: source_Token_def)
qed

section \<open>Expiry\<close>

lemma duration_seconds_range: "- (2 ^ 63) \<le> duration_seconds n" "duration_seconds n < 2 ^ 63"
  using sint_range_size [of "word_of_int (n * Second) :: 64 word"]
  by (simp_all add: duration_seconds_def word_size)

lemma duration_seconds_mod: "duration_seconds n mod 2 ^ 64 = n * Second mod 2 ^ 64"
proof -
  have "(word_of_int (duration_seconds n) :: 64 word) = word_of_int (n * Second)" by (simp add: duration_seconds_def)
  then show ?thesis unfolding word_of_int_eq_iff by (simp add: take_bit_eq_mod)
qed

lemma duration_seconds_small:
  assumes "0 \<le> n" "n \<le> 9223372036"
  shows "duration_seconds n = n * Second"
proof -
  have "0 \<le> n * Second" "n * Second < 2 ^ 63" using assms by (simp_all add: Second_def)
  moreover from this have m: "duration_seconds n mod 2 ^ 64 = n * Second" using duration_seconds_mod [of n] by simp
  moreover have "0 \<le> duration_seconds n"
  proof (rule ccontr)
    assume "\<not> 0 \<le> duration_seconds n"
    then have "(duration_seconds n + 2 ^ 64) mod 2 ^ 64 = duration_seconds n + 2 ^ 64"
      using duration_seconds_range [of n] by (intro mod_pos_pos_trivial) simp_all
    then have "duration_seconds n + 2 ^ 64 = n * Second" using m by simp
    then show False using duration_seconds_range(1) [of n] \<open>n * Second < 2 ^ 63\<close> by simp
  qed
  moreover have "duration_seconds n mod 2 ^ 64 = duration_seconds n" if "0 \<le> duration_seconds n"
    using that duration_seconds_range(2) [of n] by (intro mod_pos_pos_trivial) simp_all
  ultimately show ?thesis by simp
qed

lemma duration_seconds_overflow:
  assumes "9223372036 < n" "n \<le> 18446744073"
  shows "duration_seconds n < 0"
proof (rule ccontr)
  assume "\<not> duration_seconds n < 0"
  then have "duration_seconds n mod 2 ^ 64 = duration_seconds n"
    using duration_seconds_range(2) [of n] by (intro mod_pos_pos_trivial) simp_all
  moreover have "n * Second mod 2 ^ 64 = n * Second" "2 ^ 63 \<le> n * Second"
    using assms by (simp_all add: Second_def)
  ultimately show False using duration_seconds_mod [of n] duration_seconds_range(2) [of n] by simp
qed

text \<open>
  A lifetime of up to 9223372036 seconds is added to the clock as it is; a longer one wraps around the
  64 bits of a duration, so that the refreshed token counts as expired at once.
\<close>

theorem refreshed_expiry:
  "if tb_expires b \<le> 0 then tk_Expiry (refreshed_token now env b) = 0
   else if tb_expires b \<le> 9223372036 then tk_Expiry (refreshed_token now env b) = now + tb_expires b * Second
   else if tb_expires b \<le> 18446744073 then tk_Expiry (refreshed_token now env b) < now
   else True"
  using duration_seconds_small [of "tb_expires b"] duration_seconds_overflow [of "tb_expires b"]
  by (simp add: refreshed_token_def)

section \<open>A stored grant is found again\<close>

text \<open>Strings are stored as the JSON text they are printed as.\<close>

definition stored_envelope :: "storedTokenEnvelope \<Rightarrow> storedTokenEnvelope" where
  "stored_envelope env =
     \<lparr>te_Version = te_Version env, te_Token = te_Token env, te_Issuer = json_text (te_Issuer env),
      te_TokenEndpoint = json_text (te_TokenEndpoint env), te_AuthServerURL = json_text (te_AuthServerURL env),
      te_ClientID = json_text (te_ClientID env), te_AuthMethod = json_text (te_AuthMethod env),
      te_Resource = json_text (te_Resource env), te_RevocationEndpoint = json_text (te_RevocationEndpoint env),
      te_ServerOrigin = json_text (te_ServerOrigin env), te_ServerConfigID = json_text (te_ServerConfigID env)\<rparr>"

text \<open>The codecs read this grant as it was written.\<close>

definition codec :: "oauth_env \<Rightarrow> storedTokenEnvelope \<Rightarrow> bool" where
  "codec e env \<longleftrightarrow>
     envelope_text e env \<noteq> [] \<and> js_parse (oe_json e) (envelope_text e env) = Some (encode_envelope e env)
     \<and> (case te_Token env of None \<Rightarrow> True | Some t \<Rightarrow> oe_token_json e t \<noteq> JNull \<and> oe_json_token e (oe_token_json e t) = Inr t)"

lemma decode_fields_omit:
  assumes "map_of tbl k = Some (d_string u)" "u [] r = r"
  shows "decode_fields tbl (e_string_omit k str @ rest) r = decode_fields tbl rest (u (json_text str) r)"
proof -
  have "k \<in> set (map fst tbl)" using assms(1) map_of_SomeD [OF assms(1)] by force
  then show ?thesis using assms by (cases "str = []") (simp_all add: e_string_omit_def e_string_def d_string_def)
qed

lemmas decode_fields_omits = decode_fields_omit decode_fields_omit [where rest = "[]", simplified]

lemma decode_envelope:
  assumes "codec e env" "te_Version env = 1"
  shows "decode_struct (fields_envelope e) envelope0 (encode_envelope e env) = Inr (stored_envelope env)"
proof -
  obtain v t a b c d f g h i j where env: "env = \<lparr>te_Version = v, te_Token = t, te_Issuer = a, te_TokenEndpoint = b,
      te_AuthServerURL = c, te_ClientID = d, te_AuthMethod = f, te_Resource = g, te_RevocationEndpoint = h,
      te_ServerOrigin = i, te_ServerConfigID = j\<rparr>" by (cases env)
  have tok: "d_pointer (\<lambda>t. te_Token_update (\<lambda>_. t)) (oe_json_token e) (case t of None \<Rightarrow> JNull | Some u \<Rightarrow> oe_token_json e u)
      = Inr (te_Token_update (\<lambda>_. t) :: storedTokenEnvelope \<Rightarrow> storedTokenEnvelope)"
    using assms unfolding env codec_def by (cases t) (auto simp: d_pointer_def split: json.split)
  have enc: "encode_envelope e env = JObj ((''version'', JInt v) # (''token'', case t of None \<Rightarrow> JNull | Some u \<Rightarrow> oe_token_json e u)
     # e_string_omit ''issuer'' a @ e_string_omit ''tokenEndpoint'' b @ e_string_omit ''authServerURL'' c
     @ e_string_omit ''clientID'' d @ e_string_omit ''authMethod'' f @ e_string_omit ''resource'' g
     @ e_string_omit ''revocationEndpoint'' h @ e_string_omit ''serverOrigin'' i @ e_string_omit ''serverConfigID'' j @ [])"
    unfolding env encode_envelope_def e_int_def by (simp only: storedTokenEnvelope.select_convs append_Cons append_Nil append_Nil2 append_assoc)
  note f = fields_envelope_def [of e]
  show ?thesis
    unfolding enc using assms(2) tok unfolding env
    by (simp add: decode_struct_def decode_fields_omits f match_field_def envelope0_def stored_envelope_def
        d_int_def int64_def)
qed

lemma bound_grant_binds: "bound_grant e server env \<Longrightarrow> bind_grant e server env = Some env"
  by (auto simp: bound_grant_def bind_grant_def bound_origin_def sameServerOrigin_def tokenEnvelopeVersion_def Let_def)

lemma load_bound:
  assumes "kv_read e k (buildTokenKey userID (ms_Name server)) s = (Inr raw, s')" "read_envelope e raw = Inr (Some env, raw)"
    and "bound_grant e server env"
  shows "loadGrantForServer e k userID server s = (Inr (Some (env, raw)), s')"
  using assms bound_grant_binds [OF assms(3)]
  by (simp add: loadGrantForServer_def grantBindAttempts_def loadTokenEnvelope_def numeral_3_eq_3)

text \<open>
  A grant that was stored for a user and a server is the one loaded for them, as long as nobody writes
  its key in between.
\<close>

theorem stored_grant_loads:
  assumes "codec e env" "bound_grant e server (stored_envelope env)" "oe_io e k = IoOk" "oe_io e j = IoOk"
    and "\<forall>kv. oe_others e j kv (buildTokenKey userID (ms_Name server)) = kv (buildTokenKey userID (ms_Name server))"
  shows "fst (loadGrantForServer e j userID server (snd (storeTokenEnvelope e k userID (ms_Name server) env s)))
    = Inr (Some (stored_envelope env, envelope_text e env))"
proof -
  have v: "te_Version env = 1" "usable_token (te_Token env)"
    using assms(2) by (simp_all add: bound_grant_def stored_envelope_def tokenEnvelopeVersion_def)
  have rd: "read_envelope e (envelope_text e env) = Inr (Some (stored_envelope env), envelope_text e env)"
    using assms(1) v decode_envelope [OF assms(1) v(1)]
    by (simp add: read_envelope_def Unmarshal_def codec_def stored_envelope_def tokenEnvelopeVersion_def)
  let ?s = "snd (storeTokenEnvelope e k userID (ms_Name server) env s)"
  have "os_kv ?s (buildTokenKey userID (ms_Name server)) = Some (envelope_text e env)"
    using assms(3) by (simp add: storeTokenEnvelope_def kv_step_def KVSet_def run_kv_def)
  then obtain s' where "kv_read e j (buildTokenKey userID (ms_Name server)) ?s = (Inr (envelope_text e env), s')"
    using assms(1,4,5) by (simp add: kv_read_def kv_step_def KVGet_def codec_def)
  from load_bound [OF this rd assms(2)] show ?thesis by simp
qed

section \<open>A refresh completes\<close>

text \<open>
  An expired source whose grant is the stored one, pinned to the configured client and a known method,
  on a node that nobody interferes with and whose lease is free.
\<close>

definition quiet :: "oauth_env \<Rightarrow> bool" where
  "quiet e \<longleftrightarrow> oe_io e = (\<lambda>_. IoOk) \<and> oe_others e = (\<lambda>_ kv. kv)"

definition ready_to_refresh :: "oauth_env \<Rightarrow> nat \<Rightarrow> token_source \<Rightarrow> oauth \<Rightarrow> bool" where
  "ready_to_refresh e k src s \<longleftrightarrow>
     (let env = ts_envelope src; u = ts_userID src; n = ts_serverName src in
      quiet e \<and> ts_serverName src = ms_Name (ts_server src) \<and> bound_grant e (ts_server src) env
      \<and> ts_raw src \<noteq> [] \<and> os_kv s (buildTokenKey u n) = Some (ts_raw src) \<and> read_envelope e (ts_raw src) = Inr (Some env, ts_raw src)
      \<and> token_valid e k env = None \<and> token_valid e (k + 1 + load_steps) env = None
      \<and> te_TokenEndpoint env \<noteq> [] \<and> ur_parse (oe_urls e) (te_TokenEndpoint env) \<noteq> None \<and> te_ClientID env \<noteq> [] \<and> refresh_token env \<noteq> []
      \<and> te_AuthMethod env \<in> {authMethodNone, authMethodBasic, authMethodPost}
      \<and> (case ts_static src of None \<Rightarrow> False | Some sc \<Rightarrow> sc_ClientID sc = te_ClientID env)
      \<and> os_kv s (buildRefreshLeaseKey u n) = None \<and> (case oe_random e k of Inl _ \<Rightarrow> False | Inr _ \<Rightarrow> True))"

lemma quiet_simps [simp]:
  assumes "quiet e"
  shows "kv_step e k access s = (let (r, kv') = access IoOk (os_kv s) in (r, s\<lparr>os_kv := kv'\<rparr>))"
  using assms by (simp add: quiet_def kv_step_def)

definition static_credentials :: "token_source \<Rightarrow> ClientCredentials" where
  "static_credentials src = (case ts_static src of
     None \<Rightarrow> credentials0
   | Some sc \<Rightarrow> credentials0\<lparr>cc_ClientID := sc_ClientID sc, cc_ClientSecret := sc_ClientSecret sc\<rparr>)"

lemma refresh_run:
  assumes "ready_to_refresh e k src s"
    and "read_token_answer e (oe_now e (k + load_steps + 3)) (ts_envelope src)
      (oe_send e (k + load_steps + 3) (refresh_request e (ts_envelope src) (static_credentials src) (te_AuthMethod (ts_envelope src)))) = Inr t"
  shows "source_Token e fuel k src s = Some (Inr t,
      src\<lparr>ts_envelope := (ts_envelope src)\<lparr>te_Token := Some t\<rparr>,
          ts_raw := envelope_text e ((ts_envelope src)\<lparr>te_Token := Some t\<rparr>)\<rparr>,
      \<lparr>os_kv = (os_kv s)(buildTokenKey (ts_userID src) (ts_serverName src)
           \<mapsto> envelope_text e ((ts_envelope src)\<lparr>te_Token := Some t\<rparr>)),
       os_sent = os_sent s @ [refresh_request e (ts_envelope src) (static_credentials src) (te_AuthMethod (ts_envelope src))]\<rparr>)"
proof -
  let ?env = "ts_envelope src" and ?u = "ts_userID src" and ?n = "ts_serverName src"
  let ?req = "refresh_request e ?env (static_credentials src) (te_AuthMethod ?env)"
  let ?new = "?env\<lparr>te_Token := Some t\<rparr>"
  have q: "quiet e" and n: "?n = ms_Name (ts_server src)" and b: "bound_grant e (ts_server src) ?env"
    and rd: "ts_raw src \<noteq> []" "os_kv s (buildTokenKey ?u ?n) = Some (ts_raw src)"
      "read_envelope e (ts_raw src) = Inr (Some ?env, ts_raw src)"
    and nv: "token_valid e k ?env = None" "token_valid e (k + 1 + load_steps) ?env = None"
    and pins: "te_TokenEndpoint ?env \<noteq> []" "ur_parse (oe_urls e) (te_TokenEndpoint ?env) \<noteq> None" "te_ClientID ?env \<noteq> []"
      "refresh_token ?env \<noteq> []" "te_AuthMethod ?env \<in> {authMethodNone, authMethodBasic, authMethodPost}"
    and free: "os_kv s (buildRefreshLeaseKey ?u ?n) = None"
    using assms(1) unfolding ready_to_refresh_def Let_def by blast+
  obtain sc where sc: "ts_static src = Some sc" "sc_ClientID sc = te_ClientID ?env"
    using assms(1) by (auto simp: ready_to_refresh_def Let_def split: option.splits)
  obtain leaseID where id: "oe_random e k = Inr leaseID"
    using assms(1) by (auto simp: ready_to_refresh_def Let_def split: sum.splits)
  let ?s1 = "s\<lparr>os_kv := (os_kv s)(buildRefreshLeaseKey ?u ?n \<mapsto> lease_text e leaseID)\<rparr>"
  have acq: "acquireRefreshLease e k ?u ?n leaseID s = (Inr True, ?s1)"
    using q free by (simp add: acquireRefreshLease_def KVCompareAndSetWithExpiry_def KVCompareAndSet_def run_kv_def kv_cas_def)
  have "kv_read e (k + 1) (buildTokenKey ?u ?n) ?s1 = (Inr (ts_raw src), ?s1)"
    using q rd by (simp add: kv_read_def KVGet_def)
  then have "loadGrantForServer e (k + 1) ?u (ts_server src) ?s1 = (Inr (Some (?env, ts_raw src)), ?s1)"
    using load_bound [OF _ rd(3) b] n by simp
  moreover have "te_Token ?env \<noteq> None" using b by (auto simp: bound_grant_def usable_token_def split: option.splits)
  ultimately have ad: "adoptLatestGrant e (k + 1) src ?s1 = (None, src, ?s1)" using nv(2) by (simp add: adoptLatestGrant_def)
  have cr: "refreshCredentials e (k + 1 + load_steps + 1) src ?s1 = (Inr (static_credentials src), ?s1)"
    using sc pins(3) by (simp add: refreshCredentials_def static_credentials_def)
  have k3: "k + 1 + load_steps + 2 = k + load_steps + 3" by simp
  let ?s2 = "?s1\<lparr>os_sent := os_sent s @ [?req]\<rparr>"
  have "doRefresh e (k + 1 + load_steps + 2) ?env (static_credentials src) (te_AuthMethod ?env) ?s1 = (Inr t, ?s2)"
    using pins(2) assms(2) unfolding doRefresh_def send_form_def k3 by (simp add: Let_def)
  then have g: "refreshGrant e (k + 1 + load_steps + 2) ?env (static_credentials src) ?s1 = (Inr (t, te_AuthMethod ?env), ?s2)"
    using pins(5) by (simp add: refreshGrant_def refreshAuthMethods_def)
  have "(if te_AuthMethod ?env = [] then te_AuthMethod ?env else te_AuthMethod ?env) = te_AuthMethod ?env" by simp
  then have same: "?env\<lparr>te_Token := Some t, te_AuthMethod := te_AuthMethod ?env\<rparr> = ?new" by (cases ?env) simp
  let ?s3 = "?s2\<lparr>os_kv := (os_kv ?s2)(buildTokenKey ?u ?n \<mapsto> envelope_text e ?new)\<rparr>"
  let ?src = "src\<lparr>ts_envelope := ?new, ts_raw := envelope_text e ?new\<rparr>"
  have "persistRefreshedGrant e (k + 1 + load_steps + 2 + 2) ?new src ?s2 = (None, ?src, ?s3)"
    using q rd(2)
    by (simp add: persistRefreshedGrant_def persistAttempts_def eval_nat_numeral casTokenEnvelope_def KVCompareAndSet_def
        run_kv_def kv_cas_def)
  then have red: "redeem e (k + 1 + load_steps + 2) src (static_credentials src) ?s1 = (Inr t, ?src, ?s3)"
    using g same by (simp add: redeem_def)
  have "refresh_leased e (k + 1) src ?s1 = (Inr t, ?src, ?s3)"
    using ad pins(4) cr red by (simp add: refresh_leased_def)
  moreover have "releaseRefreshLease e (k + 2 * load_steps + 8) ?u ?n leaseID ?s3
      = \<lparr>os_kv = (os_kv s)(buildTokenKey ?u ?n \<mapsto> envelope_text e ?new), os_sent = os_sent s @ [?req]\<rparr>"
    using q free
    by (cases s) (auto simp: releaseRefreshLease_def KVCompareAndSet_def run_kv_def kv_cas_def fun_eq_iff)
  ultimately have "refreshUnderLease e fuel k src s = Some (Inr t, ?src,
      \<lparr>os_kv = (os_kv s)(buildTokenKey ?u ?n \<mapsto> envelope_text e ?new), os_sent = os_sent s @ [?req]\<rparr>)"
    using id acq by (simp add: refreshUnderLease_def)
  moreover have "te_Version ?env \<noteq> 0" using b by (simp add: bound_grant_def tokenEnvelopeVersion_def)
  ultimately show ?thesis using nv(1) pins(1,3,4) by (simp add: source_Token_def)
qed


section \<open>Examples\<close>

definition ex_token :: "string \<Rightarrow> string \<Rightarrow> Token" where
  "ex_token access refresh = \<lparr>tk_AccessToken = access, tk_TokenType = [], tk_RefreshToken = refresh, tk_Expiry = 0\<rparr>"

text \<open>Tokens \<open>a\<close>, \<open>b\<close>, \<open>n\<close> with their refresh tokens; a grant prints as its access token.\<close>

definition ex_tokens :: "(string \<times> Token) list" where
  "ex_tokens = [(''a'', ex_token ''a'' ''r''), (''b'', ex_token ''b'' ''r''), (''n'', ex_token ''n'' ''r2'')]"

definition ex_grant :: "string \<Rightarrow> storedTokenEnvelope" where
  "ex_grant access = \<lparr>te_Version = 1, te_Token = map_of ex_tokens access, te_Issuer = [], te_TokenEndpoint = ''https://as/token'',
     te_AuthServerURL = [], te_ClientID = ''c'', te_AuthMethod = ''none'', te_Resource = [], te_RevocationEndpoint = [],
     te_ServerOrigin = ''https://s:443'', te_ServerConfigID = ''1''\<rparr>"

definition ex_grant_json :: "string \<Rightarrow> json" where
  "ex_grant_json access = JObj [(''version'', JInt 1), (''token'', JStr access), (''tokenEndpoint'', JStr ''https://as/token''),
     (''clientID'', JStr ''c''), (''authMethod'', JStr ''none''), (''serverOrigin'', JStr ''https://s:443''),
     (''serverConfigID'', JStr ''1'')]"

definition ex_oauth_json :: json_env where
  "ex_oauth_json = \<lparr>
     js_parse = (\<lambda>text. if text = ''B'' then Some (JObj [(''access_token'', JStr ''b'')])
       else if text \<in> set (map fst ex_tokens) then Some (ex_grant_json text) else None),
     js_print = (\<lambda>v. case v of JObj kvs \<Rightarrow> (case map_of kvs ''token'' of Some (JStr a) \<Rightarrow> a | _ \<Rightarrow> ''{}'') | JStr s \<Rightarrow> s | _ \<Rightarrow> ''0''),
     js_printable = (\<lambda>_. True)\<rparr>"

definition ex_oauth_urls :: url_env where
  "ex_oauth_urls = \<lparr>ur_parse = map_of [(''https://s'', (''https'', ''s'', [])), (''https://s:443'', (''https'', ''s'', ''443'')),
       (''https://as/token'', (''https'', ''as'', []))],
     ur_lower = (\<lambda>s. s), ur_validId = (\<lambda>_. True)\<rparr>"

definition ex_oauth :: "(nat \<Rightarrow> io) \<Rightarrow> oauth_env" where
  "ex_oauth io = \<lparr>oe_urls = ex_oauth_urls, oe_json = ex_oauth_json, oe_io = io, oe_others = (\<lambda>_ kv. kv),
     oe_token_json = (\<lambda>t. JStr (tk_AccessToken t)),
     oe_json_token = (\<lambda>v. case v of JStr a \<Rightarrow> (case map_of ex_tokens a of Some t \<Rightarrow> Inr t | None \<Rightarrow> Inl json_type_error)
       | _ \<Rightarrow> Inl json_type_error),
     oe_valid = (\<lambda>_ t. tk_AccessToken t = ''b''), oe_now = (\<lambda>_. 0), oe_send = (\<lambda>_ _. Answer 200 (Inr ''B'')),
     oe_random = (\<lambda>_. Inr ''id''), oe_done = (\<lambda>_. None), oe_past = (\<lambda>_. True), oe_escape = (\<lambda>s. s),
     oe_sha256 = (\<lambda>s. s), oe_parseFloat = (\<lambda>_. None)\<rparr>"

definition ex_oauth_server :: MCPServerConfig where
  "ex_oauth_server = (listed_server ''1'' ''m'' ''https://s'')\<lparr>ms_ClientID := ''c''\<rparr>"

definition ex_source :: token_source where
  "ex_source = \<lparr>ts_envelope = ex_grant ''a'', ts_raw = ''a'', ts_static = staticOAuthCreds ex_oauth_server, ts_userID = ''u'',
     ts_serverName = ''m'', ts_server = ex_oauth_server\<rparr>"

definition ex_oauth_state :: "string \<Rightarrow> oauth" where
  "ex_oauth_state access = \<lparr>os_kv = (\<lambda>key. if key = buildTokenKey ''u'' ''m'' then Some access else None), os_sent = []\<rparr>"

definition failing_reload :: oauth_env where
  "failing_reload = ex_oauth (\<lambda>k. if k = 1 then IoFails (ErrorNew ''timeout'') False else IoOk)"

abbreviation ex_refresh_request :: http_request where
  "ex_refresh_request \<equiv> refresh_request failing_reload (ex_grant ''a'') (static_credentials ex_source) authMethodNone"

lemma ex_answer: "read_token_answer (ex_oauth io) 0 (ex_grant ''a'') (Answer 200 (Inr ''B'')) = Inr (ex_token ''b'' ''r'')"
  by (simp add: read_token_answer_def Unmarshal_def ex_oauth_def ex_oauth_json_def decode_struct_def fields_token_body_def
      match_field_def d_string_def maxTokenResponseBytes_def refreshed_token_def ex_token_def refresh_token_def ex_grant_def ex_tokens_def)

text \<open>
  A node that holds \<open>a\<close> reloads under the lease and fails to read the store, which has held \<open>n\<close> since
  another node's refresh: the rotated refresh token \<open>r\<close> is sent again.
\<close>

lemma reload_error_replays_rotated_token:
  "map_option (\<lambda>(r, src', s'). os_sent s') (source_Token failing_reload 1 0 ex_source (ex_oauth_state ''n'')) = Some [ex_refresh_request]"
  "(''refresh_token'', ''r'') \<in> set (hr_form ex_refresh_request)" "refresh_token (ex_grant ''n'') = ''r2''"
proof -
  let ?e = failing_reload
  have rt: "refresh_token (ex_grant ''a'') = ''r''" by (simp add: refresh_token_def ex_grant_def ex_tokens_def ex_token_def)
  have e: "oe_io ?e 0 = IoOk" "oe_io ?e (Suc 0) = IoFails (ErrorNew ''timeout'') False" "oe_others ?e = (\<lambda>_ kv. kv)"
    "oe_random ?e 0 = Inr ''id''" "oe_now ?e = (\<lambda>_. 0)" "oe_send ?e = (\<lambda>_ _. Answer 200 (Inr ''B''))"
    by (simp_all add: failing_reload_def ex_oauth_def)
  have src: "ts_envelope ex_source = ex_grant ''a''" "ts_userID ex_source = ''u''" "ts_serverName ex_source = ''m''"
    "ts_raw ex_source = ''a''" by (simp_all add: ex_source_def)
  have nv: "token_valid ?e 0 (ex_grant ''a'') = None"
    by (simp add: token_valid_def ex_grant_def ex_tokens_def ex_token_def failing_reload_def ex_oauth_def)
  have pins: "te_Version (ex_grant ''a'') = 1" "te_TokenEndpoint (ex_grant ''a'') = ''https://as/token''"
    "te_ClientID (ex_grant ''a'') = ''c''" "te_AuthMethod (ex_grant ''a'') = authMethodNone" by (simp_all add: ex_grant_def authMethodNone_def)
  let ?s1 = "(ex_oauth_state ''n'')\<lparr>os_kv := (os_kv (ex_oauth_state ''n''))(buildRefreshLeaseKey ''u'' ''m'' \<mapsto> lease_text ?e ''id'')\<rparr>"
  have acq: "acquireRefreshLease ?e 0 ''u'' ''m'' ''id'' (ex_oauth_state ''n'') = (Inr True, ?s1)"
    by (simp add: acquireRefreshLease_def kv_step_def KVCompareAndSetWithExpiry_def KVCompareAndSet_def run_kv_def kv_cas_def e
        ex_oauth_state_def)
  have ad: "adoptLatestGrant ?e 1 ex_source ?s1 = (None, ex_source, ?s1)"
    by (simp add: adoptLatestGrant_def loadGrantForServer_def grantBindAttempts_def eval_nat_numeral loadTokenEnvelope_def kv_read_def
        kv_step_def KVGet_def e IsKVNotFound_def ErrKVNotFound_def)
  have cr: "refreshCredentials ?e k ex_source ?s1 = (Inr (static_credentials ex_source), ?s1)" for k
    by (simp add: refreshCredentials_def static_credentials_def ex_source_def staticOAuthCreds_def ex_oauth_server_def pins)
  have g: "refreshGrant ?e k (ex_grant ''a'') (static_credentials ex_source) ?s1
      = (Inr (ex_token ''b'' ''r'', authMethodNone), ?s1\<lparr>os_sent := [ex_refresh_request]\<rparr>)" for k
    using ex_answer [of "\<lambda>k. if k = 1 then IoFails (ErrorNew ''timeout'') False else IoOk", folded failing_reload_def]
    by (simp add: refreshGrant_def refreshAuthMethods_def pins doRefresh_def send_form_def e ex_oauth_state_def)
      (simp add: failing_reload_def ex_oauth_def ex_oauth_urls_def)
  have "os_sent (snd (snd (redeem ?e k ex_source (static_credentials ex_source) ?s1))) = [ex_refresh_request]" for k
    using persist_loop_outcome(1)
    by (simp add: redeem_def src g persistRefreshedGrant_def split: prod.split option.split)
  then have "os_sent (snd (snd (refresh_leased ?e 1 ex_source ?s1))) = [ex_refresh_request]"
    using ad cr rt by (simp add: refresh_leased_def src)
  then show "map_option (\<lambda>(r, src', s'). os_sent s') (source_Token ?e 1 0 ex_source (ex_oauth_state ''n'')) = Some [ex_refresh_request]"
    using acq by (auto simp: source_Token_def refreshUnderLease_def src nv pins rt e split: prod.split)
  show "(''refresh_token'', ''r'') \<in> set (hr_form ex_refresh_request)" by (simp add: refresh_request_def rt)
  show "refresh_token (ex_grant ''n'') = ''r2''" by (simp add: refresh_token_def ex_grant_def ex_tokens_def ex_token_def)
qed

lemma ex_ready: "ready_to_refresh (ex_oauth (\<lambda>_. IoOk)) 0 ex_source (ex_oauth_state ''a'')"
proof -
  have "read_envelope (ex_oauth (\<lambda>_. IoOk)) ''a'' = Inr (Some (ex_grant ''a''), ''a'')" by code_simp
  moreover have "bound_grant (ex_oauth (\<lambda>_. IoOk)) ex_oauth_server (ex_grant ''a'')" by code_simp
  moreover have "ur_parse (oe_urls (ex_oauth (\<lambda>_. IoOk))) (te_TokenEndpoint (ex_grant ''a'')) = Some (''https'', ''as'', [])"
    by code_simp
  moreover have "token_valid (ex_oauth (\<lambda>_. IoOk)) k (ex_grant ''a'') = None" for k
    by (simp add: token_valid_def ex_grant_def ex_tokens_def ex_token_def ex_oauth_def)
  moreover have "refresh_token (ex_grant ''a'') = ''r''" by (simp add: refresh_token_def ex_grant_def ex_tokens_def ex_token_def)
  moreover have "quiet (ex_oauth (\<lambda>_. IoOk))" by (simp add: quiet_def ex_oauth_def)
  moreover have "buildRefreshLeaseKey ''u'' ''m'' \<noteq> buildTokenKey ''u'' ''m''" by simp
  ultimately show ?thesis
    by (simp add: ready_to_refresh_def Let_def ex_source_def ex_oauth_state_def staticOAuthCreds_def ex_oauth_server_def
        listed_server_def ex_oauth_def authMethodNone_def)
      (simp add: ex_grant_def)
qed

lemma ex_refresh_answer:
  "read_token_answer (ex_oauth (\<lambda>_. IoOk)) (oe_now (ex_oauth (\<lambda>_. IoOk)) (0 + load_steps + 3)) (ts_envelope ex_source)
     (oe_send (ex_oauth (\<lambda>_. IoOk)) (0 + load_steps + 3) (refresh_request (ex_oauth (\<lambda>_. IoOk)) (ts_envelope ex_source)
        (static_credentials ex_source) (te_AuthMethod (ts_envelope ex_source)))) = Inr (ex_token ''b'' ''r'')"
  using ex_answer [of "\<lambda>_. IoOk"] by (simp add: ex_source_def) (simp add: ex_oauth_def)



lemma ex_bound: "bound_grant (ex_oauth io) (ts_server ex_source) (ts_envelope ex_source)"
  by (simp add: bound_grant_def ex_source_def ex_grant_def usable_token_def ex_tokens_def ex_token_def tokenEnvelopeVersion_def
      sameServerOrigin_def originChanged_def canonicalOriginFromString_def canonicalOrigin_def ex_oauth_def ex_oauth_urls_def
      ex_oauth_server_def listed_server_def Let_def)

lemma ex_failing_run:
  obtains r src' s' where "source_Token failing_reload 1 0 ex_source (ex_oauth_state ''n'') = Some (r, src', s')"
    "os_sent s' = [ex_refresh_request]"
  using reload_error_replays_rotated_token(1) by (auto split: prod.splits)

lemma source_holds_server_grant_witness:
  "\<exists>r src' s'. source_Token failing_reload 1 0 ex_source (ex_oauth_state ''n'') = Some (r, src', s')
     \<and> bound_grant failing_reload (ts_server src') (ts_envelope src')"
proof -
  obtain r src' s' where run: "source_Token failing_reload 1 0 ex_source (ex_oauth_state ''n'') = Some (r, src', s')"
    by (rule ex_failing_run)
  from source_holds_server_grant [OF _ run] ex_bound run show ?thesis by (auto simp: failing_reload_def)
qed

lemma refresh_requests_pinned_witness:
  "\<exists>r src' s'. source_Token failing_reload 1 0 ex_source (ex_oauth_state ''n'') = Some (r, src', s')
     \<and> list_all (pinned_request failing_reload (grant_under_lease failing_reload 0 ex_source (ex_oauth_state ''n''))) (os_sent s')"
proof -
  obtain r src' s' where run: "source_Token failing_reload 1 0 ex_source (ex_oauth_state ''n'') = Some (r, src', s')"
    by (rule ex_failing_run)
  have "bound_grant failing_reload (ts_server ex_source) (ts_envelope ex_source)" using ex_bound by (simp add: failing_reload_def)
  from refresh_requests_pinned [OF this run] run show ?thesis by (auto simp: ex_oauth_state_def)
qed

lemma source_Token_returns_witness:
  "\<exists>out. \<forall>fuel. source_Token failing_reload (Suc 0 + fuel) 0 ex_source (ex_oauth_state ''n'') = Some out"
  using source_Token_returns [of failing_reload 0 0 ex_source "ex_oauth_state ''n''"] by (simp add: failing_reload_def ex_oauth_def)

lemma stored_grant_loads_witness:
  "fst (loadGrantForServer (ex_oauth (\<lambda>_. IoOk)) 1 ''u'' ex_oauth_server
     (snd (storeTokenEnvelope (ex_oauth (\<lambda>_. IoOk)) 0 ''u'' (ms_Name ex_oauth_server) (ex_grant ''a'') (ex_oauth_state ''n''))))
   = Inr (Some (stored_envelope (ex_grant ''a''), envelope_text (ex_oauth (\<lambda>_. IoOk)) (ex_grant ''a'')))"
proof (rule stored_grant_loads)
  show "codec (ex_oauth (\<lambda>_. IoOk)) (ex_grant ''a'')" by code_simp
  show "bound_grant (ex_oauth (\<lambda>_. IoOk)) ex_oauth_server (stored_envelope (ex_grant ''a''))" by code_simp
qed (simp_all add: ex_oauth_def)

end
