(* ===== verification/Mcp_Sign_In.thy ===== *)
theory Mcp_Sign_In
  imports Mcp_Oauth
begin

text \<open>
  Signing a user in to an MCP server and out again: discovery of the authorization server
  (\<open>src/mcp/oauth_discovery.go\<close>), the sign-in flow with its callback (\<open>src/mcp/oauth_manager.go\<close>), the
  session it keeps in between (\<open>src/mcp/oauth_store.go\<close>), revocation (\<open>src/mcp/oauth_revoke.go\<close>) and the
  reading of a refusal (\<open>src/mcp/oauth_handler.go\<close>).

  The third-party packages are parameters: \<open>oauthex\<close> fetches metadata, registers clients and parses
  challenges, \<open>oauth2\<close> builds the authorization URL and exchanges the code. \<open>si_url\<close> is what \<open>url.Parse\<close>
  reads off a URL, with the text of the URL under another path. A call at moment \<open>k\<close> has its own answer.
\<close>

record parsed_url =
  pu_Scheme :: string
  pu_Host :: string
  pu_Hostname :: string
  pu_Path :: string
  pu_with_path :: "string \<Rightarrow> string"

record ProtectedResourceMetadata =
  pr_Resource :: string
  pr_AuthorizationServers :: "string list"
  pr_ScopesSupported :: "string list"

record AuthServerMeta =
  am_Issuer :: string
  am_AuthorizationEndpoint :: string
  am_TokenEndpoint :: string
  am_RegistrationEndpoint :: string
  am_RevocationEndpoint :: string
  am_ScopesSupported :: "string list"
  am_TokenEndpointAuthMethodsSupported :: "string list"
  am_RequireIss :: bool

record ClientRegistrationMetadata =
  rm_RedirectURIs :: "string list"
  rm_TokenEndpointAuthMethod :: string
  rm_GrantTypes :: "string list"
  rm_ResponseTypes :: "string list"
  rm_ClientName :: string
  rm_ApplicationType :: string

record ClientRegistrationResponse =
  rr_ClientID :: string
  rr_ClientSecret :: string
  rr_TokenEndpointAuthMethod :: string
  rr_SecretExpiresAt :: "int option"

record oauth2_Config =
  o2_ClientID :: string
  o2_ClientSecret :: string
  o2_RedirectURL :: string
  o2_Scopes :: "string list"
  o2_AuthURL :: string
  o2_TokenURL :: string
  o2_InParams :: bool

record code_exchange =
  ce_config :: oauth2_Config
  ce_code :: string
  ce_verifier :: string
  ce_params :: "(string \<times> string) list"

record sign_in_env =
  si_oauth :: oauth_env
  si_callbackURL :: string
  si_lookup :: "(nat \<Rightarrow> string \<Rightarrow> MCPServerConfig option) option"
  si_url :: "string \<Rightarrow> parsed_url option"
  si_loopbackIP :: "string \<Rightarrow> bool"
  si_getPRM :: "nat \<Rightarrow> string \<Rightarrow> string \<Rightarrow> ProtectedResourceMetadata result"
  si_getASM :: "nat \<Rightarrow> string \<Rightarrow> string \<Rightarrow> AuthServerMeta option result"
  si_decodeASM :: "json \<Rightarrow> AuthServerMeta result"
  si_get :: "nat \<Rightarrow> string \<Rightarrow> http_answer"
  si_register :: "nat \<Rightarrow> string \<Rightarrow> ClientRegistrationMetadata \<Rightarrow> ClientRegistrationResponse result"
  si_verifier :: "nat \<Rightarrow> string"
  si_authCodeURL :: "oauth2_Config \<Rightarrow> string \<Rightarrow> string \<Rightarrow> (string \<times> string) list \<Rightarrow> string"
  si_exchange :: "nat \<Rightarrow> code_exchange \<Rightarrow> Token result"

record sign_in =
  sg_oauth :: oauth
  sg_registered :: "(string \<times> ClientRegistrationMetadata) list"
  sg_exchanged :: "code_exchange list"

definition on_oauth :: "(oauth \<Rightarrow> 'a \<times> oauth) \<Rightarrow> sign_in \<Rightarrow> 'a \<times> sign_in" where
  "on_oauth f s = (let (r, o') = f (sg_oauth s) in (r, s\<lparr>sg_oauth := o'\<rparr>))"

section \<open>URLs\<close>

definition TrimLeftChar :: "char \<Rightarrow> string \<Rightarrow> string" where
  "TrimLeftChar c s = dropWhile (\<lambda>x. x = c) s"

definition slash :: char where "slash = CHR ''/''"

definition TrimSlashes :: "string \<Rightarrow> string" where
  "TrimSlashes s = TrimLeftChar slash (TrimRightChar slash s)"

definition TrimSuffix :: "string \<Rightarrow> string \<Rightarrow> string" where
  "TrimSuffix s suf = (if HasSuffix s suf then take (length s - length suf) s else s)"

function Fields_from :: "string \<Rightarrow> string \<Rightarrow> string list" where
  "Fields_from word s =
     (let rest = (if word = [] then [] else [word]) in
      if s = [] then rest
      else if 0 < space_len s then rest @ Fields_from [] (drop (space_len s) s)
      else Fields_from (word @ [hd s]) (tl s))"
  by pat_completeness auto
termination
  by (relation "measure (\<lambda>(_, s). length s)") auto

declare Fields_from.simps [simp del]

definition Fields :: "string \<Rightarrow> string list" where
  "Fields s = Fields_from [] s"

definition isLoopbackHostname :: "sign_in_env \<Rightarrow> string \<Rightarrow> bool" where
  "isLoopbackHostname e host \<longleftrightarrow> host = ''localhost'' \<or> si_loopbackIP e host"

definition checkHTTPSOrLoopbackURL :: "sign_in_env \<Rightarrow> string \<Rightarrow> go_error option" where
  "checkHTTPSOrLoopbackURL e rawURL =
     (if rawURL = [] then None
      else case si_url e rawURL of
             None \<Rightarrow> Some (ErrorNew ''parse error'')
           | Some u \<Rightarrow>
               (if pu_Scheme u = ''https'' \<or> pu_Scheme u = ''http'' \<and> isLoopbackHostname e (pu_Hostname u) then None
                else Some (ErrorNew (''URL '' @ rawURL @ '' does not use HTTPS or is not an HTTP loopback address''))))"

definition inferApplicationType :: "sign_in_env \<Rightarrow> string \<Rightarrow> string" where
  "inferApplicationType e redirectURI =
     (case si_url e redirectURI of
        None \<Rightarrow> ''web''
      | Some u \<Rightarrow>
          (if pu_Scheme u \<in> {''http'', ''https''}
           then if isLoopbackHostname e (pu_Hostname u) then ''native'' else ''web''
           else ''native''))"

definition origin_URL :: "parsed_url \<Rightarrow> string" where
  "origin_URL u = (if pu_Scheme u = [] then [] else pu_Scheme u @ '':'')
     @ (if pu_Scheme u = [] \<and> pu_Host u = [] then [] else ''//'' @ pu_Host u)"

definition constructWellKnownURL :: "sign_in_env \<Rightarrow> string \<Rightarrow> string \<Rightarrow> string result" where
  "constructWellKnownURL e issuer suf =
     (case si_url e issuer of
        None \<Rightarrow> Inl (ErrorNew ''failed to parse issuer URL'')
      | Some u \<Rightarrow> Inr (pu_Scheme u @ ''://'' @ pu_Host u @ ''/.well-known/'' @ suf @ TrimSuffix (pu_Path u) ''/''))"

section \<open>Discovery\<close>

definition prm_candidates :: "sign_in_env \<Rightarrow> string \<Rightarrow> string \<Rightarrow> (string \<times> string) list result" where
  "prm_candidates e serverURL metadataURL =
     (case constructWellKnownURL e serverURL ''oauth-protected-resource'' of
        Inl err \<Rightarrow> Inl (wrapf ''failed to construct metadata URL'' err)
      | Inr pathInserted \<Rightarrow>
          Inr ((if metadataURL = [] then [] else [(metadataURL, serverURL)])
            @ (if pathInserted = metadataURL then [] else [(pathInserted, serverURL)])
            @ (case si_url e serverURL of
                 None \<Rightarrow> []
               | Some u \<Rightarrow>
                   (if TrimSlashes (pu_Path u) = [] then []
                    else [(origin_URL u @ ''/.well-known/oauth-protected-resource'', origin_URL u)]))))"

fun prm_walk :: "sign_in_env \<Rightarrow> nat \<Rightarrow> (string \<times> string) list \<Rightarrow> go_error option \<Rightarrow> ProtectedResourceMetadata result" where
  "prm_walk e k [] firstErr = Inl (case firstErr of Some err \<Rightarrow> err | None \<Rightarrow> ErrorNew [])"
| "prm_walk e k ((metadataURL, resource) # cs) firstErr =
     (case si_getPRM e k metadataURL resource of
        Inl err \<Rightarrow>
          prm_walk e (k + 1) cs (if firstErr = None
            then Some (wrapf (''failed to fetch protected resource metadata from '' @ metadataURL) err) else firstErr)
      | Inr prm \<Rightarrow>
          (if pr_AuthorizationServers prm = []
           then prm_walk e (k + 1) cs (if firstErr = None
             then Some (ErrorNew (''no authorization servers found in protected resource metadata from '' @ metadataURL)) else firstErr)
           else Inr prm))"

definition fetchProtectedResourceMetadata ::
  "sign_in_env \<Rightarrow> nat \<Rightarrow> string \<Rightarrow> string \<Rightarrow> ProtectedResourceMetadata result" where
  "fetchProtectedResourceMetadata e k serverURL metadataURL =
     bindR (prm_candidates e serverURL metadataURL) (\<lambda>cs. prm_walk e k cs None)"

definition authServerMetadataURLs :: "sign_in_env \<Rightarrow> string \<Rightarrow> string list" where
  "authServerMetadataURLs e issuer =
     (case si_url e issuer of
        None \<Rightarrow> []
      | Some u \<Rightarrow>
          (if TrimSlashes (pu_Path u) = []
           then [pu_with_path u ''/.well-known/oauth-authorization-server'', pu_with_path u ''/.well-known/openid-configuration'']
           else [pu_with_path u (''/.well-known/oauth-authorization-server/'' @ TrimLeftChar slash (pu_Path u)),
                 pu_with_path u (''/.well-known/openid-configuration/'' @ TrimLeftChar slash (pu_Path u)),
                 pu_with_path u (''/'' @ TrimSlashes (pu_Path u) @ ''/.well-known/openid-configuration'')]))"

definition maxMetadataBytes :: nat where "maxMetadataBytes = 2 ^ 20"

definition fetchJSONLenient :: "sign_in_env \<Rightarrow> nat \<Rightarrow> string \<Rightarrow> AuthServerMeta result" where
  "fetchJSONLenient e k metadataURL =
     (case si_get e k metadataURL of
        NoAnswer err \<Rightarrow> Inl (wrapf (''failed to fetch '' @ metadataURL) err)
      | Answer status body \<Rightarrow>
          (if status \<noteq> 200 then Inl (ErrorNew (''failed to fetch '' @ metadataURL @ '': HTTP error''))
           else case body of
                  Inl err \<Rightarrow> Inl (wrapf (''failed to read response from '' @ metadataURL) err)
                | Inr full \<Rightarrow>
                    (case Unmarshal (si_oauth e) (si_decodeASM e) (take maxMetadataBytes full) of
                       Inl err \<Rightarrow> Inl (wrapf (''failed to parse JSON from '' @ metadataURL) err)
                     | Inr asm \<Rightarrow> Inr asm)))"

definition issuers_equal :: "string \<Rightarrow> string \<Rightarrow> bool" where
  "issuers_equal a b \<longleftrightarrow> TrimSuffix a ''/'' = TrimSuffix b ''/''"

definition validateLenientAuthServerMeta :: "sign_in_env \<Rightarrow> AuthServerMeta \<Rightarrow> string \<Rightarrow> string \<Rightarrow> go_error option" where
  "validateLenientAuthServerMeta e asm metadataURL expectedIssuer =
     (if am_Issuer asm = [] then Some (ErrorNew ''missing required 'issuer' field'')
      else if \<not> issuers_equal (am_Issuer asm) expectedIssuer
      then Some (ErrorNew (''metadata issuer '' @ am_Issuer asm @ '' does not match expected issuer '' @ expectedIssuer))
      else if am_AuthorizationEndpoint asm = [] then Some (ErrorNew ''missing required 'authorization_endpoint' field'')
      else if am_TokenEndpoint asm = [] then Some (ErrorNew ''missing required 'token_endpoint' field'')
      else map_option (wrapf (''invalid endpoint URL in authorization server metadata from '' @ metadataURL))
        (case List.map_filter (checkHTTPSOrLoopbackURL e)
                [am_AuthorizationEndpoint asm, am_TokenEndpoint asm, am_RegistrationEndpoint asm] of
           [] \<Rightarrow> None | err # _ \<Rightarrow> Some err))"

definition lenient_metadata :: "sign_in_env \<Rightarrow> nat \<Rightarrow> string \<Rightarrow> string \<Rightarrow> AuthServerMeta result" where
  "lenient_metadata e k metadataURL issuer =
     (case fetchJSONLenient e k metadataURL of
        Inl err \<Rightarrow> Inl (wrapf (''failed to fetch authorization server metadata from '' @ metadataURL) err)
      | Inr asm \<Rightarrow>
          (case validateLenientAuthServerMeta e asm metadataURL issuer of Some err \<Rightarrow> Inl err | None \<Rightarrow> Inr asm))"

text \<open>\<open>follow\<close> is what a document that declares another issuer leads to, if that is still allowed.\<close>

fun asm_walk ::
  "sign_in_env \<Rightarrow> (nat \<Rightarrow> string \<Rightarrow> string \<Rightarrow> AuthServerMeta result) option \<Rightarrow> nat \<Rightarrow> string \<Rightarrow> string list \<Rightarrow> AuthServerMeta result" where
  "asm_walk e follow k issuer [] = Inl (ErrorNew (''no authorization server metadata found for issuer '' @ issuer))"
| "asm_walk e follow k issuer (metadataURL # urls) =
     (case si_getASM e k metadataURL issuer of
        Inr None \<Rightarrow> asm_walk e follow (k + 2) issuer urls
      | Inr (Some asm) \<Rightarrow> Inr asm
      | Inl err \<Rightarrow>
          (if Contains (errText err) ''does not implement PKCE'' then lenient_metadata e (k + 1) metadataURL issuer
           else case follow of
                  Some f \<Rightarrow>
                    (if Contains (errText err) ''does not match issuer URL''
                     then map_sum (wrapf (''failed to fetch authorization server metadata from '' @ metadataURL)) id
                            (f (k + 1) metadataURL issuer)
                     else Inl (wrapf (''failed to fetch authorization server metadata from '' @ metadataURL) err))
                | None \<Rightarrow> Inl (wrapf (''failed to fetch authorization server metadata from '' @ metadataURL) err)))"

definition asm_hop ::
  "sign_in_env \<Rightarrow> (nat \<Rightarrow> string \<Rightarrow> string \<Rightarrow> AuthServerMeta result) option \<Rightarrow> nat \<Rightarrow> string \<Rightarrow> AuthServerMeta result" where
  "asm_hop e follow k issuer =
     (if authServerMetadataURLs e issuer = []
      then Inl (ErrorNew (''failed to construct metadata URLs for issuer '' @ issuer))
      else asm_walk e follow k issuer (authServerMetadataURLs e issuer))"

definition followDeclaredIssuer :: "sign_in_env \<Rightarrow> nat \<Rightarrow> string \<Rightarrow> string \<Rightarrow> AuthServerMeta result" where
  "followDeclaredIssuer e k metadataURL expectedIssuer =
     (case fetchJSONLenient e k metadataURL of
        Inl err \<Rightarrow> Inl (wrapf ''failed to re-read metadata to determine declared issuer'' err)
      | Inr declared \<Rightarrow>
          (if am_Issuer declared = [] \<or> issuers_equal (am_Issuer declared) expectedIssuer
           then Inl (ErrorNew ''metadata does not declare a distinct issuer to follow'')
           else case checkHTTPSOrLoopbackURL e (am_Issuer declared) of
                  Some err \<Rightarrow> Inl (wrapf ''declared issuer is not a valid HTTPS URL'' err)
                | None \<Rightarrow> asm_hop e None (k + 6) (am_Issuer declared)))"

definition fetchAuthorizationServerMetadata :: "sign_in_env \<Rightarrow> nat \<Rightarrow> string \<Rightarrow> AuthServerMeta result" where
  "fetchAuthorizationServerMetadata e k issuer = asm_hop e (Some (followDeclaredIssuer e)) k issuer"

section \<open>Client registration\<close>

definition selectTokenEndpointAuthMethod :: "string list \<Rightarrow> string" where
  "selectTokenEndpointAuthMethod supported =
     (case filter (\<lambda>m. m \<in> set supported) [authMethodBasic, authMethodPost, authMethodNone] of
        [] \<Rightarrow> authMethodBasic | m # _ \<Rightarrow> m)"

definition oauthClientName :: string where "oauthClientName = ''Mattermost Agents''"

definition registration :: "sign_in_env \<Rightarrow> string \<Rightarrow> ClientRegistrationMetadata" where
  "registration e authMethod =
     \<lparr>rm_RedirectURIs = [si_callbackURL e], rm_TokenEndpointAuthMethod = authMethod,
      rm_GrantTypes = [''authorization_code'', ''refresh_token''], rm_ResponseTypes = [''code''],
      rm_ClientName = oauthClientName, rm_ApplicationType = inferApplicationType e (si_callbackURL e)\<rparr>"

definition registered_client :: "string \<Rightarrow> string \<Rightarrow> ClientRegistrationResponse \<Rightarrow> ClientCredentials" where
  "registered_client serverURL authMethod r =
     \<lparr>cc_ClientID = rr_ClientID r, cc_ClientSecret = rr_ClientSecret r, cc_ServerURL = serverURL,
      cc_TokenEndpointAuthMethod = (if rr_TokenEndpointAuthMethod r = [] then authMethod else rr_TokenEndpointAuthMethod r),
      cc_SecretExpiresAt = (case rr_SecretExpiresAt r of None \<Rightarrow> 0 | Some t \<Rightarrow> t)\<rparr>"

definition loadOrCreateClientCredentials ::
  "sign_in_env \<Rightarrow> nat \<Rightarrow> string \<Rightarrow> StaticOAuthCredentials option \<Rightarrow> string \<Rightarrow> string list \<Rightarrow> sign_in
     \<Rightarrow> ClientCredentials result \<times> sign_in" where
  "loadOrCreateClientCredentials e k serverURL static registrationEndpoint supported s =
     (let dynamic =
        (case on_oauth (loadClientCredentials (si_oauth e) k serverURL) s of
           (Inl err, s1) \<Rightarrow> (Inl (wrapf ''failed to load client credentials'' err), s1)
         | (Inr (Some c), s1) \<Rightarrow> (Inr c, s1)
         | (Inr None, s1) \<Rightarrow>
             (if registrationEndpoint = []
              then (Inl (ErrorNew (''authorization server '' @ serverURL
                      @ '' does not advertise a dynamic client registration endpoint'')), s1)
              else let authMethod = selectTokenEndpointAuthMethod supported;
                       s2 = s1\<lparr>sg_registered := sg_registered s1 @ [(registrationEndpoint, registration e authMethod)]\<rparr>
                in case si_register e k registrationEndpoint (registration e authMethod) of
                     Inl err \<Rightarrow> (Inl (wrapf ''failed to register OAuth client'' err), s2)
                   | Inr r \<Rightarrow>
                       (case on_oauth (storeClientCredentials (si_oauth e) (k + 1) (registered_client serverURL authMethod r)) s2 of
                          (Some err, s3) \<Rightarrow> (Inl (wrapf ''failed to store client credentials'' err), s3)
                        | (None, s3) \<Rightarrow> (Inr (registered_client serverURL authMethod r), s3))))
      in case static of
           Some sc \<Rightarrow>
             (if sc_ClientID sc \<noteq> []
              then (Inr (credentials0\<lparr>cc_ClientID := sc_ClientID sc, cc_ClientSecret := sc_ClientSecret sc, cc_ServerURL := serverURL\<rparr>), s)
              else dynamic)
         | None \<Rightarrow> dynamic)"

section \<open>Resolving the configuration of a sign-in\<close>

record resolvedOAuthConfig =
  rc_config :: oauth2_Config
  rc_issuer :: string
  rc_requireIss :: bool
  rc_authServerURL :: string
  rc_resource :: string
  rc_revocationEndpoint :: string
  rc_creds :: ClientCredentials

definition oauthConfigFromCredentials ::
  "sign_in_env \<Rightarrow> ClientCredentials \<Rightarrow> string \<Rightarrow> string \<Rightarrow> string list \<Rightarrow> oauth2_Config" where
  "oauthConfigFromCredentials e c authURL tokenURL scopes =
     \<lparr>o2_ClientID = cc_ClientID c, o2_ClientSecret = cc_ClientSecret c, o2_RedirectURL = si_callbackURL e, o2_Scopes = scopes,
      o2_AuthURL = authURL, o2_TokenURL = tokenURL, o2_InParams = (cc_ClientSecret c = [])\<rparr>"

record discovered =
  dv_authURL :: string
  dv_tokenURL :: string
  dv_authServerURL :: string
  dv_issuer :: string
  dv_requireIss :: bool
  dv_resource :: string
  dv_registration :: string
  dv_revocation :: string
  dv_scopes :: "string list"
  dv_methods :: "string list"

definition from_metadata :: "string \<Rightarrow> string \<Rightarrow> string list \<Rightarrow> AuthServerMeta \<Rightarrow> discovered" where
  "from_metadata authServerURL resource scopes m =
     \<lparr>dv_authURL = am_AuthorizationEndpoint m, dv_tokenURL = am_TokenEndpoint m, dv_authServerURL = authServerURL,
      dv_issuer = am_Issuer m, dv_requireIss = am_RequireIss m, dv_resource = resource,
      dv_registration = am_RegistrationEndpoint m, dv_revocation = am_RevocationEndpoint m,
      dv_scopes = (if scopes = [] then am_ScopesSupported m else scopes), dv_methods = am_TokenEndpointAuthMethodsSupported m\<rparr>"

definition conventional :: "string \<Rightarrow> string \<Rightarrow> string \<Rightarrow> string \<Rightarrow> string list \<Rightarrow> discovered" where
  "conventional host authServerURL issuer resource scopes =
     \<lparr>dv_authURL = host @ ''/authorize'', dv_tokenURL = host @ ''/token'', dv_authServerURL = authServerURL, dv_issuer = issuer,
      dv_requireIss = False, dv_resource = resource, dv_registration = [], dv_revocation = [], dv_scopes = scopes, dv_methods = []\<rparr>"

definition discover :: "sign_in_env \<Rightarrow> nat \<Rightarrow> string \<Rightarrow> string \<Rightarrow> parsed_url \<Rightarrow> discovered" where
  "discover e k serverURL metadataURL u =
     (let baseURL = pu_Scheme u @ ''://'' @ pu_Host u in
      case fetchProtectedResourceMetadata e k serverURL metadataURL of
        Inr prm \<Rightarrow>
          (let server = hd (pr_AuthorizationServers prm) in
           case fetchAuthorizationServerMetadata e (k + 3) server of
             Inr m \<Rightarrow> from_metadata server (pr_Resource prm) (pr_ScopesSupported prm) m
           | Inl _ \<Rightarrow> conventional (TrimSuffix server ''/'') server server (pr_Resource prm) (pr_ScopesSupported prm))
      | Inl _ \<Rightarrow>
          (case fetchAuthorizationServerMetadata e (k + 3) baseURL of
             Inr m \<Rightarrow> from_metadata baseURL serverURL [] m
           | Inl _ \<Rightarrow> conventional baseURL baseURL [] serverURL []))"

definition resolveOAuthConfig ::
  "sign_in_env \<Rightarrow> nat \<Rightarrow> string \<Rightarrow> string \<Rightarrow> StaticOAuthCredentials option \<Rightarrow> sign_in \<Rightarrow> resolvedOAuthConfig result \<times> sign_in" where
  "resolveOAuthConfig e k serverURL metadataURL static s =
     (case si_url e serverURL of
        None \<Rightarrow> (Inl (ErrorNew ''failed to parse server URL''), s)
      | Some u \<Rightarrow>
          (let d = discover e k serverURL metadataURL u in
           case loadOrCreateClientCredentials e (k + 20) (dv_authServerURL d) static (dv_registration d) (dv_methods d) s of
             (Inl err, s1) \<Rightarrow> (Inl (wrapf ''failed to get client credentials'' err), s1)
           | (Inr c, s1) \<Rightarrow>
               (Inr \<lparr>rc_config = oauthConfigFromCredentials e c (dv_authURL d) (dv_tokenURL d) (dv_scopes d),
                     rc_issuer = (if dv_issuer d = [] then dv_authServerURL d else dv_issuer d), rc_requireIss = dv_requireIss d,
                     rc_authServerURL = dv_authServerURL d, rc_resource = dv_resource d, rc_revocationEndpoint = dv_revocation d,
                     rc_creds = c\<rparr>, s1)))"

section \<open>Sessions\<close>

record OAuthSession =
  sn_UserID :: string
  sn_ServerID :: string
  sn_ServerURL :: string
  sn_ServerConfigID :: string
  sn_ServerMetadataURL :: string
  sn_CodeVerifier :: string
  sn_State :: string
  sn_StaticClientID :: string
  sn_Issuer :: string
  sn_RequireIss :: bool
  sn_AuthServerURL :: string
  sn_TokenEndpoint :: string
  sn_ResourceURL :: string
  sn_Scopes :: "string list"
  sn_ClientID :: string
  sn_AuthMethod :: string
  sn_RevocationEndpoint :: string

definition session0 :: OAuthSession where
  "session0 = \<lparr>sn_UserID = [], sn_ServerID = [], sn_ServerURL = [], sn_ServerConfigID = [], sn_ServerMetadataURL = [],
     sn_CodeVerifier = [], sn_State = [], sn_StaticClientID = [], sn_Issuer = [], sn_RequireIss = False, sn_AuthServerURL = [],
     sn_TokenEndpoint = [], sn_ResourceURL = [], sn_Scopes = [], sn_ClientID = [], sn_AuthMethod = [], sn_RevocationEndpoint = []\<rparr>"

definition encode_session :: "OAuthSession \<Rightarrow> json" where
  "encode_session n = JObj (e_string ''userID'' (sn_UserID n) @ e_string ''serverID'' (sn_ServerID n)
     @ e_string ''serverURL'' (sn_ServerURL n) @ e_string_omit ''serverConfigID'' (sn_ServerConfigID n)
     @ e_string ''serverMetadataURL'' (sn_ServerMetadataURL n) @ e_string ''codeVerifier'' (sn_CodeVerifier n)
     @ e_string ''state'' (sn_State n) @ e_string_omit ''staticClientID'' (sn_StaticClientID n)
     @ e_string_omit ''issuer'' (sn_Issuer n) @ e_bool_omit ''requireIss'' (sn_RequireIss n)
     @ e_string_omit ''authServerURL'' (sn_AuthServerURL n) @ e_string_omit ''tokenEndpoint'' (sn_TokenEndpoint n)
     @ e_string_omit ''resourceURL'' (sn_ResourceURL n) @ e_slice_omit ''scopes'' (\<lambda>s. JStr (json_text s)) (sn_Scopes n)
     @ e_string_omit ''clientID'' (sn_ClientID n) @ e_string_omit ''authMethod'' (sn_AuthMethod n)
     @ e_string_omit ''revocationEndpoint'' (sn_RevocationEndpoint n))"

definition fields_session :: "OAuthSession fields" where
  "fields_session =
     [(''userID'', d_string (\<lambda>s. sn_UserID_update (\<lambda>_. s))), (''serverID'', d_string (\<lambda>s. sn_ServerID_update (\<lambda>_. s))),
      (''serverURL'', d_string (\<lambda>s. sn_ServerURL_update (\<lambda>_. s))), (''serverConfigID'', d_string (\<lambda>s. sn_ServerConfigID_update (\<lambda>_. s))),
      (''serverMetadataURL'', d_string (\<lambda>s. sn_ServerMetadataURL_update (\<lambda>_. s))),
      (''codeVerifier'', d_string (\<lambda>s. sn_CodeVerifier_update (\<lambda>_. s))), (''state'', d_string (\<lambda>s. sn_State_update (\<lambda>_. s))),
      (''staticClientID'', d_string (\<lambda>s. sn_StaticClientID_update (\<lambda>_. s))), (''issuer'', d_string (\<lambda>s. sn_Issuer_update (\<lambda>_. s))),
      (''requireIss'', d_bool (\<lambda>b. sn_RequireIss_update (\<lambda>_. b))), (''authServerURL'', d_string (\<lambda>s. sn_AuthServerURL_update (\<lambda>_. s))),
      (''tokenEndpoint'', d_string (\<lambda>s. sn_TokenEndpoint_update (\<lambda>_. s))), (''resourceURL'', d_string (\<lambda>s. sn_ResourceURL_update (\<lambda>_. s))),
      (''scopes'', d_slice (\<lambda>xs. sn_Scopes_update (\<lambda>_. xs)) v_string), (''clientID'', d_string (\<lambda>s. sn_ClientID_update (\<lambda>_. s))),
      (''authMethod'', d_string (\<lambda>s. sn_AuthMethod_update (\<lambda>_. s))),
      (''revocationEndpoint'', d_string (\<lambda>s. sn_RevocationEndpoint_update (\<lambda>_. s)))]"

definition session_text :: "oauth_env \<Rightarrow> OAuthSession \<Rightarrow> string" where
  "session_text e n = js_print (oe_json e) (encode_session n)"

definition buildSessionKey :: "string \<Rightarrow> string \<Rightarrow> string" where
  "buildSessionKey userID state = ''oauth_session'' @ ''_'' @ userID @ ''_'' @ state"

definition loadSession :: "oauth_env \<Rightarrow> nat \<Rightarrow> string \<Rightarrow> string \<Rightarrow> oauth \<Rightarrow> OAuthSession option result \<times> oauth" where
  "loadSession e k userID state s =
     (case kv_read e k (buildSessionKey userID state) s of
        (Inl err, s') \<Rightarrow> (Inl (wrapf ''failed to retrieve OAuth session from KV store'' err), s')
      | (Inr raw, s') \<Rightarrow>
          (case Unmarshal e (decode_struct fields_session session0) raw of
             Inl err \<Rightarrow> (Inl (wrapf ''failed to retrieve OAuth session from KV store'' err), s')
           | Inr n \<Rightarrow>
               (Inr (if sn_UserID n = [] \<or> sn_ServerID n = [] \<or> sn_CodeVerifier n = [] then None else Some n), s')))"

definition storeSession :: "oauth_env \<Rightarrow> nat \<Rightarrow> OAuthSession \<Rightarrow> oauth \<Rightarrow> go_error option \<times> oauth" where
  "storeSession e k n s =
     (case kv_step e k (\<lambda>io. KVSet io (buildSessionKey (sn_UserID n) (sn_State n)) (session_text e n)) s of
        (Some err, s') \<Rightarrow> (Some (wrapf ''failed to store OAuth session'' err), s')
      | (None, s') \<Rightarrow> (None, s'))"

definition deleteSession :: "oauth_env \<Rightarrow> nat \<Rightarrow> string \<Rightarrow> string \<Rightarrow> oauth \<Rightarrow> go_error option \<times> oauth" where
  "deleteSession e k userID state s =
     (case kv_step e k (\<lambda>io. KVDelete io (buildSessionKey userID state)) s of
        (Some err, s') \<Rightarrow> (Some (wrapf ''failed to delete OAuth session'' err), s')
      | (None, s') \<Rightarrow> (None, s'))"

section \<open>Starting a sign-in\<close>

definition staticCredsClientID :: "StaticOAuthCredentials option \<Rightarrow> string" where
  "staticCredsClientID creds = (case creds of None \<Rightarrow> [] | Some sc \<Rightarrow> sc_ClientID sc)"

definition encode_pin :: "string \<Rightarrow> json" where
  "encode_pin issuer = JObj (e_string ''issuer'' issuer)"

definition read_pin :: "oauth_env \<Rightarrow> string \<Rightarrow> string result" where
  "read_pin e raw = Unmarshal e (decode_struct [(''issuer'', d_string (\<lambda>s _. s))] []) raw"

definition pin_key :: "oauth_env \<Rightarrow> string \<Rightarrow> string \<Rightarrow> string \<Rightarrow> string" where
  "pin_key e serverID clientID serverURL =
     ''mcp_oauth_issuer_pin_v1_'' @ take 32 (oe_sha256 e (serverID @ ''|'' @ clientID @ ''|'' @ serverURL))"

definition checkStaticCredsIssuerPin ::
  "oauth_env \<Rightarrow> nat \<Rightarrow> string \<Rightarrow> string \<Rightarrow> StaticOAuthCredentials option \<Rightarrow> string \<Rightarrow> oauth \<Rightarrow> go_error option \<times> oauth" where
  "checkStaticCredsIssuerPin e k serverID serverURL static issuer s =
     (let clientID = staticCredsClientID static; key = pin_key e serverID clientID serverURL in
      if clientID = [] then (None, s)
      else let (r, s1) = kv_read e k key s;
               pin = (case r of
                        Inr raw \<Rightarrow> read_pin e raw
                      | Inl err \<Rightarrow> (if IsKVNotFound err then Inr [] else Inl err))
        in case pin of
             Inl err \<Rightarrow> (Some (wrapf ''failed to load issuer pin'' err), s1)
           | Inr pinned \<Rightarrow>
               (if pinned = []
                then case kv_step e (k + 1) (\<lambda>io. KVCompareAndSet io key None (Some (js_print (oe_json e) (encode_pin issuer)))) s1 of
                       (Inl err, s2) \<Rightarrow> (Some (wrapf ''failed to store issuer pin'' err), s2)
                     | (Inr _, s2) \<Rightarrow> (None, s2)
                else if pinned \<noteq> issuer
                then (Some (ErrorNew (''authorization server issuer '' @ issuer @ '' does not match the issuer '' @ pinned)), s1)
                else (None, s1)))"

definition started_session ::
  "string \<Rightarrow> string \<Rightarrow> string \<Rightarrow> string \<Rightarrow> string \<Rightarrow> string \<Rightarrow> string \<Rightarrow> StaticOAuthCredentials option \<Rightarrow> string list
     \<Rightarrow> resolvedOAuthConfig \<Rightarrow> OAuthSession" where
  "started_session userID serverConfigID serverID serverURL metadataURL codeVerifier state static scopes rc =
     \<lparr>sn_UserID = userID, sn_ServerID = serverID, sn_ServerURL = serverURL, sn_ServerConfigID = serverConfigID,
      sn_ServerMetadataURL = metadataURL, sn_CodeVerifier = codeVerifier, sn_State = state,
      sn_StaticClientID = staticCredsClientID static, sn_Issuer = rc_issuer rc, sn_RequireIss = rc_requireIss rc,
      sn_AuthServerURL = rc_authServerURL rc, sn_TokenEndpoint = o2_TokenURL (rc_config rc), sn_ResourceURL = rc_resource rc,
      sn_Scopes = scopes, sn_ClientID = cc_ClientID (rc_creds rc), sn_AuthMethod = cc_TokenEndpointAuthMethod (rc_creds rc),
      sn_RevocationEndpoint = rc_revocationEndpoint rc\<rparr>"

text \<open>The store accesses of a sign-in start at moment \<open>k\<close> + 20.\<close>

definition initiateOAuthFlow ::
  "sign_in_env \<Rightarrow> nat \<Rightarrow> string \<Rightarrow> string \<Rightarrow> string \<Rightarrow> string \<Rightarrow> string \<Rightarrow> string \<Rightarrow> StaticOAuthCredentials option \<Rightarrow> sign_in
     \<Rightarrow> string result \<times> sign_in" where
  "initiateOAuthFlow e k userID serverConfigID serverID serverURL metadataURL challengeScope static s =
     (case oe_random (si_oauth e) k of
        Inl err \<Rightarrow> (Inl (wrapf ''failed to generate state'' err), s)
      | Inr state \<Rightarrow>
          (case resolveOAuthConfig e k serverURL metadataURL static s of
             (Inl err, s1) \<Rightarrow> (Inl (wrapf ''failed to create OAuth config'' err), s1)
           | (Inr rc, s1) \<Rightarrow>
               (let scopes = (if challengeScope = [] then o2_Scopes (rc_config rc) else Fields challengeScope);
                    codeVerifier = si_verifier e k;
                    authURL = si_authCodeURL e ((rc_config rc)\<lparr>o2_Scopes := scopes\<rparr>) state codeVerifier
                      [(''resource'', rc_resource rc)]
                in case on_oauth (checkStaticCredsIssuerPin (si_oauth e) (k + 22) serverID serverURL static (rc_issuer rc)) s1 of
                     (Some err, s2) \<Rightarrow> (Inl err, s2)
                   | (None, s2) \<Rightarrow>
                       (case on_oauth (storeSession (si_oauth e) (k + 24)
                               (started_session userID serverConfigID serverID serverURL metadataURL codeVerifier state static scopes rc)) s2 of
                          (Some err, s3) \<Rightarrow> (Inl (wrapf ''failed to store OAuth session'' err), s3)
                        | (None, s3) \<Rightarrow> (Inr authURL, s3)))))"

definition InitiateOAuthFlowForServerWithMetadata ::
  "sign_in_env \<Rightarrow> nat \<Rightarrow> string \<Rightarrow> MCPServerConfig \<Rightarrow> string \<Rightarrow> string \<Rightarrow> sign_in \<Rightarrow> string result \<times> sign_in" where
  "InitiateOAuthFlowForServerWithMetadata e k userID server metadataURL challengeScope =
     initiateOAuthFlow e k userID (ms_ID server) (ms_Name server) (ms_BaseURL server) metadataURL challengeScope (staticOAuthCreds server)"

definition InitiateOAuthFlowForServer ::
  "sign_in_env \<Rightarrow> nat \<Rightarrow> string \<Rightarrow> MCPServerConfig \<Rightarrow> sign_in \<Rightarrow> string result \<times> sign_in" where
  "InitiateOAuthFlowForServer e k userID server = InitiateOAuthFlowForServerWithMetadata e k userID server [] []"

section \<open>The callback\<close>

definition callbackOAuthConfig ::
  "sign_in_env \<Rightarrow> nat \<Rightarrow> OAuthSession \<Rightarrow> StaticOAuthCredentials option \<Rightarrow> sign_in
     \<Rightarrow> (oauth2_Config \<times> ClientCredentials) result \<times> sign_in" where
  "callbackOAuthConfig e k n static s =
     (let config = (\<lambda>c. (oauthConfigFromCredentials e c [] (sn_TokenEndpoint n) (sn_Scopes n), c));
          gone = ErrorNew ''the client registration this authorization was started with is no longer available; restart authorization'' in
      if staticCredsClientID static \<noteq> []
      then (if sn_ClientID n \<noteq> [] \<and> staticCredsClientID static \<noteq> sn_ClientID n
            then Inl (ErrorNew ''configured client ID no longer matches the client this authorization was started with; restart authorization'')
            else Inr (config (credentials0\<lparr>cc_ClientID := staticCredsClientID static,
                        cc_ClientSecret := (case static of None \<Rightarrow> [] | Some sc \<Rightarrow> sc_ClientSecret sc)\<rparr>)), s)
      else case on_oauth (loadClientCredentials (si_oauth e) k (sn_AuthServerURL n)) s of
             (Inl err, s1) \<Rightarrow> (Inl (wrapf ''failed to load client credentials'' err), s1)
           | (Inr None, s1) \<Rightarrow> (Inl gone, s1)
           | (Inr (Some c), s1) \<Rightarrow>
               (if sn_ClientID n \<noteq> [] \<and> cc_ClientID c \<noteq> sn_ClientID n then Inl gone else Inr (config c), s1))"

definition exchange_request :: "oauth2_Config \<Rightarrow> OAuthSession \<Rightarrow> string \<Rightarrow> code_exchange" where
  "exchange_request config n code =
     \<lparr>ce_config = config, ce_code = code, ce_verifier = sn_CodeVerifier n,
      ce_params = (if sn_ResourceURL n = [] then [] else [(''resource'', sn_ResourceURL n)])\<rparr>"

definition issued_envelope :: "oauth_env \<Rightarrow> OAuthSession \<Rightarrow> ClientCredentials \<Rightarrow> string \<Rightarrow> Token \<Rightarrow> storedTokenEnvelope" where
  "issued_envelope e n c serverConfigID t =
     \<lparr>te_Version = tokenEnvelopeVersion, te_Token = Some t, te_Issuer = sn_Issuer n, te_TokenEndpoint = sn_TokenEndpoint n,
      te_AuthServerURL = sn_AuthServerURL n, te_ClientID = cc_ClientID c, te_AuthMethod = cc_TokenEndpointAuthMethod c,
      te_Resource = sn_ResourceURL n, te_RevocationEndpoint = sn_RevocationEndpoint n,
      te_ServerOrigin = canonicalOriginFromString (oe_urls e) (sn_ServerURL n), te_ServerConfigID = serverConfigID\<rparr>"

text \<open>The server the session was started for, as it is configured now; without a lookup nothing is compared.\<close>

definition current_server :: "sign_in_env \<Rightarrow> nat \<Rightarrow> OAuthSession \<Rightarrow> (MCPServerConfig option \<times> string) result" where
  "current_server e k n =
     (case si_lookup e of
        None \<Rightarrow> Inr (None, sn_ServerConfigID n)
      | Some lookup \<Rightarrow>
          (case lookup k (sn_ServerID n) of
             None \<Rightarrow> Inl (ErrorNew ''the MCP server's configuration changed during sign-in; please sign in again'')
           | Some cfg \<Rightarrow>
               (if \<not> sameServerOrigin (oe_urls (si_oauth e)) (ms_BaseURL cfg) (sn_ServerURL n)
                   \<or> sn_ServerConfigID n \<noteq> [] \<and> ms_ID cfg \<noteq> [] \<and> ms_ID cfg \<noteq> sn_ServerConfigID n
                then Inl (ErrorNew ''the MCP server's configuration changed during sign-in; please sign in again'')
                else Inr (Some cfg, if sn_ServerConfigID n = [] then ms_ID cfg else sn_ServerConfigID n))))"

text \<open>The checks before the exchange; the result is the client and the identity to bind the grant to.\<close>

definition check_callback :: "sign_in_env \<Rightarrow> nat \<Rightarrow> string \<Rightarrow> string \<Rightarrow> string \<Rightarrow> OAuthSession \<Rightarrow> (MCPServerConfig option \<times> string) result" where
  "check_callback e k loggedInUserID state iss n =
     (if sn_State n = [] \<or> sn_State n \<noteq> state then Inl (ErrorNew ''state mismatch'')
      else if sn_UserID n \<noteq> loggedInUserID
      then Inl (ErrorNew (''user ID mismatch: expected '' @ sn_UserID n @ '', got '' @ loggedInUserID))
      else case current_server e k n of
             Inl err \<Rightarrow> Inl err
           | Inr cur \<Rightarrow>
               (if sn_TokenEndpoint n = [] \<or> sn_ClientID n = []
                then Inl (ErrorNew ''authorization session predates security binding and cannot be completed; please restart authorization'')
                else if iss \<noteq> [] \<and> iss \<noteq> sn_Issuer n
                then Inl (ErrorNew (''issuer mismatch in authorization response: got '' @ iss @ '', expected '' @ sn_Issuer n))
                else if iss = [] \<and> sn_RequireIss n
                then Inl (ErrorNew ''authorization response is missing the iss parameter required by the authorization server's metadata'')
                else Inr cur))"

definition deleteAuthNeededState :: "oauth_env \<Rightarrow> nat \<Rightarrow> string \<Rightarrow> string \<Rightarrow> oauth \<Rightarrow> go_error option \<times> oauth" where
  "deleteAuthNeededState e k userID serverID s =
     (case kv_step e k (\<lambda>io. KVDelete io (buildAuthNeededKey userID serverID)) s of
        (Some err, s') \<Rightarrow> (Some (wrapf ''failed to delete OAuth-needed state'' err), s')
      | (None, s') \<Rightarrow> (None, s'))"

definition finish_callback ::
  "sign_in_env \<Rightarrow> nat \<Rightarrow> string \<Rightarrow> string \<Rightarrow> OAuthSession \<Rightarrow> MCPServerConfig option \<times> string \<Rightarrow> sign_in \<Rightarrow> OAuthSession result \<times> sign_in" where
  "finish_callback e k loggedInUserID code n cur s =
     (let static = (if sn_StaticClientID n \<noteq> [] then Option.bind (fst cur) staticOAuthCreds else None) in
      case callbackOAuthConfig e k n static s of
        (Inl err, s1) \<Rightarrow> (Inl (wrapf ''failed to create OAuth config'' err), s1)
      | (Inr (config, c), s1) \<Rightarrow>
          (let req = exchange_request config n code; s2 = s1\<lparr>sg_exchanged := sg_exchanged s1 @ [req]\<rparr> in
           case si_exchange e k req of
             Inl err \<Rightarrow> (Inl (wrapf ''failed to exchange code for token'' err), s2)
           | Inr t \<Rightarrow>
               (case on_oauth (storeTokenEnvelope (si_oauth e) (k + 1) loggedInUserID (sn_ServerID n)
                       (issued_envelope (si_oauth e) n c (snd cur) t)) s2 of
                  (Some err, s3) \<Rightarrow> (Inl (wrapf ''failed to save token'' err), s3)
                | (None, s3) \<Rightarrow>
                    (Inr n, snd (on_oauth (deleteAuthNeededState (si_oauth e) (k + 2) loggedInUserID (sn_ServerID n)) s3)))))"

text \<open>
  A session that loads as absent is dereferenced: the callback panics, after its deferred deletion.
\<close>

datatype callback = Panics | Finishes "OAuthSession result"

definition ProcessCallback ::
  "sign_in_env \<Rightarrow> nat \<Rightarrow> string \<Rightarrow> string \<Rightarrow> string \<Rightarrow> string \<Rightarrow> sign_in \<Rightarrow> callback \<times> sign_in" where
  "ProcessCallback e k loggedInUserID state code iss s =
     (let del = (\<lambda>s. snd (on_oauth (deleteSession (si_oauth e) (k + 5) loggedInUserID state) s)) in
      case on_oauth (loadSession (si_oauth e) k loggedInUserID state) s of
        (Inl err, s1) \<Rightarrow> (Finishes (Inl (wrapf ''invalid or expired session'' err)), s1)
      | (Inr None, s1) \<Rightarrow> (Panics, del s1)
      | (Inr (Some n), s1) \<Rightarrow>
          (case check_callback e (k + 1) loggedInUserID state iss n of
             Inl err \<Rightarrow> (Finishes (Inl err), del s1)
           | Inr cur \<Rightarrow> (let (r, s2) = finish_callback e (k + 2) loggedInUserID code n cur s1 in (Finishes r, del s2))))"

section \<open>Signing out\<close>

definition revocationCredentials ::
  "sign_in_env \<Rightarrow> nat \<Rightarrow> storedTokenEnvelope \<Rightarrow> string \<Rightarrow> oauth \<Rightarrow> ClientCredentials result \<times> oauth" where
  "revocationCredentials e k env serverID s =
     (let pinned = credentials0\<lparr>cc_ClientID := te_ClientID env, cc_TokenEndpointAuthMethod := te_AuthMethod env\<rparr>;
          static = Option.bind (Option.bind (si_lookup e) (\<lambda>lookup. lookup k serverID)) staticOAuthCreds in
      if static \<noteq> None \<and> staticCredsClientID static \<noteq> [] \<and> staticCredsClientID static = te_ClientID env
      then (Inr (pinned\<lparr>cc_ClientSecret := sc_ClientSecret (the static)\<rparr>), s)
      else case loadClientCredentials (si_oauth e) k (te_AuthServerURL env) s of
             (Inl err, s') \<Rightarrow> (Inl err, s')
           | (Inr (Some c), s') \<Rightarrow> (Inr c, s')
           | (Inr None, s') \<Rightarrow>
               (if te_ClientID env = [] then Inl (ErrorNew ''no client credentials available for revocation'') else Inr pinned, s'))"

definition revocation_request :: "oauth_env \<Rightarrow> storedTokenEnvelope \<Rightarrow> ClientCredentials \<Rightarrow> http_request" where
  "revocation_request e env c =
     (let method = hd (refreshAuthMethods (te_AuthMethod env) (cc_ClientSecret c));
          access = (case te_Token env of None \<Rightarrow> [] | Some t \<Rightarrow> tk_AccessToken t);
          (tok, hint) = (if refresh_token env \<noteq> [] then (refresh_token env, ''refresh_token'') else (access, ''access_token''))
      in \<lparr>hr_URL = te_RevocationEndpoint env, hr_form = [(''token'', tok), (''token_type_hint'', hint)] @ client_params c method,
          hr_basic = client_basic e c method\<rparr>)"

definition revokeGrant :: "sign_in_env \<Rightarrow> nat \<Rightarrow> storedTokenEnvelope \<Rightarrow> ClientCredentials \<Rightarrow> oauth \<Rightarrow> go_error option \<times> oauth" where
  "revokeGrant e k env c s =
     (if te_Token env = None \<or> te_RevocationEndpoint env = [] then (None, s)
      else case checkHTTPSOrLoopbackURL e (te_RevocationEndpoint env) of
             Some err \<Rightarrow> (Some (wrapf ''refusing to use revocation endpoint'' err), s)
           | None \<Rightarrow>
               (if refresh_token env = [] \<and> \<not> usable_token (te_Token env) then (None, s)
                else let (answer, s') = send_form (si_oauth e) k (revocation_request (si_oauth e) env c) s
                  in (case answer of
                        NoAnswer err \<Rightarrow> Some (wrapf ''revocation request failed'' err)
                      | Answer status _ \<Rightarrow>
                          (if status < 200 \<or> status \<ge> 300 then Some (ErrorNew ''revocation endpoint returned HTTP error'') else None), s')))"

definition revokeGrantBeforeDelete :: "sign_in_env \<Rightarrow> nat \<Rightarrow> string \<Rightarrow> string \<Rightarrow> oauth \<Rightarrow> oauth" where
  "revokeGrantBeforeDelete e k userID serverID s =
     (case loadTokenEnvelope (si_oauth e) k userID serverID s of
        (Inr (Some env, _), s1) \<Rightarrow>
          (if te_RevocationEndpoint env = [] \<or> te_Token env = None then s1
           else case revocationCredentials e (k + 1) env serverID s1 of
                  (Inl _, s2) \<Rightarrow> s2
                | (Inr c, s2) \<Rightarrow> snd (revokeGrant e (k + 2) env c s2))
      | (_, s1) \<Rightarrow> s1)"

definition deleteToken :: "oauth_env \<Rightarrow> nat \<Rightarrow> string \<Rightarrow> string \<Rightarrow> oauth \<Rightarrow> go_error option \<times> oauth" where
  "deleteToken e k userID serverID s =
     (case kv_step e k (\<lambda>io. KVDelete io (buildTokenKey userID serverID)) s of
        (Some err, s') \<Rightarrow> (Some (wrapf ''failed to delete token from KV store'' err), s')
      | (None, s') \<Rightarrow> (None, s'))"

definition DeleteUserToken :: "sign_in_env \<Rightarrow> nat \<Rightarrow> string \<Rightarrow> string \<Rightarrow> oauth \<Rightarrow> go_error list \<times> oauth" where
  "DeleteUserToken e k userID serverID s =
     (let s1 = revokeGrantBeforeDelete e k userID serverID s;
          (tokenErr, s2) = deleteToken (si_oauth e) (k + 3) userID serverID s1;
          (neededErr, s3) = deleteAuthNeededState (si_oauth e) (k + 4) userID serverID s2
      in (List.map_filter id [tokenErr, neededErr], s3))"

section \<open>The server a document speaks for\<close>

text \<open>What \<open>oauthex\<close> documents: metadata it returns declares the issuer it was asked for.\<close>

definition strict_metadata :: "sign_in_env \<Rightarrow> bool" where
  "strict_metadata e \<longleftrightarrow> (\<forall>k metadataURL issuer asm. si_getASM e k metadataURL issuer = Inr (Some asm) \<longrightarrow> issuers_equal (am_Issuer asm) issuer)"

lemma lenient_metadata_issuer:
  assumes "lenient_metadata e k metadataURL issuer = Inr asm"
  shows "issuers_equal (am_Issuer asm) issuer"
  using assms by (auto simp: lenient_metadata_def validateLenientAuthServerMeta_def split: sum.splits option.splits if_splits)

text \<open>The issuer another document declared, over a safe channel.\<close>

definition declared_by :: "sign_in_env \<Rightarrow> string \<Rightarrow> string \<Rightarrow> bool" where
  "declared_by e issuer declared \<longleftrightarrow>
     list_ex (\<lambda>u. \<exists>k asm. fetchJSONLenient e k u = Inr asm \<and> am_Issuer asm = declared) (authServerMetadataURLs e issuer)
     \<and> declared \<noteq> [] \<and> checkHTTPSOrLoopbackURL e declared = None"

lemma asm_walk_issuer:
  assumes "asm_walk e follow k issuer urls = Inr asm" "strict_metadata e"
  shows "issuers_equal (am_Issuer asm) issuer \<or> (\<exists>f j u. follow = Some f \<and> u \<in> set urls \<and> f j u issuer = Inr asm)"
  using assms
proof (induction e follow k issuer urls rule: asm_walk.induct)
  case (2 e follow k issuer u us)
  consider "si_getASM e k u issuer = Inr None" | asm' where "si_getASM e k u issuer = Inr (Some asm')"
    | err where "si_getASM e k u issuer = Inl err"
    by (metis option.exhaust sum.exhaust)
  then show ?case
  proof cases
    case 1
    then show ?thesis using 2(1) [OF 1 refl] 2(2,3) by auto
  next
    case 2
    then show ?thesis using "2.prems" by (auto simp: strict_metadata_def)
  next
    case 3
    then show ?thesis
      using "2.prems"(1) lenient_metadata_issuer [of e "k + 1" u issuer asm]
      by (auto split: if_splits option.splits simp: map_sum_def split: sum.splits)
  qed
qed simp

lemma followDeclaredIssuer_issuer:
  assumes "strict_metadata e" "followDeclaredIssuer e j u issuer = Inr asm" "u \<in> set (authServerMetadataURLs e issuer)"
  shows "\<exists>declared. declared_by e issuer declared \<and> \<not> issuers_equal declared issuer \<and> issuers_equal (am_Issuer asm) declared"
proof -
  obtain doc where doc: "fetchJSONLenient e j u = Inr doc" "am_Issuer doc \<noteq> []" "\<not> issuers_equal (am_Issuer doc) issuer"
    "checkHTTPSOrLoopbackURL e (am_Issuer doc) = None" "asm_hop e None (j + 6) (am_Issuer doc) = Inr asm"
    using assms(2) by (auto simp: followDeclaredIssuer_def split: sum.splits if_splits option.splits)
  then have "issuers_equal (am_Issuer asm) (am_Issuer doc)"
    using asm_walk_issuer assms(1) by (fastforce simp: asm_hop_def split: if_splits)
  then show ?thesis using doc assms(3) by (auto simp: declared_by_def list_ex_iff)
qed

text \<open>
  The metadata a sign-in follows speaks for the issuer it was looked up for, or for the one that
  issuer's own document declares over a safe channel; a declaration is followed once.
\<close>

theorem metadata_from_issuer:
  assumes "strict_metadata e" "fetchAuthorizationServerMetadata e k issuer = Inr asm"
  shows "issuers_equal (am_Issuer asm) issuer
    \<or> (\<exists>declared. declared_by e issuer declared \<and> \<not> issuers_equal declared issuer \<and> issuers_equal (am_Issuer asm) declared)"
  using assms(2) asm_walk_issuer [OF _ assms(1)] followDeclaredIssuer_issuer [OF assms(1)]
  by (fastforce simp: fetchAuthorizationServerMetadata_def asm_hop_def split: if_splits)

section \<open>What a callback exchanges\<close>

lemma on_oauth_frame:
  assumes "on_oauth f s = (r, s')"
  shows "sg_exchanged s' = sg_exchanged s" "sg_registered s' = sg_registered s" "f (sg_oauth s) = (r, sg_oauth s')"
  using assms by (auto simp: on_oauth_def split: prod.splits)

lemma on_oauth_exchanged [simp]: "sg_exchanged (snd (on_oauth f s)) = sg_exchanged s"
  by (simp add: on_oauth_def split: prod.split)

definition pinned_exchange :: "OAuthSession \<Rightarrow> string \<Rightarrow> code_exchange \<Rightarrow> bool" where
  "pinned_exchange n code q \<longleftrightarrow>
     o2_TokenURL (ce_config q) = sn_TokenEndpoint n \<and> o2_ClientID (ce_config q) = sn_ClientID n
     \<and> ce_code q = code \<and> ce_verifier q = sn_CodeVerifier n
     \<and> ce_params q = (if sn_ResourceURL n = [] then [] else [(''resource'', sn_ResourceURL n)])"

lemma callbackOAuthConfig_client:
  assumes "callbackOAuthConfig e k n static s = (Inr (config, c), s')" "sn_ClientID n \<noteq> []"
  shows "cc_ClientID c = sn_ClientID n" "config = oauthConfigFromCredentials e c [] (sn_TokenEndpoint n) (sn_Scopes n)"
  using assms by (auto simp: callbackOAuthConfig_def Let_def credentials0_def split: if_splits prod.splits sum.splits option.splits)

lemma callbackOAuthConfig_exchanged: "sg_exchanged (snd (callbackOAuthConfig e k n static s)) = sg_exchanged s"
  by (auto simp: callbackOAuthConfig_def Let_def dest: on_oauth_frame split: prod.splits sum.splits option.splits)

lemma finish_callback_exchanged:
  assumes "finish_callback e k u code n cur s = (r, s')" "sn_ClientID n \<noteq> []"
  shows "\<exists>reqs. sg_exchanged s' = sg_exchanged s @ reqs \<and> length reqs \<le> 1 \<and> list_all (pinned_exchange n code) reqs"
proof -
  let ?static = "if sn_StaticClientID n \<noteq> [] then Option.bind (fst cur) staticOAuthCreds else None"
  obtain c s1 where c: "callbackOAuthConfig e k n ?static s = (c, s1)" by fastforce
  have s1: "sg_exchanged s1 = sg_exchanged s" using callbackOAuthConfig_exchanged [of e k n ?static s] c by simp
  show ?thesis
  proof (cases c)
    case (Inl err)
    then show ?thesis using assms(1) c s1 by (auto simp: finish_callback_def Let_def)
  next
    case (Inr cc)
    obtain config creds where cc: "cc = (config, creds)" by fastforce
    have "pinned_exchange n code (exchange_request config n code)"
      using callbackOAuthConfig_client [OF c [unfolded Inr cc] assms(2)]
      by (simp add: pinned_exchange_def exchange_request_def oauthConfigFromCredentials_def)
    moreover have "sg_exchanged s' = sg_exchanged s1 @ [exchange_request config n code]"
      using assms(1) c Inr cc
      by (auto simp: finish_callback_def Let_def dest: on_oauth_frame split: sum.splits prod.splits option.splits)
    ultimately show ?thesis using s1 by simp
  qed
qed

text \<open>The session may be completed: by its user, with its state and issuer, for a server that is still the same.\<close>

definition session_matches :: "sign_in_env \<Rightarrow> nat \<Rightarrow> string \<Rightarrow> string \<Rightarrow> string \<Rightarrow> OAuthSession \<Rightarrow> bool" where
  "session_matches e k u state iss n \<longleftrightarrow>
     sn_UserID n = u \<and> sn_State n = state \<and> state \<noteq> [] \<and> sn_TokenEndpoint n \<noteq> [] \<and> sn_ClientID n \<noteq> []
     \<and> (if iss = [] then \<not> sn_RequireIss n else iss = sn_Issuer n)
     \<and> (case si_lookup e of
          None \<Rightarrow> True
        | Some lookup \<Rightarrow>
            (case lookup k (sn_ServerID n) of
               None \<Rightarrow> False
             | Some cfg \<Rightarrow> sameServerOrigin (oe_urls (si_oauth e)) (ms_BaseURL cfg) (sn_ServerURL n)
                 \<and> (sn_ServerConfigID n = [] \<or> ms_ID cfg = [] \<or> ms_ID cfg = sn_ServerConfigID n)))"

lemma check_callback_matches: "check_callback e k u state iss n = Inr cur \<Longrightarrow> session_matches e k u state iss n"
  by (auto simp: check_callback_def session_matches_def current_server_def split: if_splits sum.splits option.splits)

text \<open>
  C14: a callback exchanges the code at most once, and only for a stored session of the logged-in user with
  that state, whose issuer is the one that answered and whose server is still configured at its origin;
  the code, the verifier and the client go to the token endpoint the session was started with.
\<close>

theorem callback_exchange_pinned:
  "\<exists>reqs. sg_exchanged (snd (ProcessCallback e k u state code iss s)) = sg_exchanged s @ reqs \<and> length reqs \<le> 1
    \<and> (reqs = []
       \<or> (case fst (loadSession (si_oauth e) k u state (sg_oauth s)) of
            Inr (Some n) \<Rightarrow> session_matches e (k + 1) u state iss n \<and> list_all (pinned_exchange n code) reqs
          | _ \<Rightarrow> False))"
proof -
  obtain l s1 where l: "on_oauth (loadSession (si_oauth e) k u state) s = (l, s1)" by fastforce
  note fr = on_oauth_frame [OF l]
  show ?thesis
  proof (cases "\<exists>n cur. l = Inr (Some n) \<and> check_callback e (k + 1) u state iss n = Inr cur")
    case True
    then obtain n cur where n: "l = Inr (Some n)" "check_callback e (k + 1) u state iss n = Inr cur" by blast
    note m = check_callback_matches [OF n(2)]
    obtain r s2 where f: "finish_callback e (k + 2) u code n cur s1 = (r, s2)" by fastforce
    have "sn_ClientID n \<noteq> []" using m by (simp add: session_matches_def)
    then obtain reqs where "sg_exchanged s2 = sg_exchanged s1 @ reqs" "length reqs \<le> 1" "list_all (pinned_exchange n code) reqs"
      using finish_callback_exchanged [OF f] by blast
    then show ?thesis using l n f m fr by (intro exI [of _ reqs]) (simp add: ProcessCallback_def Let_def)
  next
    case False
    then have "sg_exchanged (snd (ProcessCallback e k u state code iss s)) = sg_exchanged s"
      using l fr(1) by (auto simp: ProcessCallback_def Let_def split: sum.splits option.splits)
    then show ?thesis by simp
  qed
qed

section \<open>A session serves once\<close>

lemma quiet_read:
  "quiet e \<Longrightarrow> kv_read e k key s = (case os_kv s key of None \<Rightarrow> Inl ErrKVNotFound | Some raw \<Rightarrow> if raw = [] then Inl ErrKVNotFound else Inr raw, s)"
  by (simp add: kv_read_def KVGet_def split: option.split)

lemma quiet_delete:
  "quiet e \<Longrightarrow> kv_step e k (\<lambda>io. KVDelete io key) s = (None, s\<lparr>os_kv := (os_kv s)(key := None)\<rparr>)"
  by (simp add: KVDelete_def run_kv_def)

lemma quiet_set:
  "quiet e \<Longrightarrow> kv_step e k (\<lambda>io. KVSet io key v) s = (None, s\<lparr>os_kv := (os_kv s)(key \<mapsto> v)\<rparr>)"
  by (simp add: KVSet_def run_kv_def)

lemma quiet_loadSession:
  assumes "quiet e"
  shows "loadSession e k u state s = (fst (loadSession e 0 u state s), s)"
  using assms by (auto simp: loadSession_def quiet_read split: option.split sum.split)

lemma quiet_deleteSession:
  "quiet (si_oauth e) \<Longrightarrow> sg_oauth (snd (on_oauth (deleteSession (si_oauth e) k u state) s))
     = (sg_oauth s)\<lparr>os_kv := (os_kv (sg_oauth s))(buildSessionKey u state := None)\<rparr>"
  by (simp add: on_oauth_def deleteSession_def quiet_delete del: quiet_simps)

lemma ProcessCallback_deletes:
  assumes "fst (loadSession (si_oauth e) k u state (sg_oauth s)) = Inr x"
  obtains t where "snd (ProcessCallback e k u state code iss s) = snd (on_oauth (deleteSession (si_oauth e) (k + 5) u state) t)"
proof -
  obtain s1 where l: "on_oauth (loadSession (si_oauth e) k u state) s = (Inr x, s1)"
    using assms by (cases "loadSession (si_oauth e) k u state (sg_oauth s)") (simp add: on_oauth_def)
  show thesis
  proof (cases x)
    case None
    then show thesis using l that [of s1] by (simp add: ProcessCallback_def Let_def)
  next
    case (Some n)
    show thesis
    proof (cases "check_callback e (k + 1) u state iss n")
      case (Inl err)
      then show thesis using l Some that [of s1] by (simp add: ProcessCallback_def Let_def)
    next
      case (Inr cur)
      then show thesis using l Some that [of "snd (finish_callback e (k + 2) u code n cur s1)"]
        by (simp add: ProcessCallback_def Let_def split: prod.split)
    qed
  qed
qed


section \<open>The grant a callback stores\<close>

text \<open>The origin of this URL is its own canonical form.\<close>

definition stable_origin :: "url_env \<Rightarrow> string \<Rightarrow> bool" where
  "stable_origin urls url \<longleftrightarrow>
     (let origin = canonicalOriginFromString urls url in
      origin \<noteq> [] \<and> ur_lower urls origin \<noteq> [] \<and> canonicalOriginFromString urls origin = origin)"

lemma issued_envelope_bound:
  assumes "stable_origin (oe_urls e) (sn_ServerURL n)" "sameServerOrigin (oe_urls e) (ms_BaseURL cfg) (sn_ServerURL n)"
    and "ms_ID cfg = [] \<or> configID = ms_ID cfg" "tk_AccessToken t \<noteq> []"
  shows "bound_grant e cfg (issued_envelope e n c configID t)"
  using assms
  by (auto simp: bound_grant_def issued_envelope_def usable_token_def stable_origin_def sameServerOrigin_def originChanged_def Let_def
      split: if_splits)

lemma current_server_cfg:
  assumes "current_server e k n = Inr (cfg, configID)" "si_lookup e = Some lookup"
  obtains server where "cfg = Some server" "lookup k (sn_ServerID n) = Some server"
    "sameServerOrigin (oe_urls (si_oauth e)) (ms_BaseURL server) (sn_ServerURL n)"
    "ms_ID server = [] \<or> configID = ms_ID server"
proof -
  obtain server where l: "lookup k (sn_ServerID n) = Some server"
    using assms by (cases "lookup k (sn_ServerID n)") (auto simp: current_server_def)
  show thesis using assms l by (intro that [of server]) (auto simp: current_server_def split: if_splits)
qed


section \<open>Which callbacks complete\<close>

lemma check_callback_iff: "(\<exists>cur. check_callback e k u state iss n = Inr cur) \<longleftrightarrow> session_matches e k u state iss n"
proof
  assume m: "session_matches e k u state iss n"
  have "\<exists>cur. current_server e k n = Inr cur"
  proof (cases "si_lookup e")
    case (Some lookup)
    then obtain cfg where "lookup k (sn_ServerID n) = Some cfg" using m by (cases "lookup k (sn_ServerID n)") (simp_all add: session_matches_def)
    then show ?thesis using m Some by (auto simp: session_matches_def current_server_def)
  qed (simp add: current_server_def)
  then obtain cur where cur: "current_server e k n = Inr cur" by blast
  have f: "sn_UserID n = u" "sn_State n = state" "state \<noteq> []" "sn_TokenEndpoint n \<noteq> []" "sn_ClientID n \<noteq> []"
    "if iss = [] then \<not> sn_RequireIss n else iss = sn_Issuer n"
    using m unfolding session_matches_def by blast+
  show "\<exists>cur. check_callback e k u state iss n = Inr cur"
    using f by (cases "iss = []") (simp_all add: check_callback_def cur)
qed (auto dest: check_callback_matches)

text \<open>The static credentials a callback uses.\<close>

definition callback_static :: "sign_in_env \<Rightarrow> nat \<Rightarrow> OAuthSession \<Rightarrow> StaticOAuthCredentials option" where
  "callback_static e k n =
     (if sn_StaticClientID n = [] then None
      else Option.bind (Option.bind (si_lookup e) (\<lambda>lookup. lookup k (sn_ServerID n))) staticOAuthCreds)"

lemma check_callback_static:
  assumes "check_callback e k u state iss n = Inr cur"
  shows "(if sn_StaticClientID n \<noteq> [] then Option.bind (fst cur) staticOAuthCreds else None) = callback_static e k n"
  using assms by (auto simp: check_callback_def callback_static_def current_server_def split: if_splits sum.splits option.splits)

lemma callback_completes:
  assumes "quiet (si_oauth e)" "loadSession (si_oauth e) k u state (sg_oauth s) = (Inr (Some n), sg_oauth s)"
    and "callbackOAuthConfig e (k + 2) n (callback_static e (k + 1) n) s = (Inr (config, c), s1)"
    and "si_exchange e (k + 2) (exchange_request config n code) = Inr t" "session_matches e (k + 1) u state iss n"
  shows "fst (ProcessCallback e k u state code iss s) = Finishes (Inr n)"
proof -
  obtain cur where cur: "check_callback e (k + 1) u state iss n = Inr cur" using assms(5) check_callback_iff by blast
  have "fst (finish_callback e (k + 2) u code n cur s) = Inr n"
    using assms(1,3,4) unfolding finish_callback_def check_callback_static [OF cur]
    by (simp add: Let_def on_oauth_def storeTokenEnvelope_def quiet_set del: quiet_simps split: prod.split)
  then show ?thesis using cur assms(2) by (auto simp: ProcessCallback_def on_oauth_def Let_def split: prod.split)
qed

text \<open>
  When the client of a stored session is still available and the code is redeemed, the callback
  completes exactly if the session is the user's, has this state and issuer and its server is unchanged.
\<close>

theorem callback_completes_iff:
  assumes "quiet (si_oauth e)" "loadSession (si_oauth e) k u state (sg_oauth s) = (Inr (Some n), sg_oauth s)"
    and "callbackOAuthConfig e (k + 2) n (callback_static e (k + 1) n) s = (Inr (config, c), s1)"
    and "si_exchange e (k + 2) (exchange_request config n code) = Inr t"
  shows "fst (ProcessCallback e k u state code iss s) = Finishes (Inr n) \<longleftrightarrow> session_matches e (k + 1) u state iss n"
proof (cases "check_callback e (k + 1) u state iss n")
  case (Inl err)
  then have "\<not> session_matches e (k + 1) u state iss n" using check_callback_iff [of e "k + 1" u state iss n] by simp
  then show ?thesis using Inl assms(2) by (simp add: ProcessCallback_def on_oauth_def Let_def)
next
  case (Inr cur)
  then show ?thesis using callback_completes [OF assms check_callback_matches [OF Inr]] check_callback_matches [OF Inr] by blast
qed

section \<open>Static clients\<close>

text \<open>
  Once the issuer of a static client is pinned, a sign-in is started for that issuer only: the
  session it stores names it.
\<close>

theorem static_client_keeps_issuer:
  assumes "initiateOAuthFlow e k u configID serverID serverURL metadataURL scope (Some sc) s = (Inr authURL, s')"
    and "quiet (si_oauth e)" "sc_ClientID sc \<noteq> []" "pinned \<noteq> []" "raw \<noteq> []" "read_pin (si_oauth e) raw = Inr pinned"
    and "os_kv (sg_oauth s) (pin_key (si_oauth e) serverID (sc_ClientID sc) serverURL) = Some raw"
  shows "\<exists>state n. oe_random (si_oauth e) k = Inr state \<and> sn_Issuer n = pinned \<and> sn_ClientID n = sc_ClientID sc
    \<and> os_kv (sg_oauth s') (buildSessionKey u state) = Some (session_text (si_oauth e) n)"
proof -
  obtain state where st: "oe_random (si_oauth e) k = Inr state" using assms(1) by (auto simp: initiateOAuthFlow_def split: sum.splits)
  obtain rc s1 where rc: "resolveOAuthConfig e k serverURL metadataURL (Some sc) s = (Inr rc, s1)"
    using assms(1) st by (auto simp: initiateOAuthFlow_def split: sum.splits prod.splits)
  have s1: "s1 = s" "cc_ClientID (rc_creds rc) = sc_ClientID sc"
    using rc assms(3) by (auto simp: resolveOAuthConfig_def loadOrCreateClientCredentials_def Let_def credentials0_def
        split: option.splits prod.splits sum.splits)
  let ?oe = "si_oauth e"
  have pin: "checkStaticCredsIssuerPin ?oe (k + 22) serverID serverURL (Some sc) (rc_issuer rc) (sg_oauth s)
      = (if pinned \<noteq> rc_issuer rc then Some (ErrorNew (''authorization server issuer '' @ rc_issuer rc
            @ '' does not match the issuer '' @ pinned)) else None, sg_oauth s)"
    using assms(2-7) by (simp add: checkStaticCredsIssuerPin_def staticCredsClientID_def Let_def quiet_read del: quiet_simps)
  then have eq: "rc_issuer rc = pinned"
    using assms(1) st rc s1(1) by (auto simp: initiateOAuthFlow_def Let_def on_oauth_def split: if_splits)
  let ?scopes = "if scope = [] then o2_Scopes (rc_config rc) else Fields scope"
  let ?n = "started_session u configID serverID serverURL metadataURL (si_verifier e k) state (Some sc) ?scopes rc"
  have "on_oauth (checkStaticCredsIssuerPin ?oe (k + 22) serverID serverURL (Some sc) (rc_issuer rc)) s = (None, s)"
    using pin eq by (simp add: on_oauth_def)
  then have "s' = snd (on_oauth (storeSession ?oe (k + 24) ?n) s)"
    using assms(1) st rc s1(1) by (auto simp: initiateOAuthFlow_def Let_def split: prod.splits option.splits)
  then have "os_kv (sg_oauth s') (buildSessionKey u state) = Some (session_text ?oe ?n)"
    using assms(2) by (simp add: on_oauth_def storeSession_def quiet_set started_session_def del: quiet_simps)
  then show ?thesis using st eq s1(2) by (intro exI [of _ state] exI [of _ ?n]) (simp add: started_session_def)
qed

section \<open>Disconnecting\<close>

lemma revocationCredentials_sent: "os_sent (snd (revocationCredentials e k env serverID s)) = os_sent s"
  by (auto simp: revocationCredentials_def loadClientCredentials_def kv_read_def Let_def split: prod.splits sum.splits option.splits
      dest: kv_step_sentD)

text \<open>A request that only revokes this grant, at the endpoint it was issued with.\<close>

definition revokes :: "sign_in_env \<Rightarrow> storedTokenEnvelope \<Rightarrow> http_request \<Rightarrow> bool" where
  "revokes e env q \<longleftrightarrow>
     hr_URL q = te_RevocationEndpoint env \<and> te_RevocationEndpoint env \<noteq> []
     \<and> checkHTTPSOrLoopbackURL e (te_RevocationEndpoint env) = None
     \<and> (''token'', if refresh_token env \<noteq> [] then refresh_token env else (case te_Token env of None \<Rightarrow> [] | Some t \<Rightarrow> tk_AccessToken t))
       \<in> set (hr_form q)"

lemma revokeGrantBeforeDelete_sent:
  "\<exists>reqs. os_sent (revokeGrantBeforeDelete e k u serverID s) = os_sent s @ reqs \<and> length reqs \<le> 1
    \<and> (reqs = [] \<or> (case fst (loadTokenEnvelope (si_oauth e) k u serverID s) of
         Inr (Some env, _) \<Rightarrow> list_all (revokes e env) reqs | _ \<Rightarrow> False))"
proof -
  obtain l s1 where l: "loadTokenEnvelope (si_oauth e) k u serverID s = (l, s1)" by fastforce
  have s1: "os_sent s1 = os_sent s" using loadTokenEnvelope_sent [of "si_oauth e" k u serverID s] l by simp
  show ?thesis
  proof (cases "\<exists>env raw c s2. l = Inr (Some env, raw) \<and> te_RevocationEndpoint env \<noteq> [] \<and> te_Token env \<noteq> None
      \<and> revocationCredentials e (k + 1) env serverID s1 = (Inr c, s2)")
    case True
    then obtain env raw c s2 where c: "l = Inr (Some env, raw)" "te_RevocationEndpoint env \<noteq> []" "te_Token env \<noteq> None"
      "revocationCredentials e (k + 1) env serverID s1 = (Inr c, s2)" by blast
    have s2: "os_sent s2 = os_sent s" using revocationCredentials_sent [of e "k + 1" env serverID s1] c(4) s1 by simp
    have run: "revokeGrantBeforeDelete e k u serverID s = snd (revokeGrant e (k + 2) env c s2)"
      using l c by (auto simp: revokeGrantBeforeDelete_def)
    show ?thesis
    proof (cases "checkHTTPSOrLoopbackURL e (te_RevocationEndpoint env) = None \<and> \<not> (refresh_token env = [] \<and> \<not> usable_token (te_Token env))")
      case True
      have "revokes e env (revocation_request (si_oauth e) env c)"
        using True c(2) by (auto simp: revokes_def revocation_request_def Let_def)
      moreover have "os_sent (snd (revokeGrant e (k + 2) env c s2)) = os_sent s @ [revocation_request (si_oauth e) env c]"
        using True c(2,3) s2 by (simp add: revokeGrant_def send_form_def split: prod.split)
      ultimately show ?thesis using l c(1) run by (intro exI [of _ "[revocation_request (si_oauth e) env c]"]) simp
    next
      case False
      then have "os_sent (snd (revokeGrant e (k + 2) env c s2)) = os_sent s"
        using c(2,3) s2 by (auto simp: revokeGrant_def split: option.splits)
      then show ?thesis using run by simp
    qed
  next
    case False
    then have "revokeGrantBeforeDelete e k u serverID s = s1 \<or> (\<exists>env r s2. revocationCredentials e (k + 1) env serverID s1 = (r, s2)
        \<and> revokeGrantBeforeDelete e k u serverID s = s2)"
      using l by (auto simp: revokeGrantBeforeDelete_def split: sum.splits prod.splits option.splits)
    then have "os_sent (revokeGrantBeforeDelete e k u serverID s) = os_sent s"
      using s1 revocationCredentials_sent by (metis snd_conv)
    then show ?thesis by simp
  qed
qed

text \<open>
  Disconnecting removes the user's grant from the store whatever becomes of the revocation, and sends
  at most one request, to the revocation endpoint the stored grant names and over a safe channel.
\<close>

theorem disconnect_removes_grant:
  assumes "oe_io (si_oauth e) (k + 3) = IoOk"
    and "\<forall>kv. oe_others (si_oauth e) (k + 4) kv (buildTokenKey u serverID) = kv (buildTokenKey u serverID)"
  shows "os_kv (snd (DeleteUserToken e k u serverID s)) (buildTokenKey u serverID) = None
    \<and> (\<exists>reqs. os_sent (snd (DeleteUserToken e k u serverID s)) = os_sent s @ reqs \<and> length reqs \<le> 1
        \<and> (reqs = [] \<or> (case fst (loadTokenEnvelope (si_oauth e) k u serverID s) of
             Inr (Some env, _) \<Rightarrow> list_all (revokes e env) reqs | _ \<Rightarrow> False)))"
proof -
  let ?s1 = "revokeGrantBeforeDelete e k u serverID s"
  obtain te s2 where d: "deleteToken (si_oauth e) (k + 3) u serverID ?s1 = (te, s2)" by fastforce
  obtain ne s3 where a: "deleteAuthNeededState (si_oauth e) (k + 4) u serverID s2 = (ne, s3)" by fastforce
  have run: "snd (DeleteUserToken e k u serverID s) = s3" using d a by (simp add: DeleteUserToken_def Let_def)
  have "os_kv s2 (buildTokenKey u serverID) = None"
    using d assms(1) by (auto simp: deleteToken_def kv_step_def KVDelete_def run_kv_def)
  moreover have "buildAuthNeededKey u serverID \<noteq> buildTokenKey u serverID"
    by (simp add: buildTokenKey_def buildAuthNeededKey_def)
  ultimately have "os_kv s3 (buildTokenKey u serverID) = None"
    using a assms(2)
    by (auto simp: deleteAuthNeededState_def kv_step_def KVDelete_def run_kv_def split: prod.splits option.splits io.splits if_splits)
  moreover have "os_sent s3 = os_sent ?s1"
    using d a by (auto simp: deleteToken_def deleteAuthNeededState_def split: prod.splits option.splits dest!: kv_step_sentD)
  ultimately show ?thesis using revokeGrantBeforeDelete_sent [of e k u serverID s] run by simp
qed

text \<open>
  A grant's registration may have been replaced by another client's; the refresh path refuses that
  client, a revocation authenticates with it.
\<close>

lemma revocation_uses_other_client:
  assumes "loadClientCredentials (si_oauth e) k (te_AuthServerURL (ts_envelope src)) s = (Inr (Some c), s')"
    and "cc_ClientID c \<noteq> te_ClientID (ts_envelope src)" "si_lookup e = None" "ts_static src = None"
  shows "revocationCredentials e k (ts_envelope src) serverID s = (Inr c, s')"
    "\<exists>err. refreshCredentials (si_oauth e) k src s = (Inl err, s')"
  using assms by (simp_all add: revocationCredentials_def Let_def refreshCredentials_def registeredCredentials_def)

section \<open>Examples\<close>

definition ex_session :: OAuthSession where
  "ex_session = session0\<lparr>sn_UserID := ''u'', sn_ServerID := ''m'', sn_ServerURL := ''https://s'', sn_ServerConfigID := ''1'',
     sn_CodeVerifier := ''v'', sn_State := ''st'', sn_StaticClientID := ''c'', sn_Issuer := ''https://s'',
     sn_TokenEndpoint := ''https://as/token'', sn_ClientID := ''c''\<rparr>"

definition ex_sign_json :: json_env where
  "ex_sign_json = ex_oauth_json\<lparr>js_parse := (\<lambda>text. if text = ''S'' then Some (encode_session ex_session)
     else if text = ''P'' then Some (encode_pin ''https://s'') else None)\<rparr>"

definition ex_url :: parsed_url where
  "ex_url = \<lparr>pu_Scheme = ''https'', pu_Host = ''s'', pu_Hostname = ''s'', pu_Path = [], pu_with_path = (\<lambda>p. ''https://s'' @ p)\<rparr>"

definition ex_meta :: "string \<Rightarrow> AuthServerMeta" where
  "ex_meta issuer = \<lparr>am_Issuer = issuer, am_AuthorizationEndpoint = ''https://as/authorize'', am_TokenEndpoint = ''https://as/token'',
     am_RegistrationEndpoint = [], am_RevocationEndpoint = [], am_ScopesSupported = [], am_TokenEndpointAuthMethodsSupported = [],
     am_RequireIss = False\<rparr>"

definition ex_sign_in :: sign_in_env where
  "ex_sign_in = \<lparr>si_oauth = (ex_oauth (\<lambda>_. IoOk))\<lparr>oe_json := ex_sign_json\<rparr>, si_callbackURL = ''https://mm/oauth/callback'',
     si_lookup = Some (\<lambda>_ _. Some ex_oauth_server), si_url = (\<lambda>_. Some ex_url), si_loopbackIP = (\<lambda>_. False),
     si_getPRM = (\<lambda>_ _ _. Inl (ErrorNew ''404'')), si_getASM = (\<lambda>_ _ issuer. Inr (Some (ex_meta issuer))),
     si_decodeASM = (\<lambda>_. Inl json_type_error), si_get = (\<lambda>_ _. NoAnswer (ErrorNew ''404'')),
     si_register = (\<lambda>_ _ _. Inl (ErrorNew ''404'')), si_verifier = (\<lambda>_. ''v''), si_authCodeURL = (\<lambda>_ _ _ _. ''https://as/authorize''),
     si_exchange = (\<lambda>_ _. Inr (ex_token ''a'' ''r''))\<rparr>"

definition ex_sign_state :: "string \<Rightarrow> string \<Rightarrow> sign_in" where
  "ex_sign_state key text = \<lparr>sg_oauth = \<lparr>os_kv = (\<lambda>k. if k = key then Some text else None), os_sent = []\<rparr>, sg_registered = [], sg_exchanged = []\<rparr>"

lemma ex_quiet: "quiet (si_oauth ex_sign_in)"
  by (simp add: quiet_def ex_sign_in_def ex_oauth_def)

lemma ex_load: "loadSession (si_oauth ex_sign_in) k ''u'' ''st'' (sg_oauth (ex_sign_state (buildSessionKey ''u'' ''st'') ''S''))
    = (Inr (Some ex_session), sg_oauth (ex_sign_state (buildSessionKey ''u'' ''st'') ''S''))"
proof -
  have "Unmarshal (si_oauth ex_sign_in) (decode_struct fields_session session0) ''S'' = Inr ex_session" by code_simp
  moreover have "sn_UserID ex_session = ''u''" "sn_ServerID ex_session = ''m''" "sn_CodeVerifier ex_session = ''v''"
    by (simp_all add: ex_session_def)
  ultimately show ?thesis by (simp add: loadSession_def quiet_read [OF ex_quiet] ex_sign_state_def del: quiet_simps)
qed

abbreviation ex_kept :: sign_in where
  "ex_kept \<equiv> ex_sign_state (buildSessionKey ''u'' ''st'') ''S''"

lemma ex_matches: "session_matches ex_sign_in k ''u'' ''st'' iss ex_session \<longleftrightarrow> iss = [] \<or> iss = ''https://s''"
  by (auto simp: session_matches_def ex_session_def session0_def ex_sign_in_def ex_oauth_server_def listed_server_def
      sameServerOrigin_def)

definition ex_client :: ClientCredentials where
  "ex_client = credentials0\<lparr>cc_ClientID := ''c'', cc_ClientSecret := ms_ClientSecret ex_oauth_server\<rparr>"

lemma ex_callback_client:
  "callbackOAuthConfig ex_sign_in k ex_session (callback_static ex_sign_in j ex_session) ex_kept
     = (Inr (oauthConfigFromCredentials ex_sign_in ex_client [] (sn_TokenEndpoint ex_session) (sn_Scopes ex_session), ex_client), ex_kept)"
  by (simp add: callback_static_def callbackOAuthConfig_def ex_session_def session0_def ex_sign_in_def staticOAuthCreds_def
      ex_oauth_server_def staticCredsClientID_def ex_client_def Let_def)

lemma ex_exchange: "si_exchange ex_sign_in k q = Inr (ex_token ''a'' ''r'')"
  by (simp add: ex_sign_in_def)

lemma callback_completes_iff_witness:
  "fst (ProcessCallback ex_sign_in 0 ''u'' ''st'' ''code'' ''https://other'' ex_kept) \<noteq> Finishes (Inr ex_session)"
  using callback_completes_iff [where k = 0 and code = "''code''" and iss = "''https://other''",
      OF ex_quiet ex_load ex_callback_client ex_exchange] ex_matches by simp


lemma ex_stable: "stable_origin (oe_urls (si_oauth ex_sign_in)) (sn_ServerURL ex_session)"
  by (simp add: stable_origin_def ex_sign_in_def ex_oauth_def ex_oauth_urls_def ex_session_def canonicalOriginFromString_def
      canonicalOrigin_def Let_def)


lemma ex_strict: "strict_metadata ex_sign_in"
  by (auto simp: strict_metadata_def ex_sign_in_def ex_meta_def issuers_equal_def)

lemma ex_metadata: "fetchAuthorizationServerMetadata ex_sign_in k issuer = Inr (ex_meta issuer)"
  by (simp add: fetchAuthorizationServerMetadata_def asm_hop_def authServerMetadataURLs_def ex_sign_in_def ex_url_def
      TrimSlashes_def TrimRightChar_def TrimLeftChar_def)

lemma metadata_from_issuer_witness:
  "issuers_equal (am_Issuer (ex_meta ''https://s'')) ''https://s''
    \<or> (\<exists>declared. declared_by ex_sign_in ''https://s'' declared \<and> \<not> issuers_equal declared ''https://s''
         \<and> issuers_equal (am_Issuer (ex_meta ''https://s'')) declared)"
  by (rule metadata_from_issuer [OF ex_strict ex_metadata])

definition ex_static :: StaticOAuthCredentials where
  "ex_static = \<lparr>sc_ClientID = ''c'', sc_ClientSecret = ''secret''\<rparr>"

abbreviation ex_pinned :: sign_in where
  "ex_pinned \<equiv> ex_sign_state (pin_key (si_oauth ex_sign_in) ''m'' ''c'' ''https://s'') ''P''"

lemma ex_pin: "read_pin (si_oauth ex_sign_in) ''P'' = Inr ''https://s''"
  by code_simp

lemma ex_initiate:
  "\<exists>s'. initiateOAuthFlow ex_sign_in 0 ''u'' ''1'' ''m'' ''https://s'' [] [] (Some ex_static) ex_pinned = (Inr ''https://as/authorize'', s')"
proof -
  let ?oe = "si_oauth ex_sign_in"
  obtain cs where "prm_candidates ex_sign_in ''https://s'' [] = Inr cs"
    by (simp add: prm_candidates_def constructWellKnownURL_def ex_sign_in_def)
  moreover have "\<exists>err. prm_walk ex_sign_in k cs first = Inl err" for k cs first
    by (induction cs arbitrary: k first) (auto simp: ex_sign_in_def)
  ultimately obtain perr where prm: "fetchProtectedResourceMetadata ex_sign_in 0 ''https://s'' [] = Inl perr"
    by (metis bindR_simps(2) fetchProtectedResourceMetadata_def)
  have url: "si_url ex_sign_in x = Some ex_url" "oe_random ?oe 0 = Inr ''id''" for x by (simp_all add: ex_sign_in_def ex_oauth_def)
  have base: "pu_Scheme ex_url @ ''://'' @ pu_Host ex_url = ''https://s''" by (simp add: ex_url_def)
  have d: "discover ex_sign_in 0 ''https://s'' [] ex_url = from_metadata ''https://s'' ''https://s'' [] (ex_meta ''https://s'')"
    unfolding discover_def base Let_def by (simp add: prm ex_metadata)
  have ca: "si_authCodeURL ex_sign_in = (\<lambda>_ _ _ _. ''https://as/authorize'')" by (simp add: ex_sign_in_def)
  obtain rc where rc: "resolveOAuthConfig ex_sign_in 0 ''https://s'' [] (Some ex_static) ex_pinned = (Inr rc, ex_pinned)"
    "rc_issuer rc = ''https://s''"
    using d url by (simp add: resolveOAuthConfig_def loadOrCreateClientCredentials_def ex_static_def Let_def from_metadata_def ex_meta_def)
  have pin: "checkStaticCredsIssuerPin ?oe 22 ''m'' ''https://s'' (Some ex_static) ''https://s'' (sg_oauth ex_pinned) = (None, sg_oauth ex_pinned)"
    using ex_pin by (simp add: checkStaticCredsIssuerPin_def staticCredsClientID_def ex_static_def Let_def quiet_read [OF ex_quiet]
        ex_sign_state_def del: quiet_simps)
  have "fst (on_oauth (storeSession ?oe 24 n) ex_pinned) = None" for n
    by (simp add: on_oauth_def storeSession_def quiet_set [OF ex_quiet] del: quiet_simps)
  then have st: "\<exists>s'. on_oauth (storeSession ?oe 24 n) ex_pinned = (None, s')" for n by (metis prod.collapse)
  have pin': "on_oauth (checkStaticCredsIssuerPin ?oe 22 ''m'' ''https://s'' (Some ex_static) (rc_issuer rc)) ex_pinned = (None, ex_pinned)"
    using pin rc(2) by (simp add: on_oauth_def)
  obtain t where t: "on_oauth (storeSession ?oe 24 (started_session ''u'' ''1'' ''m'' ''https://s'' [] (si_verifier ex_sign_in 0) ''id''
      (Some ex_static) (o2_Scopes (rc_config rc)) rc)) ex_pinned = (None, t)" using st by blast
  have "initiateOAuthFlow ex_sign_in 0 ''u'' ''1'' ''m'' ''https://s'' [] [] (Some ex_static) ex_pinned = (Inr ''https://as/authorize'', t)"
    by (simp add: initiateOAuthFlow_def url rc(1) ca Let_def pin' t)
  then show ?thesis by blast
qed

lemma static_client_keeps_issuer_witness:
  "\<exists>s' state n. initiateOAuthFlow ex_sign_in 0 ''u'' ''1'' ''m'' ''https://s'' [] [] (Some ex_static) ex_pinned = (Inr ''https://as/authorize'', s')
    \<and> sn_Issuer n = ''https://s'' \<and> os_kv (sg_oauth s') (buildSessionKey ''u'' state) = Some (session_text (si_oauth ex_sign_in) n)"
proof -
  obtain s' where run: "initiateOAuthFlow ex_sign_in 0 ''u'' ''1'' ''m'' ''https://s'' [] [] (Some ex_static) ex_pinned = (Inr ''https://as/authorize'', s')"
    using ex_initiate by blast
  from static_client_keeps_issuer [OF run ex_quiet, where pinned = "''https://s''" and raw = "''P''"]
  obtain state n where "sn_Issuer n = ''https://s''"
    "os_kv (sg_oauth s') (buildSessionKey ''u'' state) = Some (session_text (si_oauth ex_sign_in) n)"
    using ex_pin by (auto simp: ex_static_def ex_sign_state_def)
  then show ?thesis using run by blast
qed

lemma disconnect_removes_grant_witness:
  "os_kv (snd (DeleteUserToken ex_sign_in 0 ''u'' ''m'' (ex_oauth_state ''a''))) (buildTokenKey ''u'' ''m'') = None"
  using disconnect_removes_grant [of ex_sign_in 0 "''u''" "''m''" "ex_oauth_state ''a''"] by (simp add: ex_sign_in_def ex_oauth_def)

end
