(* ===== verification/Mcp_Transport.thy ===== *)
theory Mcp_Transport
  imports Mcp_Sign_In
begin

text \<open>
  The HTTP traffic and the connection of one remote MCP client: where its headers and tokens may travel
  (\<open>src/mcp/http_client.go\<close>, \<open>src/mcp/oauth_transport.go\<close>), how a refusal is read
  (\<open>src/mcp/oauth_handler.go\<close>) and how a connection is made or turned into a request to sign in
  (\<open>src/mcp/client.go\<close>).

  The MCP session and its tools belong to the SDK: they are type variables. \<open>tr_challenges\<close> is
  \<open>oauthex.ParseWWWAuthenticate\<close>, \<open>tr_authParams\<close> the submatches of \<open>wwwAuthParamRE\<close>, \<open>tr_canonical\<close>
  the canonical form of a header name. A header map is the list of its entries in the order a loop
  visits them.
\<close>

type_synonym challenge = "string gomap"

record hop_request =
  hq_URL :: string
  hq_headers :: "string gomap"
  hq_bearer :: "Token option"

text \<open>An answer with its status and its \<open>WWW-Authenticate\<close> values.\<close>

datatype hop_answer = HopFails go_error | HopRedirects string | HopAnswers int "string list"

record transport_env =
  tr_sign :: sign_in_env
  tr_canonical :: "string \<Rightarrow> string"
  tr_http :: "nat \<Rightarrow> hop_request \<Rightarrow> hop_answer"
  tr_challenges :: "string list \<Rightarrow> challenge list result"
  tr_authParams :: "string \<Rightarrow> (string \<times> string \<times> string) list"

abbreviation tr_oauth :: "transport_env \<Rightarrow> oauth_env" where
  "tr_oauth e \<equiv> si_oauth (tr_sign e)"

record transport =
  tp_oauth :: oauth
  tp_requests :: "hop_request list"

section \<open>Reading a refusal\<close>

definition param :: "challenge \<Rightarrow> string \<Rightarrow> string" where
  "param c key = (case map_of c key of None \<Rightarrow> [] | Some v \<Rightarrow> v)"

definition maxWWWAuthenticateBytes :: nat where "maxWWWAuthenticateBytes = 4096"

definition oauthChallengeParamNames :: "string list" where
  "oauthChallengeParamNames = [''resource_metadata'', ''scope'', ''error'']"

fun collect_params :: "transport_env \<Rightarrow> challenge \<Rightarrow> (string \<times> string \<times> string) list \<Rightarrow> challenge" where
  "collect_params e acc [] = acc"
| "collect_params e acc ((name, quoted, bare) # ms) =
     (let key = ur_lower (oe_urls (tr_oauth e)) name; value = (if quoted = [] then bare else quoted)
      in collect_params e (if key \<in> set oauthChallengeParamNames \<and> map_of acc key = None then acc @ [(key, value)] else acc) ms)"

definition tolerantChallengeParams :: "transport_env \<Rightarrow> string list \<Rightarrow> challenge list" where
  "tolerantChallengeParams e headers =
     (case collect_params e [] (concat (map (tr_authParams e) headers)) of [] \<Rightarrow> [] | ps \<Rightarrow> [ps])"

definition hasInsufficientScopeChallenge :: "challenge list \<Rightarrow> bool" where
  "hasInsufficientScopeChallenge cs \<longleftrightarrow> list_ex (\<lambda>c. param c ''error'' = ''insufficient_scope'') cs"

definition challengeScope :: "challenge list \<Rightarrow> string" where
  "challengeScope cs = (case find (\<lambda>c. param c ''scope'' \<noteq> []) cs of None \<Rightarrow> [] | Some c \<Rightarrow> param c ''scope'')"

definition validateMetadataURL :: "transport_env \<Rightarrow> string \<Rightarrow> go_error option" where
  "validateMetadataURL e metadataURL =
     (if metadataURL = [] then Some (ErrorNew ''empty resource_metadata URL'')
      else if length metadataURL > 2048 then Some (ErrorNew ''resource_metadata URL too long (max 2048 bytes)'')
      else case si_url (tr_sign e) metadataURL of
             None \<Rightarrow> Some (ErrorNew ''invalid resource_metadata URL format'')
           | Some u \<Rightarrow>
               (if pu_Scheme u = [] then Some (ErrorNew ''resource_metadata URL missing scheme'')
                else if pu_Host u = [] then Some (ErrorNew ''resource_metadata URL missing host'') else None))"

definition read_challenges :: "transport_env \<Rightarrow> bool \<Rightarrow> challenge list \<Rightarrow> oauth_error" where
  "read_challenges e forbidden cs =
     (case find (\<lambda>c. param c ''resource_metadata'' \<noteq> []) cs of
        Some c \<Rightarrow>
          (case validateMetadataURL e (param c ''resource_metadata'') of
             Some err \<Rightarrow> mcpUnauthorized [] [] (Some (Plain (wrapf ''failed to parse WWW-Authenticate header'' err)))
           | None \<Rightarrow> mcpUnauthorized (param c ''resource_metadata'') (challengeScope cs) None)
      | None \<Rightarrow>
          (if forbidden \<and> \<not> hasInsufficientScopeChallenge cs
           then Errorf ''server returned 403 forbidden (not an OAuth challenge)''
           else mcpUnauthorized [] (challengeScope cs)
             (Some (Errorf ''received response without usable WWW-Authenticate header (no resource_metadata)''))))"

definition Authorize :: "transport_env \<Rightarrow> int \<Rightarrow> string list \<Rightarrow> oauth_error" where
  "Authorize e status headers =
     (let forbidden = (status = 403);
          refuse = (\<lambda>plain auth. if forbidden then Errorf plain else mcpUnauthorized [] [] (Some (Errorf auth))) in
      if headers = []
      then refuse ''server returned 403 forbidden without an OAuth challenge'' ''received response without WWW-Authenticate header''
      else if sum_list (map length headers) > maxWWWAuthenticateBytes
      then refuse ''server returned 403 forbidden with an oversized WWW-Authenticate header'' ''WWW-Authenticate header too long''
      else case tr_challenges e headers of
             Inr cs \<Rightarrow> read_challenges e forbidden cs
           | Inl _ \<Rightarrow>
               (case tolerantChallengeParams e headers of
                  [] \<Rightarrow> refuse ''server returned 403 forbidden with a malformed WWW-Authenticate header''
                          ''failed to parse WWW-Authenticate header''
                | cs \<Rightarrow> read_challenges e forbidden cs))"

section \<open>Requests and redirects\<close>

definition set_headers :: "transport_env \<Rightarrow> string gomap \<Rightarrow> string gomap \<Rightarrow> string gomap" where
  "set_headers e headers start = fold (\<lambda>(k, v) h. AList.update (tr_canonical e k) v h) headers start"

definition at_origin :: "transport_env \<Rightarrow> string \<Rightarrow> string \<Rightarrow> bool" where
  "at_origin e origin url \<longleftrightarrow> origin = [] \<or> canonicalOriginFromString (oe_urls (tr_oauth e)) url = origin"

text \<open>The token of a request: none without a handler, a grant or on a foreign origin.\<close>

definition bearer ::
  "transport_env \<Rightarrow> nat \<Rightarrow> nat \<Rightarrow> string \<Rightarrow> (string \<times> MCPServerConfig) option \<Rightarrow> string \<Rightarrow> oauth
     \<Rightarrow> ((oauth_error + Token option) \<times> oauth) option" where
  "bearer e fuel k origin handler url s =
     (case handler of
        None \<Rightarrow> Some (Inr None, s)
      | Some (userID, server) \<Rightarrow>
          (case TokenSource (tr_oauth e) k userID server s of
             (Inl err, s1) \<Rightarrow> Some (Inl (Plain err), s1)
           | (Inr None, s1) \<Rightarrow> Some (Inr None, s1)
           | (Inr (Some src), s1) \<Rightarrow>
               (if \<not> at_origin e origin url then Some (Inr None, s1)
                else case source_Token (tr_oauth e) fuel (k + load_steps) src s1 of
                       None \<Rightarrow> None
                     | Some (Inl err, _, s2) \<Rightarrow> Some (Inl err, s2)
                     | Some (Inr t, _, s2) \<Rightarrow> Some (Inr (Some t), s2))))"

definition RoundTrip ::
  "transport_env \<Rightarrow> nat \<Rightarrow> nat \<Rightarrow> string \<Rightarrow> string gomap \<Rightarrow> (string \<times> MCPServerConfig) option \<Rightarrow> string \<Rightarrow> transport
     \<Rightarrow> ((oauth_error + hop_answer) \<times> transport) option" where
  "RoundTrip e fuel k origin headers handler url s =
     (case bearer e fuel k origin handler url (tp_oauth s) of
        None \<Rightarrow> None
      | Some (Inl err, o1) \<Rightarrow> Some (Inl err, s\<lparr>tp_oauth := o1\<rparr>)
      | Some (Inr t, o1) \<Rightarrow>
          (let req = \<lparr>hq_URL = url, hq_headers = (if at_origin e origin url then set_headers e headers [] else []), hq_bearer = t\<rparr>;
               s1 = \<lparr>tp_oauth = o1, tp_requests = tp_requests s @ [req]\<rparr> in
           case tr_http e k req of
             HopFails err \<Rightarrow> Some (Inl (Plain (wrapf ''oauthRoundTripper round trip failed'' err)), s1)
           | HopRedirects target \<Rightarrow> Some (Inr (HopRedirects target), s1)
           | HopAnswers status challenges \<Rightarrow>
               (if handler \<noteq> None \<and> status \<in> {401, 403} then Some (Inl (Authorize e status challenges), s1)
                else Some (Inr (HopAnswers status challenges), s1))))"

definition blockCrossOriginRedirect :: "transport_env \<Rightarrow> string \<Rightarrow> string \<Rightarrow> nat \<Rightarrow> go_error option" where
  "blockCrossOriginRedirect e pinnedOrigin url via =
     (if pinnedOrigin \<noteq> [] \<and> canonicalOriginFromString (oe_urls (tr_oauth e)) url \<noteq> pinnedOrigin
      then Some (ErrorNew (''refusing cross-origin redirect to '' @ canonicalOriginFromString (oe_urls (tr_oauth e)) url))
      else if via \<ge> 10 then Some (ErrorNew ''stopped after 10 redirects'')
      else None)"

text \<open>The HTTP client sends \<open>via\<close> requests before this one; each redirect it may follow is one more.\<close>

function Do ::
  "transport_env \<Rightarrow> nat \<Rightarrow> nat \<Rightarrow> string \<Rightarrow> string gomap \<Rightarrow> (string \<times> MCPServerConfig) option \<Rightarrow> nat \<Rightarrow> string \<Rightarrow> transport
     \<Rightarrow> ((oauth_error + hop_answer) \<times> transport) option" where
  "Do e fuel k origin headers handler via url s =
     (case RoundTrip e fuel k origin headers handler url s of
        Some (Inr (HopRedirects target), s1) \<Rightarrow>
          (case blockCrossOriginRedirect e origin target (via + 1) of
             Some err \<Rightarrow> Some (Inl (Plain err), s1)
           | None \<Rightarrow> Do e fuel (k + 100) origin headers handler (via + 1) target s1)
      | outcome \<Rightarrow> outcome)"
  by pat_completeness auto
termination
  by (relation "measure (\<lambda>(_, _, _, _, _, _, via, _, _). 10 - via)") (auto simp: blockCrossOriginRedirect_def split: if_splits)

declare Do.simps [simp del]

section \<open>Credentials stay at their origin\<close>

lemma RoundTrip_request:
  assumes "RoundTrip e fuel k origin headers handler url s = Some (r, s1)"
  shows "tp_requests s1 = tp_requests s \<and> (\<exists>err. r = Inl err)
    \<or> (\<exists>q. tp_requests s1 = tp_requests s @ [q] \<and> hq_URL q = url
         \<and> (at_origin e origin url \<or> hq_headers q = [] \<and> hq_bearer q = None))"
  using assms
  by (auto simp: RoundTrip_def bearer_def Let_def split: option.splits prod.splits sum.splits hop_answer.splits if_splits)

lemma Do_requests:
  assumes "origin \<noteq> []" "Do e fuel k origin headers handler via url s = Some (r, s')" "via < 10"
  shows "\<exists>reqs. tp_requests s' = tp_requests s @ reqs \<and> length reqs \<le> 10 - via
    \<and> list_all (\<lambda>q. at_origin e origin (hq_URL q) \<or> hq_headers q = [] \<and> hq_bearer q = None) reqs
    \<and> list_all (\<lambda>q. at_origin e origin (hq_URL q)) (tl reqs)
    \<and> (if at_origin e origin url then list_all (\<lambda>q. at_origin e origin (hq_URL q)) reqs else True)"
  using assms
proof (induction e fuel k origin headers handler via url s rule: Do.induct)
  case (1 e fuel k origin headers handler via url s)
  obtain r1 s1 where rt: "RoundTrip e fuel k origin headers handler url s = Some (r1, s1)"
    using "1.prems"(2) by (subst (asm) Do.simps) (auto split: option.splits)
  show ?case
  proof (cases "\<exists>target. r1 = Inr (HopRedirects target) \<and> blockCrossOriginRedirect e origin target (via + 1) = None")
    case False
    then have "s' = s1" using "1.prems"(2) rt by (subst (asm) Do.simps) (auto split: sum.splits hop_answer.splits option.splits)
    then show ?thesis using RoundTrip_request [OF rt] "1.prems"(3) by (elim disjE exE conjE) (intro exI, auto)+
  next
    case True
    then obtain target where t: "r1 = Inr (HopRedirects target)" "blockCrossOriginRedirect e origin target (via + 1) = None" by blast
    then have rest: "Do e fuel (k + 100) origin headers handler (via + 1) target s1 = Some (r, s')"
      using "1.prems"(2) rt by (subst (asm) Do.simps) simp
    have g: "at_origin e origin target" "via + 1 < 10"
      using t(2) "1.prems"(1) by (auto simp: blockCrossOriginRedirect_def at_origin_def split: if_splits)
    obtain q where q: "tp_requests s1 = tp_requests s @ [q]" "hq_URL q = url"
      "at_origin e origin url \<or> hq_headers q = [] \<and> hq_bearer q = None"
      using RoundTrip_request [OF rt] t(1) by auto
    have IH: "\<exists>reqs. tp_requests s' = tp_requests s1 @ reqs \<and> length reqs \<le> 10 - (via + 1)
        \<and> list_all (\<lambda>q. at_origin e origin (hq_URL q) \<or> hq_headers q = [] \<and> hq_bearer q = None) reqs
        \<and> list_all (\<lambda>q. at_origin e origin (hq_URL q)) (tl reqs)
        \<and> (if at_origin e origin target then list_all (\<lambda>q. at_origin e origin (hq_URL q)) reqs else True)"
      using "1.IH" [OF rt refl] t "1.prems"(1) rest g(2) by blast
    then obtain reqs where reqs: "tp_requests s' = tp_requests s1 @ reqs" "length reqs \<le> 10 - (via + 1)"
      "list_all (\<lambda>q. at_origin e origin (hq_URL q)) reqs"
      using g(1) by auto
    have len: "length (q # reqs) \<le> 10 - via" using reqs(2) g(2) by simp
    have safe: "list_all (\<lambda>q. at_origin e origin (hq_URL q) \<or> hq_headers q = [] \<and> hq_bearer q = None) (q # reqs)"
      using q(2,3) reqs(3) by (simp add: list_all_iff)
    show ?thesis
      by (intro exI [of _ "q # reqs"]) (use q reqs len safe in simp)
  qed
qed

text \<open>
  C16: however a server redirects, no more than ten requests are made, all but the first go to the
  configured server's origin, and none that leaves it carries a header or a token.
\<close>

theorem credentials_stay_at_origin:
  assumes "origin \<noteq> []" "Do e fuel k origin headers handler 0 url s = Some (r, s')"
  shows "\<exists>reqs. tp_requests s' = tp_requests s @ reqs \<and> length reqs \<le> 10
    \<and> list_all (\<lambda>q. canonicalOriginFromString (oe_urls (tr_oauth e)) (hq_URL q) = origin
         \<or> hq_headers q = [] \<and> hq_bearer q = None) reqs
    \<and> list_all (\<lambda>q. canonicalOriginFromString (oe_urls (tr_oauth e)) (hq_URL q) = origin) (tl reqs)"
  using Do_requests [OF assms] assms(1) by (fastforce simp: at_origin_def)

section \<open>Which refusals ask for a sign-in\<close>

definition asks_sign_in :: "oauth_error \<Rightarrow> bool" where
  "asks_sign_in err = (case err of mcpUnauthorized _ _ _ \<Rightarrow> True | _ \<Rightarrow> False)"

definition offered :: "transport_env \<Rightarrow> string list \<Rightarrow> challenge list" where
  "offered e headers = (case tr_challenges e headers of Inr cs \<Rightarrow> cs | Inl _ \<Rightarrow> tolerantChallengeParams e headers)"

text \<open>
  A 401 always asks the user to sign in; a 403 does so exactly when its challenges, within the size
  limit, name a metadata document or an insufficient scope, so that nobody signs in again in vain.
\<close>

theorem refusal_asks_sign_in:
  "if status \<noteq> 403 then asks_sign_in (Authorize e status headers)
   else asks_sign_in (Authorize e status headers) \<longleftrightarrow>
     headers \<noteq> [] \<and> sum_list (map length headers) \<le> 4096
     \<and> list_ex (\<lambda>c. param c ''resource_metadata'' \<noteq> [] \<or> param c ''error'' = ''insufficient_scope'') (offered e headers)"
proof -
  have rc: "asks_sign_in (read_challenges e forbidden cs) \<longleftrightarrow>
      \<not> forbidden \<or> list_ex (\<lambda>c. param c ''resource_metadata'' \<noteq> [] \<or> param c ''error'' = ''insufficient_scope'') cs" for forbidden cs
  proof (cases "find (\<lambda>c. param c ''resource_metadata'' \<noteq> []) cs")
    case None
    then have "\<not> list_ex (\<lambda>c. param c ''resource_metadata'' \<noteq> []) cs" by (simp add: find_None_iff list_ex_iff)
    then show ?thesis
      using None by (auto simp: read_challenges_def asks_sign_in_def hasInsufficientScopeChallenge_def list_ex_iff Errorf_def)
  next
    case (Some c)
    then have "list_ex (\<lambda>c. param c ''resource_metadata'' \<noteq> []) cs" by (auto simp: find_Some_iff list_ex_iff)
    then show ?thesis using Some by (auto simp: read_challenges_def asks_sign_in_def list_ex_iff split: option.split)
  qed
  consider "headers = []" | "headers \<noteq> []" "sum_list (map length headers) > 4096"
    | "headers \<noteq> []" "sum_list (map length headers) \<le> 4096" by linarith
  then show ?thesis
  proof cases
    case 3
    then show ?thesis
      using rc
      by (auto simp: Authorize_def maxWWWAuthenticateBytes_def offered_def Let_def asks_sign_in_def Errorf_def split: sum.split list.split)
  qed (simp_all add: Authorize_def maxWWWAuthenticateBytes_def asks_sign_in_def Errorf_def Let_def)
qed

section \<open>Connecting\<close>

record Client =
  mc_config :: MCPServerConfig
  mc_userID :: string
  mc_hasOAuth :: bool
  mc_serviceAccount :: bool

datatype connect_error = OAuthNeededError string string | ConnectFails oauth_error

text \<open>
  Connecting by each transport, listing the tools of a session, and whether the deadline passed meanwhile;
  \<open>co_query\<close> adds query parameters to a URL, \<open>co_escape\<close> is \<open>url.PathEscape\<close>.
\<close>

record ('s, 't) connect_env =
  co_sign :: sign_in_env
  co_streamable :: "oauth_error + 's"
  co_sse :: "oauth_error + 's"
  co_list :: "'s \<Rightarrow> oauth_error + (string \<times> 't) list"
  co_late :: bool
  co_stored :: bool
  co_query :: "string \<Rightarrow> (string \<times> string) list \<Rightarrow> string option"
  co_escape :: "string \<Rightarrow> string"

record 't connecting =
  cn_oauth :: oauth
  cn_cache :: "string \<Rightarrow> (string \<times> 't) list"

definition oauthCallbackPathSuffix :: string where "oauthCallbackPathSuffix = ''/oauth/callback''"

definition StartURL :: "('s, 't) connect_env \<Rightarrow> string \<Rightarrow> string" where
  "StartURL e serverID =
     (let baseURL = TrimRightChar slash (TrimSuffix (si_callbackURL (co_sign e)) oauthCallbackPathSuffix)
      in if baseURL = [] then [] else baseURL @ ''/mcp/oauth/'' @ co_escape e serverID @ ''/start'')"

definition oauthStartURL :: "('s, 't) connect_env \<Rightarrow> Client \<Rightarrow> string" where
  "oauthStartURL e c = (if mc_hasOAuth c then StartURL e (ms_Name (mc_config c)) else [])"

definition oauthNeededRedirectURL :: "('s, 't) connect_env \<Rightarrow> Client \<Rightarrow> string \<Rightarrow> string \<Rightarrow> string" where
  "oauthNeededRedirectURL e c metadataURL scope =
     (let base = oauthStartURL e c in
      if base = [] \<or> metadataURL = [] \<and> scope = [] then base
      else case co_query e base ((if metadataURL = [] then [] else [(''resource_metadata'', metadataURL)])
                  @ (if scope = [] then [] else [(''scope'', scope)])) of
             None \<Rightarrow> base | Some url \<Rightarrow> url)"

fun as_unauthorized :: "oauth_error \<Rightarrow> (string \<times> string) option" where
  "as_unauthorized (mcpUnauthorized metadataURL scope err) = Some (metadataURL, scope)"
| "as_unauthorized (Wrapped msg err) = as_unauthorized err"
| "as_unauthorized (oauthTokenError status code descr) = None"
| "as_unauthorized (Plain err) = None"

definition oauthNeededError :: "('s, 't) connect_env \<Rightarrow> Client \<Rightarrow> oauth_error \<Rightarrow> connect_error option" where
  "oauthNeededError e c err =
     (if mc_serviceAccount c then None
      else map_option (\<lambda>(md, scope). OAuthNeededError (oauthNeededRedirectURL e c md scope) md) (as_unauthorized err))"

definition createSession :: "('s, 't) connect_env \<Rightarrow> Client \<Rightarrow> connect_error + 's" where
  "createSession e c =
     (case co_streamable e of
        Inr session \<Rightarrow> Inr session
      | Inl errStreamable \<Rightarrow>
          (case oauthNeededError e c errStreamable of
             Some err \<Rightarrow> Inl err
           | None \<Rightarrow>
               (case co_sse e of
                  Inr session \<Rightarrow> Inr session
                | Inl errSSE \<Rightarrow>
                    (case oauthNeededError e c errSSE of
                       Some err \<Rightarrow> Inl err
                     | None \<Rightarrow> Inl (ConnectFails (Wrapped ''failed to connect to MCP server'' errStreamable))))))"

definition sharedToolsCacheAllowedForServer :: "MCPServerConfig \<Rightarrow> bool" where
  "sharedToolsCacheAllowedForServer server \<longleftrightarrow> staticOAuthCreds server = None"

definition useSharedToolsCache :: "Client \<Rightarrow> bool" where
  "useSharedToolsCache c \<longleftrightarrow> mc_serviceAccount c \<or> sharedToolsCacheAllowedForServer (mc_config c)"

definition serviceAccountToolsCacheID :: "string \<Rightarrow> string" where
  "serviceAccountToolsCacheID serverName = ''sa:'' @ serverName"

definition toolsCacheServerID :: "Client \<Rightarrow> string" where
  "toolsCacheServerID c =
     (if mc_serviceAccount c then serviceAccountToolsCacheID (ms_Name (mc_config c)) else ms_Name (mc_config c))"

text \<open>The tools by name, a later one of the same name replacing an earlier one; none is a failure.\<close>

definition adoptSession :: "('s, 't) connect_env \<Rightarrow> 's \<Rightarrow> oauth_error + (string \<times> 't) list" where
  "adoptSession e session =
     (case co_list e session of
        Inl err \<Rightarrow> Inl (Wrapped ''failed to list tools'' err)
      | Inr tools \<Rightarrow>
          (if tools = [] then Inl (Errorf ''no tools found on MCP server'')
           else Inr (fold (\<lambda>(n, t) m. AList.update n t m) tools [])))"

definition maybeInvalidateSharedTools :: "('s, 't) connect_env \<Rightarrow> nat \<Rightarrow> Client \<Rightarrow> 't connecting \<Rightarrow> 't connecting" where
  "maybeInvalidateSharedTools e k c s =
     (if sharedToolsCacheAllowedForServer (mc_config c) \<or> \<not> mc_hasOAuth c then s
      else case HasStoredToken (si_oauth (co_sign e)) k (mc_userID c) (mc_config c) (cn_oauth s) of
             (Inr False, o1) \<Rightarrow> s\<lparr>cn_oauth := o1, cn_cache := (cn_cache s)(ms_Name (mc_config c) := [])\<rparr>
           | (_, o1) \<Rightarrow> s\<lparr>cn_oauth := o1\<rparr>)"

definition connectAndDiscover ::
  "('s, 't) connect_env \<Rightarrow> nat \<Rightarrow> Client \<Rightarrow> bool \<Rightarrow> 't connecting \<Rightarrow> (connect_error + (string \<times> 't) list) \<times> 't connecting" where
  "connectAndDiscover e k c forceRefresh s =
     (case createSession e c of
        Inl err \<Rightarrow> (Inl err, s)
      | Inr session \<Rightarrow>
          (let s1 = maybeInvalidateSharedTools e k c s; cached = cn_cache s1 (toolsCacheServerID c) in
           if useSharedToolsCache c \<and> \<not> forceRefresh \<and> cached \<noteq> [] then (Inr cached, s1)
           else case adoptSession e session of
                  Inl err \<Rightarrow> (case oauthNeededError e c err of Some oerr \<Rightarrow> (Inl oerr, s1) | None \<Rightarrow> (Inl (ConnectFails err), s1))
                | Inr tools \<Rightarrow>
                    (Inr tools, if useSharedToolsCache c \<and> co_stored e
                                then s1\<lparr>cn_cache := (cn_cache s1)(toolsCacheServerID c := tools)\<rparr> else s1)))"

definition staticOAuthTokenMissing :: "('s, 't) connect_env \<Rightarrow> nat \<Rightarrow> Client \<Rightarrow> 't connecting \<Rightarrow> bool result \<times> 't connecting" where
  "staticOAuthTokenMissing e k c s =
     (if mc_serviceAccount c \<or> \<not> mc_hasOAuth c \<or> staticOAuthCreds (mc_config c) = None then (Inr False, s)
      else case HasStoredToken (si_oauth (co_sign e)) k (mc_userID c) (mc_config c) (cn_oauth s) of
             (Inl err, o1) \<Rightarrow> (Inl (wrapf ''failed to check stored OAuth token for MCP server'' err), s\<lparr>cn_oauth := o1\<rparr>)
           | (Inr has, o1) \<Rightarrow> (Inr (\<not> has), s\<lparr>cn_oauth := o1\<rparr>))"

definition newClientWithTimeout ::
  "('s, 't) connect_env \<Rightarrow> nat \<Rightarrow> Client \<Rightarrow> bool \<Rightarrow> 't connecting \<Rightarrow> (connect_error + (string \<times> 't) list) \<times> 't connecting" where
  "newClientWithTimeout e k c forceRefresh s =
     (case staticOAuthTokenMissing e k c s of
        (Inl err, s1) \<Rightarrow> (Inl (ConnectFails (Plain err)), s1)
      | (Inr needsAuthorization, s1) \<Rightarrow>
          (let (found, s2) = connectAndDiscover e (k + load_steps) c forceRefresh s1;
               r = (case found of
                      Inr tools \<Rightarrow> (if co_late e then Inl (ConnectFails (Errorf ''timed out connecting'')) else Inr tools)
                    | Inl err \<Rightarrow> Inl err)
           in (if needsAuthorization
               then case r of
                      Inl (OAuthNeededError url md) \<Rightarrow> Inl (OAuthNeededError url md)
                    | _ \<Rightarrow> Inl (OAuthNeededError (oauthStartURL e c) [])
               else r, s2)))"

section \<open>Who gets a connection\<close>

definition is_OAuthNeeded :: "connect_error + 'a \<Rightarrow> bool" where
  "is_OAuthNeeded r = (case r of Inl (OAuthNeededError _ _) \<Rightarrow> True | _ \<Rightarrow> False)"

text \<open>
  C27: a user who has not signed in to a server with admin-configured OAuth credentials never gets a
  connection, even if the server answers anonymously: the outcome is always the request to sign in. A
  service account never gets that request.
\<close>

theorem static_oauth_needs_sign_in:
  "if mc_serviceAccount c then \<not> is_OAuthNeeded (fst (newClientWithTimeout e k c forceRefresh s))
   else if mc_hasOAuth c \<and> staticOAuthCreds (mc_config c) \<noteq> None
     \<and> fst (HasStoredToken (si_oauth (co_sign e)) k (mc_userID c) (mc_config c) (cn_oauth s)) = Inr False
   then is_OAuthNeeded (fst (newClientWithTimeout e k c forceRefresh s))
   else True"
proof -
  have sa: "\<not> is_OAuthNeeded (fst (connectAndDiscover e j c forceRefresh s1))" if "mc_serviceAccount c" for j s1
    using that by (auto simp: connectAndDiscover_def createSession_def oauthNeededError_def is_OAuthNeeded_def Let_def split: sum.splits)
  show ?thesis
  proof (cases "mc_serviceAccount c")
    case True
    then show ?thesis
      using sa [OF True, of "k + load_steps" s]
      by (auto simp: newClientWithTimeout_def staticOAuthTokenMissing_def is_OAuthNeeded_def Let_def split: prod.splits sum.splits connect_error.splits)
  next
    case False
    then show ?thesis
      by (auto simp: newClientWithTimeout_def staticOAuthTokenMissing_def is_OAuthNeeded_def Let_def split: prod.splits sum.splits connect_error.splits)
  qed
qed

text \<open>
  The tools a user sees of a server with configured OAuth credentials are the ones listed on the
  user's own connection, and they enter no shared cache.
\<close>

theorem oauth_tools_not_shared:
  assumes "\<not> mc_serviceAccount c" "staticOAuthCreds (mc_config c) \<noteq> None"
    and "newClientWithTimeout e k c forceRefresh s = (Inr tools, s')"
  shows "(\<exists>session. createSession e c = Inr session \<and> adoptSession e session = Inr tools)
    \<and> (\<forall>serverID. cn_cache s' serverID = cn_cache s serverID \<or> cn_cache s' serverID = [])"
proof -
  have priv: "\<not> useSharedToolsCache c" using assms(1,2) by (simp add: useSharedToolsCache_def sharedToolsCacheAllowedForServer_def)
  obtain s1 where s1: "staticOAuthTokenMissing e k c s = (Inr False, s1)" "connectAndDiscover e (k + load_steps) c forceRefresh s1 = (Inr tools, s')"
    using assms(3)
    by (auto simp: newClientWithTimeout_def Let_def split: prod.splits sum.splits if_splits connect_error.splits)
  have "cn_cache s1 = cn_cache s"
    using s1(1) by (auto simp: staticOAuthTokenMissing_def split: if_splits prod.splits sum.splits)
  moreover have "cn_cache (maybeInvalidateSharedTools e j c s1) serverID \<in> {cn_cache s1 serverID, []}" for j serverID
    by (auto simp: maybeInvalidateSharedTools_def split: prod.splits sum.splits bool.splits)
  ultimately show ?thesis
    using s1(2) priv by (auto simp: connectAndDiscover_def Let_def split: sum.splits option.splits)
qed

section \<open>Headers of a connection\<close>

definition MMUserIDHeader :: string where "MMUserIDHeader = ''X-Mattermost-UserID''"

definition copy_map :: "string gomap \<Rightarrow> string gomap \<Rightarrow> string gomap" where
  "copy_map src dst = fold (\<lambda>(k, v) m. AList.update k v m) src dst"

definition remoteConnectionHeaders :: "(string \<Rightarrow> string) \<Rightarrow> string \<Rightarrow> MCPServerConfig \<Rightarrow> bool \<Rightarrow> string gomap" where
  "remoteConnectionHeaders canon userID server serviceAccount =
     (let admin = copy_map (ms_Headers server) [(MMUserIDHeader, userID)]
      in if serviceAccount then copy_map (EffectiveServiceAccountHeaders canon (Some server)) admin else admin)"

section \<open>Examples\<close>

text \<open>A 403 without a challenge is no \<open>mcpUnauthorized\<close>.\<close>

lemma plain_403_asks_nobody: "\<not> asks_sign_in (Authorize e 403 [])"
  by (simp add: Authorize_def asks_sign_in_def Errorf_def Let_def)

text \<open>The tools of a service account and those of a user-mode server named after it share a cache entry.\<close>

lemma cache_id_collides:
  assumes "mc_serviceAccount c" "\<not> mc_serviceAccount c'" "ms_Name (mc_config c') = ''sa:'' @ ms_Name (mc_config c)"
  shows "toolsCacheServerID c' = toolsCacheServerID c"
  using assms by (simp add: toolsCacheServerID_def serviceAccountToolsCacheID_def)

text \<open>
  The layers are merged by the spelling of a name but sent under its canonical form: an admin header that
  spells a service-account header differently stays in the map, and one order of its entries sends the
  admin's value.
\<close>

definition ex_canonical :: "string \<Rightarrow> string" where
  "ex_canonical name = (if name = ''authorization'' then ''Authorization'' else name)"

definition ex_headers_server :: MCPServerConfig where
  "ex_headers_server = ex_oauth_server\<lparr>ms_Headers := [(''authorization'', ''admin'')],
     ms_ServiceAccountHeaders := [(''Authorization'', ''service'')]\<rparr>"

definition ex_transport :: transport_env where
  "ex_transport = \<lparr>tr_sign = ex_sign_in, tr_canonical = ex_canonical,
     tr_http = (\<lambda>k q. if k < 250 then HopRedirects ''https://s'' else HopAnswers 200 []),
     tr_challenges = (\<lambda>_. Inr []), tr_authParams = (\<lambda>_. [])\<rparr>"

lemma admin_header_may_win:
  "map_of (set_headers ex_transport (rev (remoteConnectionHeaders ex_canonical ''u'' ex_headers_server True)) []) ''Authorization''
     = Some ''admin''"
  by code_simp

lemma ex_round_trip:
  "RoundTrip ex_transport 0 k ''https://s:443'' [(''a'', ''b'')] None url s =
     (let s1 = s\<lparr>tp_requests := tp_requests s @ [\<lparr>hq_URL = url, hq_headers = (if at_origin ex_transport ''https://s:443'' url
            then set_headers ex_transport [(''a'', ''b'')] [] else []), hq_bearer = None\<rparr>]\<rparr>
      in Some (Inr (if k < 250 then HopRedirects ''https://s'' else HopAnswers 200 []), s1))"
  by (simp add: RoundTrip_def bearer_def ex_transport_def Let_def)

lemma credentials_stay_at_origin_witness:
  "\<exists>r s'. Do ex_transport 0 0 ''https://s:443'' [(''a'', ''b'')] None 0 ''https://s'' \<lparr>tp_oauth = ex_oauth_state ''a'', tp_requests = []\<rparr>
       = Some (r, s')
     \<and> list_all (\<lambda>q. canonicalOriginFromString (oe_urls (tr_oauth ex_transport)) (hq_URL q) = ''https://s:443'') (tl (tp_requests s'))"
proof -
  have b: "blockCrossOriginRedirect ex_transport ''https://s:443'' ''https://s'' n = None" if "n < 10" for n
    using that by (simp add: blockCrossOriginRedirect_def ex_transport_def ex_sign_in_def ex_oauth_def ex_oauth_urls_def
        canonicalOriginFromString_def canonicalOrigin_def)
  have "\<exists>r s'. Do ex_transport 0 0 ''https://s:443'' [(''a'', ''b'')] None 0 ''https://s'' \<lparr>tp_oauth = ex_oauth_state ''a'', tp_requests = []\<rparr>
      = Some (r, s')"
    by (simp add: Do.simps ex_round_trip b Let_def)
  then obtain r s' where run: "Do ex_transport 0 0 ''https://s:443'' [(''a'', ''b'')] None 0 ''https://s''
      \<lparr>tp_oauth = ex_oauth_state ''a'', tp_requests = []\<rparr> = Some (r, s')" by blast
  from credentials_stay_at_origin [OF _ run] run show ?thesis by auto
qed

definition ex_connect :: "(nat, nat) connect_env" where
  "ex_connect = \<lparr>co_sign = ex_sign_in, co_streamable = Inr 0, co_sse = Inl (Errorf ''no''), co_list = (\<lambda>_. Inr [(''t'', 1)]),
     co_late = False, co_stored = True, co_query = (\<lambda>_ _. None), co_escape = (\<lambda>s. s)\<rparr>"

definition ex_mcp_client :: Client where
  "ex_mcp_client = \<lparr>mc_config = ex_oauth_server, mc_userID = ''u'', mc_hasOAuth = False, mc_serviceAccount = False\<rparr>"

lemma oauth_tools_not_shared_witness:
  "\<exists>s'. newClientWithTimeout ex_connect 0 ex_mcp_client False \<lparr>cn_oauth = ex_oauth_state ''a'', cn_cache = (\<lambda>_. [])\<rparr> = (Inr [(''t'', 1)], s')
     \<and> (\<forall>serverID. cn_cache s' serverID = [])"
proof -
  have c: "\<not> mc_serviceAccount ex_mcp_client" "staticOAuthCreds (mc_config ex_mcp_client) \<noteq> None"
    by (simp_all add: ex_mcp_client_def ex_oauth_server_def staticOAuthCreds_def)
  have "\<not> useSharedToolsCache ex_mcp_client"
    using c by (simp add: useSharedToolsCache_def sharedToolsCacheAllowedForServer_def)
  moreover have "maybeInvalidateSharedTools ex_connect k ex_mcp_client s = s" for k and s :: "nat connecting"
    by (simp add: maybeInvalidateSharedTools_def ex_mcp_client_def)
  moreover have "createSession ex_connect ex_mcp_client = Inr 0" by (simp add: createSession_def ex_connect_def)
  moreover have "adoptSession ex_connect 0 = Inr [(''t'', 1)]" by (simp add: adoptSession_def ex_connect_def)
  ultimately have "connectAndDiscover ex_connect k ex_mcp_client False s = (Inr [(''t'', 1)], s)" for k s
    by (simp add: connectAndDiscover_def Let_def)
  moreover have "staticOAuthTokenMissing ex_connect 0 ex_mcp_client s = (Inr False, s)" for s :: "nat connecting"
    by (simp add: staticOAuthTokenMissing_def ex_mcp_client_def)
  moreover have "\<not> co_late ex_connect" by (simp add: ex_connect_def)
  ultimately obtain s' where run: "newClientWithTimeout ex_connect 0 ex_mcp_client False
      \<lparr>cn_oauth = ex_oauth_state ''a'', cn_cache = (\<lambda>_. [])\<rparr> = (Inr [(''t'', 1)], s')"
    by (simp add: newClientWithTimeout_def Let_def)
  from oauth_tools_not_shared [OF c run] run show ?thesis by auto
qed

end
