(* ===== verification/Spec2Isabelle.thy ===== *)
theory Spec2Isabelle
  imports Runner_Properties Mcp_Policy Access Conversation_Service Turn_Policy Approval_Sharing Wakeup Mcp_Transport
begin

text \<open>
  The Mattermost Agents plugin answers posts with a language model that calls tools on the user's
  behalf. This library models the Go code under \<open>src/\<close> that decides what an agent may do and that
  runs it: the agent loop, the tool store, request preparation, policies, licensing, access,
  configuration, the conversations it stores and replays, and the user's decisions on tool calls.

  Parts and theories.

  \<^item> \<open>Prelude_Go\<close>: what the code uses of Go's standard library (string functions on byte lists,
    UTF-8 rune counts, maps as association lists in iteration order, error values with \<open>errors.Is\<close>)
    and generic lemmas.
  \<^item> \<open>Turn_Sequence\<close> (\<open>llm/turn_sequence.go\<close>): the arrival order of a reply's text, reasoning and
    server tool activity.
  \<^item> \<open>Tool_Store\<close> (\<open>llm/tools.go\<close>): loaded and unloaded tools, lookup by runtime or bare name,
    allowlists. \<open>reachable_store\<close> closes the store under its operations; the locale
    \<open>tool_registry\<close> states what the runner relies on and is interpreted on the store.
  \<^item> \<open>Llm_Posts\<close> (\<open>llm/completion_request.go\<close>, \<open>truncation.go\<close>, \<open>estimate.go\<close>, \<open>tool_retry.go\<close>):
    fitting a request in a token budget, counting failed tool calls.
  \<^item> \<open>Llm_Context\<close> (\<open>llm/context.go\<close>, \<open>skills.go\<close>, \<open>mcp/meta_tools.go\<close>): the per-turn context the
    runner and the tools share.
  \<^item> \<open>Tool_Runner\<close>, \<open>Runner_Properties\<close> (\<open>toolrunner/toolrunner.go\<close>, \<open>llm/stream.go\<close>): the agent
    loop. Each round drains a stream, rejects, asks for approval or executes the tool calls, and
    continues or exits; every exit of \<open>runLoop\<close> is a constructor of \<open>exit\<close>. The state record carries
    what the goroutine owns (request, options, turns, output) and logs of the calls made, the tools
    executed and the turns delivered, over which the properties are stated.
  \<^item> \<open>Service_Config\<close> (\<open>llm/configuration.go\<close>): agent and service validation, fallback chains.
  \<^item> \<open>Mcp_Config\<close> (\<open>config/mcp_config.go\<close>): MCP server settings, identities, per-tool policies.
  \<^item> \<open>Licensing\<close> (\<open>enterprise/license.go\<close>, \<open>config/license_gates.go\<close>): license levels and the gates
    a configuration change passes; locale \<open>level_gate\<close>, interpreted on the three gates.
  \<^item> \<open>Mcp_Policy\<close> (\<open>mcp/tool_policy.go\<close>, \<open>mcp/vetted_tools.go\<close>): the policy a tool runs under.
  \<^item> \<open>Access\<close> (\<open>accesscontrol/checker.go\<close>, \<open>bots/permissions.go\<close>, \<open>bots/fallback_access.go\<close>):
    who may use an agent, a service, an MCP server; locales \<open>policy_gate\<close> and \<open>resource_gate\<close>.
  \<^item> \<open>Text_Safety\<close> (\<open>llm/tools.go\<close>): escaping of runes that could spoof the display.
  \<^item> \<open>Json_Values\<close>: what the code uses of \<open>encoding/json\<close> and of PostgreSQL's JSONB, as a datatype of
    documents with table-driven struct encoders and decoders.
  \<^item> \<open>Content_Blocks\<close> (\<open>conversation/content_block.go\<close>, \<open>helpers.go\<close>): the blocks of a turn, their
    encoding, what another reader may see of them, and their sanitizing.
  \<^item> \<open>Turn_Store\<close> (\<open>store/turns.go\<close>, \<open>store/conversations.go\<close>): the two tables as lists of rows, each
    statement as a function that may fail before or after it took effect. \<open>reachable_db\<close> closes the
    database under the calls; the locale \<open>cas_register\<close> states what a claim by conditional write
    guarantees and is interpreted on \<open>CompareAndSwapTurnContent\<close>.
  \<^item> \<open>Conversation_Posts\<close> (\<open>conversation/convert.go\<close>, \<open>service.go\<close>, \<open>derive_loaded_tools.go\<close>,
    \<open>approval_state.go\<close>): from stored turns to the posts of a request, and back from a run's rounds to
    turns.
  \<^item> \<open>Conversation_Service\<close> (\<open>conversation/service.go\<close>): the service calls, their statements numbered
    so that other requests may commit between any two of them.
  \<^item> \<open>Turn_Policy\<close> (\<open>conversations/turn_policy.go\<close>, \<open>bot_channel_tool_filter.go\<close>,
    \<open>handle_messages.go\<close>): which posts an agent answers, whether a turn may run, which tools it has and
    which calls run unasked; \<open>runToolLoop\<close> hands that decision to the agent loop.
  \<^item> \<open>User_Interaction\<close> (\<open>mmtools/ask_user_question.go\<close>, \<open>mcp/connection_request.go\<close>,
    \<open>llmcontext/mcp_reconnect.go\<close>): the calls a user answers instead of approving, and what a call
    becomes when its server wants a new login.
  \<^item> \<open>Tool_Approval\<close> (\<open>conversations/tool_approval.go\<close>): the two clicks on a response, approving its
    calls and sharing their results, with every database statement. \<open>Approval_Properties\<close> closes the
    database under clicks and other writers (\<open>decision_trace\<close>) and shows that a turn is claimed at most
    once and only requested calls run; \<open>Approval_Sharing\<close> that every open call is decided and that a
    share click discloses only what it accepts and reopens nothing.
  \<^item> \<open>Kv_Store\<close> (\<open>mmapi/client.go\<close>): the plugin's key-value store with its conditional writes, another
    \<open>cas_register\<close>.
  \<^item> \<open>Wakeup\<close> (\<open>conversations/wakeup.go\<close>, \<open>mmtools/wait_for_async_work.go\<close>): a turn that asks to be
    resumed later; \<open>wake_trace\<close> closes the store under claims and consumptions of pending waits.
  \<^item> \<open>Oauth_Cleanup\<close> (\<open>mcp/oauth_cleanup.go\<close>, \<open>http_client.go\<close>): origins of server URLs, and which stored
    OAuth state a change of the server configuration clears.
  \<^item> \<open>Mcp_Oauth\<close> (\<open>mcp/oauth_store.go\<close>, \<open>oauth_refresh.go\<close>, \<open>oauth_handler.go\<close>): the grant a user holds for
    a server, its binding to that server, and the token source that refreshes it under a lease. The
    record \<open>oauth\<close> carries the key-value store and the requests sent; every call names the step at which
    other nodes may write and the store may fail. The poll for another node's refresh takes fuel;
    \<open>source_Token_returns\<close> shows that one poll after the deadline is enough.
  \<^item> \<open>Mcp_Sign_In\<close> (\<open>mcp/oauth_manager.go\<close>, \<open>oauth_discovery.go\<close>, \<open>oauth_revoke.go\<close>): discovery of the
    authorization server, client registration, the start of a sign-in, its callback, and disconnecting;
    its lemmas follow a code, a session and a pinned issuer through these.
  \<^item> \<open>Mcp_Transport\<close> (\<open>mcp/oauth_transport.go\<close>, \<open>http_client.go\<close>, \<open>client.go\<close>): the headers and tokens of
    each hop of a request, redirects, the refusals that ask for a sign-in, and connecting a client.

  Conventions. A struct is a record whose fields carry a short prefix, a pointer that may be nil an
  option, an error a \<open>go_error\<close>, a fallible result a sum with the error on the left. Loops are
  structural recursion, except the fallback chain walk, a \<open>partial_function\<close> proved to return on
  every configured list, and the recount loop, which has a measure. Code outside the repository is a
  parameter: the model provider, the tools' resolvers, the Mattermost server, URL and JSON
  well-formedness and parsing, JSON text parsing and printing, the OAuth client libraries, HTTP answers, clocks and random ids, the caller's approval policy, files and channel
  permissions. Concurrency of the agent loop is the context
  cancellation that may be observed at each send; concurrency of the database is what other writers
  commit before each statement. \<open>CreateTurnAutoSequence\<close> tries three times, as the code does.

  Not modelled: I/O and glue (HTTP API, websockets, provider adapters, calls over live MCP sessions and
  their pooling), the rendering of channel threads, the other tables of the store, and telemetry.
\<close>

end
